(* ===== verification/Prelude.thy ===== *)
theory Prelude
  imports Main "HOL-Library.Word" "HOL-Library.Monad_Syntax"
begin

unbundle bit_operations_syntax

section \<open>Shared vocabulary of the Pi1MHz WiFi development\<close>

text \<open>
  The prelude names the machine types of the C sources, the byte buffers every
  component works on, and the little-endian readers that several files of the
  repository define for themselves (\<open>rd16\<close>, \<open>rd24\<close>, \<open>rd32\<close>, \<open>wr24\<close>).

  A read or a write outside a buffer is undefined behaviour in C. The model makes it
  a value: every access goes through a checked operation that yields \<open>None\<close> outside the
  buffer, and a whole routine yields \<open>None\<close> as soon as one of its accesses does. That a
  routine never yields \<open>None\<close> is then its memory safety.

  \<open>size_t\<close> values are natural numbers: every sum the sources form is bounded by twice the
  length of a buffer that exists in memory, so it does not wrap. Fixed-width fields
  (\<open>uint8_t\<close>, \<open>uint16_t\<close>, \<open>uint32_t\<close>) are words, and their arithmetic wraps.
\<close>

type_synonym u8 = "8 word"
type_synonym u16 = "16 word"
type_synonym u32 = "32 word"
type_synonym bytes = "u8 list"

named_theorems buf_simps \<open>checked reads and writes inside a buffer\<close>
named_theorems width_simps \<open>numeric readings of assembled words\<close>

subsection \<open>Checked byte buffers\<close>

definition rd8 :: "bytes \<Rightarrow> nat \<Rightarrow> u8 option" where
  "rd8 w i = (if i < length w then Some (w ! i) else None)"

definition wr8 :: "bytes \<Rightarrow> nat \<Rightarrow> u8 \<Rightarrow> bytes option" where
  "wr8 w i v = (if i < length w then Some (w[i := v]) else None)"

definition seg :: "'a list \<Rightarrow> nat \<Rightarrow> nat \<Rightarrow> 'a list" where
  "seg w i n = take n (drop i w)"

definition rd_range :: "bytes \<Rightarrow> nat \<Rightarrow> nat \<Rightarrow> bytes option" where
  "rd_range w i n = (if i + n \<le> length w then Some (seg w i n) else None)"

definition splice :: "'a list \<Rightarrow> nat \<Rightarrow> 'a list \<Rightarrow> 'a list" where
  "splice w i b = take i w @ b @ drop (i + length b) w"

definition wr_range :: "bytes \<Rightarrow> nat \<Rightarrow> bytes \<Rightarrow> bytes option" where
  "wr_range w i b = (if i + length b \<le> length w then Some (splice w i b) else None)"

subsection \<open>Little-endian readers over any byte source\<close>

definition le16 :: "u8 \<Rightarrow> u8 \<Rightarrow> u16" where
  "le16 a b = ucast a OR push_bit 8 (ucast b)"

definition le24 :: "u8 \<Rightarrow> u8 \<Rightarrow> u8 \<Rightarrow> u32" where
  "le24 a b c = (ucast a OR push_bit 8 (ucast b)) OR push_bit 16 (ucast c)"

definition le32 :: "u8 \<Rightarrow> u8 \<Rightarrow> u8 \<Rightarrow> u8 \<Rightarrow> u32" where
  "le32 a b c d = le24 a b c OR push_bit 24 (ucast d)"

definition rd16 :: "(nat \<Rightarrow> u8 option) \<Rightarrow> nat \<Rightarrow> u16 option" where
  "rd16 get i = do { a \<leftarrow> get i; b \<leftarrow> get (i + 1); Some (le16 a b) }"

definition rd24 :: "(nat \<Rightarrow> u8 option) \<Rightarrow> nat \<Rightarrow> u32 option" where
  "rd24 get i = do { a \<leftarrow> get i; b \<leftarrow> get (i + 1); c \<leftarrow> get (i + 2); Some (le24 a b c) }"

definition rd32 :: "(nat \<Rightarrow> u8 option) \<Rightarrow> nat \<Rightarrow> u32 option" where
  "rd32 get i = do { a \<leftarrow> get i; b \<leftarrow> get (i + 1); c \<leftarrow> get (i + 2); d \<leftarrow> get (i + 3);
     Some (le32 a b c d) }"

text \<open>Byte \<open>k\<close> (from the least significant) of a word, the C idiom \<open>(uint8_t)(v >> (8 * k))\<close>.\<close>

definition byte_of :: "'a::len word \<Rightarrow> nat \<Rightarrow> u8" where
  "byte_of v k = ucast (drop_bit (8 * k) v)"

subsection \<open>Facts about checked buffers\<close>

lemma rd8_in [simp, buf_simps]: "i < length w \<Longrightarrow> rd8 w i = Some (w ! i)"
  by (simp add: rd8_def)

lemma rd8_eq_Some: "rd8 w i = Some v \<longleftrightarrow> i < length w \<and> v = w ! i"
  by (auto simp: rd8_def)

lemma wr8_in [simp, buf_simps]: "i < length w \<Longrightarrow> wr8 w i v = Some (w[i := v])"
  by (simp add: wr8_def)

lemma length_seg [simp]: "i + n \<le> length w \<Longrightarrow> length (seg w i n) = n"
  by (simp add: seg_def)

lemma nth_seg [simp]: "i + n \<le> length w \<Longrightarrow> k < n \<Longrightarrow> seg w i n ! k = w ! (i + k)"
  by (simp add: seg_def)

lemma seg_full [simp]: "seg w 0 (length w) = w"
  by (simp add: seg_def)

lemma seg_0 [simp]: "seg w i 0 = []"
  by (simp add: seg_def)

lemma seg_Suc: "i < length w \<Longrightarrow> seg w i (Suc n) = w ! i # seg w (Suc i) n"
  by (simp add: seg_def Cons_nth_drop_Suc [symmetric])

lemma length_splice [simp]: "i + length b \<le> length w \<Longrightarrow> length (splice w i b) = length w"
  by (simp add: splice_def)

lemma splice_update:
  "i + length b \<le> length w \<Longrightarrow> k < length b \<Longrightarrow> (splice w i b)[i + k := v] = splice w i (b[k := v])"
  by (simp add: splice_def list_update_append)

lemma seg_splice [simp]:
  "i + length b \<le> length w \<Longrightarrow> n = length b \<Longrightarrow> seg (splice w i b) i n = b"
  by (simp add: splice_def seg_def)

lemma splice_splice:
  assumes "p + length x \<le> n" "i + n \<le> length w"
  shows "splice w i (splice (seg w i n) p x) = splice w (i + p) x"
proof -
  obtain u v t where w: "w = u @ v @ t" and uv: "length u = i" "length v = n"
  proof
    show "w = take i w @ take n (drop i w) @ drop n (drop i w)"
      by (simp only: append_take_drop_id)
  qed (use assms in simp_all)
  have "seg w i n = v" using w uv by (simp add: seg_def)
  then show ?thesis using w uv assms
    by (simp add: splice_def)
qed

lemma nth_splice:
  "i + length b \<le> length w \<Longrightarrow> k < length b \<Longrightarrow> splice w i b ! (i + k) = b ! k"
  by (simp add: splice_def nth_append)

lemma splice_seg [simp]: "i + n \<le> length w \<Longrightarrow> splice w i (seg w i n) = w"
  by (simp add: splice_def seg_def) (metis append_take_drop_id drop_drop add.commute)

lemma splice_append:
  assumes "i + length a + length b \<le> length w"
  shows "splice (splice w i a) (i + length a) b = splice w i (a @ b)"
  using assms by (simp add: splice_def ac_simps)

lemma seg_add: "seg w i (m + n) = seg w i m @ seg w (i + m) n"
  by (simp add: seg_def take_add drop_drop add.commute)

lemma take_seg: "m \<le> n \<Longrightarrow> take m (seg w i n) = seg w i m"
  by (simp add: seg_def min_def)

lemma Suc_Suc_diff_2: "2 \<le> i \<Longrightarrow> Suc (Suc (i - 2)) = i"
  by simp

lemma seg_seg: "p + m \<le> n \<Longrightarrow> i + n \<le> length w \<Longrightarrow> seg (seg w i n) p m = seg w (i + p) m"
  by (rule nth_equalityI) (auto simp: ac_simps)

lemma rd_range_in [simp, buf_simps]: "i + n \<le> length w \<Longrightarrow> rd_range w i n = Some (seg w i n)"
  by (simp add: rd_range_def)

lemma wr_range_in [simp, buf_simps]: "i + length b \<le> length w \<Longrightarrow> wr_range w i b = Some (splice w i b)"
  by (simp add: wr_range_def)

lemma bind_neq_NoneI:
  "m \<noteq> None \<Longrightarrow> (\<And>x. m = Some x \<Longrightarrow> f x \<noteq> None) \<Longrightarrow> m \<bind> f \<noteq> None"
  by (cases m) auto

subsection \<open>Facts about assembled words\<close>

lemma or_disjoint_unat:
  fixes x y :: "'a::len word"
  assumes "x AND y = 0" shows "unat (x OR y) = unat x + unat y"
proof -
  have "unat x AND unat y = 0" using assms by (simp flip: unsigned_and_eq)
  then show ?thesis by (simp add: unsigned_or_eq disjunctive_add_eq_or)
qed

lemma bit_byte_high: "8 \<le> n \<Longrightarrow> \<not> bit (b::u8) n"
  using bit_imp_le_length [of b n] by auto

lemma unat_byte_less: "8 \<le> n \<Longrightarrow> unat (b::u8) < 2 ^ n"
proof -
  assume "8 \<le> n"
  then have "(2::nat) ^ 8 \<le> 2 ^ n" by (rule power_increasing) simp
  moreover have "unat b < 2 ^ 8" using unsigned_less [of b, where ?'a = nat] by simp
  ultimately show ?thesis by linarith
qed

lemma unat_shift_ucast:
  fixes b :: u8
  assumes "8 + k \<le> LENGTH('a)"
  shows "unat (push_bit k (ucast b) :: 'a::len word) = 2 ^ k * unat b"
proof -
  have "unat b < 2 ^ (LENGTH('a) - k)" "unat b < 2 ^ LENGTH('a)"
    using assms by (simp_all add: unat_byte_less)
  then have "unat (push_bit k (ucast b) :: 'a word) = push_bit k (unat b)"
    using assms by (simp add: unsigned_push_bit_eq unsigned_ucast_eq take_bit_push_bit
        take_bit_nat_eq_self)
  then show ?thesis by (simp add: push_bit_eq_mult)
qed

lemma unat_ucast_byte [width_simps]: "8 \<le> LENGTH('a) \<Longrightarrow> unat (ucast (b::u8) :: 'a::len word) = unat b"
  using unat_shift_ucast [where k = 0 and 'a = 'a and b = b] by simp

lemma unat_le16 [width_simps]: "unat (le16 a b) = unat a + 256 * unat b"
proof -
  have "ucast a AND (push_bit 8 (ucast b) :: u16) = 0"
    by (auto intro!: bit_word_eqI simp: bit_simps bit_byte_high)
  then show ?thesis
    by (simp add: le16_def or_disjoint_unat unat_shift_ucast unat_ucast_byte)
qed

lemma unat_le24 [width_simps]: "unat (le24 a b c) = unat a + 256 * unat b + 65536 * unat c"
proof -
  have "ucast a AND (push_bit 8 (ucast b) :: u32) = 0"
    "(ucast a OR push_bit 8 (ucast b) :: u32) AND push_bit 16 (ucast c) = 0"
    by (auto intro!: bit_word_eqI simp: bit_simps bit_byte_high)
  then show ?thesis
    by (simp add: le24_def or_disjoint_unat unat_shift_ucast unat_ucast_byte)
qed

lemma unat_le32 [width_simps]:
  "unat (le32 a b c d) = unat a + 256 * unat b + 65536 * unat c + 16777216 * unat d"
proof -
  have "le24 a b c AND push_bit 24 (ucast d) = 0"
    by (auto intro!: bit_word_eqI simp: le24_def bit_simps bit_byte_high)
  then show ?thesis
    by (simp add: le32_def or_disjoint_unat unat_shift_ucast unat_le24)
qed

lemma le16_byte_of [simp]: "le16 (byte_of v 0) (byte_of v 1) = v"
  by (rule bit_word_eqI) (auto simp: le16_def byte_of_def bit_simps)
lemma le32_byte_of [simp]:
  "le32 (byte_of v 0) (byte_of v 1) (byte_of v 2) (byte_of v 3) = v"
proof (rule bit_word_eqI)
  fix n assume "n < LENGTH(32)"
  then consider "n < 8" | "8 \<le> n" "n < 16" | "16 \<le> n" "n < 24" | "24 \<le> n" "n < 32" by force
  then show "bit (le32 (byte_of v 0) (byte_of v 1) (byte_of v 2) (byte_of v 3)) n = bit v n"
    by cases (auto simp: le32_def le24_def byte_of_def bit_simps)
qed

subsection \<open>Components driven by a sequence of operations\<close>

text \<open>
  A component is driven from outside by operations, in any order. \<open>run_ops\<close> executes a sequence and
  stops with \<open>None\<close> at the first fault. The locale states what every stateful component of the
  repository promises its driver: an admissible operation of a good state neither faults nor
  breaks the invariant. The client lemma lifts it to every sequence.
\<close>

fun run_ops :: "('op \<Rightarrow> 's \<Rightarrow> 's option) \<Rightarrow> 'op list \<Rightarrow> 's \<Rightarrow> 's option" where
  "run_ops exec [] s = Some s"
| "run_ops exec (op # ops) s = do { s' \<leftarrow> exec op s; run_ops exec ops s' }"

lemma run_ops_append: "run_ops exec (xs @ ys) s = do { s' \<leftarrow> run_ops exec xs s; run_ops exec ys s' }"
  by (induction xs arbitrary: s) (auto split: bind_split)

locale safe_component =
  fixes exec :: "'op \<Rightarrow> 's \<Rightarrow> 's option" and ok :: "'op \<Rightarrow> bool" and inv :: "'s \<Rightarrow> bool"
  assumes exec_safe: "inv s \<Longrightarrow> ok op \<Longrightarrow> \<exists>s'. exec op s = Some s' \<and> inv s'"
begin

lemma run_safe: "inv s \<Longrightarrow> list_all ok ops \<Longrightarrow> \<exists>s'. run_ops exec ops s = Some s' \<and> inv s'"
proof (induction ops arbitrary: s)
  case (Cons op ops)
  then obtain s' where "exec op s = Some s'" "inv s'" using exec_safe [of s op] by auto
  then show ?case using Cons by auto
qed simp

end

text \<open>
  The same when the client owes a precondition that depends on the state it has reached:
  \<open>admissible\<close> says that every operation of the sequence meets it at its turn.
\<close>

primrec admissible :: "('op \<Rightarrow> 's \<Rightarrow> 's option) \<Rightarrow> ('op \<Rightarrow> 's \<Rightarrow> bool) \<Rightarrow> 'op list \<Rightarrow> 's \<Rightarrow> bool" where
  "admissible exec ok [] s = True"
| "admissible exec ok (op # ops) s =
     (ok op s \<and> (case exec op s of None \<Rightarrow> True | Some s' \<Rightarrow> admissible exec ok ops s'))"

locale guarded_component =
  fixes exec :: "'op \<Rightarrow> 's \<Rightarrow> 's option" and ok :: "'op \<Rightarrow> 's \<Rightarrow> bool" and inv :: "'s \<Rightarrow> bool"
  assumes exec_guarded: "inv s \<Longrightarrow> ok op s \<Longrightarrow> \<exists>s'. exec op s = Some s' \<and> inv s'"
begin

lemma run_guarded: "inv s \<Longrightarrow> admissible exec ok ops s \<Longrightarrow> \<exists>s'. run_ops exec ops s = Some s' \<and> inv s'"
proof (induction ops arbitrary: s)
  case (Cons op ops)
  then obtain s' where "exec op s = Some s'" "inv s'" using exec_guarded [of s op] by auto
  then show ?case using Cons by auto
qed simp

end

subsection \<open>Ring buffers\<close>

text \<open>The \<open>n\<close> elements of a ring \<open>b\<close> that start at index \<open>h\<close>, in order.\<close>

definition ring_contents :: "'a list \<Rightarrow> nat \<Rightarrow> nat \<Rightarrow> 'a list" where
  "ring_contents b h n = map (\<lambda>k. b ! ((h + k) mod length b)) [0..<n]"

lemma length_ring_contents [simp]: "length (ring_contents b h n) = n"
  by (simp add: ring_contents_def)

lemma ring_index_inj:
  assumes "k < n" "n < (m::nat)" shows "(h + k) mod m \<noteq> (h + n) mod m"
proof
  assume "(h + k) mod m = (h + n) mod m"
  then have "m dvd n - k" using mod_eq_dvd_iff_nat [of "h + k" "h + n" m] assms(1) by auto
  then show False using assms by (auto dest: dvd_imp_le)
qed

lemma ring_put:
  assumes "n < length b"
  shows "ring_contents (b[(h + n) mod length b := v]) h (Suc n) = ring_contents b h n @ [v]"
proof -
  have "b[(h + n) mod length b := v] ! ((h + k) mod length b) = b ! ((h + k) mod length b)" if "k < n" for k
    using ring_index_inj [OF that assms, of h] by simp
  moreover have "(h + n) mod length b < length b" using assms by (intro mod_less_divisor) linarith
  ultimately show ?thesis by (simp add: ring_contents_def)
qed

lemma ring_get: "ring_contents b h (Suc n) = b ! (h mod length b) # ring_contents b ((h + 1) mod length b) n"
proof -
  have "[0..<Suc n] = 0 # map Suc [0..<n]" by (simp add: map_Suc_upt upt_conv_Cons del: upt_Suc)
  then show ?thesis by (simp add: ring_contents_def mod_simps del: upt_Suc)
qed
subsection \<open>Bounded byte queues\<close>

text \<open>
  The contract of a ring buffer: it holds at most \<open>cap\<close> bytes, a byte put into a full queue is
  dropped, and bytes leave in the order they entered.
\<close>

fun enq_all :: "('s \<Rightarrow> u8 \<Rightarrow> 's option) \<Rightarrow> u8 list \<Rightarrow> 's \<Rightarrow> 's option" where
  "enq_all enq [] s = Some s"
| "enq_all enq (v # vs) s = do { s' \<leftarrow> enq s v; enq_all enq vs s' }"

fun deq_n :: "('s \<Rightarrow> (u8 \<times> 's) option) \<Rightarrow> nat \<Rightarrow> 's \<Rightarrow> (u8 list \<times> 's) option" where
  "deq_n deq 0 s = Some ([], s)"
| "deq_n deq (Suc n) s = do { (v, s') \<leftarrow> deq s; (vs, s'') \<leftarrow> deq_n deq n s'; Some (v # vs, s'') }"

lemma enq_all_append: "enq_all enq (xs @ ys) s = do { s' \<leftarrow> enq_all enq xs s; enq_all enq ys s' }"
  by (induction xs arbitrary: s) (auto split: bind_split)

lemma deq_n_add:
  "deq_n deq (m + n) s = do { (xs, s1) \<leftarrow> deq_n deq m s; (ys, s2) \<leftarrow> deq_n deq n s1; Some (xs @ ys, s2) }"
  by (induction m arbitrary: s) (auto split: bind_split)

locale bounded_queue =
  fixes enq :: "'s \<Rightarrow> u8 \<Rightarrow> 's option" and deq :: "'s \<Rightarrow> (u8 \<times> 's) option"
    and contents :: "'s \<Rightarrow> u8 list" and cap :: nat and qinv :: "'s \<Rightarrow> bool"
  assumes enq_law: "qinv s \<Longrightarrow> \<exists>s'. enq s v = Some s' \<and> qinv s' \<and>
      contents s' = (if length (contents s) < cap then contents s @ [v] else contents s)"
    and deq_law: "qinv s \<Longrightarrow> contents s = v # vs \<Longrightarrow> \<exists>s'. deq s = Some (v, s') \<and> qinv s' \<and> contents s' = vs"
begin

lemma enq_all_contents:
  "qinv s \<Longrightarrow> length (contents s) \<le> cap \<Longrightarrow>
     \<exists>s'. enq_all enq vs s = Some s' \<and> qinv s' \<and> contents s' = take cap (contents s @ vs)"
proof (induction vs arbitrary: s)
  case (Cons v vs)
  obtain s1 where s1: "enq s v = Some s1" "qinv s1"
    "contents s1 = (if length (contents s) < cap then contents s @ [v] else contents s)"
    using enq_law [OF Cons.prems(1)] by blast
  moreover have "length (contents s1) \<le> cap" using s1(3) Cons.prems(2) by auto
  moreover have "take cap (contents s1 @ vs) = take cap (contents s @ v # vs)"
    using s1(3) Cons.prems(2) by (auto simp: take_Cons')
  ultimately show ?case using Cons.IH [of s1] by auto
qed simp

lemma deq_n_contents:
  "qinv s \<Longrightarrow> n \<le> length (contents s) \<Longrightarrow>
     \<exists>s'. deq_n deq n s = Some (take n (contents s), s') \<and> qinv s' \<and> contents s' = drop n (contents s)"
proof (induction n arbitrary: s)
  case (Suc n)
  then obtain v vs where c: "contents s = v # vs" by (cases "contents s") auto
  obtain s1 where "deq s = Some (v, s1)" "qinv s1" "contents s1 = vs"
    using deq_law [OF Suc.prems(1) c] by blast
  then show ?case using Suc.IH [of s1] Suc.prems(2) c by auto
qed simp

lemma fifo_order:
  assumes "qinv s" "contents s = []" "length vs \<le> cap"
  shows "\<exists>s'. do { s1 \<leftarrow> enq_all enq vs s; deq_n deq (length vs) s1 } = Some (vs, s') \<and> qinv s' \<and> contents s' = []"
proof -
  obtain s1 where "enq_all enq vs s = Some s1" "qinv s1" "contents s1 = vs"
    using enq_all_contents [OF assms(1), of vs] assms(2, 3) by auto
  then show ?thesis using deq_n_contents [of s1 "length vs"] by auto
qed

end

subsection \<open>The interface of a bounded byte source\<close>

text \<open>
  A routine that parses takes a byte source: it may ask for any offset, and offsets below
  \<open>size\<close> are the ones that exist. The multi-byte readers never leave such a source while
  their last byte is below \<open>size\<close>.
\<close>

locale byte_source =
  fixes get :: "nat \<Rightarrow> u8 option" and size :: nat
  assumes get_defined: "get i \<noteq> None \<longleftrightarrow> i < size"
begin

lemma get_Some: "i < size \<Longrightarrow> \<exists>v. get i = Some v"
  using get_defined [of i] by auto

lemma rd16_defined: "i + 2 \<le> size \<Longrightarrow> \<exists>v. rd16 get i = Some v"
  using get_Some [of i] get_Some [of "i + 1"] by (auto simp: rd16_def)

lemma rd24_defined: "i + 3 \<le> size \<Longrightarrow> \<exists>v. rd24 get i = Some v"
  using get_Some [of i] get_Some [of "i + 1"] get_Some [of "i + 2"] by (auto simp: rd24_def)

lemma rd32_defined: "i + 4 \<le> size \<Longrightarrow> \<exists>v. rd32 get i = Some v"
  using get_Some [of i] get_Some [of "i + 1"] get_Some [of "i + 2"] get_Some [of "i + 3"]
  by (auto simp: rd32_def)

lemma rd16_bounds: "rd16 get i = Some v \<Longrightarrow> i + 2 \<le> size"
  using get_defined [of "i + 1"] by (auto simp: rd16_def bind_eq_Some_conv)

end

interpretation list_buf: byte_source "rd8 w" "length w" for w
  by unfold_locales (simp add: rd8_def)

lemma rd16_in [simp, buf_simps]:
  "i + 1 < length w \<Longrightarrow> rd16 (rd8 w) i = Some (le16 (w ! i) (w ! (i + 1)))"
  by (simp add: rd16_def)

lemma rd32_in [simp, buf_simps]:
  "i + 3 < length w \<Longrightarrow>
     rd32 (rd8 w) i = Some (le32 (w ! i) (w ! (i + 1)) (w ! (i + 2)) (w ! (i + 3)))"
  by (simp add: rd32_def)

end
