(* ===== verification/Mailbox.thy ===== *)
theory Mailbox
  imports Prelude
begin

unbundle bit_operations_syntax

section \<open>The services mailbox and its bus timing (pi1mhz\_mailbox.c)\<close>

text \<open>
  The host reaches the Pi through six registers and a 256-byte page window. A bus cycle only
  posts an event into a single VPU slot; the ARM side captures it after an interrupt latency
  into a private active event, runs its callback after a second latency, and a command
  callback queues a foreground service that runs after a third. The record below is
  \<open>pi1mhz_mailbox\<close>; the C function pointer \<open>dispatch\<close> is a field (\<open>None\<close> is NULL, and calling it
  is a fault), so the dispatcher is a parameter of the model. \<open>dispatch_opaque\<close> is the object the
  opaque pointer refers to, which belongs to the caller and outlives the mailbox.

  Two accesses to the JIM memory are not guarded in the source (the cursor byte that is
  published, and the byte a data write stores); they are checked here and yield \<open>None\<close> outside
  the memory. The NULL tests on the mailbox pointer itself are the caller's business and are not
  modelled; \<open>jim\<close> is NULL exactly when \<open>jim_size\<close> is 0, since \<open>init\<close> and \<open>destroy\<close> set both.
  Tick counters are only ever counted down from values the caller sets, so they are natural
  numbers.
\<close>

abbreviation JIM_SET_SIZE :: nat where "JIM_SET_SIZE \<equiv> 0x1000000"
abbreviation JIM_SIZE :: nat where "JIM_SIZE \<equiv> 0x3000000"
abbreviation SERVICE_SIZE :: nat where "SERVICE_SIZE \<equiv> 0x2000000"
abbreviation BUS_BASE :: u16 where "BUS_BASE \<equiv> 0xFC00"
abbreviation REG_ADDR_LO :: u16 where "REG_ADDR_LO \<equiv> 0xFCA6"
abbreviation REG_ADDR_MID :: u16 where "REG_ADDR_MID \<equiv> 0xFCA7"
abbreviation REG_ADDR_HI :: u16 where "REG_ADDR_HI \<equiv> 0xFCA8"
abbreviation REG_DATA :: u16 where "REG_DATA \<equiv> 0xFCA9"
abbreviation REG_COMMAND :: u16 where "REG_COMMAND \<equiv> 0xFCAA"
abbreviation REG_IRQ :: u16 where "REG_IRQ \<equiv> 0xFCAB"
abbreviation REG_PAGE_HI :: u16 where "REG_PAGE_HI \<equiv> 0xFCFD"
abbreviation REG_PAGE_MID :: u16 where "REG_PAGE_MID \<equiv> 0xFCFE"
abbreviation REG_PAGE_LO :: u16 where "REG_PAGE_LO \<equiv> 0xFCFF"
abbreviation PAGE_BASE :: u16 where "PAGE_BASE \<equiv> 0xFD00"
abbreviation PAGE_END :: u16 where "PAGE_END \<equiv> 0xFDFF"
abbreviation NET_BUSY :: u8 where "NET_BUSY \<equiv> 0x80"

datatype bus_profile = BUS_DIRECT | BUS_AP5 | BUS_AP5_EXPANDED_SNOOP | BUS_AP5_FULL_FRED

record posted_event =
  ev_address :: u16
  ev_value :: u8
  ev_write :: bool
  ev_valid :: bool

record host_clock =
  hc_valid :: bool
  last_cycle :: int

type_synonym 'o dispatch_fn =
  "'o \<Rightarrow> u8 \<Rightarrow> u32 \<Rightarrow> (nat \<Rightarrow> u8) \<Rightarrow> nat \<Rightarrow> u8 \<times> (nat \<Rightarrow> u8) \<times> 'o"

record 'o mailbox =
  jim :: "nat \<Rightarrow> u8"
  jim_size :: nat
  services_base :: nat
  mb_address :: u32
  mb_page :: u32
  vpu_registers :: "u8 list"
  vpu_irq :: u8
  page_window :: "nat \<Rightarrow> u8"
  output_enabled :: "nat \<Rightarrow> bool"
  posted :: posted_event
  active :: posted_event
  capture_delay_ticks :: nat
  callback_delay_ticks :: nat
  page_callback_delay_ticks :: nat
  read_callback_delay_ticks :: nat
  service_delay_ticks :: nat
  capture_ticks_remaining :: nat
  callback_ticks_remaining :: nat
  service_ticks_remaining :: nat
  mb_result :: u8
  selector :: u8
  service_pending :: bool
  legacy_busy_observation :: bool
  dispatch :: "'o dispatch_fn option"
  dispatch_opaque :: 'o
  mirror :: "u8 list"
  mirror_offset :: u8
  mirror_length :: u8

subsection \<open>Publishing\<close>

definition enable_vpu_output :: "'o mailbox \<Rightarrow> u16 \<Rightarrow> 'o mailbox" where
  "enable_vpu_output m address =
     m\<lparr>output_enabled := (if BUS_BASE \<le> address \<and> address \<le> PAGE_END
        then (output_enabled m)(unat (address - BUS_BASE) := True) else output_enabled m)\<rparr>"

definition enable_vpu_page_output :: "'o mailbox \<Rightarrow> 'o mailbox" where
  "enable_vpu_page_output m =
     m\<lparr>output_enabled := (\<lambda>i. 0x100 \<le> i \<and> i < 0x200 \<or> output_enabled m i)\<rparr>"

definition page_base_address :: "'o mailbox \<Rightarrow> nat" where
  "page_base_address m =
     (let s = unat (drop_bit 16 (mb_page m)) * JIM_SET_SIZE;
          s' = (if jim_size m \<le> s then ((jim_size m - 1) div JIM_SET_SIZE) * JIM_SET_SIZE else s)
      in s' + unat (mb_page m AND 0xFFFF) * 256)"

definition jim_rd :: "'o mailbox \<Rightarrow> nat \<Rightarrow> u8 option" where
  "jim_rd m i = (if i < jim_size m then Some (jim m i) else None)"

definition jim_wr :: "'o mailbox \<Rightarrow> nat \<Rightarrow> u8 \<Rightarrow> 'o mailbox option" where
  "jim_wr m i v = (if i < jim_size m then Some (m\<lparr>jim := (jim m)(i := v)\<rparr>) else None)"

definition publish_service_cursor :: "'o mailbox \<Rightarrow> bool \<Rightarrow> 'o mailbox option" where
  "publish_service_cursor m drive = do {
     let m1 = m\<lparr>mb_address := mb_address m AND 0xFFFFFF\<rparr>;
     let a = mb_address m1;
     b \<leftarrow> jim_rd m1 (services_base m1 + unat a);
     let m2 = m1\<lparr>vpu_registers := (vpu_registers m1)
        [0 := byte_of a 0, 1 := byte_of a 1, 2 := byte_of a 2, 3 := b]\<rparr>;
     Some (if drive then fold (\<lambda>r m. enable_vpu_output m r)
        [REG_ADDR_LO, REG_ADDR_MID, REG_ADDR_HI, REG_DATA] m2 else m2) }"

definition publish_page_window :: "'o mailbox \<Rightarrow> 'o mailbox" where
  "publish_page_window m =
     (let base = page_base_address m in
      m\<lparr>page_window :=
         (if base \<le> jim_size m - 256 then (\<lambda>i. jim m (base + i)) else (\<lambda>i. 0xFF))\<rparr>)"

definition page_selected :: "'o mailbox \<Rightarrow> u16 \<Rightarrow> 'o mailbox" where
  "page_selected m address = enable_vpu_output (enable_vpu_page_output (publish_page_window m)) address"

subsection \<open>The FIQ callback of the active event\<close>

definition command_callback :: "'o mailbox \<Rightarrow> u8 \<Rightarrow> 'o mailbox" where
  "command_callback m value =
     (let m1 = enable_vpu_output m REG_COMMAND;
          m2 = m1\<lparr>vpu_registers := (vpu_registers m1)[4 := value]\<rparr> in
      if 0xF0 \<le> value
      then m2\<lparr>selector := value, mb_result := NET_BUSY,
              vpu_registers := (vpu_registers m2)[4 := NET_BUSY],
              service_pending := True, service_ticks_remaining := service_delay_ticks m2\<rparr>
      else m2\<lparr>mb_result := value, service_pending := False\<rparr>)"

definition data_write_callback :: "'o mailbox \<Rightarrow> u8 \<Rightarrow> 'o mailbox option" where
  "data_write_callback m value = do {
     m1 \<leftarrow> jim_wr m (services_base m + unat (mb_address m)) value;
     publish_service_cursor (m1\<lparr>mb_address := (mb_address m1 + 1) AND 0xFFFFFF\<rparr>) True }"

definition select_page_hi :: "'o mailbox \<Rightarrow> u8 \<Rightarrow> 'o mailbox" where
  "select_page_hi m value =
     (let max_set = word_of_nat ((jim_size m - 1) div JIM_SET_SIZE);
          v = (if max_set < value then max_set else value) in
      m\<lparr>mb_page := (mb_page m AND 0x00FFFF) OR push_bit 16 (ucast v),
        vpu_registers := (vpu_registers m)[5 := v]\<rparr>)"

definition page_data_callback :: "'o mailbox \<Rightarrow> u16 \<Rightarrow> u8 \<Rightarrow> 'o mailbox" where
  "page_data_callback m address value =
     (let j = page_base_address m OR unat (address AND 0xFF);
          m1 = m\<lparr>jim := (if j < jim_size m then (jim m)(j := value) else jim m)\<rparr> in
      enable_vpu_output
        (m1\<lparr>page_window := (page_window m1)(unat (address AND 0xFF) := value)\<rparr>) address)"

definition complete_active_callback :: "'o mailbox \<Rightarrow> 'o mailbox option" where
  "complete_active_callback m0 =
     (let address = ev_address (active m0); value = ev_value (active m0);
          m = m0\<lparr>active := (active m0)\<lparr>ev_valid := False\<rparr>, callback_ticks_remaining := 0\<rparr> in
      if \<not> ev_write (active m) then
        (if address = REG_DATA
         then publish_service_cursor (m\<lparr>mb_address := (mb_address m + 1) AND 0xFFFFFF\<rparr>) True
         else Some m)
      else if address = REG_ADDR_LO then
        publish_service_cursor
          (m\<lparr>mb_address := (mb_address m AND 0xFFFF00) OR ucast value\<rparr>) True
      else if address = REG_ADDR_MID then
        publish_service_cursor
          (m\<lparr>mb_address := (mb_address m AND 0xFF00FF) OR push_bit 8 (ucast value)\<rparr>) True
      else if address = REG_ADDR_HI then
        publish_service_cursor
          (m\<lparr>mb_address := (mb_address m AND 0x00FFFF) OR push_bit 16 (ucast value)\<rparr>) True
      else if address = REG_DATA then data_write_callback m value
      else if address = REG_COMMAND then Some (command_callback m value)
      else if address = REG_PAGE_HI then Some (page_selected (select_page_hi m value) address)
      else if address = REG_PAGE_MID then
        Some (page_selected
          (m\<lparr>mb_page := (mb_page m AND 0xFF00FF) OR push_bit 8 (ucast value)\<rparr>) address)
      else if address = REG_PAGE_LO then
        Some (page_selected (m\<lparr>mb_page := (mb_page m AND 0xFFFF00) OR ucast value\<rparr>) address)
      else if PAGE_BASE \<le> address \<and> address \<le> PAGE_END then
        Some (page_data_callback m address value)
      else Some m)"

definition command_pointer :: "'o mailbox \<Rightarrow> u32" where
  "command_pointer m =
     (word_of_nat (services_base m) OR 0xFF0000) OR push_bit 8 (ucast (selector m))"

definition complete_service :: "'o mailbox \<Rightarrow> 'o mailbox option" where
  "complete_service m =
     (case dispatch m of None \<Rightarrow> None
      | Some f \<Rightarrow>
         let out = f (dispatch_opaque m) (selector m) (command_pointer m) (jim m) (jim_size m) in
         Some (enable_vpu_output
           (m\<lparr>service_pending := False, service_ticks_remaining := 0,
              jim := fst (snd out), dispatch_opaque := snd (snd out), mb_result := fst out,
              vpu_registers := (vpu_registers m)[4 := fst out],
              legacy_busy_observation := (legacy_busy_observation m \<or>
                capture_delay_ticks m = 0 \<and> callback_delay_ticks m = 0 \<and>
                service_delay_ticks m = 0)\<rparr>) REG_COMMAND))"

definition capture_posted_event :: "'o mailbox \<Rightarrow> 'o mailbox" where
  "capture_posted_event m0 =
     (let m = m0\<lparr>active := (posted m0)\<lparr>ev_valid := True\<rparr>, posted := (posted m0)\<lparr>ev_valid := False\<rparr>,
                 capture_ticks_remaining := 0\<rparr>;
          a = active m in
      m\<lparr>callback_ticks_remaining :=
         (if \<not> ev_write a \<and> ev_address a \<noteq> REG_DATA then read_callback_delay_ticks m
          else if ev_write a \<and> REG_PAGE_HI \<le> ev_address a \<and> ev_address a \<le> REG_PAGE_LO
          then page_callback_delay_ticks m
          else callback_delay_ticks m)\<rparr>)"

subsection \<open>The scheduler\<close>

text \<open>One pass of the \<open>do ... while (changed)\<close> loop, with its \<open>changed\<close> flag.\<close>

definition drain_once :: "'o mailbox \<Rightarrow> ('o mailbox \<times> bool) option" where
  "drain_once m = do {
     let c1 = (\<not> ev_valid (active m) \<and> ev_valid (posted m) \<and> capture_ticks_remaining m = 0);
     let m1 = (if c1 then capture_posted_event m else m);
     let c2 = (ev_valid (active m1) \<and> callback_ticks_remaining m1 = 0);
     m2 \<leftarrow> (if c2 then complete_active_callback m1 else Some m1);
     let c3 = (\<not> ev_valid (active m2) \<and> service_pending m2 \<and> service_ticks_remaining m2 = 0);
     m3 \<leftarrow> (if c3 then complete_service m2 else Some m2);
     Some (m3, c1 \<or> c2 \<or> c3) }"

definition pending_work :: "'o mailbox \<Rightarrow> nat" where
  "pending_work m = (if ev_valid (posted m) then 3 else 0) + (if ev_valid (active m) then 2 else 0)
     + (if service_pending m then 1 else 0)"

lemma enable_vpu_output_fields [simp]:
  "jim (enable_vpu_output m a) = jim m" "jim_size (enable_vpu_output m a) = jim_size m"
  "services_base (enable_vpu_output m a) = services_base m"
  "mb_address (enable_vpu_output m a) = mb_address m"
  "mb_page (enable_vpu_output m a) = mb_page m"
  "vpu_registers (enable_vpu_output m a) = vpu_registers m"
  "vpu_irq (enable_vpu_output m a) = vpu_irq m"
  "page_window (enable_vpu_output m a) = page_window m"
  "posted (enable_vpu_output m a) = posted m" "active (enable_vpu_output m a) = active m"
  "capture_delay_ticks (enable_vpu_output m a) = capture_delay_ticks m"
  "callback_delay_ticks (enable_vpu_output m a) = callback_delay_ticks m"
  "page_callback_delay_ticks (enable_vpu_output m a) = page_callback_delay_ticks m"
  "read_callback_delay_ticks (enable_vpu_output m a) = read_callback_delay_ticks m"
  "service_delay_ticks (enable_vpu_output m a) = service_delay_ticks m"
  "capture_ticks_remaining (enable_vpu_output m a) = capture_ticks_remaining m"
  "callback_ticks_remaining (enable_vpu_output m a) = callback_ticks_remaining m"
  "service_ticks_remaining (enable_vpu_output m a) = service_ticks_remaining m"
  "mb_result (enable_vpu_output m a) = mb_result m"
  "selector (enable_vpu_output m a) = selector m"
  "service_pending (enable_vpu_output m a) = service_pending m"
  "legacy_busy_observation (enable_vpu_output m a) = legacy_busy_observation m"
  "dispatch (enable_vpu_output m a) = dispatch m"
  "dispatch_opaque (enable_vpu_output m a) = dispatch_opaque m"
  "mirror (enable_vpu_output m a) = mirror m"
  "mirror_offset (enable_vpu_output m a) = mirror_offset m"
  "mirror_length (enable_vpu_output m a) = mirror_length m"
  by (simp_all add: enable_vpu_output_def)

lemma enable_vpu_page_output_fields [simp]:
  "jim (enable_vpu_page_output m) = jim m" "jim_size (enable_vpu_page_output m) = jim_size m"
  "services_base (enable_vpu_page_output m) = services_base m"
  "mb_address (enable_vpu_page_output m) = mb_address m"
  "mb_page (enable_vpu_page_output m) = mb_page m"
  "vpu_registers (enable_vpu_page_output m) = vpu_registers m"
  "vpu_irq (enable_vpu_page_output m) = vpu_irq m"
  "page_window (enable_vpu_page_output m) = page_window m"
  "posted (enable_vpu_page_output m) = posted m" "active (enable_vpu_page_output m) = active m"
  "capture_delay_ticks (enable_vpu_page_output m) = capture_delay_ticks m"
  "callback_delay_ticks (enable_vpu_page_output m) = callback_delay_ticks m"
  "page_callback_delay_ticks (enable_vpu_page_output m) = page_callback_delay_ticks m"
  "read_callback_delay_ticks (enable_vpu_page_output m) = read_callback_delay_ticks m"
  "service_delay_ticks (enable_vpu_page_output m) = service_delay_ticks m"
  "capture_ticks_remaining (enable_vpu_page_output m) = capture_ticks_remaining m"
  "callback_ticks_remaining (enable_vpu_page_output m) = callback_ticks_remaining m"
  "service_ticks_remaining (enable_vpu_page_output m) = service_ticks_remaining m"
  "mb_result (enable_vpu_page_output m) = mb_result m"
  "selector (enable_vpu_page_output m) = selector m"
  "service_pending (enable_vpu_page_output m) = service_pending m"
  "legacy_busy_observation (enable_vpu_page_output m) = legacy_busy_observation m"
  "dispatch (enable_vpu_page_output m) = dispatch m"
  "dispatch_opaque (enable_vpu_page_output m) = dispatch_opaque m"
  "mirror (enable_vpu_page_output m) = mirror m"
  "mirror_offset (enable_vpu_page_output m) = mirror_offset m"
  "mirror_length (enable_vpu_page_output m) = mirror_length m"
  by (simp_all add: enable_vpu_page_output_def)

lemma publish_page_window_fields [simp]:
  "jim (publish_page_window m) = jim m" "jim_size (publish_page_window m) = jim_size m"
  "services_base (publish_page_window m) = services_base m"
  "mb_address (publish_page_window m) = mb_address m"
  "mb_page (publish_page_window m) = mb_page m"
  "vpu_registers (publish_page_window m) = vpu_registers m"
  "vpu_irq (publish_page_window m) = vpu_irq m" "posted (publish_page_window m) = posted m"
  "active (publish_page_window m) = active m"
  "capture_delay_ticks (publish_page_window m) = capture_delay_ticks m"
  "callback_delay_ticks (publish_page_window m) = callback_delay_ticks m"
  "page_callback_delay_ticks (publish_page_window m) = page_callback_delay_ticks m"
  "read_callback_delay_ticks (publish_page_window m) = read_callback_delay_ticks m"
  "service_delay_ticks (publish_page_window m) = service_delay_ticks m"
  "capture_ticks_remaining (publish_page_window m) = capture_ticks_remaining m"
  "callback_ticks_remaining (publish_page_window m) = callback_ticks_remaining m"
  "service_ticks_remaining (publish_page_window m) = service_ticks_remaining m"
  "mb_result (publish_page_window m) = mb_result m"
  "selector (publish_page_window m) = selector m"
  "service_pending (publish_page_window m) = service_pending m"
  "legacy_busy_observation (publish_page_window m) = legacy_busy_observation m"
  "dispatch (publish_page_window m) = dispatch m"
  "dispatch_opaque (publish_page_window m) = dispatch_opaque m"
  "mirror (publish_page_window m) = mirror m"
  "mirror_offset (publish_page_window m) = mirror_offset m"
  "mirror_length (publish_page_window m) = mirror_length m"
  by (simp_all add: publish_page_window_def Let_def)

lemma publish_service_cursor_frame:
  "publish_service_cursor m d = Some m' \<Longrightarrow>
     active m' = active m \<and> posted m' = posted m \<and> service_pending m' = service_pending m"
  by (cases d) (auto simp: publish_service_cursor_def Let_def bind_eq_Some_conv)

lemma complete_active_callback_frame:
  assumes "complete_active_callback m = Some m'"
  shows "\<not> ev_valid (active m') \<and> posted m' = posted m"
  using assms
  by (auto simp: complete_active_callback_def command_callback_def page_data_callback_def
      page_selected_def select_page_hi_def data_write_callback_def Let_def jim_wr_def bind_eq_Some_conv
      dest!: publish_service_cursor_frame split: if_splits)

lemma complete_service_frame:
  assumes "complete_service m = Some m'"
  shows "active m' = active m \<and> posted m' = posted m \<and> \<not> service_pending m'"
  using assms by (auto simp: complete_service_def Let_def split: option.splits)

lemma drain_once_decreases:
  "drain_once m = Some (m', True) \<Longrightarrow> pending_work m' < pending_work m"
  by (auto simp: drain_once_def pending_work_def capture_posted_event_def Let_def bind_eq_Some_conv
      dest!: complete_active_callback_frame complete_service_frame split: if_splits)

function drain_zero_time_transitions :: "'o mailbox \<Rightarrow> 'o mailbox option" where
  "drain_zero_time_transitions m =
     (case drain_once m of None \<Rightarrow> None
      | Some (m', changed) \<Rightarrow> if changed then drain_zero_time_transitions m' else Some m')"
  by pat_completeness auto
termination
  by (relation "measure pending_work") (auto dest: drain_once_decreases)

declare drain_zero_time_transitions.simps [simp del]

text \<open>The body of the \<open>while (ticks--)\<close> loop: its three countdowns, then the drain.\<close>

definition tick_service :: "'o mailbox \<Rightarrow> 'o mailbox option" where
  "tick_service m =
     (if \<not> ev_valid (active m) \<and> service_pending m \<and> 0 < service_ticks_remaining m
      then let m' = m\<lparr>service_ticks_remaining := service_ticks_remaining m - 1\<rparr> in
           if service_ticks_remaining m' = 0 then complete_service m' else Some m'
      else Some m)"

definition tick_capture :: "'o mailbox \<Rightarrow> 'o mailbox" where
  "tick_capture m =
     (if ev_valid (posted m) \<and> 0 < capture_ticks_remaining m
      then m\<lparr>capture_ticks_remaining := capture_ticks_remaining m - 1\<rparr> else m)"

definition tick_callback :: "'o mailbox \<Rightarrow> 'o mailbox option" where
  "tick_callback m =
     (if ev_valid (active m) \<and> 0 < callback_ticks_remaining m
      then let m' = m\<lparr>callback_ticks_remaining := callback_ticks_remaining m - 1\<rparr> in
           if callback_ticks_remaining m' = 0 then complete_active_callback m' else Some m'
      else Some m)"

definition tick_once :: "'o mailbox \<Rightarrow> 'o mailbox option" where
  "tick_once m = do {
     m1 \<leftarrow> tick_service m;
     m2 \<leftarrow> tick_callback (tick_capture m1);
     drain_zero_time_transitions m2 }"

fun tick_fiq :: "'o mailbox \<Rightarrow> nat \<Rightarrow> 'o mailbox option" where
  "tick_fiq m 0 = Some m"
| "tick_fiq m (Suc ticks) = do { m' \<leftarrow> tick_once m; tick_fiq m' ticks }"

definition post_fiq_event :: "'o mailbox \<Rightarrow> u16 \<Rightarrow> u8 \<Rightarrow> bool \<Rightarrow> 'o mailbox option" where
  "post_fiq_event m address value write =
     (let already_pending = ev_valid (posted m) in
      drain_zero_time_transitions
        (m\<lparr>posted := \<lparr>ev_address = address, ev_value = value, ev_write = write, ev_valid = True\<rparr>,
           capture_ticks_remaining :=
             (if already_pending then capture_ticks_remaining m else capture_delay_ticks m)\<rparr>))"

subsection \<open>Construction and timing\<close>

text \<open>\<open>calloc\<close> succeeding is the argument \<open>alloc_ok\<close>.\<close>

definition no_event :: posted_event where
  "no_event = \<lparr>ev_address = 0, ev_value = 0, ev_write = False, ev_valid = False\<rparr>"

definition mailbox_zero :: "'o \<Rightarrow> 'o mailbox" where
  "mailbox_zero opaque = \<lparr>jim = (\<lambda>_. 0), jim_size = 0, services_base = 0, mb_address = 0,
     mb_page = 0, vpu_registers = replicate 6 0, vpu_irq = 0, page_window = (\<lambda>_. 0),
     output_enabled = (\<lambda>_. False), posted = no_event, active = no_event,
     capture_delay_ticks = 0, callback_delay_ticks = 0, page_callback_delay_ticks = 0,
     read_callback_delay_ticks = 0, service_delay_ticks = 0, capture_ticks_remaining = 0,
     callback_ticks_remaining = 0, service_ticks_remaining = 0, mb_result = 0, selector = 0,
     service_pending = False, legacy_busy_observation = False, dispatch = None,
     dispatch_opaque = opaque, mirror = replicate 160 0, mirror_offset = 0, mirror_length = 0\<rparr>"

definition mailbox_init ::
    "bool \<Rightarrow> 'o mailbox \<Rightarrow> 'o dispatch_fn option \<Rightarrow> 'o \<Rightarrow> ('o mailbox \<times> int) option" where
  "mailbox_init alloc_ok m0 disp opaque =
     (if disp = None then Some (m0, -1)
      else if \<not> alloc_ok then Some (mailbox_zero opaque, -1)
      else do {
        let m = (mailbox_zero opaque)
          \<lparr>jim_size := JIM_SIZE, services_base := JIM_SIZE - SERVICE_SIZE, dispatch := disp\<rparr>;
        m1 \<leftarrow> publish_service_cursor m False;
        let m2 = enable_vpu_page_output (publish_page_window m1);
        Some (enable_vpu_output (enable_vpu_output m2 REG_COMMAND) REG_IRQ, 0) })"

definition mailbox_destroy :: "'o mailbox \<Rightarrow> 'o mailbox" where
  "mailbox_destroy m = mailbox_zero (dispatch_opaque m)"

definition set_timing :: "'o mailbox \<Rightarrow> nat \<Rightarrow> nat \<Rightarrow> nat \<Rightarrow> 'o mailbox option" where
  "set_timing m capture_ticks callback_ticks service_ticks =
     map_option publish_page_window (publish_service_cursor
       (m\<lparr>capture_delay_ticks := capture_ticks, callback_delay_ticks := callback_ticks,
          page_callback_delay_ticks := callback_ticks, read_callback_delay_ticks := 0,
          service_delay_ticks := service_ticks, posted := (posted m)\<lparr>ev_valid := False\<rparr>,
          active := (active m)\<lparr>ev_valid := False\<rparr>, service_pending := False,
          legacy_busy_observation := False, capture_ticks_remaining := 0,
          callback_ticks_remaining := 0, service_ticks_remaining := 0\<rparr>) False)"

definition set_fiq_delay :: "'o mailbox \<Rightarrow> nat \<Rightarrow> 'o mailbox option" where
  "set_fiq_delay m delay_ticks = set_timing m delay_ticks 1 1"

definition set_callback_timing :: "'o mailbox \<Rightarrow> nat \<Rightarrow> nat \<Rightarrow> nat \<Rightarrow> 'o mailbox" where
  "set_callback_timing m simple_ticks page_copy_ticks unhandled_read_ticks =
     m\<lparr>callback_delay_ticks := simple_ticks, page_callback_delay_ticks := page_copy_ticks,
       read_callback_delay_ticks := unhandled_read_ticks\<rparr>"

definition set_mirror :: "'o mailbox \<Rightarrow> u8 \<Rightarrow> bytes option \<Rightarrow> u8 \<Rightarrow> 'o mailbox option" where
  "set_mirror m offset data n =
     (case data of
        None \<Rightarrow> Some (m\<lparr>mirror_length := 0\<rparr>)
      | Some d \<Rightarrow>
          if n = 0 \<or> unat offset + unat n > 256 \<or> unat n > 160
          then Some (m\<lparr>mirror_length := 0\<rparr>)
          else do {
            b \<leftarrow> rd_range d 0 (unat n);
            Some (m\<lparr>mirror := splice (mirror m) 0 b, mirror_offset := offset, mirror_length := n\<rparr>) })"

definition host_clock_rebase :: "host_clock \<Rightarrow> int \<Rightarrow> host_clock" where
  "host_clock_rebase c host_cycle_counter = c\<lparr>hc_valid := True, last_cycle := host_cycle_counter\<rparr>"

definition host_clock_sync :: "host_clock \<Rightarrow> int \<Rightarrow> host_clock \<times> nat" where
  "host_clock_sync c host_cycle_counter =
     (if \<not> hc_valid c then (host_clock_rebase c host_cycle_counter, 0)
      else let e0 = host_cycle_counter - last_cycle c;
               elapsed = (if e0 < 0 then e0 + 128 else e0) in
        (c\<lparr>last_cycle := host_cycle_counter\<rparr>, if 0 < elapsed then nat elapsed else 0))"

subsection \<open>Address decoding\<close>

definition mailbox_handles :: "u16 \<Rightarrow> bool" where
  "mailbox_handles address \<longleftrightarrow>
     REG_ADDR_LO \<le> address \<and> address \<le> REG_COMMAND \<or>
     REG_PAGE_HI \<le> address \<and> address \<le> REG_PAGE_LO \<or>
     PAGE_BASE \<le> address \<and> address \<le> PAGE_END"

definition ap5_handles :: "u16 \<Rightarrow> bool" where
  "ap5_handles address =
     (if address = REG_PAGE_HI \<or> address = REG_PAGE_MID then False else mailbox_handles address)"

definition profile_handles_mode :: "bus_profile \<Rightarrow> u16 \<Rightarrow> bool \<Rightarrow> bool \<Rightarrow> bool" where
  "profile_handles_mode profile address write noe_enabled =
     (if profile = BUS_DIRECT \<or> profile = BUS_AP5_FULL_FRED then
        (if \<not> write \<and> \<not> noe_enabled then 0xFC00 \<le> address \<and> address \<le> PAGE_END
         else mailbox_handles address)
      else if profile \<noteq> BUS_AP5 \<and> profile \<noteq> BUS_AP5_EXPANDED_SNOOP then False
      else if address = REG_PAGE_HI \<or> address = REG_PAGE_MID then False
      else if address = REG_PAGE_LO \<and> \<not> write then False
      else mailbox_handles address)"

definition profile_handles :: "bus_profile \<Rightarrow> u16 \<Rightarrow> bool \<Rightarrow> bool" where
  "profile_handles profile address write = profile_handles_mode profile address write True"

definition profile_snoops :: "bus_profile \<Rightarrow> u16 \<Rightarrow> bool \<Rightarrow> bool" where
  "profile_snoops profile address write =
     (if profile = BUS_DIRECT then 0xFC00 \<le> address \<and> address \<le> PAGE_END
      else if profile = BUS_AP5_FULL_FRED \<or> profile = BUS_AP5_EXPANDED_SNOOP then
        0xFC00 \<le> address \<and> address \<le> 0xFCFF \<or> PAGE_BASE \<le> address \<and> address \<le> PAGE_END
      else if profile \<noteq> BUS_AP5 then False
      else 0xFC00 \<le> address \<and> address \<le> 0xFC0F \<or> 0xFC80 \<le> address \<and> address \<le> 0xFC8F \<or>
           0xFCA0 \<le> address \<and> address \<le> 0xFCAF \<or> address = REG_PAGE_LO \<or>
           PAGE_BASE \<le> address \<and> address \<le> PAGE_END)"

definition read_driven :: "'o mailbox \<Rightarrow> u16 \<Rightarrow> bool" where
  "read_driven m address =
     (if address < BUS_BASE \<or> PAGE_END < address then False
      else output_enabled m (unat (address - BUS_BASE)))"

definition profile_read_driven :: "'o mailbox \<Rightarrow> bus_profile \<Rightarrow> u16 \<Rightarrow> bool \<Rightarrow> bool" where
  "profile_read_driven m profile address noe_enabled =
     (if \<not> noe_enabled then profile_handles_mode profile address False noe_enabled
      else if profile = BUS_AP5 \<or> profile = BUS_AP5_EXPANDED_SNOOP then
        (if address = REG_PAGE_HI \<or> address = REG_PAGE_MID \<or> address = REG_PAGE_LO then False
         else if \<not> profile_snoops profile address False then False
         else read_driven m address)
      else if profile \<noteq> BUS_DIRECT \<and> profile \<noteq> BUS_AP5_FULL_FRED then False
      else read_driven m address)"

subsection \<open>Bus cycles\<close>

text \<open>The byte a read cycle returns, before its event is posted. The \<open>mirror\<close> index is checked.\<close>

definition read_value :: "'o mailbox \<Rightarrow> u16 \<Rightarrow> u8 \<Rightarrow> u8 option" where
  "read_value m address bus_value =
     (if PAGE_BASE \<le> address \<and> address \<le> PAGE_END then
        let k = unat (address AND 0xFF) in
        if mirror_length m \<noteq> 0 \<and> unat (mirror_offset m) \<le> k \<and>
           k - unat (mirror_offset m) < unat (mirror_length m)
        then rd8 (mirror m) (k - unat (mirror_offset m))
        else Some (page_window m k)
      else if address = REG_ADDR_LO then rd8 (vpu_registers m) 0
      else if address = REG_ADDR_MID then rd8 (vpu_registers m) 1
      else if address = REG_ADDR_HI then rd8 (vpu_registers m) 2
      else if address = REG_DATA then rd8 (vpu_registers m) 3
      else if address = REG_COMMAND then rd8 (vpu_registers m) 4
      else if address = REG_IRQ then Some (vpu_irq m)
      else if address = REG_PAGE_HI then Some (byte_of (mb_page m) 2)
      else if address = REG_PAGE_MID then Some (byte_of (mb_page m) 1)
      else if address = REG_PAGE_LO then Some (byte_of (mb_page m) 0)
      else Some bus_value)"

definition bus_access :: "'o mailbox \<Rightarrow> u16 \<Rightarrow> u8 \<Rightarrow> bool \<Rightarrow> (u8 \<times> 'o mailbox) option" where
  "bus_access m address bus_value write =
     (if jim_size m = 0 then Some (0xFF, m)
      else if write then map_option (Pair bus_value) (post_fiq_event m address bus_value True)
      else do {
        value \<leftarrow> read_value m address bus_value;
        map_option (Pair value) (post_fiq_event m address value False) })"

definition mailbox_read :: "'o mailbox \<Rightarrow> u16 \<Rightarrow> (u8 \<times> 'o mailbox) option" where
  "mailbox_read m address = do {
     (value, m') \<leftarrow> bus_access m address 0xFF False;
     Some (if address = REG_COMMAND \<and> legacy_busy_observation m'
           then (NET_BUSY, m'\<lparr>legacy_busy_observation := False\<rparr>) else (value, m')) }"

definition mailbox_write :: "'o mailbox \<Rightarrow> u16 \<Rightarrow> u8 \<Rightarrow> 'o mailbox option" where
  "mailbox_write m address value = map_option snd (bus_access m address value True)"

end
