(* ===== verification/Mailbox_Props.thy ===== *)
theory Mailbox_Props
  imports Mailbox
begin

unbundle bit_operations_syntax

section \<open>Properties of the services mailbox\<close>

text \<open>
  The invariant \<open>mb_inv\<close> and the quiescence predicate \<open>settled\<close> with their preservation by every
  operation, the timing of one event from posting to callback (\<open>post_to_callback\<close>), and on top of
  them: the data port as an instance of the interface \<open>cursor_memory\<close>, the life of a command, the
  one-slot posting rule, the page window, the mirrored trampoline, the bus profiles and the host
  clock.
\<close>

subsection \<open>Invariant\<close>

lemma unat_and_24 [simp]: "unat (a AND 0xFFFFFF :: u32) < 0x1000000"
  using word_and_le1 [of a "0xFFFFFF"] by (simp add: word_le_nat_alt)

definition mb_geometry :: "'o mailbox \<Rightarrow> bool" where
  "mb_geometry m \<longleftrightarrow> services_base m + JIM_SET_SIZE \<le> jim_size m \<and> jim_size m \<le> 256 * JIM_SET_SIZE \<and>
     JIM_SET_SIZE dvd jim_size m \<and> length (vpu_registers m) = 6 \<and> dispatch m \<noteq> None \<and>
     length (mirror m) = 160 \<and> unat (mirror_length m) \<le> 160 \<and>
     unat (drop_bit 16 (mb_page m)) \<le> (jim_size m - 1) div JIM_SET_SIZE"

definition cursor_shown :: "'o mailbox \<Rightarrow> bool" where
  "cursor_shown m \<longleftrightarrow> unat (mb_address m) < JIM_SET_SIZE \<and>
     take 3 (vpu_registers m) = map (byte_of (mb_address m)) [0, 1, 2]"

definition mb_inv :: "'o mailbox \<Rightarrow> bool" where
  "mb_inv m \<longleftrightarrow> mb_geometry m \<and> cursor_shown m"

definition settled :: "'o mailbox \<Rightarrow> bool" where
  "settled m \<longleftrightarrow>
     \<not> (\<not> ev_valid (active m) \<and> ev_valid (posted m) \<and> capture_ticks_remaining m = 0) \<and>
     \<not> (ev_valid (active m) \<and> callback_ticks_remaining m = 0) \<and>
     \<not> (\<not> ev_valid (active m) \<and> service_pending m \<and> service_ticks_remaining m = 0)"

lemma list_of_six: "length xs = 6 \<Longrightarrow> \<exists>a b c d e f. xs = [a, b, c, d, e, f]"
  by (auto simp: length_Suc_conv numeral_eq_Suc)

lemma publish_service_cursor_inv:
  assumes "mb_geometry m"
  shows "\<exists>m'. publish_service_cursor m d = Some m' \<and> mb_inv m'"
proof -
  have "services_base m + unat (mb_address m AND 0xFFFFFF) < jim_size m"
    using assms unat_and_24 [of "mb_address m"] unfolding mb_geometry_def by linarith
  moreover obtain a b c e f g where "vpu_registers m = [a, b, c, e, f, g]"
    using list_of_six mb_geometry_def assms by metis
  ultimately show ?thesis
    using assms by (cases d) (auto simp: publish_service_cursor_def jim_rd_def Let_def mb_inv_def cursor_shown_def
      mb_geometry_def)
qed


lemma mask_words:
  "(0xFF00FF :: u32) = mask 8 OR push_bit 16 (mask 8)" "(0xFFFF00 :: u32) = push_bit 8 (mask 16)"
  "(0xFFFF :: u32) = mask 16" "(0xFFFFFF :: u32) = mask 24"
  by code_simp+

lemma page_set_hi:
  "drop_bit 16 ((p AND 0x00FFFF) OR push_bit 16 (ucast (v :: u8))) = (ucast v :: u32)"
  by (rule bit_word_eqI) (use bit_imp_le_length [of v] in \<open>fastforce simp: mask_words bit_simps\<close>)

lemma page_set_mid:
  "drop_bit 16 ((p AND 0xFF00FF) OR push_bit 8 (ucast (v :: u8))) = (drop_bit 16 p AND mask 8 :: u32)"
  by (rule bit_word_eqI) (auto simp: mask_words bit_simps bit_byte_high)

lemma page_set_lo:
  "drop_bit 16 ((p AND 0xFFFF00) OR ucast (v :: u8)) = (drop_bit 16 p AND mask 8 :: u32)"
  by (rule bit_word_eqI) (auto simp: mask_words bit_simps bit_byte_high)

lemma page_set_mono: "unat (drop_bit 16 p :: u32) \<le> n \<Longrightarrow> unat (drop_bit 16 p AND mask 8 :: u32) \<le> n"
  using word_and_le2 [of "drop_bit 16 p" "mask 8"] by (simp add: word_le_nat_alt)

lemma max_set_fits:
  assumes "mb_geometry m"
  shows "unat (word_of_nat ((jim_size m - 1) div JIM_SET_SIZE) :: u8) = (jim_size m - 1) div JIM_SET_SIZE"
proof -
  have "(jim_size m - 1) div JIM_SET_SIZE < 256"
    using assms by (auto simp: mb_geometry_def intro!: less_mult_imp_div_less)
  then show ?thesis by (simp add: unat_of_nat)
qed

lemmas mb_inv_defs = mb_inv_def mb_geometry_def cursor_shown_def

lemma mb_inv_enable [simp]:
  "mb_inv (enable_vpu_output m a) = mb_inv m" "mb_inv (enable_vpu_page_output m) = mb_inv m"
  "mb_inv (publish_page_window m) = mb_inv m" "mb_inv (page_selected m a) = mb_inv m"
  by (simp_all add: mb_inv_defs page_selected_def)

lemma command_callback_inv: "mb_inv m \<Longrightarrow> mb_inv (command_callback m v)"
  by (simp add: command_callback_def Let_def mb_inv_defs)

lemma page_data_callback_inv: "mb_inv m \<Longrightarrow> mb_inv (page_data_callback m a v)"
  by (simp add: page_data_callback_def Let_def mb_inv_defs)

lemma page_update_inv:
  "mb_inv m \<Longrightarrow> unat (drop_bit 16 p) \<le> (jim_size m - 1) div JIM_SET_SIZE \<Longrightarrow> mb_inv (m\<lparr>mb_page := p\<rparr>)"
  by (simp add: mb_inv_defs)

lemma vpu_5_inv: "mb_inv m \<Longrightarrow> mb_inv (m\<lparr>vpu_registers := (vpu_registers m)[5 := r]\<rparr>)"
  by (simp add: mb_inv_defs)

lemma select_page_hi_inv:
  assumes "mb_inv m"
  shows "mb_inv (select_page_hi m v)"
proof -
  define top :: u8 where "top = word_of_nat ((jim_size m - 1) div JIM_SET_SIZE)"
  define w where "w = (if top < v then top else v)"
  have "unat top = (jim_size m - 1) div JIM_SET_SIZE"
    using assms max_set_fits [of m] by (simp add: mb_inv_def top_def)
  then have "unat (ucast w :: u32) \<le> (jim_size m - 1) div JIM_SET_SIZE"
    by (auto simp: w_def not_less word_le_nat_alt unat_ucast_byte)
  then have "mb_inv (m\<lparr>mb_page := (mb_page m AND 0x00FFFF) OR push_bit 16 (ucast w)\<rparr>)"
    using page_update_inv [OF assms] by (simp only: page_set_hi)
  from vpu_5_inv [OF this, of w] show ?thesis
    unfolding select_page_hi_def Let_def top_def [symmetric] w_def [symmetric] by simp
qed

lemma data_write_callback_inv:
  assumes "mb_inv m" shows "\<exists>m'. data_write_callback m v = Some m' \<and> mb_inv m'"
proof -
  have "services_base m + unat (mb_address m) < jim_size m"
    using assms unfolding mb_inv_defs by linarith
  then show ?thesis
    using assms by (simp add: data_write_callback_def jim_wr_def)
      (rule publish_service_cursor_inv, simp add: mb_inv_defs)
qed

lemma page_mid_lo_inv:
  assumes "mb_inv m"
  shows "mb_inv (m\<lparr>mb_page := (mb_page m AND 0xFF00FF) OR push_bit 8 (ucast (v::u8))\<rparr>)"
    "mb_inv (m\<lparr>mb_page := (mb_page m AND 0xFFFF00) OR ucast (v::u8)\<rparr>)"
proof -
  have "unat (drop_bit 16 (mb_page m)) \<le> (jim_size m - 1) div JIM_SET_SIZE"
    using assms by (simp add: mb_inv_defs)
  from page_set_mono [OF this]
  show "mb_inv (m\<lparr>mb_page := (mb_page m AND 0xFF00FF) OR push_bit 8 (ucast (v::u8))\<rparr>)"
    "mb_inv (m\<lparr>mb_page := (mb_page m AND 0xFFFF00) OR ucast (v::u8)\<rparr>)"
    using page_update_inv [OF assms] by (simp_all only: page_set_mid page_set_lo)
qed

lemma complete_active_callback_inv:
  assumes "mb_inv m"
  shows "\<exists>m'. complete_active_callback m = Some m' \<and> mb_inv m'"
proof -
  let ?m = "m\<lparr>active := (active m)\<lparr>ev_valid := False\<rparr>, callback_ticks_remaining := 0\<rparr>"
  have inv: "mb_inv ?m" using assms by (simp add: mb_inv_defs)
  have cur: "\<exists>m'. publish_service_cursor (?m\<lparr>mb_address := a\<rparr>) d = Some m' \<and> mb_inv m'" for a d
    using inv by (intro publish_service_cursor_inv) (simp add: mb_inv_defs)
  note page = page_mid_lo_inv [OF inv, of "ev_value (active m)"]
  show ?thesis
    unfolding complete_active_callback_def Let_def
    using inv cur page data_write_callback_inv [OF inv] select_page_hi_inv [OF inv]
      command_callback_inv [OF inv] page_data_callback_inv [OF inv]
    by (simp split: if_split)
qed

lemma complete_service_inv:
  "mb_inv m \<Longrightarrow> \<exists>m'. complete_service m = Some m' \<and> mb_inv m'"
  by (auto simp: complete_service_def Let_def mb_inv_defs)

lemma capture_posted_event_inv: "mb_inv m \<Longrightarrow> mb_inv (capture_posted_event m)"
  by (simp add: capture_posted_event_def Let_def mb_inv_defs)


lemma drain_once_inv:
  assumes "mb_inv m"
  shows "\<exists>m' c. drain_once m = Some (m', c) \<and> mb_inv m'"
proof -
  let ?m1 = "if \<not> ev_valid (active m) \<and> ev_valid (posted m) \<and> capture_ticks_remaining m = 0
    then capture_posted_event m else m"
  have i1: "mb_inv ?m1" using assms capture_posted_event_inv by auto
  obtain m2 where m2: "(if ev_valid (active ?m1) \<and> callback_ticks_remaining ?m1 = 0
      then complete_active_callback ?m1 else Some ?m1) = Some m2" and i2: "mb_inv m2"
    using complete_active_callback_inv [OF i1] i1 by (metis (full_types))
  obtain m3 where m3: "(if \<not> ev_valid (active m2) \<and> service_pending m2 \<and> service_ticks_remaining m2 = 0
      then complete_service m2 else Some m2) = Some m3" and i3: "mb_inv m3"
    using complete_service_inv [OF i2] i2 by (metis (full_types))
  show ?thesis unfolding drain_once_def Let_def using m2 m3 i3 by simp
qed

lemma drain_once_settled:
  assumes "drain_once m = Some (m', False)"
  shows "m' = m" "settled m"
  using assms by (auto simp: drain_once_def Let_def settled_def bind_eq_Some_conv split: if_splits)

lemma drain_inv:
  assumes "mb_inv m"
  shows "\<exists>m'. drain_zero_time_transitions m = Some m' \<and> mb_inv m' \<and> settled m'"
  using assms
proof (induction m rule: drain_zero_time_transitions.induct)
  case (1 m)
  obtain m1 c where m1: "drain_once m = Some (m1, c)" "mb_inv m1"
    using drain_once_inv [OF 1(2)] by blast
  show ?case
    using 1(1) [OF m1(1) refl _ m1(2)] drain_once_settled [of m m1] m1
    by (cases c) (auto simp: drain_zero_time_transitions.simps [of m])
qed

lemma countdown_inv [simp]:
  "mb_inv (m\<lparr>service_ticks_remaining := n\<rparr>) = mb_inv m"
  "mb_inv (m\<lparr>capture_ticks_remaining := n\<rparr>) = mb_inv m"
  "mb_inv (m\<lparr>callback_ticks_remaining := n\<rparr>) = mb_inv m"
  by (simp_all add: mb_inv_defs)

lemma tick_service_inv: "mb_inv m \<Longrightarrow> \<exists>m'. tick_service m = Some m' \<and> mb_inv m'"
  by (simp add: tick_service_def Let_def complete_service_inv)

lemma tick_callback_inv: "mb_inv m \<Longrightarrow> \<exists>m'. tick_callback m = Some m' \<and> mb_inv m'"
  by (simp add: tick_callback_def Let_def complete_active_callback_inv)

lemma tick_capture_inv: "mb_inv m \<Longrightarrow> mb_inv (tick_capture m)"
  by (simp add: tick_capture_def)

lemma tick_once_inv:
  "mb_inv m \<Longrightarrow> \<exists>m'. tick_once m = Some m' \<and> mb_inv m' \<and> settled m'"
proof -
  assume "mb_inv m"
  then obtain m1 where "tick_service m = Some m1" "mb_inv m1" using tick_service_inv by blast
  moreover obtain m2 where "tick_callback (tick_capture m1) = Some m2" "mb_inv m2"
    using calculation tick_callback_inv tick_capture_inv by blast
  ultimately show ?thesis using drain_inv [of m2] by (simp add: tick_once_def)
qed

lemma tick_fiq_inv:
  "mb_inv m \<Longrightarrow> settled m \<Longrightarrow> \<exists>m'. tick_fiq m n = Some m' \<and> mb_inv m' \<and> settled m'"
proof (induction n arbitrary: m)
  case (Suc n)
  then show ?case using tick_once_inv [of m] by auto
qed simp

lemma post_fiq_event_inv:
  "mb_inv m \<Longrightarrow> \<exists>m'. post_fiq_event m a v w = Some m' \<and> mb_inv m' \<and> settled m'"
  unfolding post_fiq_event_def Let_def by (rule drain_inv) (simp add: mb_inv_defs)

lemma read_value_defined: "mb_inv m \<Longrightarrow> \<exists>v. read_value m a b = Some v"
  by (auto simp: read_value_def rd8_def Let_def mb_inv_defs)

lemma bus_access_inv:
  "mb_inv m \<Longrightarrow> \<exists>v m'. bus_access m a b w = Some (v, m') \<and> mb_inv m' \<and> settled m'"
  using read_value_defined [of m a b] post_fiq_event_inv [of m a _ w]
  by (cases w) (fastforce simp: bus_access_def mb_inv_defs)+


subsection \<open>The timing of a paced event\<close>

definition idle :: "'o mailbox \<Rightarrow> bool" where
  "idle m \<longleftrightarrow> \<not> ev_valid (posted m) \<and> \<not> ev_valid (active m) \<and> \<not> service_pending m"

lemma idle_settled: "idle m \<Longrightarrow> settled m"
  by (simp add: idle_def settled_def)

lemma drain_settled:
  assumes "settled m" shows "drain_zero_time_transitions m = Some m"
proof -
  have "drain_once m = Some (m, False)"
    using assms by (auto simp: drain_once_def settled_def Let_def)
  then show ?thesis by (simp add: drain_zero_time_transitions.simps)
qed

lemma tick_fiq_add: "tick_fiq m (x + y) = do { m' \<leftarrow> tick_fiq m x; tick_fiq m' y }"
  by (induction x arbitrary: m) (auto split: bind_split)

lemma tick_waiting_capture:
  assumes "\<not> ev_valid (active m)" "ev_valid (posted m)" "\<not> service_pending m" "capture_ticks_remaining m = n + j" "0 < n"
  shows "tick_fiq m j = Some (m\<lparr>capture_ticks_remaining := n\<rparr>)"
  using assms
proof (induction j arbitrary: m)
  case (Suc j)
  have "tick_once m = Some (m\<lparr>capture_ticks_remaining := n + j\<rparr>)"
    using Suc.prems by (simp add: tick_once_def tick_service_def tick_capture_def tick_callback_def
        drain_settled settled_def)
  then show ?case using Suc by simp
qed simp

lemma tick_to_capture:
  assumes "\<not> ev_valid (active m)" "ev_valid (posted m)" "\<not> service_pending m"
  shows "do { m' \<leftarrow> drain_zero_time_transitions m; tick_fiq m' (capture_ticks_remaining m) } =
     drain_zero_time_transitions (m\<lparr>capture_ticks_remaining := 0\<rparr>)"
proof (cases "capture_ticks_remaining m")
  case (Suc j)
  have "tick_fiq m (j + 1) = do { m' \<leftarrow> Some (m\<lparr>capture_ticks_remaining := 1\<rparr>); tick_fiq m' 1 }"
    using tick_waiting_capture [OF assms, of 1 j] Suc by (simp only: tick_fiq_add)
  also have "\<dots> = drain_zero_time_transitions (m\<lparr>capture_ticks_remaining := 0\<rparr>)"
    using assms by (simp add: tick_once_def tick_service_def tick_capture_def tick_callback_def)
  finally show ?thesis
    using assms Suc by (simp add: drain_settled settled_def)
next
  case 0
  then have m: "m\<lparr>capture_ticks_remaining := 0\<rparr> = m" by simp
  show ?thesis unfolding m 0 by simp
qed

lemma tick_waiting_callback:
  assumes "ev_valid (active m)" "\<not> ev_valid (posted m)" "callback_ticks_remaining m = n + j" "0 < n"
  shows "tick_fiq m j = Some (m\<lparr>callback_ticks_remaining := n\<rparr>)"
  using assms
proof (induction j arbitrary: m)
  case (Suc j)
  have "tick_once m = Some (m\<lparr>callback_ticks_remaining := n + j\<rparr>)"
    using Suc.prems by (simp add: tick_once_def tick_service_def tick_capture_def tick_callback_def
        drain_settled settled_def)
  then show ?case using Suc by simp
qed simp

lemma complete_callback_ticks:
  "complete_active_callback (m\<lparr>callback_ticks_remaining := n\<rparr>) = complete_active_callback m"
  by (simp add: complete_active_callback_def)

lemma drain_no_event:
  assumes "\<not> ev_valid (active m)" "\<not> ev_valid (posted m)"
  shows "drain_zero_time_transitions m =
    (if service_pending m \<and> service_ticks_remaining m = 0 then complete_service m else Some m)"
proof (cases "service_pending m \<and> service_ticks_remaining m = 0")
  case True
  then have "drain_once m = do { m' \<leftarrow> complete_service m; Some (m', True) }"
    using assms by (simp add: drain_once_def)
  moreover have "drain_zero_time_transitions m' = Some m'" if "complete_service m = Some m'" for m'
    using complete_service_frame [OF that] assms by (intro drain_settled) (simp add: settled_def)
  ultimately show ?thesis
    using True by (simp add: drain_zero_time_transitions.simps [of m] split: option.split bind_split)
next
  case False
  then show ?thesis using assms by (auto simp: drain_settled settled_def)
qed

lemma drain_due_callback:
  assumes "ev_valid (active m)" "\<not> ev_valid (posted m)" "callback_ticks_remaining m = 0"
  shows "drain_zero_time_transitions m =
     do { m' \<leftarrow> complete_active_callback m; drain_zero_time_transitions m' }"
proof (cases "complete_active_callback m")
  case None
  then have "drain_once m = None" using assms by (simp add: drain_once_def)
  then show ?thesis using None by (simp add: drain_zero_time_transitions.simps [of m])
next
  case (Some m2)
  have fr: "\<not> ev_valid (active m2)" "\<not> ev_valid (posted m2)"
    using complete_active_callback_frame [OF Some] assms by auto
  have one: "drain_once m = do { m3 \<leftarrow> drain_zero_time_transitions m2; Some (m3, True) }"
    using assms Some fr by (simp add: drain_once_def drain_no_event)
  have idem: "drain_zero_time_transitions m3 = Some m3" if m3: "drain_zero_time_transitions m2 = Some m3" for m3
    using m3 fr complete_service_frame [of m2 m3]
    by (intro drain_settled) (auto simp: drain_no_event settled_def split: if_splits)
  show ?thesis
    using Some one idem by (simp add: drain_zero_time_transitions.simps [of m] split: option.split bind_split)
qed

lemma tick_to_callback:
  assumes "ev_valid (active m)" "\<not> ev_valid (posted m)"
  shows "do { m' \<leftarrow> drain_zero_time_transitions m; tick_fiq m' (callback_ticks_remaining m) } =
     do { m' \<leftarrow> complete_active_callback m; drain_zero_time_transitions m' }"
proof (cases "callback_ticks_remaining m")
  case (Suc j)
  have "tick_fiq m (j + 1) = do { m' \<leftarrow> Some (m\<lparr>callback_ticks_remaining := 1\<rparr>); tick_fiq m' 1 }"
    using tick_waiting_callback [OF assms, of 1 j] Suc by (simp only: tick_fiq_add)
  also have "\<dots> = do { m' \<leftarrow> complete_active_callback m; drain_zero_time_transitions m' }"
    using assms by (simp add: tick_once_def tick_service_def tick_capture_def tick_callback_def
        complete_callback_ticks)
  finally show ?thesis
    using assms Suc by (simp add: drain_settled settled_def)
next
  case 0
  then show ?thesis using assms by (simp add: drain_due_callback)
qed


definition callback_delay_of :: "'o mailbox \<Rightarrow> u16 \<Rightarrow> bool \<Rightarrow> nat" where
  "callback_delay_of m a w =
     (if \<not> w \<and> a \<noteq> REG_DATA then read_callback_delay_ticks m
      else if w \<and> REG_PAGE_HI \<le> a \<and> a \<le> REG_PAGE_LO then page_callback_delay_ticks m
      else callback_delay_ticks m)"

definition captured :: "'o mailbox \<Rightarrow> u16 \<Rightarrow> u8 \<Rightarrow> bool \<Rightarrow> 'o mailbox" where
  "captured m a v w = capture_posted_event
     (m\<lparr>posted := \<lparr>ev_address = a, ev_value = v, ev_write = w, ev_valid = True\<rparr>,
        capture_ticks_remaining := 0\<rparr>)"

lemma drain_due_capture:
  assumes "\<not> ev_valid (active m)" "ev_valid (posted m)" "capture_ticks_remaining m = 0"
  shows "drain_zero_time_transitions m = drain_zero_time_transitions (capture_posted_event m)"
proof -
  let ?m = "capture_posted_event m"
  have v: "ev_valid (active ?m)" "\<not> ev_valid (posted ?m)"
    by (simp_all add: capture_posted_event_def Let_def)
  show ?thesis
  proof (cases "callback_ticks_remaining ?m = 0")
    case True
    then have "drain_once m = drain_once ?m" using assms v by (simp add: drain_once_def)
    then show ?thesis
      by (simp only: drain_zero_time_transitions.simps [of m] drain_zero_time_transitions.simps [of ?m])
  next
    case False
    then have "drain_once m = Some (?m, True)" using assms v by (simp add: drain_once_def)
    then show ?thesis by (simp add: drain_zero_time_transitions.simps [of m])
  qed
qed

lemma captured_active:
  "active (captured m a v w) = \<lparr>ev_address = a, ev_value = v, ev_write = w, ev_valid = True\<rparr>"
  "\<not> ev_valid (posted (captured m a v w))"
  "callback_ticks_remaining (captured m a v w) = callback_delay_of m a w"
  by (simp_all add: captured_def capture_posted_event_def callback_delay_of_def Let_def)

lemma post_to_capture:
  assumes "idle m"
  shows "do { m' \<leftarrow> post_fiq_event m a v w; tick_fiq m' (capture_delay_ticks m) } =
     drain_zero_time_transitions (captured m a v w)"
proof -
  let ?m = "m\<lparr>posted := \<lparr>ev_address = a, ev_value = v, ev_write = w, ev_valid = True\<rparr>,
    capture_ticks_remaining := capture_delay_ticks m\<rparr>"
  have "do { m' \<leftarrow> drain_zero_time_transitions ?m; tick_fiq m' (capture_ticks_remaining ?m) } =
     drain_zero_time_transitions (?m\<lparr>capture_ticks_remaining := 0\<rparr>)"
    using assms by (intro tick_to_capture) (simp_all add: idle_def)
  also have "\<dots> = drain_zero_time_transitions (captured m a v w)"
    using assms unfolding captured_def by (subst drain_due_capture) (simp_all add: idle_def)
  finally show ?thesis using assms by (simp add: post_fiq_event_def idle_def)
qed

lemma post_to_callback:
  assumes "idle m"
  shows "do { m' \<leftarrow> post_fiq_event m a v w;
              tick_fiq m' (capture_delay_ticks m + callback_delay_of m a w) } =
     do { m' \<leftarrow> complete_active_callback (captured m a v w); drain_zero_time_transitions m' }"
proof -
  have "do { m' \<leftarrow> post_fiq_event m a v w;
              tick_fiq m' (capture_delay_ticks m + callback_delay_of m a w) } =
     do { m'' \<leftarrow> do { m' \<leftarrow> post_fiq_event m a v w; tick_fiq m' (capture_delay_ticks m) };
          tick_fiq m'' (callback_delay_of m a w) }"
    by (simp add: tick_fiq_add)
  also have "\<dots> = do { m' \<leftarrow> complete_active_callback (captured m a v w); drain_zero_time_transitions m' }"
    unfolding post_to_capture [OF assms]
    using tick_to_callback [of "captured m a v w"] by (simp add: captured_active)
  finally show ?thesis .
qed


subsection \<open>Paced host accesses\<close>

text \<open>A host that waits out the interrupt and callback latencies after each bus cycle.\<close>

definition paced :: "'o mailbox \<Rightarrow> u16 \<Rightarrow> u8 \<Rightarrow> bool \<Rightarrow> (u8 \<times> 'o mailbox) option" where
  "paced m a v w = do {
     (x, m') \<leftarrow> bus_access m a v w;
     m'' \<leftarrow> tick_fiq m' (capture_delay_ticks m + callback_delay_of m a w);
     Some (x, m'') }"

definition same_config :: "'o mailbox \<Rightarrow> 'o mailbox \<Rightarrow> bool" where
  "same_config m m' \<longleftrightarrow> jim_size m' = jim_size m \<and> services_base m' = services_base m \<and>
     mb_page m' = mb_page m \<and> page_window m' = page_window m \<and>
     capture_delay_ticks m' = capture_delay_ticks m \<and> callback_delay_ticks m' = callback_delay_ticks m \<and>
     dispatch_opaque m' = dispatch_opaque m"

lemma paced_write:
  assumes "idle m" "mb_inv m"
  shows "paced m a v True = do { m' \<leftarrow> complete_active_callback (captured m a v True);
     m'' \<leftarrow> drain_zero_time_transitions m'; Some (v, m'') }"
proof -
  have "jim_size m \<noteq> 0" using assms by (simp add: mb_inv_defs)
  then have "paced m a v True = do { m'' \<leftarrow> do { m' \<leftarrow> post_fiq_event m a v True;
      tick_fiq m' (capture_delay_ticks m + callback_delay_of m a True) }; Some (v, m'') }"
    by (simp add: paced_def bus_access_def map_conv_bind_option)
  then show ?thesis unfolding post_to_callback [OF assms(1)] by simp
qed

lemma paced_read:
  assumes "idle m" "mb_inv m" "read_value m a b = Some v"
  shows "paced m a b False = do { m' \<leftarrow> complete_active_callback (captured m a v False);
     m'' \<leftarrow> drain_zero_time_transitions m'; Some (v, m'') }"
proof -
  have "jim_size m \<noteq> 0" using assms by (simp add: mb_inv_defs)
  then have "paced m a b False = do { m'' \<leftarrow> do { m' \<leftarrow> post_fiq_event m a v False;
      tick_fiq m' (capture_delay_ticks m + callback_delay_of m a False) }; Some (v, m'') }"
    using assms by (simp add: paced_def bus_access_def map_conv_bind_option)
  then show ?thesis unfolding post_to_callback [OF assms(1)] by simp
qed

lemma and_24_id: "unat (a :: u32) < JIM_SET_SIZE \<Longrightarrow> a AND 0xFFFFFF = a"
  by (rule word_unat_eq_iff [THEN iffD2])
    (simp add: mask_words unsigned_take_bit_eq take_bit_nat_eq_self flip: take_bit_eq_mask)

lemma publish_service_cursor_effect:
  assumes "mb_geometry m" "unat (mb_address m) < JIM_SET_SIZE"
  obtains m' where "publish_service_cursor m d = Some m'" "mb_inv m'" "same_config m m'"
    "jim m' = jim m" "mb_address m' = mb_address m"
    "posted m' = posted m" "active m' = active m" "service_pending m' = service_pending m"
    "vpu_registers m' ! 3 = jim m (services_base m + unat (mb_address m))"
proof -
  obtain m' where m': "publish_service_cursor m d = Some m'" "mb_inv m'"
    using publish_service_cursor_inv [OF assms(1)] by blast
  have rd: "services_base m + unat (mb_address m) < jim_size m"
    using assms unfolding mb_geometry_def by linarith
  have "length (vpu_registers m) = 6" using assms by (simp add: mb_geometry_def)
  then have "same_config m m' \<and> jim m' = jim m \<and> mb_address m' = mb_address m \<and>
     posted m' = posted m \<and> active m' = active m \<and> service_pending m' = service_pending m \<and>
     vpu_registers m' ! 3 = jim m (services_base m + unat (mb_address m))"
    using m'(1) rd by (cases d) (auto simp: publish_service_cursor_def Let_def and_24_id [OF assms(2)]
        jim_rd_def same_config_def)
  with m' that show ?thesis by blast
qed


definition cursor_ready :: "'o mailbox \<Rightarrow> bool" where
  "cursor_ready m \<longleftrightarrow> mb_inv m \<and> idle m \<and>
     vpu_registers m ! 3 = jim m (services_base m + unat (mb_address m))"

definition landed :: "'o mailbox \<Rightarrow> u16 \<Rightarrow> u8 \<Rightarrow> bool \<Rightarrow> 'o mailbox" where
  "landed m a v w = (captured m a v w)\<lparr>active := \<lparr>ev_address = a, ev_value = v, ev_write = w, ev_valid = False\<rparr>,
     callback_ticks_remaining := 0\<rparr>"

lemma captured_fields [simp]:
  "jim (captured m a v w) = jim m" "jim_size (captured m a v w) = jim_size m"
  "services_base (captured m a v w) = services_base m" "mb_address (captured m a v w) = mb_address m"
  "mb_page (captured m a v w) = mb_page m" "service_pending (captured m a v w) = service_pending m"
  "mb_inv (captured m a v w) = mb_inv m"
  by (simp_all add: captured_def capture_posted_event_def Let_def mb_inv_defs)

lemma landed_fields [simp]:
  "jim (landed m a v w) = jim m" "jim_size (landed m a v w) = jim_size m"
  "services_base (landed m a v w) = services_base m" "mb_address (landed m a v w) = mb_address m"
  "mb_page (landed m a v w) = mb_page m" "service_pending (landed m a v w) = service_pending m"
  "\<not> ev_valid (active (landed m a v w))" "\<not> ev_valid (posted (landed m a v w))"
  "mb_inv (landed m a v w) = mb_inv m" "same_config m (landed m a v w)"
  by (simp_all add: landed_def captured_active)
    (simp_all add: captured_def capture_posted_event_def Let_def mb_inv_defs same_config_def)

lemma cursor_landing:
  assumes "idle m" "mb_inv m" "unat A < JIM_SET_SIZE"
    and cb: "complete_active_callback (captured m a v w) =
      publish_service_cursor ((landed m a v w)\<lparr>jim := J, mb_address := A\<rparr>) True"
  obtains m' where "do { m1 \<leftarrow> complete_active_callback (captured m a v w);
      m2 \<leftarrow> drain_zero_time_transitions m1; Some (x, m2) } = Some (x, m')"
    "cursor_ready m'" "jim m' = J" "mb_address m' = A" "same_config m m'"
proof -
  let ?m = "(landed m a v w)\<lparr>jim := J, mb_address := A\<rparr>"
  have g: "mb_geometry ?m"
    using landed_fields(9) [of m a v w] assms(2) by (simp add: mb_inv_defs)
  obtain m' where m': "publish_service_cursor ?m True = Some m'" "mb_inv m'" "same_config ?m m'"
    "jim m' = J" "mb_address m' = A" "posted m' = posted ?m" "active m' = active ?m"
    "service_pending m' = service_pending ?m" "vpu_registers m' ! 3 = J (services_base ?m + unat A)"
    using publish_service_cursor_effect [OF g, of True] assms(3) by auto
  have idle: "idle m'" using m' assms(1) by (simp add: idle_def)
  have "same_config m m'" using m'(3) landed_fields(10) [of m a v w] by (simp add: same_config_def)
  moreover have "cursor_ready m'" using m' idle by (simp add: cursor_ready_def same_config_def)
  moreover have "drain_zero_time_transitions m' = Some m'" using idle by (simp add: drain_settled idle_settled)
  ultimately show ?thesis using that m' cb by simp
qed

text \<open>Where an access to a cursor register moves the cursor.\<close>

fun cursor_after :: "u32 \<Rightarrow> u16 \<Rightarrow> u8 \<Rightarrow> u32" where
  "cursor_after c a v = (if a = REG_ADDR_LO then (c AND 0xFFFF00) OR ucast v
     else if a = REG_ADDR_MID then (c AND 0xFF00FF) OR push_bit 8 (ucast v)
     else if a = REG_ADDR_HI then (c AND 0x00FFFF) OR push_bit 16 (ucast v)
     else (c + 1) AND 0xFFFFFF)"

lemma bit_byte_less: "bit (b :: u8) n \<Longrightarrow> n < 8"
  using bit_imp_le_length [of b n] by simp

lemma masked_parts:
  "((c AND 0xFFFF00) OR ucast (v :: u8) :: u32) AND 0xFFFFFF = (c AND 0xFFFF00) OR ucast v"
  "((c AND 0xFF00FF) OR push_bit 8 (ucast (v :: u8)) :: u32) AND 0xFFFFFF = (c AND 0xFF00FF) OR push_bit 8 (ucast v)"
  "((c AND 0xFFFF) OR push_bit 16 (ucast (v :: u8)) :: u32) AND 0xFFFFFF = (c AND 0xFFFF) OR push_bit 16 (ucast v)"
  by (rule bit_word_eqI; fastforce simp: mask_words bit_simps dest: bit_byte_less)+

lemma cursor_masked: "cursor_after c a v AND 0xFFFFFF = cursor_after c a v"
  by (simp only: cursor_after.simps masked_parts and.assoc and.idem split: if_split) simp

lemma cursor_after_less: "unat (cursor_after c a v) < JIM_SET_SIZE"
  using unat_and_24 [of "cursor_after c a v"] by (simp only: cursor_masked)

lemma landed_jim_id: "(landed m a v w)\<lparr>jim := jim m, mb_address := c\<rparr> = (landed m a v w)\<lparr>mb_address := c\<rparr>"
  by (simp add: landed_def captured_def capture_posted_event_def Let_def)

lemma cursor_seek_callback:
  assumes "a \<in> {REG_ADDR_LO, REG_ADDR_MID, REG_ADDR_HI}"
  shows "complete_active_callback (captured m a v True) =
     publish_service_cursor ((landed m a v True)\<lparr>jim := jim m, mb_address := cursor_after (mb_address m) a v\<rparr>) True"
  unfolding landed_jim_id
  using assms by (auto simp: complete_active_callback_def captured_active landed_def Let_def)

lemma cursor_read_callback:
  "complete_active_callback (captured m REG_DATA v False) =
     publish_service_cursor ((landed m REG_DATA v False)\<lparr>jim := jim m,
       mb_address := cursor_after (mb_address m) REG_DATA v\<rparr>) True"
  unfolding landed_jim_id
  by (auto simp: complete_active_callback_def captured_active landed_def Let_def)

lemma cursor_write_callback:
  assumes "mb_inv m"
  shows "complete_active_callback (captured m REG_DATA v True) =
     publish_service_cursor ((landed m REG_DATA v True)
       \<lparr>jim := (jim m)(services_base m + unat (mb_address m) := v),
        mb_address := cursor_after (mb_address m) REG_DATA v\<rparr>) True"
proof -
  have "services_base m + unat (mb_address m) < jim_size m"
    using assms unfolding mb_inv_defs by linarith
  then show ?thesis
    by (simp add: complete_active_callback_def captured_active landed_def Let_def
        data_write_callback_def jim_wr_def)
qed


subsection \<open>The cursor memory the data port offers\<close>

text \<open>
  What a client of the data port relies on: a memory of \<open>limit\<close> cells with a cursor that can be set
  and that steps to the next cell, cyclically, with every byte put or got.
\<close>

fun put_all :: "('s \<Rightarrow> u8 \<Rightarrow> 's option) \<Rightarrow> u8 list \<Rightarrow> 's \<Rightarrow> 's option" where
  "put_all put [] s = Some s"
| "put_all put (v # vs) s = do { s' \<leftarrow> put s v; put_all put vs s' }"

fun get_n :: "('s \<Rightarrow> (u8 \<times> 's) option) \<Rightarrow> nat \<Rightarrow> 's \<Rightarrow> (u8 list \<times> 's) option" where
  "get_n get 0 s = Some ([], s)"
| "get_n get (Suc n) s = do { (v, s') \<leftarrow> get s; (vs, s'') \<leftarrow> get_n get n s'; Some (v # vs, s'') }"

locale cursor_memory =
  fixes seek :: "'s \<Rightarrow> nat \<Rightarrow> 's option" and put :: "'s \<Rightarrow> u8 \<Rightarrow> 's option"
    and get :: "'s \<Rightarrow> (u8 \<times> 's) option"
    and usable :: "'s \<Rightarrow> bool" and ready :: "'s \<Rightarrow> bool"
    and cursor :: "'s \<Rightarrow> nat" and cell :: "'s \<Rightarrow> nat \<Rightarrow> u8" and limit :: nat
  assumes ready_usable: "ready s \<Longrightarrow> usable s"
    and seek_law: "usable s \<Longrightarrow> a < limit \<Longrightarrow>
      \<exists>s'. seek s a = Some s' \<and> ready s' \<and> cursor s' = a \<and> cell s' = cell s"
    and put_law: "ready s \<Longrightarrow>
      \<exists>s'. put s v = Some s' \<and> ready s' \<and> cursor s' = Suc (cursor s) mod limit \<and>
           cell s' = (cell s)(cursor s := v)"
    and get_law: "ready s \<Longrightarrow>
      \<exists>s'. get s = Some (cell s (cursor s), s') \<and> ready s' \<and>
           cursor s' = Suc (cursor s) mod limit \<and> cell s' = cell s"
begin

lemma put_all_cells:
  assumes "ready s" "cursor s + length vs < limit"
  shows "\<exists>s'. put_all put vs s = Some s' \<and> ready s' \<and> cursor s' = cursor s + length vs \<and>
     (\<forall>i. cell s' i = (if cursor s \<le> i \<and> i < cursor s + length vs then vs ! (i - cursor s) else cell s i))"
  using assms
proof (induction vs arbitrary: s)
  case (Cons v vs)
  obtain s1 where s1: "put s v = Some s1" "ready s1" "cursor s1 = Suc (cursor s)" "cell s1 = (cell s)(cursor s := v)"
    using put_law [OF Cons.prems(1), of v] Cons.prems(2) by auto
  obtain s2 where s2: "put_all put vs s1 = Some s2" "ready s2" "cursor s2 = cursor s1 + length vs"
    "\<forall>i. cell s2 i = (if cursor s1 \<le> i \<and> i < cursor s1 + length vs then vs ! (i - cursor s1) else cell s1 i)"
    using Cons.IH [OF s1(2)] Cons.prems(2) s1(3) by auto
  show ?case
    using s1 s2 by (auto simp: nth_Cons' intro!: arg_cong [of _ _ "nth vs"])
qed auto

lemma get_n_cells:
  assumes "ready s" "cursor s + n < limit"
  shows "\<exists>s'. get_n get n s = Some (map (cell s) [cursor s..<cursor s + n], s') \<and> ready s' \<and>
     cursor s' = cursor s + n \<and> cell s' = cell s"
  using assms
proof (induction n arbitrary: s)
  case (Suc n)
  obtain s1 where s1: "get s = Some (cell s (cursor s), s1)" "ready s1" "cursor s1 = Suc (cursor s)" "cell s1 = cell s"
    using get_law [OF Suc.prems(1)] Suc.prems(2) by auto
  have "[cursor s..<cursor s + Suc n] = cursor s # [cursor s1..<cursor s1 + n]"
    using s1(3) by (subst upt_conv_Cons) auto
  then show ?case using Suc.IH [OF s1(2)] Suc.prems(2) s1 by (auto simp del: upt_Suc)
qed simp

lemma write_read_back:
  assumes "usable s" "a + length vs < limit"
  shows "\<exists>s'. do { s1 \<leftarrow> seek s a; s2 \<leftarrow> put_all put vs s1; s3 \<leftarrow> seek s2 a; get_n get (length vs) s3 } =
       Some (vs, s') \<and> ready s' \<and>
     (\<forall>i. i < a \<or> a + length vs \<le> i \<longrightarrow> cell s' i = cell s i)"
proof -
  obtain s1 where s1: "seek s a = Some s1" "ready s1" "cursor s1 = a" "cell s1 = cell s"
    using seek_law [OF assms(1), of a] assms(2) by auto
  obtain s2 where s2: "put_all put vs s1 = Some s2" "ready s2" 
    "\<forall>i. cell s2 i = (if a \<le> i \<and> i < a + length vs then vs ! (i - a) else cell s i)"
    using put_all_cells [OF s1(2), of vs] assms(2) s1 by auto
  obtain s3 where s3: "seek s2 a = Some s3" "ready s3" "cursor s3 = a" "cell s3 = cell s2"
    using seek_law [OF ready_usable [OF s2(2)], of a] assms(2) by auto
  have "map (cell s2) [a..<a + length vs] = vs"
    by (rule nth_equalityI) (simp_all add: s2(3))
  then show ?thesis
    using get_n_cells [OF s3(2), of "length vs"] assms(2) s1 s2 s3 by auto
qed

end

definition port_seek :: "'o mailbox \<Rightarrow> nat \<Rightarrow> 'o mailbox option" where
  "port_seek m a = do {
     (_, m1) \<leftarrow> paced m REG_ADDR_LO (byte_of (word_of_nat a :: u32) 0) True;
     (_, m2) \<leftarrow> paced m1 REG_ADDR_MID (byte_of (word_of_nat a :: u32) 1) True;
     (_, m3) \<leftarrow> paced m2 REG_ADDR_HI (byte_of (word_of_nat a :: u32) 2) True;
     Some m3 }"

definition port_put :: "'o mailbox \<Rightarrow> u8 \<Rightarrow> 'o mailbox option" where
  "port_put m v = map_option snd (paced m REG_DATA v True)"

definition port_get :: "'o mailbox \<Rightarrow> (u8 \<times> 'o mailbox) option" where
  "port_get m = paced m REG_DATA 0xFF False"

definition port_usable :: "'o mailbox \<Rightarrow> bool" where
  "port_usable m \<longleftrightarrow> mb_inv m \<and> idle m"

definition port_cursor :: "'o mailbox \<Rightarrow> nat" where
  "port_cursor m = unat (mb_address m)"

definition port_cell :: "'o mailbox \<Rightarrow> nat \<Rightarrow> u8" where
  "port_cell m i = jim m (services_base m + i)"

lemma paced_seek_part:
  assumes "port_usable m" "a \<in> {REG_ADDR_LO, REG_ADDR_MID, REG_ADDR_HI}"
  obtains m' where "paced m a v True = Some (v, m')" "cursor_ready m'" "jim m' = jim m"
    "mb_address m' = cursor_after (mb_address m) a v" "same_config m m'"
proof -
  have i: "idle m" "mb_inv m" using assms(1) by (simp_all add: port_usable_def)
  show ?thesis
    using cursor_landing [OF i cursor_after_less cursor_seek_callback [OF assms(2), of m v], of v] that
    by (metis paced_write [OF i])
qed

lemma byte_bit: "bit (byte_of (a :: u32) k) n \<longleftrightarrow> n < 8 \<and> bit a (8 * k + n)"
  by (auto simp: byte_of_def bit_simps ac_simps dest: bit_imp_le_length)

lemma cursor_seek_word:
  assumes "a AND 0xFFFFFF = (a :: u32)"
  shows "cursor_after (cursor_after (cursor_after c REG_ADDR_LO (byte_of a 0))
     REG_ADDR_MID (byte_of a 1)) REG_ADDR_HI (byte_of a 2) = a"
proof -
  have "(((((c AND 0xFFFF00) OR ucast (byte_of a 0)) AND 0xFF00FF) OR push_bit 8 (ucast (byte_of a 1)))
     AND 0xFFFF) OR push_bit 16 (ucast (byte_of a 2)) = a AND 0xFFFFFF"
  proof (rule bit_word_eqI)
    fix n assume "n < LENGTH(32)"
    consider "n < 8" | "8 \<le> n" "n - 8 < 8" "n < 16" | "16 \<le> n" "n - 16 < 8" | "24 \<le> n" by linarith
    then show "bit ((((((c AND 0xFFFF00) OR ucast (byte_of a 0)) AND 0xFF00FF) OR
      push_bit 8 (ucast (byte_of a 1))) AND 0xFFFF) OR push_bit 16 (ucast (byte_of a 2))) n =
      bit (a AND 0xFFFFFF) n"
      using \<open>n < LENGTH(32)\<close> by cases (simp_all add: mask_words bit_simps byte_bit, auto)
  qed
  then show ?thesis using assms by simp
qed


lemma port_seek_law:
  assumes "port_usable m" "a < JIM_SET_SIZE"
  shows "\<exists>m'. port_seek m a = Some m' \<and> cursor_ready m' \<and> port_cursor m' = a \<and> port_cell m' = port_cell m"
proof -
  let ?a = "word_of_nat a :: u32"
  have ua: "unat ?a = a" using assms(2) by (simp add: unat_of_nat)
  have ru: "cursor_ready m \<Longrightarrow> port_usable m" for m :: "'a mailbox"
    by (simp add: cursor_ready_def port_usable_def)
  obtain m1 where m1: "paced m REG_ADDR_LO (byte_of ?a 0) True = Some (byte_of ?a 0, m1)" "cursor_ready m1"
    "jim m1 = jim m" "mb_address m1 = cursor_after (mb_address m) REG_ADDR_LO (byte_of ?a 0)" "same_config m m1"
    using paced_seek_part [OF assms(1), of REG_ADDR_LO] by blast
  obtain m2 where m2: "paced m1 REG_ADDR_MID (byte_of ?a 1) True = Some (byte_of ?a 1, m2)" "cursor_ready m2"
    "jim m2 = jim m1" "mb_address m2 = cursor_after (mb_address m1) REG_ADDR_MID (byte_of ?a 1)" "same_config m1 m2"
    using paced_seek_part [OF ru [OF m1(2)], of REG_ADDR_MID] by blast
  obtain m3 where m3: "paced m2 REG_ADDR_HI (byte_of ?a 2) True = Some (byte_of ?a 2, m3)" "cursor_ready m3"
    "jim m3 = jim m2" "mb_address m3 = cursor_after (mb_address m2) REG_ADDR_HI (byte_of ?a 2)" "same_config m2 m3"
    using paced_seek_part [OF ru [OF m2(2)], of REG_ADDR_HI] by blast
  have "mb_address m3 = ?a"
    unfolding m3 m2 m1 by (rule cursor_seek_word) (simp add: and_24_id ua assms(2))
  moreover have "port_seek m a = Some m3"
    by (simp only: port_seek_def m1(1) m2(1) m3(1) bind.bind_lunit prod.case)
  ultimately show ?thesis
    using m1 m2 m3 ua by (auto simp: port_cursor_def port_cell_def same_config_def)
qed

lemma cursor_step: "unat (mb_address m) < JIM_SET_SIZE \<Longrightarrow>
    unat (cursor_after (mb_address m) REG_DATA v) = Suc (unat (mb_address m)) mod JIM_SET_SIZE"
  by (simp add: mask_words unsigned_take_bit_eq unat_word_ariths take_bit_eq_mod flip: take_bit_eq_mask)

lemma port_put_law:
  assumes "cursor_ready m"
  shows "\<exists>m'. port_put m v = Some m' \<and> cursor_ready m' \<and>
     port_cursor m' = Suc (port_cursor m) mod JIM_SET_SIZE \<and>
     port_cell m' = (port_cell m)(port_cursor m := v)"
proof -
  have i: "idle m" "mb_inv m" using assms by (simp_all add: cursor_ready_def)
  then have c: "unat (mb_address m) < JIM_SET_SIZE" by (simp add: mb_inv_defs)
  obtain m' where "paced m REG_DATA v True = Some (v, m')" "cursor_ready m'"
    "jim m' = (jim m)(services_base m + unat (mb_address m) := v)"
    "mb_address m' = cursor_after (mb_address m) REG_DATA v" "same_config m m'"
    using cursor_landing [OF i cursor_after_less cursor_write_callback [OF i(2)], of v v] paced_write [OF i]
    by metis
  then show ?thesis
    using cursor_step [OF c] by (auto simp: port_put_def port_cursor_def port_cell_def same_config_def)
qed

lemma port_get_law:
  assumes "cursor_ready m"
  shows "\<exists>m'. port_get m = Some (port_cell m (port_cursor m), m') \<and> cursor_ready m' \<and>
     port_cursor m' = Suc (port_cursor m) mod JIM_SET_SIZE \<and> port_cell m' = port_cell m"
proof -
  have i: "idle m" "mb_inv m" using assms by (simp_all add: cursor_ready_def)
  then have c: "unat (mb_address m) < JIM_SET_SIZE" by (simp add: mb_inv_defs)
  define v where "v = port_cell m (port_cursor m)"
  have v: "read_value m REG_DATA 0xFF = Some v"
    using assms by (simp add: read_value_def cursor_ready_def mb_inv_defs port_cell_def port_cursor_def v_def)
  obtain m' where "paced m REG_DATA 0xFF False = Some (v, m')" "cursor_ready m'"
    "jim m' = jim m" "mb_address m' = cursor_after (mb_address m) REG_DATA v" "same_config m m'"
    using cursor_landing [OF i cursor_after_less cursor_read_callback, of v v] paced_read [OF i v]
    by metis
  then show ?thesis
    using cursor_step [OF c] v_def by (auto simp: port_get_def port_cursor_def port_cell_def same_config_def)
qed

interpretation port: cursor_memory port_seek port_put port_get port_usable cursor_ready port_cursor
  port_cell JIM_SET_SIZE
  by unfold_locales (simp_all add: port_seek_law port_put_law port_get_law, simp add: cursor_ready_def port_usable_def)


subsection \<open>Driving the mailbox\<close>

datatype mb_op = Tick_Fiq nat | Bus_Read u16 u8 | Bus_Write u16 u8 | Host_Read u16 | Host_Write u16 u8
  | Set_Timing nat nat nat | Set_Fiq_Delay nat | Set_Callback_Timing nat nat nat
  | Set_Mirror u8 "bytes option" u8

fun mb_exec :: "mb_op \<Rightarrow> 'o mailbox \<Rightarrow> 'o mailbox option" where
  "mb_exec (Tick_Fiq n) m = tick_fiq m n"
| "mb_exec (Bus_Read a b) m = map_option snd (bus_access m a b False)"
| "mb_exec (Bus_Write a v) m = map_option snd (bus_access m a v True)"
| "mb_exec (Host_Read a) m = map_option snd (mailbox_read m a)"
| "mb_exec (Host_Write a v) m = mailbox_write m a v"
| "mb_exec (Set_Timing c b s) m = set_timing m c b s"
| "mb_exec (Set_Fiq_Delay c) m = set_fiq_delay m c"
| "mb_exec (Set_Callback_Timing c p r) m = Some (set_callback_timing m c p r)"
| "mb_exec (Set_Mirror off d n) m = set_mirror m off d n"

text \<open>The caller's only obligation: the buffer given to \<open>set_mirror\<close> has the stated length.\<close>

fun mb_op_ok :: "mb_op \<Rightarrow> bool" where
  "mb_op_ok (Set_Mirror off (Some d) n) = (unat n \<le> length d)"
| "mb_op_ok _ = True"

lemma mailbox_read_inv: "mb_inv m \<Longrightarrow> \<exists>v m'. mailbox_read m a = Some (v, m') \<and> mb_inv m' \<and> settled m'"
  using bus_access_inv [of m a "0xFF" False]
  by (auto simp: mailbox_read_def mb_inv_defs settled_def)

lemma set_timing_inv: "mb_inv m \<Longrightarrow> \<exists>m'. set_timing m c b s = Some m' \<and> mb_inv m' \<and> settled m'"
proof -
  let ?m = "m\<lparr>capture_delay_ticks := c, callback_delay_ticks := b,
          page_callback_delay_ticks := b, read_callback_delay_ticks := 0,
          service_delay_ticks := s, posted := (posted m)\<lparr>ev_valid := False\<rparr>,
          active := (active m)\<lparr>ev_valid := False\<rparr>, service_pending := False,
          legacy_busy_observation := False, capture_ticks_remaining := 0,
          callback_ticks_remaining := 0, service_ticks_remaining := 0\<rparr>"
  assume "mb_inv m"
  then obtain m' where "publish_service_cursor ?m False = Some m'" "mb_inv m'"
    using publish_service_cursor_inv [of ?m] by (auto simp: mb_inv_defs)
  then show ?thesis
    using publish_service_cursor_frame [of ?m False m'] by (simp add: set_timing_def settled_def)
qed

lemma set_mirror_inv:
  "mb_inv m \<Longrightarrow> settled m \<Longrightarrow> mb_op_ok (Set_Mirror off d n) \<Longrightarrow>
     \<exists>m'. set_mirror m off d n = Some m' \<and> mb_inv m' \<and> settled m'"
  by (cases d) (auto simp: set_mirror_def mb_inv_defs settled_def)

lemma mb_exec_safe:
  assumes "mb_inv m \<and> settled m" "mb_op_ok op"
  shows "\<exists>m'. mb_exec op m = Some m' \<and> mb_inv m' \<and> settled m'"
proof (cases op)
  case (Set_Mirror off d n)
  then show ?thesis using set_mirror_inv assms by auto
next
  case (Set_Callback_Timing c p r)
  then show ?thesis using assms by (simp add: set_callback_timing_def mb_inv_defs settled_def)
next
  case (Bus_Read a b)
  then show ?thesis using assms bus_access_inv [of m a b False] by auto
next
  case (Bus_Write a b)
  then show ?thesis using assms bus_access_inv [of m a b True] by auto
next
  case (Host_Write a b)
  then show ?thesis using assms bus_access_inv [of m a b True] by (auto simp: mailbox_write_def)
next
  case (Host_Read a)
  then show ?thesis using assms mailbox_read_inv [of m a] by auto
qed (use assms tick_fiq_inv set_timing_inv in \<open>auto simp: set_fiq_delay_def\<close>)

interpretation mb: safe_component mb_exec mb_op_ok "\<lambda>m. mb_inv m \<and> settled m"
  by unfold_locales (rule mb_exec_safe)

lemma mailbox_init_inv: "\<exists>m. mailbox_init True m0 (Some f) opq = Some (m, 0) \<and> mb_inv m \<and> settled m"
proof -
  let ?m = "(mailbox_zero opq)\<lparr>jim_size := JIM_SIZE, services_base := JIM_SIZE - SERVICE_SIZE, dispatch := Some f\<rparr>"
  have "mb_geometry ?m" by (simp add: mb_geometry_def mailbox_zero_def)
  then obtain m' where "publish_service_cursor ?m False = Some m'" "mb_inv m'"
    using publish_service_cursor_inv [of ?m] by blast
  then show ?thesis
    using publish_service_cursor_frame [of ?m False m']
    by (simp add: mailbox_init_def settled_def mailbox_zero_def no_event_def)
qed

text \<open>C2: Once \<open>pi1mhz_mailbox_init\<close> has succeeded, no sequence of bus cycles, scheduler ticks, timing changes
  and mirror publications makes the mailbox touch memory outside JIM, the register file or the
  mirror, and after each of them no zero-time transition is left undone and the cursor registers
  show the 24-bit cursor, which stays inside the services set.\<close>

theorem mailbox_ops_safe:
  "\<exists>m. mailbox_init True m0 (Some f) opq = Some (m, 0) \<and>
     (\<forall>ops. list_all mb_op_ok ops \<longrightarrow>
       (\<exists>m'. run_ops mb_exec ops m = Some m' \<and> mb_inv m' \<and> settled m'))"
proof -
  obtain m where "mailbox_init True m0 (Some f) opq = Some (m, 0)" "mb_inv m" "settled m"
    using mailbox_init_inv [of m0 f opq] by blast
  then show ?thesis using mb.run_safe [of m] by blast
qed

theorem mailbox_ops_safe_witness:
  "\<exists>m m'. mailbox_init True (mailbox_zero ()) (Some (\<lambda>opq _ _ j _. (0, j, opq))) () = Some (m, 0) \<and>
     run_ops mb_exec [Set_Timing 2 1 3, Host_Write REG_COMMAND 0xF0, Tick_Fiq 9, Host_Read REG_COMMAND] m =
       Some m' \<and> mb_inv m' \<and> settled m'"
proof -
  let ?ops = "[Set_Timing 2 1 3, Host_Write REG_COMMAND 0xF0, Tick_Fiq 9, Host_Read REG_COMMAND]"
  have "list_all mb_op_ok ?ops" by simp
  then show ?thesis
    using mailbox_ops_safe [of "mailbox_zero ()" "\<lambda>opq _ _ j _. (0, j, opq)" "()"] by metis
qed

text \<open>C4: Bytes a host writes through the data port after setting the cursor are read back unchanged from the
  same cursor position, whatever the configured latencies, when the host waits them out, and no
  other byte of the services set changes.\<close>

theorem data_port_roundtrip:
  assumes "mb_inv m" "idle m" "a + length vs < JIM_SET_SIZE"
  shows "\<exists>m'. do { m1 \<leftarrow> port_seek m a; m2 \<leftarrow> put_all port_put vs m1; m3 \<leftarrow> port_seek m2 a;
         get_n port_get (length vs) m3 } = Some (vs, m') \<and> cursor_ready m' \<and>
     (\<forall>i. i < a \<or> a + length vs \<le> i \<longrightarrow> jim m' (services_base m' + i) = jim m (services_base m + i))"
  using port.write_read_back [of m a vs] assms by (simp add: port_usable_def port_cell_def)


definition demo_dispatch :: "nat dispatch_fn" where
  "demo_dispatch opq sel cp j n = (sel - 0xF0, j(unat cp := sel), opq + 1)"

definition demo_mailbox :: "nat mailbox" where
  "demo_mailbox = (mailbox_zero 0)\<lparr>jim_size := JIM_SIZE, services_base := JIM_SIZE - SERVICE_SIZE,
     dispatch := Some demo_dispatch, capture_delay_ticks := 3, callback_delay_ticks := 2,
     page_callback_delay_ticks := 4, service_delay_ticks := 5\<rparr>"

lemma replicate_3: "replicate 3 x = [x, x, x]"
  by (simp add: numeral_eq_Suc)

lemma demo_mailbox_inv: "mb_inv demo_mailbox" "idle demo_mailbox"
  by (simp_all add: demo_mailbox_def mailbox_zero_def mb_inv_defs idle_def no_event_def byte_of_def
      replicate_3)

theorem data_port_roundtrip_witness:
  "\<exists>m'. do { m1 \<leftarrow> port_seek demo_mailbox 0x1234; m2 \<leftarrow> put_all port_put [7, 8, 9] m1; m3 \<leftarrow> port_seek m2 0x1234;
         get_n port_get (length [7, 8, 9 :: u8]) m3 } = Some ([7, 8, 9], m')"
  using data_port_roundtrip [of demo_mailbox "0x1234" "[7, 8, 9]"] demo_mailbox_inv by auto

subsection \<open>The life of a command\<close>

lemma drain_idle_service:
  assumes "\<not> ev_valid (active m)" "\<not> ev_valid (posted m)" "service_pending m"
    "service_ticks_remaining m = n + j" "0 < n"
  shows "tick_fiq m j = Some (m\<lparr>service_ticks_remaining := n\<rparr>)"
  using assms
proof (induction j arbitrary: m)
  case (Suc j)
  have "tick_once m = Some (m\<lparr>service_ticks_remaining := n + j\<rparr>)"
    using Suc.prems by (simp add: tick_once_def tick_service_def tick_capture_def tick_callback_def
        drain_settled settled_def)
  then show ?case using Suc by simp
qed simp

lemma complete_service_ticks:
  "complete_service (m\<lparr>service_ticks_remaining := n\<rparr>) = complete_service m"
  by (simp add: complete_service_def command_pointer_def Let_def split: option.split)

lemma tick_to_service:
  assumes "\<not> ev_valid (active m)" "\<not> ev_valid (posted m)" "service_pending m"
  shows "do { m' \<leftarrow> drain_zero_time_transitions m; tick_fiq m' (service_ticks_remaining m) } =
     complete_service m"
proof (cases "service_ticks_remaining m")
  case (Suc j)
  have "tick_fiq m (j + 1) = do { m' \<leftarrow> Some (m\<lparr>service_ticks_remaining := 1\<rparr>); tick_fiq m' 1 }"
    using drain_idle_service [OF assms, of 1 j] Suc by (simp only: tick_fiq_add)
  also have "\<dots> = do { m' \<leftarrow> complete_service m; drain_zero_time_transitions m' }"
    using assms complete_service_frame [of m]
    by (auto simp add: tick_once_def tick_service_def tick_capture_def tick_callback_def
        complete_service_ticks split: bind_split)
  also have "\<dots> = complete_service m"
    using complete_service_frame [of m] assms
    by (auto split: bind_split simp: drain_settled settled_def)
  finally show ?thesis using assms Suc by (simp add: drain_no_event)
next
  case 0
  then show ?thesis using assms by (simp add: drain_no_event)
qed


lemma command_landed:
  assumes "0xF0 \<le> v" "mb_inv m" "idle m"
  defines "q \<equiv> command_callback (landed m REG_COMMAND v True) v"
  shows "complete_active_callback (captured m REG_COMMAND v True) = Some q"
    and "\<not> ev_valid (active q)" "\<not> ev_valid (posted q)" "service_pending q" "selector q = v"
    and "service_ticks_remaining q = service_delay_ticks m" "dispatch q = dispatch m"
    and "same_config m q" "jim q = jim m" "vpu_registers q ! 4 = NET_BUSY" "length (vpu_registers q) = 6"
proof -
  show "complete_active_callback (captured m REG_COMMAND v True) = Some q"
    by (simp add: complete_active_callback_def captured_active q_def landed_def Let_def)
  show "same_config m q"
    using landed_fields(10) [of m REG_COMMAND v True]
    by (simp add: q_def command_callback_def same_config_def Let_def)
qed (use assms in \<open>simp_all add: q_def command_callback_def Let_def mb_inv_defs,
  (simp_all add: landed_def captured_def capture_posted_event_def Let_def)?\<close>)


lemma command_posted:
  assumes "mb_inv m" "idle m" "0xF0 \<le> v"
  defines "q \<equiv> command_callback (landed m REG_COMMAND v True) v"
  shows "do { (x, m1) \<leftarrow> bus_access m REG_COMMAND v True;
      tick_fiq m1 (capture_delay_ticks m + callback_delay_ticks m + n) } =
    do { m2 \<leftarrow> drain_zero_time_transitions q; tick_fiq m2 n }"
proof -
  have d: "callback_delay_of m REG_COMMAND True = callback_delay_ticks m"
    by (simp add: callback_delay_of_def)
  have "do { (x, m1) \<leftarrow> bus_access m REG_COMMAND v True;
      tick_fiq m1 (capture_delay_ticks m + callback_delay_ticks m + n) } =
    do { (x, m2) \<leftarrow> paced m REG_COMMAND v True; tick_fiq m2 n }"
    by (simp add: paced_def tick_fiq_add [of _ _ n] d split: bind_split)
  then show ?thesis
    by (simp add: paced_write [OF assms(2, 1)] command_landed(1) [OF assms(3, 1, 2)] q_def)
qed

text \<open>The pointer the dispatcher is given, and what the mailbox looks like once the command has completed.\<close>

abbreviation command_page :: "'o mailbox \<Rightarrow> u8 \<Rightarrow> u32" where
  "command_page m v \<equiv> (word_of_nat (services_base m) OR 0xFF0000) OR push_bit 8 (ucast v)"

lemma command_completed:
  assumes "mb_inv m" "idle m" "0xF0 \<le> v" "dispatch m = Some f"
    and out: "out = f (dispatch_opaque m) v (command_page m v) (jim m) (jim_size m)"
  shows "\<exists>m'. do { (x, m1) \<leftarrow> bus_access m REG_COMMAND v True;
            tick_fiq m1 (capture_delay_ticks m + callback_delay_ticks m + service_delay_ticks m) } = Some m' \<and>
       idle m' \<and> read_value m' REG_COMMAND b = Some (fst out) \<and> jim m' = fst (snd out) \<and>
       dispatch_opaque m' = snd (snd out)"
proof -
  define q where "q = command_callback (landed m REG_COMMAND v True) v"
  note q = command_landed [OF assms(3, 1, 2), folded q_def]
  have "do { m2 \<leftarrow> drain_zero_time_transitions q; tick_fiq m2 (service_delay_ticks m) } = complete_service q"
    using tick_to_service [of q] q by simp
  moreover have "\<exists>m'. complete_service q = Some m' \<and> idle m' \<and> read_value m' REG_COMMAND b = Some (fst out) \<and>
      jim m' = fst (snd out) \<and> dispatch_opaque m' = snd (snd out)"
    using q assms(4) unfolding out
    by (simp add: complete_service_def Let_def idle_def read_value_def command_pointer_def same_config_def)
  ultimately show ?thesis using command_posted [OF assms(1-3), folded q_def] by simp
qed

text \<open>C3: A service command written to an idle mailbox is accepted after exactly the interrupt and callback
  latencies; from then on the command register reads BUSY and neither JIM nor the service state
  changes until the service latency has also elapsed, when the dispatcher has run once, on that
  selector, its command pointer and the JIM contents, and its result is what the register shows.\<close>

theorem command_lifecycle:
  assumes "mb_inv m" "idle m" "0xF0 \<le> v" "dispatch m = Some f"
    and out: "out = f (dispatch_opaque m) v
       ((word_of_nat (services_base m) OR 0xFF0000) OR push_bit 8 (ucast v)) (jim m) (jim_size m)"
  shows "(\<forall>j < service_delay_ticks m. \<exists>m'.
       do { (x, m1) \<leftarrow> bus_access m REG_COMMAND v True;
            tick_fiq m1 (capture_delay_ticks m + callback_delay_ticks m + j) } = Some m' \<and>
       read_value m' REG_COMMAND b = Some NET_BUSY \<and> jim m' = jim m \<and>
       dispatch_opaque m' = dispatch_opaque m) \<and>
     (\<exists>m'. do { (x, m1) \<leftarrow> bus_access m REG_COMMAND v True;
            tick_fiq m1 (capture_delay_ticks m + callback_delay_ticks m + service_delay_ticks m) } = Some m' \<and>
       idle m' \<and> read_value m' REG_COMMAND b = Some (fst out) \<and> jim m' = fst (snd out) \<and>
       dispatch_opaque m' = snd (snd out))"
proof -
  define q where "q = command_callback (landed m REG_COMMAND v True) v"
  note q = command_landed [OF assms(3, 1, 2), folded q_def]
  note posted = command_posted [OF assms(1-3), folded q_def]
  have busy: "\<exists>m'. do { m2 \<leftarrow> drain_zero_time_transitions q; tick_fiq m2 j } = Some m' \<and>
      read_value m' REG_COMMAND b = Some NET_BUSY \<and> jim m' = jim m \<and>
      dispatch_opaque m' = dispatch_opaque m" if "j < service_delay_ticks m" for j
    using drain_idle_service [of q "service_delay_ticks m - j" j] that q
    by (simp add: drain_no_event read_value_def same_config_def)
  then show ?thesis using posted command_completed [OF assms(1-4) out] by simp
qed

theorem command_lifecycle_witness:
  "\<exists>m'. do { (x, m1) \<leftarrow> bus_access demo_mailbox REG_COMMAND 0xF3 True; tick_fiq m1 10 } = Some m' \<and>
     idle m' \<and> read_value m' REG_COMMAND 0 = Some 3 \<and> dispatch_opaque m' = 1"
  using command_lifecycle [OF demo_mailbox_inv, of "0xF3" demo_dispatch _ 0]
  by (auto simp: demo_mailbox_def demo_dispatch_def mailbox_zero_def)

text \<open>The VPU has one posting slot: a second bus cycle that arrives before the first has been captured
  replaces it, and the interrupt latency already running is not restarted. After the latency of
  the first cycle the machine is as if only the second had been posted.\<close>

theorem posted_event_overwritten:
  assumes "idle m" "jim_size m \<noteq> 0" "j < capture_delay_ticks m"
  shows "do { m1 \<leftarrow> mailbox_write m a1 v1; m2 \<leftarrow> tick_fiq m1 j; m3 \<leftarrow> mailbox_write m2 a2 v2;
              tick_fiq m3 (capture_delay_ticks m - j) } =
         do { m1 \<leftarrow> mailbox_write m a2 v2; tick_fiq m1 (capture_delay_ticks m) }"
proof -
  define c where "c = capture_delay_ticks m - j"
  define p where "p a v = m\<lparr>posted := \<lparr>ev_address = a, ev_value = v, ev_write = True, ev_valid = True\<rparr>,
    capture_ticks_remaining := c + j\<rparr>" for a :: u16 and v :: u8
  have c: "0 < c" "c + j = capture_delay_ticks m" using assms(3) by (simp_all add: c_def)
  have w: "mailbox_write m a v = Some (p a v)" for a v
    using assms c by (simp add: mailbox_write_def bus_access_def post_fiq_event_def p_def idle_def
        drain_settled settled_def)
  have t: "tick_fiq (p a v) j = Some ((p a v)\<lparr>capture_ticks_remaining := c\<rparr>)" for a v
    using assms(1) c by (intro tick_waiting_capture) (simp_all add: p_def idle_def)
  have w2: "mailbox_write ((p a1 v1)\<lparr>capture_ticks_remaining := c\<rparr>) a2 v2 =
      Some ((p a2 v2)\<lparr>capture_ticks_remaining := c\<rparr>)"
    using assms c by (simp add: mailbox_write_def bus_access_def post_fiq_event_def p_def idle_def
        drain_settled settled_def)
  have "tick_fiq (p a2 v2) (capture_delay_ticks m) = tick_fiq ((p a2 v2)\<lparr>capture_ticks_remaining := c\<rparr>) c"
    using c t [of a2 v2] tick_fiq_add [of "p a2 v2" j c] by (simp add: add.commute)
  then show ?thesis by (simp add: w t w2 flip: c_def)
qed

theorem posted_event_overwritten_witness:
  "do { m1 \<leftarrow> mailbox_write demo_mailbox REG_DATA 1; m2 \<leftarrow> tick_fiq m1 2; m3 \<leftarrow> mailbox_write m2 REG_ADDR_LO 9;
        tick_fiq m3 1 } = do { m1 \<leftarrow> mailbox_write demo_mailbox REG_ADDR_LO 9; tick_fiq m1 3 }"
  using posted_event_overwritten [OF demo_mailbox_inv(2), of 2 REG_DATA 1 REG_ADDR_LO 9]
  by (simp add: demo_mailbox_def del: tick_fiq.simps)


subsection \<open>The page window\<close>

lemma set_in_jim:
  assumes "mb_geometry m" "n \<le> (jim_size m - 1) div JIM_SET_SIZE"
  shows "n * JIM_SET_SIZE + JIM_SET_SIZE \<le> jim_size m"
proof -
  obtain k where k: "jim_size m = JIM_SET_SIZE * k" using assms by (auto simp: mb_geometry_def)
  have "0 < jim_size m" using assms by (simp add: mb_geometry_def)
  then have "(jim_size m - 1) div JIM_SET_SIZE < k"
    unfolding k by (intro less_mult_imp_div_less) simp
  then have "Suc n \<le> k" using assms(2) by linarith
  then have "JIM_SET_SIZE * Suc n \<le> jim_size m" unfolding k by (rule mult_le_mono2)
  then show ?thesis by simp
qed

lemma page_low_less: "unat (p AND 0xFFFF :: u32) < 65536"
  using word_and_le1 [of p "0xFFFF"] by (simp add: word_le_nat_alt)

lemma page_base_in_jim:
  assumes "mb_geometry m"
  shows "page_base_address m = unat (drop_bit 16 (mb_page m)) * JIM_SET_SIZE + unat (mb_page m AND 0xFFFF) * 256"
    "page_base_address m + 256 \<le> jim_size m"
proof -
  have s: "unat (drop_bit 16 (mb_page m)) * JIM_SET_SIZE + JIM_SET_SIZE \<le> jim_size m"
    using assms by (intro set_in_jim) (simp_all add: mb_geometry_def)
  then show b: "page_base_address m = unat (drop_bit 16 (mb_page m)) * JIM_SET_SIZE + unat (mb_page m AND 0xFFFF) * 256"
    by (simp add: page_base_address_def)
  show "page_base_address m + 256 \<le> jim_size m"
    unfolding b using s page_low_less [of "mb_page m"] by linarith
qed

lemma page_window_published:
  assumes "mb_geometry m"
  shows "page_window (publish_page_window m) = (\<lambda>i. jim m (page_base_address m + i))"
proof -
  have "page_base_address m \<le> jim_size m - 256" using page_base_in_jim(2) [OF assms] by linarith
  then show ?thesis by (simp add: publish_page_window_def Let_def)
qed

definition page_after :: "'o mailbox \<Rightarrow> u16 \<Rightarrow> u8 \<Rightarrow> u32" where
  "page_after m a v = (if a = REG_PAGE_HI then mb_page (select_page_hi m v)
     else if a = REG_PAGE_MID then (mb_page m AND 0xFF00FF) OR push_bit 8 (ucast v)
     else (mb_page m AND 0xFFFF00) OR ucast v)"

lemma paced_page:
  assumes "mb_inv m" "idle m" "a \<in> {REG_PAGE_HI, REG_PAGE_MID, REG_PAGE_LO}"
  obtains m' where "paced m a v True = Some (v, m')" "mb_inv m'" "idle m'" "jim m' = jim m"
    "jim_size m' = jim_size m" "mb_page m' = page_after m a v"
    "page_window m' = (\<lambda>i. jim m (page_base_address m' + i))"
proof -
  let ?l = "landed m a v True"
  define q where "q = (if a = REG_PAGE_HI then select_page_hi ?l v else ?l\<lparr>mb_page := page_after m a v\<rparr>)"
  have l: "mb_inv ?l" using assms(1) by simp
  have q: "mb_inv q"
    using assms(3) select_page_hi_inv [OF l] page_mid_lo_inv [OF l, of v] by (auto simp: q_def page_after_def)
  have f: "jim q = jim m" "jim_size q = jim_size m" "mb_page q = page_after m a v" "active q = active ?l"
    "posted q = posted ?l" "service_pending q = service_pending ?l"
    by (simp_all add: q_def page_after_def select_page_hi_def Let_def)
  define m' where "m' = page_selected q a"
  have cb: "complete_active_callback (captured m a v True) = Some m'"
    using assms(3) by (auto simp: complete_active_callback_def captured_active q_def page_after_def landed_def
        m'_def Let_def)
  have i: "idle m'" using assms(2) f by (simp add: m'_def page_selected_def idle_def)
  have b: "page_base_address m' = page_base_address q"
    by (simp add: m'_def page_selected_def page_base_address_def Let_def)
  have "page_window m' = (\<lambda>i. jim m (page_base_address m' + i))"
    using page_window_published [of q] q f unfolding b
    by (simp add: m'_def page_selected_def mb_inv_def)
  moreover have "paced m a v True = Some (v, m')"
    using paced_write [OF assms(2, 1)] cb i by (simp add: drain_settled idle_settled)
  ultimately show ?thesis
    using that [of m'] q i f by (simp add: m'_def page_selected_def)
qed


lemma page_word:
  "((((p AND 0xFFFF) OR push_bit 16 (ucast h)) AND 0xFF00FF OR push_bit 8 (ucast k)) AND 0xFFFF00) OR ucast l
     = le24 l k (h :: u8)"
proof (rule bit_word_eqI)
  fix n assume "n < LENGTH(32)"
  consider "n < 8" | "8 \<le> n" "n - 8 < 16" "n < 16" | "16 \<le> n" "n - 16 < 8" "n - 8 < 16" "\<not> n - 8 < 8" | "24 \<le> n" by linarith
  then show "bit (((((p AND 0xFFFF) OR push_bit 16 (ucast h)) AND 0xFF00FF OR push_bit 8 (ucast k)) AND 0xFFFF00) OR ucast l) n
     = bit (le24 l k h) n"
    using \<open>n < LENGTH(32)\<close> by cases (auto simp: mask_words le24_def bit_simps bit_byte_high)
qed

lemma unat_and_mask: "unat (w AND mask n) = unat w mod 2 ^ n"
  by (simp only: unsigned_take_bit_eq flip: take_bit_eq_mask) (simp only: take_bit_eq_mod)

lemma le24_parts:
  "drop_bit 16 (le24 l k h) = ucast h" "unat (le24 l k h AND 0xFFFF) = unat l + 256 * unat k"
proof -
  have "unat (drop_bit 16 (le24 l k h)) = unat h"
    using unsigned_less [of l, where ?'a = nat] unsigned_less [of k, where ?'a = nat]
      unsigned_less [of h, where ?'a = nat]
    by (subst unsigned_drop_bit_eq) (simp add: unat_le24 drop_bit_eq_div take_bit_nat_eq_self)
  then show "drop_bit 16 (le24 l k h) = ucast h"
    by (intro word_unat_eq_iff [THEN iffD2]) (simp add: unat_ucast_byte)
  show "unat (le24 l k h AND 0xFFFF) = unat l + 256 * unat k"
    using unsigned_less [of l, where ?'a = nat] unsigned_less [of k, where ?'a = nat]
    by (simp only: mask_words unat_and_mask unat_le24) simp
qed

lemma mb_page_hi:
  assumes "mb_inv m"
  shows "\<exists>h. page_after m REG_PAGE_HI v = (mb_page m AND 0xFFFF) OR push_bit 16 (ucast h) \<and>
     unat (h :: u8) = min (unat v) ((jim_size m - 1) div JIM_SET_SIZE)"
proof -
  define top :: u8 where "top = word_of_nat ((jim_size m - 1) div JIM_SET_SIZE)"
  have t: "unat top = (jim_size m - 1) div JIM_SET_SIZE"
    using assms max_set_fits [of m] by (simp add: mb_inv_def top_def)
  have "page_after m REG_PAGE_HI v = (mb_page m AND 0xFFFF) OR push_bit 16 (ucast (if top < v then top else v))"
    unfolding page_after_def select_page_hi_def Let_def top_def [symmetric] by simp
  moreover have "unat (if top < v then top else v) = min (unat v) ((jim_size m - 1) div JIM_SET_SIZE)"
    unfolding t [symmetric] by (auto simp: word_less_nat_alt)
  ultimately show ?thesis by blast
qed

text \<open>Writing the three page selectors of an idle mailbox, each with its latency waited out, makes the
  256-byte window show exactly the selected JIM page, with a set number beyond the installed
  memory clamped to the last installed set; JIM itself is not changed.\<close>

theorem page_select_window:
  assumes "mb_inv m" "idle m"
  shows "\<exists>m1 m2 m3. paced m REG_PAGE_HI hi True = Some (hi, m1) \<and> paced m1 REG_PAGE_MID mid True = Some (mid, m2) \<and>
     paced m2 REG_PAGE_LO lo True = Some (lo, m3) \<and> idle m3 \<and> jim m3 = jim m \<and>
     page_window m3 = (\<lambda>k. jim m (min (unat hi) ((jim_size m - 1) div JIM_SET_SIZE) * JIM_SET_SIZE +
       (256 * unat mid + unat lo) * 256 + k))"
proof -
  obtain m1 where m1: "paced m REG_PAGE_HI hi True = Some (hi, m1)" "mb_inv m1" "idle m1" "jim m1 = jim m"
    "jim_size m1 = jim_size m" "mb_page m1 = page_after m REG_PAGE_HI hi"
    using paced_page [OF assms, of REG_PAGE_HI hi] by blast
  obtain m2 where m2: "paced m1 REG_PAGE_MID mid True = Some (mid, m2)" "mb_inv m2" "idle m2" "jim m2 = jim m1"
    "jim_size m2 = jim_size m1" "mb_page m2 = page_after m1 REG_PAGE_MID mid"
    using paced_page [OF m1(2, 3), of REG_PAGE_MID mid] by blast
  obtain m3 where m3: "paced m2 REG_PAGE_LO lo True = Some (lo, m3)" "mb_inv m3" "idle m3" "jim m3 = jim m2"
    "jim_size m3 = jim_size m2" "mb_page m3 = page_after m2 REG_PAGE_LO lo"
    "page_window m3 = (\<lambda>i. jim m2 (page_base_address m3 + i))"
    using paced_page [OF m2(2, 3), of REG_PAGE_LO lo] by blast
  obtain h where h: "page_after m REG_PAGE_HI hi = (mb_page m AND 0xFFFF) OR push_bit 16 (ucast h)"
    "unat (h :: u8) = min (unat hi) ((jim_size m - 1) div JIM_SET_SIZE)"
    using mb_page_hi [OF assms(1)] by blast
  have "mb_page m3 = le24 lo mid h"
    using m3(6) m2(6) m1(6) h(1) page_word [of "mb_page m" h mid lo] by (simp add: page_after_def)
  then have "page_base_address m3 = unat h * JIM_SET_SIZE + (256 * unat mid + unat lo) * 256"
    using page_base_in_jim(1) [of m3] m3(2) by (simp add: mb_inv_def le24_parts unat_ucast_byte)
  then show ?thesis using m1 m2 m3 h(2) by auto
qed

theorem page_select_window_witness:
  "\<exists>m1 m2 m3. paced demo_mailbox REG_PAGE_HI 9 True = Some (9, m1) \<and> paced m1 REG_PAGE_MID 1 True = Some (1, m2) \<and>
     paced m2 REG_PAGE_LO 2 True = Some (2, m3) \<and>
     page_window m3 = (\<lambda>k. jim demo_mailbox (2 * JIM_SET_SIZE + 0x10200 + k))"
  using page_select_window [OF demo_mailbox_inv, of 9 1 2]
  by (auto simp: demo_mailbox_def)


lemma or_low_byte: "k < 256 \<Longrightarrow> (n * 256) OR k = n * 256 + (k :: nat)"
proof -
  assume "k < 256"
  then have "take_bit 8 k = k" by (simp add: take_bit_nat_eq_self)
  moreover have "push_bit 8 n AND take_bit 8 k = 0"
    by (rule bit_eqI) (auto simp: bit_simps)
  ultimately have "push_bit 8 n AND k = 0" by simp
  then have "push_bit 8 n OR k = push_bit 8 n + k" by (simp add: disjunctive_add_eq_or)
  then show ?thesis by (simp add: push_bit_eq_mult mult.commute)
qed

lemma page_low_byte: "PAGE_BASE \<le> a \<Longrightarrow> a \<le> PAGE_END \<Longrightarrow> unat (a AND 0xFF) = unat (a - PAGE_BASE)"
proof -
  assume a: "PAGE_BASE \<le> a" "a \<le> PAGE_END"
  have "(0xFF :: u16) = mask 8" by code_simp
  then have "unat (a AND 0xFF) = unat a mod 2 ^ 8" by (simp only: unat_and_mask)
  moreover obtain k where "unat a = 0xFD00 + k" "k < 256"
    using a by (auto simp: word_le_nat_alt dest!: le_Suc_ex)
  moreover have "(0xFD00 + k) mod 256 = k" if "k < 256" for k :: nat
    using that mod_add_left_eq [of "0xFD00" 256 k] by simp
  ultimately show ?thesis using a by (simp add: unat_sub)
qed

text \<open>A byte written into the page window of an idle mailbox reaches exactly the JIM byte behind it, and the
  window shows it at once; every other byte of JIM and of the window keeps its value.\<close>

theorem page_write_through:
  assumes "mb_inv m" "idle m" "PAGE_BASE \<le> a" "a \<le> PAGE_END"
  shows "\<exists>m'. paced m a v True = Some (v, m') \<and> idle m' \<and>
     page_base_address m' = page_base_address m \<and>
     page_base_address m + unat (a - PAGE_BASE) < jim_size m \<and>
     jim m' = (jim m)(page_base_address m + unat (a - PAGE_BASE) := v) \<and>
     page_window m' = (page_window m)(unat (a - PAGE_BASE) := v)"
proof -
  let ?l = "landed m a v True" and ?k = "unat (a - PAGE_BASE)"
  define m' where "m' = page_data_callback ?l a v"
  have k: "?k < 256" using assms(3, 4) by (simp add: unat_sub word_le_nat_alt)
  have g: "mb_geometry m" using assms(1) by (simp add: mb_inv_def)
  have "page_base_address m OR ?k = page_base_address m + ?k"
    using page_base_in_jim(1) [OF g] or_low_byte [OF k, of "unat (drop_bit 16 (mb_page m)) * 65536 + unat (mb_page m AND 0xFFFF)"]
    by (simp add: algebra_simps)
  moreover have "page_base_address ?l = page_base_address m" by (simp add: page_base_address_def Let_def)
  moreover have in_jim: "page_base_address m + ?k < jim_size m" using page_base_in_jim(2) [OF g] k by linarith
  moreover have "page_window ?l = page_window m"
    using landed_fields(10) [of m a v True] by (simp add: same_config_def)
  ultimately have f: "page_base_address m' = page_base_address m" "jim m' = (jim m)(page_base_address m + ?k := v)"
    "page_window m' = (page_window m)(?k := v)"
    by (simp_all add: m'_def page_data_callback_def page_low_byte [OF assms(3, 4)] page_base_address_def Let_def)
  have "a \<notin> {REG_ADDR_LO, REG_ADDR_MID, REG_ADDR_HI, REG_DATA, REG_COMMAND, REG_PAGE_HI, REG_PAGE_MID, REG_PAGE_LO}"
    using assms(3) by (auto simp: word_le_nat_alt)
  then have cb: "complete_active_callback (captured m a v True) = Some m'"
    using assms(3, 4) by (simp add: complete_active_callback_def captured_active landed_def m'_def Let_def)
  have "idle m'" using assms(2) by (simp add: m'_def page_data_callback_def idle_def Let_def)
  then show ?thesis
    using paced_write [OF assms(2, 1)] cb f in_jim by (simp add: drain_settled idle_settled)
qed

theorem page_write_through_witness:
  "\<exists>m'. paced demo_mailbox 0xFD12 7 True = Some (7, m') \<and> jim m' = (jim demo_mailbox)(0x12 := 7)"
  using page_write_through [OF demo_mailbox_inv, of "0xFD12" 7]
  by (auto simp: demo_mailbox_def page_base_address_def mailbox_zero_def)

subsection \<open>The mirrored trampoline\<close>

definition mirror_of :: "'o mailbox \<Rightarrow> u8 list \<times> u8 \<times> u8" where
  "mirror_of m = (mirror m, mirror_offset m, mirror_length m)"

lemma publish_service_cursor_mirror: "publish_service_cursor m d = Some m' \<Longrightarrow> mirror_of m' = mirror_of m"
  by (cases d) (auto simp: publish_service_cursor_def Let_def bind_eq_Some_conv mirror_of_def)

lemma complete_active_callback_mirror:
  "complete_active_callback m = Some m' \<Longrightarrow> mirror_of m' = mirror_of m"
  by (auto simp: complete_active_callback_def command_callback_def page_data_callback_def page_selected_def
      select_page_hi_def data_write_callback_def jim_wr_def Let_def bind_eq_Some_conv mirror_of_def
      dest!: publish_service_cursor_mirror split: if_splits)

lemma complete_service_mirror: "complete_service m = Some m' \<Longrightarrow> mirror_of m' = mirror_of m"
  by (auto simp: complete_service_def Let_def mirror_of_def split: option.splits)

lemma drain_once_mirror: "drain_once m = Some (m', c) \<Longrightarrow> mirror_of m' = mirror_of m"
  by (auto simp: drain_once_def Let_def bind_eq_Some_conv capture_posted_event_def
      dest!: complete_active_callback_mirror complete_service_mirror split: if_splits)
    (simp_all add: mirror_of_def)

lemma drain_mirror: "drain_zero_time_transitions m = Some m' \<Longrightarrow> mirror_of m' = mirror_of m"
proof (induction m rule: drain_zero_time_transitions.induct)
  case (1 m)
  then show ?case
    by (auto simp: drain_zero_time_transitions.simps [of m] dest: drain_once_mirror
        split: option.splits if_splits)
qed

lemma tick_once_mirror: "tick_once m = Some m' \<Longrightarrow> mirror_of m' = mirror_of m"
  by (auto simp: tick_once_def tick_service_def tick_capture_def tick_callback_def Let_def bind_eq_Some_conv
      dest!: complete_active_callback_mirror complete_service_mirror drain_mirror split: if_splits)
    (simp_all add: mirror_of_def)

lemma tick_fiq_mirror: "tick_fiq m n = Some m' \<Longrightarrow> mirror_of m' = mirror_of m"
  by (induction n arbitrary: m) (auto simp: bind_eq_Some_conv dest: tick_once_mirror)

lemma bus_access_mirror: "bus_access m a v w = Some (x, m') \<Longrightarrow> mirror_of m' = mirror_of m"
  by (auto simp: bus_access_def post_fiq_event_def Let_def bind_eq_Some_conv mirror_of_def
      dest!: drain_mirror split: if_splits)

fun sets_mirror :: "mb_op \<Rightarrow> bool" where
  "sets_mirror (Set_Mirror _ _ _) = True"
| "sets_mirror _ = False"

lemma mailbox_read_mirror: "mailbox_read m a = Some (x, m') \<Longrightarrow> mirror_of m' = mirror_of m"
  by (auto simp: mailbox_read_def bind_eq_Some_conv dest!: bus_access_mirror split: if_splits)
    (simp_all add: mirror_of_def)

lemma set_timing_mirror: "set_timing m c b s = Some m' \<Longrightarrow> mirror_of m' = mirror_of m"
  by (auto simp: set_timing_def mirror_of_def dest!: publish_service_cursor_mirror)

lemma mb_exec_mirror: "mb_exec op m = Some m' \<Longrightarrow> \<not> sets_mirror op \<Longrightarrow> mirror_of m' = mirror_of m"
  by (cases op) (auto dest: tick_fiq_mirror bus_access_mirror mailbox_read_mirror set_timing_mirror
      simp: mailbox_write_def set_fiq_delay_def set_callback_timing_def mirror_of_def)

lemma run_ops_mirror:
  "run_ops mb_exec ops m = Some m' \<Longrightarrow> list_all (\<lambda>op. \<not> sets_mirror op) ops \<Longrightarrow> mirror_of m' = mirror_of m"
  by (induction ops arbitrary: m) (auto simp: bind_eq_Some_conv dest: mb_exec_mirror)

lemma page_address: "t < 256 \<Longrightarrow> unat (PAGE_BASE + word_of_nat t :: u16) = 0xFD00 + t"
  by (simp add: unat_word_ariths unat_of_nat)

text \<open>C7: A trampoline published with \<open>set_mirror\<close> is what the host reads at its offsets from then on, whatever page
  is selected and whatever the bus cycles, the dispatcher and the scheduler have done to JIM and
  the page window in between, until another mirror is published.\<close>

theorem mirror_persists:
  assumes "mb_inv m" "settled m" "0 < unat n" "unat off + unat n \<le> 256" "unat n \<le> 160" "unat n \<le> length d"
    and "list_all mb_op_ok ops" "list_all (\<lambda>op. \<not> sets_mirror op) ops" "k < unat n"
  shows "\<exists>m1 m2 m3. set_mirror m off (Some d) n = Some m1 \<and> run_ops mb_exec ops m1 = Some m2 \<and>
     bus_access m2 (PAGE_BASE + word_of_nat (unat off + k)) b False = Some (d ! k, m3)"
proof -
  obtain m1 where m1: "set_mirror m off (Some d) n = Some m1" "mb_inv m1" "settled m1"
    using set_mirror_inv [OF assms(1,2), of off "Some d" n] assms(6) by auto
  have n: "n \<noteq> 0" using assms(3) by auto
  have mir: "mirror_of m1 = (splice (mirror m) 0 (seg d 0 (unat n)), off, n)"
    using m1(1) assms n by (auto simp: set_mirror_def mirror_of_def)
  obtain m2 where m2: "run_ops mb_exec ops m1 = Some m2" "mb_inv m2"
    using mb.run_safe [of m1 ops] m1 assms(7) by auto
  have mir2: "mirror_of m2 = mirror_of m1" using run_ops_mirror [OF m2(1) assms(8)] .
  define a :: u16 where "a = PAGE_BASE + word_of_nat (unat off + k)"
  have ua: "unat a = 0xFD00 + (unat off + k)" 
    using page_address [of "unat off + k"] assms(4, 9) unfolding a_def by simp
  then have range: "PAGE_BASE \<le> a" "a \<le> PAGE_END" using assms(4, 9) by (simp_all add: word_le_nat_alt)
  have low: "unat (a AND 0xFF) = unat off + k"
    using page_low_byte [OF range] ua range(1) by (simp add: unat_sub)
  have "length (mirror m) = 160" using assms(1) by (simp add: mb_inv_defs)
  then have "splice (mirror m) 0 (seg d 0 (unat n)) ! (0 + k) = d ! k"
    using assms by (subst nth_splice) simp_all
  then have "read_value m2 a b = Some (d ! k)"
    using mir mir2 range low assms m2(2) n
    by (auto simp: read_value_def mirror_of_def rd8_def mb_inv_defs Let_def)
  moreover have "jim_size m2 \<noteq> 0" using m2(2) by (simp add: mb_inv_defs)
  ultimately show ?thesis
    using m1(1) m2 post_fiq_event_inv [of m2 a "d ! k" False] unfolding a_def
    by (auto simp: bus_access_def)
qed

theorem mirror_persists_witness:
  "\<exists>m1 m2 m3. set_mirror demo_mailbox 0x97 (Some [1, 2, 3]) 3 = Some m1 \<and>
     run_ops mb_exec [Bus_Write 0xFCFF 5, Tick_Fiq 20, Bus_Write 0xFD98 0] m1 = Some m2 \<and>
     bus_access m2 (PAGE_BASE + word_of_nat (unat (0x97 :: u8) + 1)) 0 False = Some ([1, 2, 3] ! 1, m3)"
  by (rule mirror_persists) (simp_all add: demo_mailbox_inv idle_settled)


subsection \<open>Bus profiles\<close>

lemmas profile_defs = profile_handles_mode_def profile_snoops_def mailbox_handles_def read_driven_def
  profile_read_driven_def word_le_nat_alt word_less_nat_alt word_unat_eq_iff

text \<open>A bus profile never answers a cycle it does not see: whatever a profile handles, with the output enable
  line on or off, and whatever it drives on a read, it also snoops; and on an AP5 neither of the upper
  two JIM selectors is ever handled or driven, nor is the lower one on a read.\<close>

theorem profile_handles_snooped:
  "(profile_handles_mode p a w noe \<longrightarrow> profile_snoops p a w) \<and>
   (profile_read_driven m p a noe \<longrightarrow> profile_snoops p a False) \<and>
   (p \<in> {BUS_AP5, BUS_AP5_EXPANDED_SNOOP} \<longrightarrow>
      (a \<in> {REG_PAGE_HI, REG_PAGE_MID} \<longrightarrow> \<not> profile_handles_mode p a w noe) \<and>
      (a \<in> {REG_PAGE_HI, REG_PAGE_MID, REG_PAGE_LO} \<longrightarrow> \<not> profile_read_driven m p a noe))"
  by (cases p) (auto simp: profile_defs)

theorem profile_handles_snooped_witness:
  "profile_handles_mode BUS_AP5 0xFCA9 True True \<and> profile_snoops BUS_AP5 0xFCA9 True \<and>
   \<not> profile_handles_mode BUS_AP5 REG_PAGE_HI True False"
proof -
  have "profile_handles_mode BUS_AP5 0xFCA9 True True" by code_simp
  then show ?thesis
    using profile_handles_snooped [of BUS_AP5 "0xFCA9" True True demo_mailbox]
      profile_handles_snooped [of BUS_AP5 REG_PAGE_HI True False demo_mailbox] by simp
qed

subsection \<open>The host clock\<close>

fun host_clock_run :: "host_clock \<Rightarrow> int list \<Rightarrow> host_clock \<times> nat" where
  "host_clock_run c [] = (c, 0)"
| "host_clock_run c (t # ts) =
     (let (c1, e) = host_clock_sync c t; (c2, es) = host_clock_run c1 ts in (c2, e + es))"

lemma host_clock_step:
  assumes "hc_valid c" "last_cycle c = t mod 128" "0 \<le> d" "d < 128"
  shows "host_clock_sync c ((t + d) mod 128) = (c\<lparr>last_cycle := (t + d) mod 128\<rparr>, nat d)"
proof -
  define r where "r = t mod 128"
  have r: "0 \<le> r" "r < 128" by (simp_all add: r_def)
  have "(t + d) mod 128 = (r + d) mod 128" by (simp add: r_def mod_add_left_eq)
  also have "\<dots> = (if r + d < 128 then r + d else r + d - 128)"
  proof (cases "r + d < 128")
    case False
    then have "(r + d) mod 128 = (r + d - 128) mod 128" by (intro mod_pos_geq) simp_all
    also have "\<dots> = r + d - 128" using False r assms(3, 4) by (intro mod_pos_pos_trivial) simp_all
    finally show ?thesis using False by (simp only: if_False)
  qed (use r assms(3) in simp)
  finally have e: "(t + d) mod 128 = (if r + d < 128 then r + d else r + d - 128)" .
  show ?thesis
    unfolding e using assms r by (auto simp: host_clock_sync_def Let_def r_def [symmetric])
qed

text \<open>An emulator whose cycle counter runs modulo 128 and which synchronises at least once per period credits the
  mailbox with exactly the host cycles that have passed, over any number of wrap-arounds.\<close>

theorem host_clock_total:
  assumes "\<forall>d \<in> set ds. 0 \<le> d \<and> d < 128"
  shows "snd (host_clock_run (host_clock_rebase c (t mod 128))
      (map (\<lambda>i. (t + sum_list (take (Suc i) ds)) mod 128) [0..<length ds])) = nat (sum_list ds)"
proof -
  have "snd (host_clock_run c' (map (\<lambda>i. (t + sum_list (take (Suc i) ds)) mod 128) [0..<length ds])) = nat (sum_list ds)"
    if "hc_valid c'" "last_cycle c' = t mod 128" for c' t
    using assms that
  proof (induction ds arbitrary: c' t)
    case (Cons d ds)
    have "map (\<lambda>i. (t + sum_list (take (Suc i) (d # ds))) mod 128) [0..<length (d # ds)] =
        (t + d) mod 128 # map (\<lambda>i. ((t + d) + sum_list (take (Suc i) ds)) mod 128) [0..<length ds]"
      by (simp only: length_Cons map_upt_Suc) (simp add: add.assoc)
    moreover have "0 \<le> sum_list ds" using Cons.prems(1) by (intro sum_list_nonneg) auto
    ultimately show ?case
      using Cons.prems Cons.IH [of "c'\<lparr>last_cycle := (t + d) mod 128\<rparr>" "t + d"] host_clock_step [of c' t d]
      by (simp add: nat_add_distrib split_beta Let_def)
  qed simp
  then show ?thesis by (simp add: host_clock_rebase_def)
qed

theorem host_clock_total_witness:
  "snd (host_clock_run (host_clock_rebase \<lparr>hc_valid = False, last_cycle = 0\<rparr> (100 mod 128))
      (map (\<lambda>i. (100 + sum_list (take (Suc i) [100, 127, 5])) mod 128) [0..<length [100, 127, 5 :: int]])) = nat (sum_list [100, 127, 5])"
  by (rule host_clock_total) simp

end
