(* ===== verification/Uef_Repair.thy ===== *)
theory Uef_Repair
  imports Prelude
begin

unbundle bit_operations_syntax

section \<open>FILEV stamp repair of UEF cassette images (uef\_repair.c)\<close>

text \<open>
  Electron loaders stamp the filing-system vector by writing \<open>?&212=\<close> and \<open>?&213=\<close>.
  \<open>uef_repair.c\<close> walks the chunks of a UEF window, and in every complete cassette block it
  redirects those address tokens to \<open>&900\<close> and \<open>&901\<close> in place and recomputes the payload
  CRC. The definitions below keep the in-place loops of the source; the theory then shows
  that they never touch a byte outside the window, that the payload loop is the simultaneous
  replacement of all stamps of the original payload, that the repair of a tape cut into
  windows equals the repair of the whole tape, and that the repair is idempotent.
\<close>

subsection \<open>The cassette CRC\<close>

fun tape_crc_bits :: "nat \<Rightarrow> u16 \<Rightarrow> u16" where
  "tape_crc_bits 0 crc = crc"
| "tape_crc_bits (Suc n) crc =
     tape_crc_bits n (if crc AND 0x8000 \<noteq> 0 then push_bit 1 crc XOR 0x1021 else push_bit 1 crc)"

fun tape_crc_loop :: "bytes \<Rightarrow> nat \<Rightarrow> nat \<Rightarrow> u16 \<Rightarrow> u16 option" where
  "tape_crc_loop w i 0 crc = Some crc"
| "tape_crc_loop w i (Suc n) crc = do {
     b \<leftarrow> rd8 w i;
     tape_crc_loop w (Suc i) n (tape_crc_bits 8 (crc XOR push_bit 8 (ucast b))) }"

definition tape_crc :: "bytes \<Rightarrow> nat \<Rightarrow> nat \<Rightarrow> u16 option" where
  "tape_crc w data n = tape_crc_loop w data n 0"

subsection \<open>Redirecting the address tokens of one payload\<close>

definition stamp_hex_digit :: "u8 \<Rightarrow> bool" where
  "stamp_hex_digit c \<longleftrightarrow>
     (0x30 \<le> c \<and> c \<le> 0x39) \<or> (0x41 \<le> c \<and> c \<le> 0x46) \<or> (0x61 \<le> c \<and> c \<le> 0x66)"

text \<open>The four \<open>continue\<close> tests of the loop body, in their order, for the offset \<open>i\<close>.\<close>

definition stamp_at :: "bytes \<Rightarrow> nat \<Rightarrow> nat \<Rightarrow> nat \<Rightarrow> bool option" where
  "stamp_at w data n i = do {
     c0 \<leftarrow> rd8 w (data + i);
     if c0 \<noteq> 0x26 then Some False else do {
     c1 \<leftarrow> rd8 w (data + (i + 1));
     if c1 \<noteq> 0x32 then Some False else do {
     c2 \<leftarrow> rd8 w (data + (i + 2));
     if c2 \<noteq> 0x31 then Some False else do {
     c3 \<leftarrow> rd8 w (data + (i + 3));
     if c3 \<noteq> 0x32 \<and> c3 \<noteq> 0x33 then Some False else do {
     longer \<leftarrow> (if i + 4 < n then map_option stamp_hex_digit (rd8 w (data + (i + 4)))
                else Some False);
     if longer then Some False
     else if i = 0 then Some False
     else do { p \<leftarrow> rd8 w (data + (i - 1)); Some (p = 0x3F \<or> p = 0x21) }}}}}}"

function repair_loop :: "bytes \<Rightarrow> nat \<Rightarrow> nat \<Rightarrow> nat \<Rightarrow> nat \<Rightarrow> (bytes \<times> nat) option" where
  "repair_loop w data n i repaired =
     (if i + 4 \<le> n then do {
        hit \<leftarrow> stamp_at w data n i;
        if \<not> hit then repair_loop w data n (Suc i) repaired
        else do {
          w1 \<leftarrow> wr8 w (data + (i + 1)) 0x39;
          w2 \<leftarrow> wr8 w1 (data + (i + 2)) 0x30;
          c \<leftarrow> rd8 w2 (data + (i + 3));
          w3 \<leftarrow> wr8 w2 (data + (i + 3)) (if c = 0x32 then 0x30 else 0x31);
          repair_loop w3 data n (Suc i) (repaired + 1) } }
      else Some (w, repaired))"
  by pat_completeness auto
termination
  by (relation "measure (\<lambda>(w, data, n, i, repaired). n - i)") auto

definition repair_block_payload :: "bytes \<Rightarrow> nat \<Rightarrow> nat \<Rightarrow> (bytes \<times> nat) option" where
  "repair_block_payload w data n = (if n < 4 then Some (w, 0) else repair_loop w data n 0 0)"

subsection \<open>One chunk, and the walk over the chunks of a window\<close>

function name_scan :: "bytes \<Rightarrow> nat \<Rightarrow> nat \<Rightarrow> nat \<Rightarrow> nat option" where
  "name_scan w block limit name_end =
     (if name_end < limit \<and> name_end - block \<le> 11 then do {
        c \<leftarrow> rd8 w name_end;
        if c \<noteq> 0 then name_scan w block limit (Suc name_end) else Some name_end }
      else Some name_end)"
  by pat_completeness auto
termination
  by (relation "measure (\<lambda>(w, block, limit, name_end). limit - name_end)") auto

text \<open>The payload step: redirect, and rewrite the CRC high byte first when anything changed.\<close>

definition repair_payload_crc :: "bytes \<Rightarrow> nat \<Rightarrow> nat \<Rightarrow> (bytes \<times> nat) option" where
  "repair_payload_crc w data_at data_length = do {
     (w', hits) \<leftarrow> repair_block_payload w data_at data_length;
     if hits \<noteq> 0 then do {
       crc \<leftarrow> tape_crc w' data_at data_length;
       w1 \<leftarrow> wr8 w' (data_at + data_length) (byte_of crc 1);
       w2 \<leftarrow> wr8 w1 (data_at + data_length + 1) (byte_of crc 0);
       Some (w2, hits) }
     else Some (w', 0) }"

definition repair_chunk :: "bytes \<Rightarrow> u16 \<Rightarrow> nat \<Rightarrow> nat \<Rightarrow> (bytes \<times> nat) option" where
  "repair_chunk w chunk chunk_length block = do {
     star \<leftarrow> (if chunk = 0x100 \<and> chunk_length > 1 then map_option (\<lambda>c. c = 0x2A) (rd8 w block)
              else Some False);
     if \<not> star then Some (w, 0) else do {
     let limit = block + chunk_length;
     name_end \<leftarrow> name_scan w block limit (block + 1);
     nul \<leftarrow> (if name_end < limit then map_option (\<lambda>c. c = 0) (rd8 w name_end) else Some False);
     if \<not> nul then Some (w, 0) else do {
     let descriptor = name_end + 1;
     let header_crc = descriptor + 17;
     let data_at = header_crc + 2;
     if data_at \<le> limit \<and> descriptor + 13 \<le> limit then do {
       data_length \<leftarrow> rd16 (rd8 w) (descriptor + 10);
       if data_length \<noteq> 0 \<and> data_at + unat data_length + 2 \<le> limit
       then repair_payload_crc w data_at (unat data_length)
       else Some (w, 0) }
     else Some (w, 0) }}}"

function span_loop :: "bytes \<Rightarrow> nat \<Rightarrow> nat \<Rightarrow> nat \<Rightarrow> (bytes \<times> nat \<times> nat) option" where
  "span_loop w len position hits_total =
     (if position + 6 \<le> len then do {
        chunk \<leftarrow> rd16 (rd8 w) position;
        chunk_length \<leftarrow> rd32 (rd8 w) (position + 2);
        if unat chunk_length > len \<or> position + 6 + unat chunk_length > len
        then Some (w, position, hits_total)
        else do {
          (w', hits) \<leftarrow> repair_chunk w chunk (unat chunk_length) (position + 6);
          span_loop w' len (position + 6 + unat chunk_length) (hits_total + hits) } }
      else Some (w, position, hits_total))"
  by pat_completeness auto
termination
  by (relation "measure (\<lambda>(w, len, position, hits). len - position)") auto

text \<open>The two entry points. A NULL window is \<open>None\<close>; the result is the window, the offset
  past the last complete chunk and the number of tokens redirected.\<close>

definition uef_repair_filev_span ::
    "bytes option \<Rightarrow> nat \<Rightarrow> nat \<Rightarrow> (bytes \<times> nat \<times> nat) option" where
  "uef_repair_filev_span window len start =
     (case window of None \<Rightarrow> Some ([], len, 0)
      | Some w \<Rightarrow> if len < start then Some (w, len, 0) else span_loop w len start 0)"

definition uef_repair_filev_stamp :: "bytes option \<Rightarrow> nat \<Rightarrow> (bytes \<times> nat) option" where
  "uef_repair_filev_stamp window len =
     map_option (\<lambda>(w, position, repaired). (w, repaired)) (uef_repair_filev_span window len 12)"

declare repair_loop.simps [simp del] name_scan.simps [simp del] span_loop.simps [simp del]

subsection \<open>The CRC as a fold over the payload, and its residue\<close>

definition crc_step :: "u16 \<Rightarrow> u8 \<Rightarrow> u16" where
  "crc_step crc b = tape_crc_bits 8 (crc XOR push_bit 8 (ucast b))"

definition crc16 :: "bytes \<Rightarrow> u16" where
  "crc16 d = foldl crc_step 0 d"

lemma tape_crc_loop_eq:
  "i + n \<le> length w \<Longrightarrow> tape_crc_loop w i n crc = Some (foldl crc_step crc (seg w i n))"
  by (induction n arbitrary: i crc) (simp_all add: seg_Suc crc_step_def)

lemma tape_crc_eq [simp]: "i + n \<le> length w \<Longrightarrow> tape_crc w i n = Some (crc16 (seg w i n))"
  by (simp add: tape_crc_def crc16_def tape_crc_loop_eq)

lemma and_top: "(c AND 0x8000 = 0) = (\<not> bit (c::u16) 15)"
  using and_exp_eq_0_iff_not_bit [of c 15] by simp

lemma crc_bits_high_clear:
  "(\<forall>m. 16 - k \<le> m \<longrightarrow> \<not> bit c m) \<Longrightarrow> k \<le> 16 \<Longrightarrow> tape_crc_bits k c = push_bit k c"
proof (induction k arbitrary: c)
  case 0
  then show ?case by simp
next
  case (Suc k)
  have "c AND 0x8000 = 0" using Suc.prems by (simp add: and_top)
  moreover have "tape_crc_bits k (push_bit 1 c) = push_bit k (push_bit 1 c)"
    using Suc.prems by (intro Suc.IH) (auto simp: bit_push_bit_iff simp del: push_bit_Suc push_bit_of_1 push_bit_numeral)
  ultimately show ?case by (simp add: push_bit_push_bit)
qed

lemma crc_step_high_byte: "crc_step c (byte_of c 1) = push_bit 8 c"
proof -
  have *: "c XOR push_bit 8 (ucast (byte_of c 1)) = take_bit 8 c"
    by (rule bit_word_eqI) (auto simp: byte_of_def bit_simps)
  have "tape_crc_bits 8 (take_bit 8 c) = push_bit 8 (take_bit 8 c)"
    by (rule crc_bits_high_clear) (auto simp: bit_simps)
  also have "\<dots> = push_bit 8 c"
    by (rule bit_word_eqI) (auto simp: bit_simps)
  finally show ?thesis by (simp only: crc_step_def *)
qed

lemma tape_crc_bits_0: "tape_crc_bits k 0 = 0"
  by (induction k) simp_all

lemma crc16_residue: "crc16 (d @ [byte_of (crc16 d) 1, byte_of (crc16 d) 0]) = 0"
proof -
  let ?c = "crc16 d"
  have "push_bit 8 ?c XOR push_bit 8 (ucast (byte_of ?c 0)) = 0"
    by (rule bit_word_eqI) (auto simp: byte_of_def bit_simps)
  then have "crc_step (crc_step ?c (byte_of ?c 1)) (byte_of ?c 0) = 0"
    by (simp only: crc_step_high_byte) (simp only: crc_step_def tape_crc_bits_0)
  then show ?thesis by (simp only: crc16_def foldl_append foldl.simps)
qed

subsection \<open>The payload loop is a simultaneous replacement\<close>

definition stamp :: "bytes \<Rightarrow> nat \<Rightarrow> bool" where
  "stamp d i \<longleftrightarrow> 0 < i \<and> i + 4 \<le> length d \<and> d ! i = 0x26 \<and> d ! (i + 1) = 0x32 \<and>
     d ! (i + 2) = 0x31 \<and> (d ! (i + 3) = 0x32 \<or> d ! (i + 3) = 0x33) \<and>
     \<not> (i + 4 < length d \<and> stamp_hex_digit (d ! (i + 4))) \<and>
     (d ! (i - 1) = 0x3F \<or> d ! (i - 1) = 0x21)"

definition fix_byte :: "bytes \<Rightarrow> nat \<Rightarrow> nat \<Rightarrow> u8" where
  "fix_byte d k i =
     (if 1 \<le> i \<and> i - 1 < k \<and> stamp d (i - 1) then 0x39
      else if 2 \<le> i \<and> i - 2 < k \<and> stamp d (i - 2) then 0x30
      else if 3 \<le> i \<and> i - 3 < k \<and> stamp d (i - 3) then (if d ! i = 0x32 then 0x30 else 0x31)
      else d ! i)"

definition redirect_upto :: "bytes \<Rightarrow> nat \<Rightarrow> bytes" where
  "redirect_upto d k = map (fix_byte d k) [0..<length d]"

definition redirect :: "bytes \<Rightarrow> bytes" where
  "redirect d = redirect_upto d (length d)"

definition stamps_upto :: "bytes \<Rightarrow> nat \<Rightarrow> nat" where
  "stamps_upto d k = length (filter (stamp d) [0..<k])"

definition stamps :: "bytes \<Rightarrow> nat" where
  "stamps d = stamps_upto d (length d)"

lemma length_redirect_upto [simp]: "length (redirect_upto d k) = length d"
  by (simp add: redirect_upto_def)

lemma nth_redirect_upto [simp]: "i < length d \<Longrightarrow> redirect_upto d k ! i = fix_byte d k i"
  by (simp add: redirect_upto_def)

lemma redirect_upto_0 [simp]: "redirect_upto d 0 = d"
  by (rule nth_equalityI) (auto simp: fix_byte_def)

lemma stamp_marks:
  assumes "stamp d i"
  shows "0 < i" "d ! i = 0x26" "d ! (i + 1) = 0x32" "d ! (i + 2) = 0x31"
    "d ! (i + 3) \<in> {0x32, 0x33}" "d ! (i - 1) \<in> {0x3F, 0x21}" "i + 4 \<le> length d"
  using assms by (simp_all add: stamp_def)

lemma stamp_apart: "stamp d i \<Longrightarrow> stamp d j \<Longrightarrow> i < j \<Longrightarrow> i + 4 < j"
proof (rule ccontr)
  assume s: "stamp d i" "stamp d j" and "i < j" "\<not> i + 4 < j"
  then consider "j = i + 1" | "j = i + 2" | "j = i + 3" | "j - 1 = i + 3" by linarith
  then show False
    using stamp_marks [OF s(1)] stamp_marks (2,6) [OF s(2)] by cases auto
qed

lemma fix_byte_same_or_digit:
  "fix_byte d k i = d ! i \<or> (fix_byte d k i \<in> {0x39, 0x30, 0x31} \<and> d ! i \<in> {0x31, 0x32, 0x33})"
proof -
  have "1 \<le> i \<Longrightarrow> stamp d (i - 1) \<Longrightarrow> d ! i = 0x32"
    using stamp_marks(3) [of d "i - 1"] by (simp only: le_add_diff_inverse2)
  moreover have "2 \<le> i \<Longrightarrow> stamp d (i - 2) \<Longrightarrow> d ! i = 0x31"
    using stamp_marks(4) [of d "i - 2"] by (simp only: le_add_diff_inverse2)
  moreover have "3 \<le> i \<Longrightarrow> stamp d (i - 3) \<Longrightarrow> d ! i \<in> {0x32, 0x33}"
    using stamp_marks(5) [of d "i - 3"] by (simp only: le_add_diff_inverse2)
  ultimately show ?thesis by (simp add: fix_byte_def)
qed

lemma fix_byte_cong:
  assumes "\<And>p. stamp d p \<Longrightarrow> p < i \<Longrightarrow> i \<le> p + 3 \<Longrightarrow> p < k \<longleftrightarrow> p < k'"
  shows "fix_byte d k i = fix_byte d k' i"
proof -
  have "1 \<le> i \<and> i - 1 < k \<and> stamp d (i - 1) \<longleftrightarrow> 1 \<le> i \<and> i - 1 < k' \<and> stamp d (i - 1)"
    "2 \<le> i \<and> i - 2 < k \<and> stamp d (i - 2) \<longleftrightarrow> 2 \<le> i \<and> i - 2 < k' \<and> stamp d (i - 2)"
    "3 \<le> i \<and> i - 3 < k \<and> stamp d (i - 3) \<longleftrightarrow> 3 \<le> i \<and> i - 3 < k' \<and> stamp d (i - 3)"
    using assms [of "i - 1"] assms [of "i - 2"] assms [of "i - 3"] by linarith+
  then show ?thesis by (simp only: fix_byte_def)
qed

lemma fix_byte_unchanged:
  assumes "\<And>p. p < k \<Longrightarrow> stamp d p \<Longrightarrow> \<not> (p < i \<and> i \<le> p + 3)"
  shows "fix_byte d k i = d ! i"
proof -
  have "fix_byte d k i = fix_byte d 0 i" using assms by (intro fix_byte_cong) auto
  then show ?thesis by (simp add: fix_byte_def)
qed

lemma fix_byte_amp: "fix_byte d k i = 0x26 \<longleftrightarrow> d ! i = 0x26"
  using fix_byte_same_or_digit [of d k i] by auto

text \<open>What the loop tests at \<open>k\<close> is the test on the original payload: an earlier redirection
  only overwrites digits, and never one the test still needs.\<close>

lemma stamp_redirect_upto:
  "stamp (redirect_upto d k) k \<longleftrightarrow> stamp d k"
proof (cases "0 < k \<and> k + 4 \<le> length d \<and> d ! k = 0x26")
  case False
  then show ?thesis by (auto simp: stamp_def fix_byte_amp)
next
  case True
  have far: "p + 3 < k" if "stamp d p" "p < k" for p
  proof (rule ccontr)
    assume "\<not> p + 3 < k"
    then consider "k = p + 1" | "k = p + 2" | "k = p + 3" using \<open>p < k\<close> by linarith
    then show False using stamp_marks [OF \<open>stamp d p\<close>] True by cases auto
  qed
  have same: "fix_byte d k j = d ! j" if "k \<le> j" for j
    using far that by (intro fix_byte_unchanged) force
  have prev: "fix_byte d k (k - 1) \<in> {0x3F, 0x21} \<longleftrightarrow> d ! (k - 1) \<in> {0x3F, 0x21}"
    using fix_byte_same_or_digit [of d k "k - 1"] by auto
  have "k - 1 < length d" using True by linarith
  then show ?thesis using True same prev by (simp add: stamp_def)
qed

lemma stamp_at_eq:
  assumes "data + n \<le> length w" "i + 4 \<le> n"
  shows "stamp_at w data n i = Some (stamp (seg w data n) i)"
  using assms by (auto simp: stamp_at_def stamp_def)

lemma redirect_upto_Suc_no:
  assumes "\<not> stamp d k" shows "redirect_upto d (Suc k) = redirect_upto d k"
proof -
  have "fix_byte d (Suc k) i = fix_byte d k i" for i
    using assms by (intro fix_byte_cong) (metis less_Suc_eq)
  then show ?thesis by (simp add: redirect_upto_def)
qed

lemma fix_byte_at_stamp:
  assumes "stamp d k" "k < m"
  shows "fix_byte d m (k + 1) = 0x39" "fix_byte d m (k + 2) = 0x30"
    "fix_byte d m (k + 3) = (if d ! (k + 3) = 0x32 then 0x30 else 0x31)"
proof -
  have "\<not> stamp d (k + 1)" "\<not> stamp d (k + 2)"
    using stamp_apart [OF assms(1), of "k + 1"] stamp_apart [OF assms(1), of "k + 2"] by auto
  then show "fix_byte d m (k + 1) = 0x39" "fix_byte d m (k + 2) = 0x30"
    "fix_byte d m (k + 3) = (if d ! (k + 3) = 0x32 then 0x30 else 0x31)"
    using assms by (simp_all add: fix_byte_def)
qed

lemma redirect_upto_Suc_yes:
  assumes "stamp d k"
  shows "redirect_upto d (Suc k) = (redirect_upto d k)
     [k + 1 := 0x39, k + 2 := 0x30, k + 3 := (if d ! (k + 3) = 0x32 then 0x30 else 0x31)]"
proof (rule nth_equalityI)
  fix i assume "i < length (redirect_upto d (Suc k))"
  then have i: "i < length d" by simp
  have other: "fix_byte d (Suc k) i = fix_byte d k i" if "i \<noteq> k + 1" "i \<noteq> k + 2" "i \<noteq> k + 3"
  proof (rule fix_byte_cong)
    fix p assume "p < i" "i \<le> p + 3"
    with that have "p \<noteq> k" by linarith
    then show "p < Suc k \<longleftrightarrow> p < k" by linarith
  qed
  show "redirect_upto d (Suc k) ! i = (redirect_upto d k)
     [k + 1 := 0x39, k + 2 := 0x30, k + 3 := (if d ! (k + 3) = 0x32 then 0x30 else 0x31)] ! i"
    using i fix_byte_at_stamp [OF assms lessI] other
    by (cases "i = k + 1 \<or> i = k + 2 \<or> i = k + 3") auto
qed simp

lemma stamps_upto_card: "stamps_upto d k = card {p. p < k \<and> stamp d p}"
  by (auto simp: stamps_upto_def length_filter_conv_card intro!: arg_cong [where f = card])

lemma redirect_upto_all:
  assumes "\<And>p. stamp d p \<Longrightarrow> p < k"
  shows "redirect_upto d k = redirect d" "stamps_upto d k = stamps d"
proof -
  have bound: "stamp d p \<Longrightarrow> p < length d" for p by (simp add: stamp_def)
  then show "redirect_upto d k = redirect d"
    using assms by (auto simp: redirect_def fix_byte_def intro!: nth_equalityI)
  from bound assms show "stamps_upto d k = stamps d"
    by (auto simp: stamps_def stamps_upto_card intro!: arg_cong [where f = card])
qed

lemma stamps_upto_Suc: "stamps_upto d (Suc k) = stamps_upto d k + (if stamp d k then 1 else 0)"
  by (simp add: stamps_upto_def)

lemma repair_loop_eq:
  assumes "data + length d \<le> length w"
  shows "repair_loop (splice w data (redirect_upto d i)) data (length d) i (stamps_upto d i)
       = Some (splice w data (redirect d), stamps d)"
proof (induction "length d - i" arbitrary: i rule: less_induct)
  case less
  show ?case
  proof (cases "i + 4 \<le> length d")
    case False
    then have "\<And>p. stamp d p \<Longrightarrow> p < i" by (auto simp: stamp_def)
    from redirect_upto_all [OF this] False show ?thesis by (simp add: repair_loop.simps)
  next
    case True
    let ?w = "splice w data (redirect_upto d i)"
    have hit: "stamp_at ?w data (length d) i = Some (stamp d i)"
      using assms True by (simp add: stamp_at_eq stamp_redirect_upto)
    have IH: "repair_loop (splice w data (redirect_upto d (Suc i))) data (length d) (Suc i)
        (stamps_upto d (Suc i)) = Some (splice w data (redirect d), stamps d)"
      using True by (intro less.hyps) simp
    show ?thesis
    proof (cases "stamp d i")
      case False
      with True hit IH show ?thesis
        by (subst repair_loop.simps) (simp add: redirect_upto_Suc_no stamps_upto_Suc)
    next
      case hit_i: True
      have "fix_byte d i (i + 3) = d ! (i + 3)"
        using stamp_apart [OF _ hit_i] by (intro fix_byte_unchanged) force
      with assms True hit hit_i IH show ?thesis
        by (subst repair_loop.simps)
          (simp add: redirect_upto_Suc_yes stamps_upto_Suc splice_update nth_splice
            del: One_nat_def add_2_eq_Suc' add_Suc_right)
    qed
  qed
qed

lemma repair_block_payload_eq:
  assumes "data + n \<le> length w"
  shows "repair_block_payload w data n
    = Some (splice w data (redirect (seg w data n)), stamps (seg w data n))"
proof -
  let ?d = "seg w data n"
  have *: "repair_loop w data n 0 0 = Some (splice w data (redirect ?d), stamps ?d)"
    using repair_loop_eq [of data ?d w 0] assms by (simp add: stamps_upto_def)
  show ?thesis
  proof (cases "n < 4")
    case True
    then show ?thesis using * by (simp add: repair_block_payload_def repair_loop.simps)
  qed (simp add: repair_block_payload_def *)
qed


subsection \<open>Repairing a payload leaves nothing to repair\<close>

lemma no_stamp_redirect: "\<not> stamp (redirect d) i"
proof
  assume st: "stamp (redirect d) i"
  let ?r = "redirect d"
  have len: "length ?r = length d" by (simp add: redirect_def)
  note m = stamp_marks [OF st]
  have i: "i + 4 \<le> length d" using m(7) by (simp only: len)
  have nth: "?r ! j = fix_byte d (length d) j" if "j < length d" for j
    using that by (simp add: redirect_def)
  have same: "?r ! j = d ! j" if "j < length d" "?r ! j \<notin> {0x39, 0x30, 0x31}" for j
    using that nth [of j] fix_byte_same_or_digit [of d "length d" j] by auto
  have d0: "d ! i = 0x26" using same [of i] m(2) i by simp
  have d2: "d ! (i + 2) = 0x31"
  proof -
    have "\<not> stamp d (i - 1)" using stamp_marks(3) [of d "i - 1"] m(1) d0 by auto
    moreover have "?r ! (i + 2) = 0x31" by (fact m(4))
    moreover have "i + 2 - 3 = i - 1" by simp
    ultimately show ?thesis using nth [of "i + 2"] i
      by (simp add: fix_byte_def split: if_splits)
  qed
  have d1: "d ! (i + 1) = 0x32" using same [of "i + 1"] m(3) i by simp
  have d3: "d ! (i + 3) \<in> {0x32, 0x33}" using same [of "i + 3"] m(5) i by auto
  have "i - 1 < length d" using i by linarith
  then have dp: "d ! (i - 1) \<in> {0x3F, 0x21}" using same [of "i - 1"] m(6) by auto
  have nohex: "\<not> stamp_hex_digit (d ! (i + 4))" if "i + 4 < length d"
  proof -
    have nh: "\<not> stamp_hex_digit (?r ! (i + 4))" using st that by (simp add: stamp_def len)
    then have "?r ! (i + 4) \<notin> {0x39, 0x30, 0x31}" by (auto simp: stamp_hex_digit_def)
    with same that nh show ?thesis by metis
  qed
  have "stamp d i" using m(1) i d0 d1 d2 d3 dp nohex by (auto simp: stamp_def)
  then have "?r ! (i + 1) = 0x39" using nth [of "i + 1"] i by (simp add: fix_byte_def)
  with m(3) show False by simp
qed

lemma redirect_id: "(\<And>i. \<not> stamp d i) \<Longrightarrow> redirect d = d"
  by (auto simp: redirect_def fix_byte_def intro!: nth_equalityI)

lemma stamps_0_iff: "stamps d = 0 \<longleftrightarrow> (\<forall>i. \<not> stamp d i)"
proof
  assume "stamps d = 0"
  then have "\<forall>i<length d. \<not> stamp d i"
    by (auto simp: stamps_def stamps_upto_def filter_empty_conv)
  then show "\<forall>i. \<not> stamp d i" using stamp_marks(7) by fastforce
qed (simp add: stamps_def stamps_upto_def)

lemma redirect_redirect [simp]: "redirect (redirect d) = redirect d"
  and stamps_redirect [simp]: "stamps (redirect d) = 0"
  and length_redirect [simp]: "length (redirect d) = length d"
  using no_stamp_redirect by (auto simp: redirect_id stamps_0_iff) (simp add: redirect_def)

lemma stamps_bound: "stamps d \<le> length d"
  using length_filter_le [of "stamp d" "[0..<length d]"] by (simp add: stamps_def stamps_upto_def)

subsection \<open>The repair of one chunk, as a function of the chunk alone\<close>

definition fix_payload :: "bytes \<Rightarrow> bytes" where
  "fix_payload pb = (let d = take (length pb - 2) pb in
     if stamps d = 0 then pb
     else redirect d @ [byte_of (crc16 (redirect d)) 1, byte_of (crc16 (redirect d)) 0])"

lemma length_fix_payload [simp]: "2 \<le> length pb \<Longrightarrow> length (fix_payload pb) = length pb"
  by (auto simp: fix_payload_def Let_def)

lemma repair_payload_crc_eq:
  assumes "p + n + 2 \<le> length w"
  shows "repair_payload_crc w p n
    = Some (splice w p (fix_payload (seg w p (n + 2))), stamps (seg w p n))"
proof -
  let ?d = "seg w p n" and ?w' = "splice w p (redirect (seg w p n))"
  have rep: "repair_block_payload w p n = Some (?w', stamps ?d)"
    using assms by (intro repair_block_payload_eq) simp
  have d: "take (length (seg w p (n + 2)) - 2) (seg w p (n + 2)) = ?d"
    using assms by (simp add: take_seg)
  show ?thesis
  proof (cases "stamps ?d = 0")
    case True
    then have "redirect ?d = ?d" by (simp add: redirect_id stamps_0_iff)
    with True rep assms d show ?thesis
      by (simp add: repair_payload_crc_def fix_payload_def Let_def)
  next
    case False
    let ?r = "redirect ?d" and ?c = "crc16 (redirect ?d)"
    have crc: "tape_crc ?w' p n = Some ?c" using assms by simp
    have "?w'[p + n := byte_of ?c 1, p + n + 1 := byte_of ?c 0]
        = splice w p (?r @ [byte_of ?c 1, byte_of ?c 0])"
      using assms
      by (intro nth_equalityI) (auto simp: splice_def nth_append nth_list_update nth_Cons'
          Suc_Suc_diff_2 simp del: One_nat_def)
    with False rep crc assms d show ?thesis
      by (simp add: repair_payload_crc_def fix_payload_def Let_def del: One_nat_def)
  qed
qed

text \<open>Where the payload of a complete block lies inside the body of its chunk.\<close>

definition name_end_of :: "bytes \<Rightarrow> nat" where
  "name_end_of body = the (name_scan body 0 (length body) 1)"

definition payload_of :: "u16 \<Rightarrow> bytes \<Rightarrow> (nat \<times> nat) option" where
  "payload_of chunk body =
     (if chunk = 0x100 \<and> 1 < length body \<and> body ! 0 = 0x2A then
        let e = name_end_of body in
        if e < length body \<and> body ! e = 0 \<and> e + 20 \<le> length body then
          let n = unat (le16 (body ! (e + 11)) (body ! (e + 12))) in
          if n \<noteq> 0 \<and> e + 20 + n + 2 \<le> length body then Some (e + 20, n) else None
        else None
      else None)"

definition fix_body :: "u16 \<Rightarrow> bytes \<Rightarrow> bytes" where
  "fix_body chunk body = (case payload_of chunk body of None \<Rightarrow> body
     | Some (p, n) \<Rightarrow> splice body p (fix_payload (seg body p (n + 2))))"

definition body_hits :: "u16 \<Rightarrow> bytes \<Rightarrow> nat" where
  "body_hits chunk body = (case payload_of chunk body of None \<Rightarrow> 0
     | Some (p, n) \<Rightarrow> stamps (seg body p n))"

lemma name_scan_defined:
  assumes "limit \<le> length w" shows "\<exists>e. name_scan w block limit j = Some e \<and> j \<le> e \<and> e \<le> max j limit"
proof (induction "limit - j" arbitrary: j rule: less_induct)
  case less
  show ?case
  proof (cases "j < limit \<and> j - block \<le> 11 \<and> w ! j \<noteq> 0")
    case True
    then have "limit - Suc j < limit - j" by linarith
    from less.hyps [OF this] obtain e where
      "name_scan w block limit (Suc j) = Some e" "Suc j \<le> e" "e \<le> max (Suc j) limit" by auto
    with True assms show ?thesis by (auto simp: name_scan.simps [of w block limit j])
  qed (use assms in \<open>auto simp: name_scan.simps [of w block limit j]\<close>)
qed

lemma name_scan_relocate:
  assumes "block + n \<le> length w"
  shows "name_scan w block (block + n) (block + j)
       = map_option ((+) block) (name_scan (seg w block n) 0 n j)"
proof (induction "n - j" arbitrary: j rule: less_induct)
  case less
  have IH: "j < n \<Longrightarrow> name_scan w block (block + n) (block + Suc j)
      = map_option ((+) block) (name_scan (seg w block n) 0 n (Suc j))"
    by (rule less.hyps) simp
  show ?case
  proof (cases "j < n \<and> j \<le> 11")
    case True
    with assms IH show ?thesis
      by (simp add: name_scan.simps [of w block "block + n" "block + j"]
          name_scan.simps [of "seg w block n" 0 n j])
  qed (auto simp: name_scan.simps [of w block "block + n" "block + j"]
      name_scan.simps [of "seg w block n" 0 n j])
qed

lemma name_end_of:
  assumes "block + n \<le> length w" "body = seg w block n"
  shows "name_scan w block (block + n) (block + 1) = Some (block + name_end_of body)"
    and "1 \<le> name_end_of body"
proof -
  have len: "length body = n" using assms by simp
  obtain e where e: "name_scan body 0 n 1 = Some e" "1 \<le> e"
    using name_scan_defined [of n body 0 1] len by auto
  then have "name_end_of body = e" by (simp add: name_end_of_def len)
  with e name_scan_relocate [OF assms(1), of 1] assms(2)
  show "name_scan w block (block + n) (block + 1) = Some (block + name_end_of body)"
    and "1 \<le> name_end_of body" by simp_all
qed

lemma payload_of_bounds:
  "payload_of chunk body = Some (p, n) \<Longrightarrow> 0 < p \<and> n \<noteq> 0 \<and> p + n + 2 \<le> length body"
  by (auto simp: payload_of_def Let_def split: if_splits)

lemma repair_chunk_eq:
  assumes "block + n \<le> length w" and body: "body = seg w block n"
  shows "repair_chunk w chunk n block = Some (splice w block (fix_body chunk body), body_hits chunk body)"
proof -
  note ne = name_end_of [OF assms]
  have len: "length body = n" using assms by simp
  have bn: "body ! i = w ! (block + i)" if "i < n" for i using assms that by simp
  have idle: "splice w block body = w" using assms by simp
  have pay: "repair_payload_crc w (block + p) m
      = Some (splice w block (splice body p (fix_payload (seg body p (m + 2)))), stamps (seg body p m))"
    if "p + m + 2 \<le> n" for p m
    using that assms by (simp add: repair_payload_crc_eq splice_splice seg_seg add.assoc)
  show ?thesis
  proof (cases "chunk = 0x100 \<and> 1 < n \<and> body ! 0 = 0x2A")
    case False
    then have "payload_of chunk body = None" by (auto simp: payload_of_def len)
    moreover have "repair_chunk w chunk n block = Some (w, 0)"
      using False assms by (auto simp: repair_chunk_def)
    ultimately show ?thesis by (simp add: fix_body_def body_hits_def idle)
  next
    case star: True
    let ?e = "name_end_of body"
    have w0: "w ! block = 0x2A" "block < length w" using star assms by auto
    show ?thesis
    proof (cases "?e < n \<and> body ! ?e = 0 \<and> ?e + 20 \<le> n")
      case False
      then have "payload_of chunk body = None" by (auto simp: payload_of_def len Let_def)
      moreover have "repair_chunk w chunk n block = Some (w, 0)"
        using False star w0 ne assms by (auto simp: repair_chunk_def Let_def)
      ultimately show ?thesis by (simp add: fix_body_def body_hits_def idle)
    next
      case True
      have rd: "rd16 (rd8 w) (block + ?e + 1 + 10)
          = Some (le16 (body ! (?e + 11)) (body ! (?e + 12)))"
        using True assms bn [of "?e + 11"] bn [of "?e + 12"] by (simp add: ac_simps)
      let ?n = "le16 (body ! (?e + 11)) (body ! (?e + 12))"
      have "repair_chunk w chunk n block
          = (if ?n \<noteq> 0 \<and> block + ?e + 20 + unat ?n + 2 \<le> block + n
             then repair_payload_crc w (block + ?e + 20) (unat ?n) else Some (w, 0))"
        using True star w0 ne assms rd bn [of ?e] by (simp add: repair_chunk_def Let_def ac_simps)
      moreover have "payload_of chunk body = (if ?n \<noteq> 0 \<and> ?e + 20 + unat ?n + 2 \<le> n
          then Some (?e + 20, unat ?n) else None)"
        using True star by (simp add: payload_of_def len Let_def unat_eq_0)
      ultimately show ?thesis
        using pay [of "?e + 20" "unat ?n"]
        by (simp add: fix_body_def body_hits_def idle add.assoc)
    qed
  qed
qed

lemma name_scan_prefix:
  assumes "n \<le> length w" "n \<le> length w'" "name_scan w b n j = Some e"
    and "\<And>i. i \<le> e \<Longrightarrow> i < n \<Longrightarrow> w' ! i = w ! i"
  shows "name_scan w' b n j = Some e"
  using assms(3)
proof (induction "n - j" arbitrary: j rule: less_induct)
  case less
  show ?case
  proof (cases "j < n \<and> j - b \<le> 11")
    case False
    with less.prems show ?thesis
      by (simp only: name_scan.simps [of w b n j] name_scan.simps [of w' b n j] if_False)
  next
    case True
    have "j \<le> e" using name_scan_defined [of n w b j] assms(1) less.prems by auto
    with True assms(4) have same: "w' ! j = w ! j" by simp
    show ?thesis
    proof (cases "w ! j = 0")
      case True
      with same less.prems assms \<open>j < n \<and> _\<close> show ?thesis
        by (simp add: name_scan.simps [of w b n j] name_scan.simps [of w' b n e])
    next
      case False
      with True less.prems assms have "name_scan w b n (Suc j) = Some e"
        by (simp add: name_scan.simps [of _ b n j])
      then have "name_scan w' b n (Suc j) = Some e" using True by (intro less.hyps) auto
      with True False same assms show ?thesis by (simp add: name_scan.simps [of _ b n j])
    qed
  qed
qed

lemma fix_payload_idem: "2 \<le> length pb \<Longrightarrow> fix_payload (fix_payload pb) = fix_payload pb"
  by (simp add: fix_payload_def Let_def)

lemma fix_payload_no_stamps:
  "2 \<le> length pb \<Longrightarrow> stamps (take (length pb - 2) (fix_payload pb)) = 0"
  by (simp add: fix_payload_def Let_def)

lemma length_fix_body [simp]: "length (fix_body chunk body) = length body"
  by (auto simp: fix_body_def dest!: payload_of_bounds split: option.split)

lemma payload_of_fix_body: "payload_of chunk (fix_body chunk body) = payload_of chunk body"
proof (cases "payload_of chunk body")
  case None
  then show ?thesis by (simp add: fix_body_def)
next
  case (Some pn)
  then obtain p n where pn: "payload_of chunk body = Some (p, n)" by force
  let ?b' = "fix_body chunk body" and ?e = "name_end_of body"
  have e: "p = ?e + 20" "?e < length body" "chunk = 0x100" "1 < length body"
    using pn by (auto simp: payload_of_def Let_def split: if_splits)
  have bnd: "p + n + 2 \<le> length body" using payload_of_bounds [OF pn] by simp
  have same: "?b' ! i = body ! i" if "i < p" for i
    using pn bnd that by (simp add: fix_body_def splice_def nth_append)
  have "name_scan body 0 (length body) 1 = Some ?e"
    using name_end_of(1) [of 0 "length body" body body] by simp
  then have "name_scan ?b' 0 (length body) 1 = Some ?e"
    by (rule name_scan_prefix [rotated 2]) (simp_all add: same e(1))
  then have "name_end_of ?b' = ?e" by (simp add: name_end_of_def)
  then show ?thesis
    using same [of 0] same [of ?e] same [of "?e + 11"] same [of "?e + 12"] e
    by (simp add: payload_of_def Let_def)
qed

lemma fix_body_idem: "fix_body chunk (fix_body chunk body) = fix_body chunk body"
  and body_hits_fix_body: "body_hits chunk (fix_body chunk body) = 0"
proof -
  have "fix_body chunk (fix_body chunk body) = fix_body chunk body
      \<and> body_hits chunk (fix_body chunk body) = 0"
  proof (cases "payload_of chunk body")
    case None
    then show ?thesis by (simp add: fix_body_def body_hits_def)
  next
    case (Some pn)
    then obtain p n where pn: "payload_of chunk body = Some (p, n)" by force
    note bnd = payload_of_bounds [OF this]
    let ?x = "fix_payload (seg body p (n + 2))"
    have len: "length ?x = n + 2" using bnd by simp
    have fb: "fix_body chunk body = splice body p ?x" using pn by (simp add: fix_body_def)
    have sx: "seg (splice body p ?x) p (n + 2) = ?x" using bnd len by simp
    have "seg (splice body p ?x) p n = take n ?x"
      using arg_cong [OF sx, of "take n"] by (simp add: take_seg)
    moreover have "stamps (take n ?x) = 0"
      using fix_payload_no_stamps [of "seg body p (n + 2)"] bnd by simp
    moreover have "splice (splice body p ?x) p ?x = splice body p ?x"
      using bnd len by (simp add: splice_def)
    ultimately show ?thesis
      using bnd len sx pn payload_of_fix_body [of chunk body]
      by (simp add: fix_body_def body_hits_def fix_payload_idem)
  qed
  then show "fix_body chunk (fix_body chunk body) = fix_body chunk body"
    and "body_hits chunk (fix_body chunk body) = 0" by blast+
qed

subsection \<open>The repair of a stream of chunks\<close>

text \<open>The reference: cut the bytes into complete chunks, repair each one, and keep the
  incomplete rest. The components are the repaired chunks, the rest and the hits.\<close>

definition chunk_size :: "bytes \<Rightarrow> nat" where
  "chunk_size w = unat (le32 (w ! 2) (w ! 3) (w ! 4) (w ! 5))"

definition chunk_type :: "bytes \<Rightarrow> u16" where
  "chunk_type w = le16 (w ! 0) (w ! 1)"

function repair_stream :: "bytes \<Rightarrow> bytes \<times> bytes \<times> nat" where
  "repair_stream w =
     (if 6 \<le> length w \<and> 6 + chunk_size w \<le> length w then
        let (a, r, h) = repair_stream (drop (6 + chunk_size w) w); body = seg w 6 (chunk_size w) in
          (take 6 w @ fix_body (chunk_type w) body @ a, r, body_hits (chunk_type w) body + h)
      else ([], w, 0))"
  by pat_completeness auto
termination
  by (relation "measure length") auto

declare repair_stream.simps [simp del]

lemma repair_stream_rest:
  "repair_stream w = (a, r, h) \<Longrightarrow> length a \<le> length w \<and> r = drop (length a) w"
proof (induction w arbitrary: a r h rule: repair_stream.induct)
  case (1 w)
  show ?case
  proof (cases "6 \<le> length w \<and> 6 + chunk_size w \<le> length w")
    case False
    with "1.prems" show ?thesis by (simp only: repair_stream.simps [of w]) auto
  next
    case True
    obtain a' r' h' where rs: "repair_stream (drop (6 + chunk_size w) w) = (a', r', h')"
      by (metis prod_cases3)
    from "1.IH" [OF True rs] True rs "1.prems" show ?thesis
      by (auto simp: repair_stream.simps [of w] Let_def ac_simps)
  qed
qed

lemma repair_stream_stops:
  "repair_stream w = (a, r, h) \<Longrightarrow> repair_stream r = ([], r, 0)"
proof (induction w arbitrary: a r h rule: repair_stream.induct)
  case (1 w)
  show ?case
  proof (cases "6 \<le> length w \<and> 6 + chunk_size w \<le> length w")
    case False
    then have "repair_stream w = ([], w, 0)" by (simp only: repair_stream.simps [of w] if_False)
    with "1.prems" show ?thesis by simp
  next
    case True
    obtain a' r' h' where rs: "repair_stream (drop (6 + chunk_size w) w) = (a', r', h')"
      by (metis prod_cases3)
    from "1.IH" [OF True rs] True rs "1.prems" show ?thesis
      by (auto simp: repair_stream.simps [of w] Let_def)
  qed
qed

lemma repair_stream_length:
  "repair_stream w = (a, r, h) \<Longrightarrow> length a + length r = length w"
  by (auto dest: repair_stream_rest)

text \<open>The walk of the source computes the reference on the bytes from its start offset.\<close>

lemma span_loop_eq:
  assumes "position \<le> len" "len \<le> length w"
    "repair_stream (seg w position (len - position)) = (a, r, h)"
  shows "span_loop w len position hits = Some (splice w position a, position + length a, hits + h)"
  using assms
proof (induction "len - position" arbitrary: w position hits a r h rule: less_induct)
  case less
  let ?s = "seg w position (len - position)"
  let ?n = "chunk_size ?s" and ?b = "position + 6"
  have len_s: "length ?s = len - position" using less.prems by simp
  show ?case
  proof (cases "6 \<le> length ?s")
    case False
    then have "\<not> position + 6 \<le> len" using len_s by linarith
    with False show ?thesis using less.prems len_s
      by (simp add: span_loop.simps [of w] repair_stream.simps [of ?s] splice_def)
  next
    case six: True
    have s_nth: "?s ! i = w ! (position + i)" if "i < 6" for i
      using that six less.prems len_s by simp
    have rd: "rd16 (rd8 w) position = Some (chunk_type ?s)"
      "rd32 (rd8 w) (position + 2) = Some (le32 (?s ! 2) (?s ! 3) (?s ! 4) (?s ! 5))"
      using six less.prems len_s by (simp_all add: chunk_type_def s_nth add.assoc
        del: One_nat_def add_2_eq_Suc add_2_eq_Suc')
    have n: "unat (le32 (?s ! 2) (?s ! 3) (?s ! 4) (?s ! 5)) = ?n" by (simp add: chunk_size_def)
    show ?thesis
    proof (cases "6 + ?n \<le> length ?s")
      case False
      then have "?b + ?n > len" using len_s six by linarith
      with False rd n less.prems six len_s show ?thesis
        by (simp add: span_loop.simps [of w len position] repair_stream.simps [of ?s] splice_def)
    next
      case True
      let ?body = "seg w ?b ?n" and ?w' = "splice w ?b (fix_body (chunk_type ?s) (seg w ?b ?n))"
      have fits: "?b + ?n \<le> len" using True len_s less.prems by linarith
      have body: "seg ?s 6 ?n = ?body" using True len_s less.prems by (simp add: seg_seg)
      have lb: "length (fix_body (chunk_type ?s) ?body) = ?n" using fits less.prems by simp
      have rest: "seg ?w' (?b + ?n) (len - (?b + ?n)) = drop (6 + ?n) ?s"
        using fits less.prems lb by (simp add: seg_def splice_def drop_take ac_simps)
      obtain a' r' h' where rs: "repair_stream (drop (6 + ?n) ?s) = (a', r', h')"
        by (metis prod_cases3)
      have a: "a = take 6 ?s @ fix_body (chunk_type ?s) ?body @ a'"
        and h: "h = body_hits (chunk_type ?s) ?body + h'"
        using less.prems(3) six True rs body by (simp_all add: repair_stream.simps [of ?s] Let_def)
      have la: "length a' \<le> len - (?b + ?n)"
        using repair_stream_length [OF rs] len_s by simp
      have IH: "span_loop ?w' len (?b + ?n) (hits + body_hits (chunk_type ?s) ?body)
        = Some (splice ?w' (?b + ?n) a', ?b + ?n + length a',
                hits + body_hits (chunk_type ?s) ?body + h')"
        using fits less.prems lb rs rest by (intro less.hyps) auto
      have "splice ?w' (?b + ?n) a' = splice w position a"
      proof -
        have "take 6 ?s = seg w position 6" using six len_s by (simp add: take_seg)
        moreover have "take ?b w = take position w @ seg w position 6"
          by (simp add: seg_def take_add)
        moreover have "length (take position w) = position" using less.prems by simp
        ultimately show ?thesis using fits less.prems lb la a
          by (simp add: splice_def ac_simps)
      qed
      with IH fits rd n less.prems lb a h six True show ?thesis
        by (simp add: span_loop.simps [of w len position] repair_chunk_eq [OF _ refl])
    qed
  qed
qed

lemma repair_stream_append:
  assumes "repair_stream u = (a, r, h)" "repair_stream (r @ v) = (a', r', h')"
  shows "repair_stream (u @ v) = (a @ a', r', h + h')"
  using assms
proof (induction u arbitrary: a r h rule: repair_stream.induct)
  case (1 u)
  show ?case
  proof (cases "6 \<le> length u \<and> 6 + chunk_size u \<le> length u")
    case False
    with "1.prems"(1) have "a = []" "r = u" "h = 0" by (simp_all only: repair_stream.simps [of u]) auto
    with "1.prems"(2) show ?thesis by simp
  next
    case True
    obtain b s k where bs: "repair_stream (drop (6 + chunk_size u) u) = (b, s, k)"
      by (metis prod_cases3)
    have same: "chunk_size (u @ v) = chunk_size u" "chunk_type (u @ v) = chunk_type u"
      "seg (u @ v) 6 (chunk_size u) = seg u 6 (chunk_size u)"
      using True by (auto simp: chunk_size_def chunk_type_def nth_append seg_def)
    have "a = take 6 u @ fix_body (chunk_type u) (seg u 6 (chunk_size u)) @ b" "r = s"
      "h = body_hits (chunk_type u) (seg u 6 (chunk_size u)) + k"
      using "1.prems"(1) True bs by (auto simp: repair_stream.simps [of u] Let_def)
    moreover have "repair_stream (drop (6 + chunk_size u) u @ v) = (b @ a', r', k + h')"
      using "1.IH" [OF True bs] "1.prems"(2) \<open>r = s\<close> by simp
    ultimately show ?thesis using True same
      by (simp add: repair_stream.simps [of "u @ v"] Let_def)
  qed
qed

lemma repair_stream_idem:
  "repair_stream u = (a, r, h) \<Longrightarrow> repair_stream a = (a, [], 0)"
proof (induction u arbitrary: a r h rule: repair_stream.induct)
  case (1 u)
  show ?case
  proof (cases "6 \<le> length u \<and> 6 + chunk_size u \<le> length u")
    case False
    with "1.prems" have "a = []" by (simp only: repair_stream.simps [of u]) auto
    then show ?thesis by (simp add: repair_stream.simps [of "[]"])
  next
    case True
    let ?n = "chunk_size u" and ?f = "fix_body (chunk_type u) (seg u 6 (chunk_size u))"
    obtain b s k where bs: "repair_stream (drop (6 + ?n) u) = (b, s, k)" by (metis prod_cases3)
    have a: "a = take 6 u @ ?f @ b"
      using "1.prems" True bs by (auto simp: repair_stream.simps [of u] Let_def)
    have lf: "length ?f = ?n" using True by simp
    have "chunk_size a = ?n" "chunk_type a = chunk_type u" "seg a 6 ?n = ?f"
      "drop (6 + ?n) a = b" "take 6 a = take 6 u" "6 + ?n \<le> length a"
      using True lf a by (simp_all add: chunk_size_def chunk_type_def nth_append seg_def)
    moreover have "take 6 u @ ?f @ b = a" using a by simp
    ultimately show ?thesis using "1.IH" [OF True bs]
      by (simp add: repair_stream.simps [of a] Let_def fix_body_idem body_hits_fix_body)
  qed
qed

lemma uef_repair_filev_span_eq:
  assumes "start \<le> len" "len \<le> length w"
    and rs: "repair_stream (seg w start (len - start)) = (a, r, h)"
  shows "uef_repair_filev_span (Some w) len start = Some (splice w start a, start + length a, h)"
    and "start + length a \<le> len"
  using span_loop_eq [OF assms] repair_stream_length [OF rs] assms(1,2)
  by (simp_all add: uef_repair_filev_span_def)

subsection \<open>Properties\<close>

text \<open>A window with one cassette block whose payload is \<open>?&212=\<close>, for the witnesses.\<close>

definition demo_block :: bytes where
  "demo_block = [0x00, 0x01, 30, 0, 0, 0, 0x2A, 0x41, 0,
     0, 0, 0, 0, 0, 0, 0, 0, 0, 0, 6, 0, 0x80, 0, 0, 0, 0, 0, 0,
     0x3F, 0x26, 0x32, 0x31, 0x32, 0x3D, 0, 0]"

definition demo_repaired :: bytes where
  "demo_repaired = [0x00, 0x01, 30, 0, 0, 0, 0x2A, 0x41, 0,
     0, 0, 0, 0, 0, 0, 0, 0, 0, 0, 6, 0, 0x80, 0, 0, 0, 0, 0, 0,
     0x3F, 0x26, 0x39, 0x30, 0x30, 0x3D, 0xD7, 0xEE]"

lemma length_demo_block: "length demo_block = 36"
  by (simp add: demo_block_def)

lemma demo_block_repaired:
  "uef_repair_filev_span (Some demo_block) 36 0 = Some (demo_repaired, 36, 1)"
  by code_simp

text \<open>C1: the window repair never reads or writes outside the window it is given, whatever bytes
  the window holds: the call returns, keeps the window's length, leaves the bytes before the start
  offset and the incomplete rest after the returned offset untouched, and returns an offset inside
  the window.\<close>

theorem uef_repair_safe:
  assumes "len \<le> length w"
  shows "\<exists>w' position repaired.
     uef_repair_filev_span (Some w) len start = Some (w', position, repaired) \<and>
     length w' = length w \<and> position \<le> len \<and>
     take start w' = take start w \<and> drop position w' = drop position w"
proof (cases "start \<le> len")
  case False
  then show ?thesis by (simp add: uef_repair_filev_span_def)
next
  case True
  obtain a r h where rs: "repair_stream (seg w start (len - start)) = (a, r, h)"
    by (metis prod_cases3)
  from uef_repair_filev_span_eq [OF True assms rs] show ?thesis
    using assms by (simp add: splice_def)
qed

theorem uef_repair_safe_witness:
  "36 \<le> length demo_block \<and> (\<exists>w' position repaired.
     uef_repair_filev_span (Some demo_block) 36 12 = Some (w', position, repaired) \<and>
     length w' = length demo_block \<and> position \<le> 36 \<and>
     take 12 w' = take 12 demo_block \<and> drop position w' = drop position demo_block)"
proof -
  have h: "36 \<le> length demo_block" by (simp add: length_demo_block)
  from h uef_repair_safe [OF h, of 12] show ?thesis by blast
qed

text \<open>C5: repairing a tape window by window, carrying the incomplete rest of one window into the
  next as the header comment of \<open>uef_repair_filev_span\<close> prescribes, gives exactly the bytes, the
  final offset and the number of redirections that repairing the whole tape at once gives.\<close>

theorem uef_repair_windows:
  assumes "start \<le> length w1"
    and "uef_repair_filev_span (Some w1) (length w1) start = Some (w1', p1, n1)"
    and "uef_repair_filev_span (Some (drop p1 w1' @ w2)) (length (drop p1 w1' @ w2)) 0
      = Some (w2', p2, n2)"
  shows "uef_repair_filev_span (Some (w1 @ w2)) (length (w1 @ w2)) start
    = Some (take p1 w1' @ w2', p1 + p2, n1 + n2)"
proof -
  obtain a r h where rs: "repair_stream (drop start w1) = (a, r, h)" by (metis prod_cases3)
  have seg1: "seg w1 start (length w1 - start) = drop start w1" by (simp add: seg_def)
  have w1': "w1' = splice w1 start a" "p1 = start + length a" "n1 = h"
    using uef_repair_filev_span_eq [OF assms(1) order.refl rs [folded seg1]] assms(2) by auto
  have r: "r = drop p1 w1'" "start + length a \<le> length w1"
    using repair_stream_rest [OF rs] w1' assms(1) by (auto simp: splice_def ac_simps)
  obtain a' r' h' where rs': "repair_stream (r @ w2) = (a', r', h')" by (metis prod_cases3)
  have w2': "w2' = splice (r @ w2) 0 a'" "p2 = length a'" "n2 = h'" and la': "length a' \<le> length (r @ w2)"
    using uef_repair_filev_span_eq [of 0 "length (r @ w2)" "r @ w2" a' r' h'] rs' assms(3) r
    by (auto simp: seg_def)
  have "repair_stream (seg (w1 @ w2) start (length (w1 @ w2) - start)) = (a @ a', r', h + h')"
    using repair_stream_append [OF rs rs'] assms(1) by (simp add: seg_def)
  from uef_repair_filev_span_eq(1) [OF _ order.refl this] assms(1)
  have "uef_repair_filev_span (Some (w1 @ w2)) (length (w1 @ w2)) start
      = Some (splice (w1 @ w2) start (a @ a'), start + length (a @ a'), h + h')" by simp
  moreover have "splice (w1 @ w2) start (a @ a') = take p1 w1' @ w2'"
    using w1' w2' r la' assms(1) repair_stream_rest [OF rs]
    by (simp add: splice_def ac_simps)
  ultimately show ?thesis using w1' w2' by simp
qed

theorem uef_repair_windows_witness:
  "uef_repair_filev_span (Some demo_block) 36 0 = Some (demo_repaired, 36, 1)"
proof -
  let ?w1 = "take 30 demo_block" and ?w2 = "drop 30 demo_block"
  have "uef_repair_filev_span (Some ?w1) (length ?w1) 0 = Some (?w1, 0, 0)" by code_simp
  moreover have "uef_repair_filev_span (Some (drop 0 ?w1 @ ?w2)) (length (drop 0 ?w1 @ ?w2)) 0
      = Some (demo_repaired, 36, 1)" by code_simp
  ultimately have "uef_repair_filev_span (Some (?w1 @ ?w2)) (length (?w1 @ ?w2)) 0
      = Some (take 0 ?w1 @ demo_repaired, 0 + 36, 0 + 1)"
    by (rule uef_repair_windows [OF le0])
  then show ?thesis by (simp add: length_demo_block)
qed

text \<open>The repair is idempotent: a repaired window is left as it is by a second repair, which
  reports no redirection and stops at the same offset.\<close>

theorem uef_repair_idempotent:
  assumes "len \<le> length w" "uef_repair_filev_span (Some w) len start = Some (w', position, n)"
  shows "uef_repair_filev_span (Some w') len start = Some (w', position, 0)"
proof (cases "start \<le> len")
  case False
  with assms show ?thesis by (auto simp: uef_repair_filev_span_def)
next
  case True
  obtain a r h where rs: "repair_stream (seg w start (len - start)) = (a, r, h)"
    by (metis prod_cases3)
  note eq = uef_repair_filev_span_eq [OF True assms(1) rs]
  have w': "w' = splice w start a" "position = start + length a" using eq assms(2) by auto
  have r: "r = drop (length a) (seg w start (len - start))" using repair_stream_rest [OF rs] by simp
  have "repair_stream r = ([], r, 0)" by (rule repair_stream_stops [OF rs])
  then have "repair_stream (a @ r) = (a, r, 0)"
    using repair_stream_append [OF repair_stream_idem [OF rs], of r "[]" r 0] by simp
  moreover have "seg w' start (len - start) = a @ r"
    using w' r eq(2) assms(1) True by (simp add: splice_def seg_def take_drop ac_simps)
  ultimately show ?thesis
    using uef_repair_filev_span_eq(1) [OF True, of w' a r 0] w' eq(2) assms(1)
    by (simp add: splice_def)
qed

theorem uef_repair_idempotent_witness:
  "uef_repair_filev_span (Some demo_block) 36 0 = Some (demo_repaired, 36, 1) \<and>
   uef_repair_filev_span (Some demo_repaired) 36 0 = Some (demo_repaired, 36, 0)"
proof -
  have h: "36 \<le> length demo_block" by (simp add: length_demo_block)
  show ?thesis using uef_repair_idempotent [OF h demo_block_repaired] demo_block_repaired by blast
qed

text \<open>C6: when a payload had a stamp, the block that the repair leaves verifies: the CRC of the
  rewritten payload followed by the two stored CRC bytes, high byte first, is zero; the payload is
  the redirected one and every byte outside payload and CRC is kept.\<close>

theorem payload_crc_valid:
  assumes "p + n + 2 \<le> length w" "repair_payload_crc w p n = Some (w', hits)" "hits \<noteq> 0"
  shows "tape_crc w' p (n + 2) = Some 0 \<and> seg w' p n = redirect (seg w p n) \<and>
    take p w' = take p w \<and> drop (p + n + 2) w' = drop (p + n + 2) w"
proof -
  let ?d = "seg w p n"
  have w': "w' = splice w p (fix_payload (seg w p (n + 2)))" and h: "stamps ?d \<noteq> 0"
    using assms by (auto simp: repair_payload_crc_eq)
  have "take (length (seg w p (n + 2)) - 2) (seg w p (n + 2)) = ?d"
    using assms(1) by (simp add: take_seg)
  then have fp: "fix_payload (seg w p (n + 2))
      = redirect ?d @ [byte_of (crc16 (redirect ?d)) 1, byte_of (crc16 (redirect ?d)) 0]"
    using h by (simp add: fix_payload_def Let_def)
  have s: "seg w' p (n + 2) = fix_payload (seg w p (n + 2))" using w' assms(1) by simp
  have "tape_crc w' p (n + 2) = Some 0"
    using w' s assms(1) fp crc16_residue by (simp add: add.assoc)
  moreover have "seg w' p n = redirect ?d"
    using arg_cong [OF s, of "take n"] fp assms(1) by (simp add: take_seg)
  ultimately show ?thesis using w' assms(1) by (simp add: splice_def add.assoc)
qed

theorem payload_crc_valid_witness:
  "tape_crc demo_repaired 28 8 = Some 0 \<and> repair_payload_crc demo_block 28 6 = Some (demo_repaired, 1)"
proof -
  have "28 + 6 + 2 \<le> length demo_block" by (simp add: length_demo_block)
  moreover have r: "repair_payload_crc demo_block 28 6 = Some (demo_repaired, 1)" by code_simp
  ultimately have "tape_crc demo_repaired 28 (6 + 2) = Some 0"
    using payload_crc_valid [of 28 6 demo_block demo_repaired 1] by simp
  with r show ?thesis by simp
qed

text \<open>The in-place payload loop, which rewrites the bytes it is scanning, computes the
  simultaneous replacement of every stamp of the original payload (\<open>redirect\<close>, defined on the
  original bytes only), counts exactly the original stamps, and leaves no stamp behind.\<close>

theorem payload_loop_simultaneous:
  assumes "data + n \<le> length w"
  shows "repair_block_payload w data n
      = Some (splice w data (redirect (seg w data n)), stamps (seg w data n)) \<and>
    stamps (redirect (seg w data n)) = 0"
  using repair_block_payload_eq [OF assms] by simp

theorem payload_loop_simultaneous_witness:
  "repair_block_payload demo_block 28 6
      = Some (splice demo_block 28 (redirect (seg demo_block 28 6)), stamps (seg demo_block 28 6)) \<and>
   stamps (redirect (seg demo_block 28 6)) = 0"
proof -
  have "28 + 6 \<le> length demo_block" by (simp add: length_demo_block)
  then show ?thesis by (rule payload_loop_simultaneous)
qed

end
