(* ===== verification/Media_Catalogue.thy ===== *)
theory Media_Catalogue
  imports Uef_Repair
begin

unbundle bit_operations_syntax

section \<open>Container catalogues (media\_catalogue.c)\<close>

text \<open>
  \<open>media_catalogue.c\<close> reads untrusted container images: UEF cassette streams, whose \<open>&0100\<close> chunks
  hold CFS blocks that are grouped into files, and DFS discs with their two catalogue sectors. An
  image is a list of bytes and every access to it is checked; \<open>None\<close> is an access outside the image
  or outside an output buffer. C strings of at most fifteen characters are byte lists without the
  terminator, so \<open>strcmp\<close> is equality. An entries array is given by its capacity (\<open>None\<close> is the NULL
  pointer) and its contents are the entries written so far, in order. Counters of type \<open>uint32_t\<close>
  and \<open>uint16_t\<close> are words.
\<close>

abbreviation MEDIA_NAME_MAX :: nat where "MEDIA_NAME_MAX \<equiv> 16"
abbreviation MEDIA_TITLE_MAX :: nat where "MEDIA_TITLE_MAX \<equiv> 16"
abbreviation MEDIA_MAX_ENTRIES :: nat where "MEDIA_MAX_ENTRIES \<equiv> 128"
abbreviation UEF_MAGIC_LEN :: nat where "UEF_MAGIC_LEN \<equiv> 10"
abbreviation UEF_HEADER_LEN :: nat where "UEF_HEADER_LEN \<equiv> 12"
abbreviation UEF_CHUNK_DATA :: u16 where "UEF_CHUNK_DATA \<equiv> 0x0100"
abbreviation DFS_SECTOR :: nat where "DFS_SECTOR \<equiv> 256"
abbreviation DFS_MAX_FILES :: nat where "DFS_MAX_FILES \<equiv> 31"

text \<open>The bytes of \<open>"UEF File!"\<close> with the terminating NUL.\<close>

definition UEF_MAGIC :: bytes where
  "UEF_MAGIC = [0x55, 0x45, 0x46, 0x20, 0x46, 0x69, 0x6C, 0x65, 0x21, 0]"

datatype media_kind = MEDIA_KIND_UNKNOWN | MEDIA_KIND_UEF | MEDIA_KIND_SSD

datatype media_status = MEDIA_OK | MEDIA_ERR_PARAM | MEDIA_ERR_FORMAT | MEDIA_ERR_RANGE
  | MEDIA_ERR_TRUNCATED

record media_entry =
  e_name :: bytes
  e_load :: u32
  e_exec :: u32
  e_length :: u32
  e_offset :: u32
  e_blocks :: u16
  e_locked :: bool
  e_crc_ok :: bool

record media_summary =
  s_title :: bytes
  s_kind :: media_kind
  s_count :: nat
  s_total :: nat
  s_issues :: u32
  s_boot_option :: u8

record cfs_block =
  b_name :: bytes
  b_load :: u32
  b_exec :: u32
  b_block :: u16
  b_data_length :: u16
  b_flags :: u8
  b_data_offset :: nat
  b_crc_ok :: bool

subsection \<open>CFS blocks\<close>

fun media_tape_crc_loop :: "bytes \<Rightarrow> u16 \<Rightarrow> u16" where
  "media_tape_crc_loop [] crc = crc"
| "media_tape_crc_loop (b # bs) crc =
     media_tape_crc_loop bs (tape_crc_bits 8 (crc XOR push_bit 8 (ucast b)))"

definition media_tape_crc :: "bytes \<Rightarrow> nat \<Rightarrow> nat \<Rightarrow> u16 option" where
  "media_tape_crc w data n = do { d \<leftarrow> rd_range w data n; Some (media_tape_crc_loop d 0) }"

text \<open>The filename loop: stops at a NUL, at the end of the chunk or after fifteen characters.\<close>

function cfs_name_scan :: "bytes \<Rightarrow> nat \<Rightarrow> nat \<Rightarrow> nat \<Rightarrow> (nat \<times> nat) option" where
  "cfs_name_scan img chunk_end pos name_len =
     (if pos < chunk_end then do {
        c \<leftarrow> rd8 img pos;
        if c \<noteq> 0 \<and> name_len < MEDIA_NAME_MAX - 1
        then cfs_name_scan img chunk_end (pos + 1) (name_len + 1)
        else Some (pos, name_len) }
      else Some (pos, name_len))"
  by pat_completeness auto
termination by (relation "measure (\<lambda>(img, chunk_end, pos, name_len). chunk_end - pos)") auto

text \<open>The inner \<open>None\<close> is the result 0 of the source: a malformed block.\<close>

definition cfs_decode_block :: "bytes \<Rightarrow> nat \<Rightarrow> nat \<Rightarrow> (nat \<times> cfs_block) option option" where
  "cfs_decode_block img chunk_end pos = do {
     star \<leftarrow> (if chunk_end \<le> pos then Some False else map_option (\<lambda>c. c = 0x2A) (rd8 img pos));
     if \<not> star then Some None else do {
     let name_start = pos + 1;
     (p, name_len) \<leftarrow> cfs_name_scan img chunk_end name_start 0;
     nul \<leftarrow> (if chunk_end \<le> p then Some False else map_option (\<lambda>c. c = 0) (rd8 img p));
     if \<not> nul then Some None else do {
     let p1 = p + 1;
     if p1 + 17 + 2 > chunk_end then Some None else do {
     name \<leftarrow> rd_range img name_start name_len;
     load \<leftarrow> rd32 (rd8 img) p1;
     exec \<leftarrow> rd32 (rd8 img) (p1 + 4);
     block \<leftarrow> rd16 (rd8 img) (p1 + 8);
     data_length \<leftarrow> rd16 (rd8 img) (p1 + 10);
     flags \<leftarrow> rd8 img (p1 + 12);
     let p2 = p1 + 17;
     stored \<leftarrow> rd16 (rd8 img) p2;
     computed \<leftarrow> media_tape_crc img name_start (p2 - name_start);
     let p3 = p2 + 2;
     let out = \<lparr>b_name = name, b_load = load, b_exec = exec, b_block = block,
       b_data_length = data_length, b_flags = flags, b_data_offset = p3,
       b_crc_ok = (stored = computed)\<rparr>;
     if data_length = 0 then Some (Some (p3, out))
     else if p3 + unat data_length + 2 > chunk_end then Some None
     else do {
       dcomputed \<leftarrow> media_tape_crc img p3 (unat data_length);
       dstored \<leftarrow> rd16 (rd8 img) (p3 + unat data_length);
       Some (Some (p3 + (unat data_length + 2),
         out\<lparr>b_crc_ok := (b_crc_ok out \<and> dstored = dcomputed)\<rparr>)) }}}}}"

declare cfs_name_scan.simps [simp del]

lemma cfs_name_scan_mono: "cfs_name_scan img e p n = Some (p', n') \<Longrightarrow> p \<le> p'"
proof (induction img e p n rule: cfs_name_scan.induct)
  case (1 img e p n)
  then show ?case
    by (auto simp: cfs_name_scan.simps [of img e p n] bind_eq_Some_conv split: if_splits)
qed

lemma cfs_decode_block_progress:
  assumes "cfs_decode_block img e p = Some (Some (q, b))" shows "p < q" "q \<le> e"
proof -
  have "p < q \<and> q \<le> e"
    using assms
    by (auto simp: cfs_decode_block_def Let_def bind_eq_Some_conv dest!: cfs_name_scan_mono split: if_splits)
  then show "p < q" "q \<le> e" by auto
qed

subsection \<open>Walking a cassette stream\<close>

function uef_blocks_loop ::
    "bytes \<Rightarrow> ('s \<Rightarrow> cfs_block \<Rightarrow> 's option) \<Rightarrow> nat \<Rightarrow> nat \<Rightarrow> nat \<Rightarrow> 's \<Rightarrow> u32 \<Rightarrow> ('s \<times> u32) option" where
  "uef_blocks_loop img visit data end bp s issues =
     (if bp < end then
        (case cfs_decode_block img end bp of
           None \<Rightarrow> None
         | Some None \<Rightarrow> Some (s, if bp \<noteq> data then issues + 1 else issues)
         | Some (Some (next, block)) \<Rightarrow> do {
             s' \<leftarrow> visit s block;
             uef_blocks_loop img visit data end next s' issues })
      else Some (s, issues))"
  by pat_completeness auto
termination
  by (relation "measure (\<lambda>(img, visit, data, end, bp, s, issues). end - bp)")
    (auto dest: cfs_decode_block_progress)

function uef_chunks_loop ::
    "bytes \<Rightarrow> ('s \<Rightarrow> cfs_block \<Rightarrow> 's option) \<Rightarrow> nat \<Rightarrow> 's \<Rightarrow> u32 \<Rightarrow> (media_status \<times> 's \<times> u32) option" where
  "uef_chunks_loop img visit pos s issues =
     (if pos + 6 \<le> length img then do {
        type \<leftarrow> rd16 (rd8 img) pos;
        clen \<leftarrow> rd32 (rd8 img) (pos + 2);
        let data = pos + 6;
        if length img < unat clen \<or> length img < data + unat clen
        then Some (MEDIA_ERR_TRUNCATED, s, issues + 1)
        else do {
          let end = data + unat clen;
          (s', issues') \<leftarrow> (if type = UEF_CHUNK_DATA
             then uef_blocks_loop img visit data end data s issues else Some (s, issues));
          uef_chunks_loop img visit end s' issues' } }
      else Some (MEDIA_OK, s, issues))"
  by pat_completeness auto
termination
  by (relation "measure (\<lambda>(img, visit, pos, s, issues). length img - pos)") auto

declare uef_blocks_loop.simps [simp del] uef_chunks_loop.simps [simp del]

definition uef_walk ::
    "bytes \<Rightarrow> ('s \<Rightarrow> cfs_block \<Rightarrow> 's option) \<Rightarrow> 's \<Rightarrow> u32 \<Rightarrow> (media_status \<times> 's \<times> u32) option" where
  "uef_walk img visit s issues =
     (if length img < UEF_HEADER_LEN then Some (MEDIA_ERR_FORMAT, s, issues)
      else do {
        magic \<leftarrow> rd_range img 0 UEF_MAGIC_LEN;
        if magic \<noteq> UEF_MAGIC then Some (MEDIA_ERR_FORMAT, s, issues)
        else uef_chunks_loop img visit UEF_HEADER_LEN s issues })"

text \<open>
  The grouping visitor. \<open>g_entries\<close> holds the first \<open>count\<close> elements of the array; \<open>g_open\<close> is the
  index that \<open>open_entry\<close> points to.
\<close>

record uef_group =
  g_max :: "nat option"
  g_entries :: "media_entry list"
  g_total :: nat
  g_current :: "bytes option"
  g_open :: "nat option"

definition starts_file :: "bytes option \<Rightarrow> cfs_block \<Rightarrow> bool" where
  "starts_file current block \<longleftrightarrow> current \<noteq> Some (b_name block) \<or> b_block block = 0"

definition uef_group_block :: "uef_group \<Rightarrow> cfs_block \<Rightarrow> uef_group option" where
  "uef_group_block g block =
     (if starts_file (g_current g) block then
        let g1 = g\<lparr>g_total := g_total g + 1, g_current := Some (b_name block), g_open := None\<rparr> in
        Some (case g_max g of
          Some n \<Rightarrow> if length (g_entries g) < n
            then g1\<lparr>g_entries := g_entries g @ [\<lparr>e_name = b_name block, e_load = b_load block,
                   e_exec = b_exec block, e_length = ucast (b_data_length block), e_offset = 0,
                   e_blocks = 1, e_locked = (b_flags block AND 1 \<noteq> 0), e_crc_ok = b_crc_ok block\<rparr>],
                 g_open := Some (length (g_entries g))\<rparr>
            else g1
        | None \<Rightarrow> g1)
      else case g_open g of None \<Rightarrow> Some g
        | Some i \<Rightarrow> if i < length (g_entries g) then
            let e = g_entries g ! i in
            Some (g\<lparr>g_entries := (g_entries g)[i :=
               e\<lparr>e_length := e_length e + ucast (b_data_length block), e_blocks := e_blocks e + 1,
                 e_crc_ok := (e_crc_ok e \<and> b_crc_ok block)\<rparr>]\<rparr>)
          else None)"


subsection \<open>DFS disc images\<close>

definition printable7 :: "u8 \<Rightarrow> bool" where
  "printable7 c \<longleftrightarrow> 0x20 \<le> (c AND 0x7F) \<and> (c AND 0x7F) \<le> 0x7E"

text \<open>The loop over the catalogue names, from entry \<open>i\<close> on.\<close>

fun dfs_names_ok :: "bytes \<Rightarrow> nat \<Rightarrow> nat \<Rightarrow> bool option" where
  "dfs_names_ok img i 0 = Some True"
| "dfs_names_ok img i (Suc n) = do {
     name \<leftarrow> rd_range img (8 + i * 8) 8;
     if list_all printable7 name then dfs_names_ok img (Suc i) n else Some False }"

definition dfs_plausible :: "bytes \<Rightarrow> bool option" where
  "dfs_plausible img =
     (if length img < 2 * DFS_SECTOR then Some False
      else if length img mod DFS_SECTOR \<noteq> 0 then Some False
      else do {
        file_bytes \<leftarrow> rd8 img (DFS_SECTOR + 5);
        if unat file_bytes mod 8 \<noteq> 0 then Some False
        else if unat file_bytes div 8 > DFS_MAX_FILES then Some False
        else dfs_names_ok img 0 (unat file_bytes div 8) })"

text \<open>The two title loops copy the characters of both catalogue sectors that are neither NUL nor space.\<close>

definition dfs_title :: "bytes \<Rightarrow> bytes option" where
  "dfs_title img = do {
     a \<leftarrow> rd_range img 0 8;
     b \<leftarrow> rd_range img DFS_SECTOR 4;
     Some (take (MEDIA_TITLE_MAX - 1)
       (filter (\<lambda>ch. ch \<noteq> 0 \<and> ch \<noteq> 0x20) (map (\<lambda>ch. ch AND 0x7F) (a @ b)))) }"

text \<open>The 18-bit addresses keep two bits of the extra byte, and are sign-extended when both are set.\<close>

definition dfs_18 :: "u16 \<Rightarrow> u8 \<Rightarrow> nat \<Rightarrow> u32" where
  "dfs_18 low extra shift = ucast low OR push_bit 16 (ucast (drop_bit shift extra AND 0x03))"

definition dfs_sign :: "u32 \<Rightarrow> u32" where
  "dfs_sign v = (if v AND 0x30000 = 0x30000 then v OR 0xFFFC0000 else v)"

text \<open>One catalogue entry with its start sector and whether its data runs off the image.\<close>

definition dfs_entry :: "bytes \<Rightarrow> nat \<Rightarrow> (media_entry \<times> nat \<times> bool) option" where
  "dfs_entry img i = do {
     nm \<leftarrow> rd_range img (8 + i * 8) 8;
     md \<leftarrow> rd_range img (DFS_SECTOR + 8 + i * 8) 8;
     let extra = md ! 6;
     let name = (nm ! 7 AND 0x7F) # 0x2E # takeWhile (\<lambda>ch. ch \<noteq> 0x20) (map (\<lambda>ch. ch AND 0x7F) (take 7 nm));
     load \<leftarrow> rd16 (rd8 md) 0;
     exec \<leftarrow> rd16 (rd8 md) 2;
     len \<leftarrow> rd16 (rd8 md) 4;
     let start_sector = unat (ucast (md ! 7) OR push_bit 8 (ucast (extra AND 0x03)) :: u32);
     let entry = \<lparr>e_name = name, e_load = dfs_18 load extra 2, e_exec = dfs_18 exec extra 6,
       e_length = dfs_18 len extra 4, e_offset = word_of_nat (start_sector * DFS_SECTOR),
       e_blocks = 0, e_locked = (nm ! 7 AND 0x80 \<noteq> 0), e_crc_ok = True\<rparr>;
     let entry1 = entry\<lparr>e_load := dfs_sign (e_load entry), e_exec := dfs_sign (e_exec entry)\<rparr>;
     let off_end = (length img < unat (e_offset entry1) + unat (e_length entry1));
     Some (if off_end then entry1\<lparr>e_crc_ok := False\<rparr> else entry1, start_sector, off_end) }"

fun dfs_entries_loop ::
    "bytes \<Rightarrow> nat option \<Rightarrow> nat \<Rightarrow> nat \<Rightarrow> nat \<Rightarrow> media_entry list \<Rightarrow> u32 \<Rightarrow> (media_entry list \<times> u32) option" where
  "dfs_entries_loop img cap sectors_total i 0 es issues = Some (es, issues)"
| "dfs_entries_loop img cap sectors_total i (Suc n) es issues = do {
     (entry, start_sector, off_end) \<leftarrow> dfs_entry img i;
     let issues1 = (if off_end then issues + 1 else issues);
     let issues2 = (if sectors_total \<noteq> 0 \<and> sectors_total < start_sector then issues1 + 1 else issues1);
     let es' = (case cap of Some m \<Rightarrow> if length es < m then es @ [entry] else es | None \<Rightarrow> es);
     dfs_entries_loop img cap sectors_total (Suc i) n es' issues2 }"

definition dfs_catalogue ::
    "bytes \<Rightarrow> nat option \<Rightarrow> media_summary \<Rightarrow> (media_status \<times> media_entry list \<times> media_summary) option" where
  "dfs_catalogue img cap summary = do {
     ok \<leftarrow> dfs_plausible img;
     if \<not> ok then Some (MEDIA_ERR_FORMAT, [], summary) else do {
     file_bytes \<leftarrow> rd8 img (DFS_SECTOR + 5);
     let files = unat file_bytes div 8;
     lo \<leftarrow> rd8 img (DFS_SECTOR + 7);
     hi \<leftarrow> rd8 img (DFS_SECTOR + 6);
     let sectors_total = unat (ucast lo OR push_bit 8 (ucast (hi AND 0x03)) :: u32);
     title \<leftarrow> dfs_title img;
     (es, issues) \<leftarrow> dfs_entries_loop img cap sectors_total 0 files [] (s_issues summary);
     Some (MEDIA_OK, es, summary\<lparr>s_boot_option := drop_bit 4 hi AND 0x0F, s_title := title,
       s_total := files, s_count := length es, s_issues := issues\<rparr>) }}"

subsection \<open>Public entry points\<close>

definition media_identify :: "bytes option \<Rightarrow> media_kind option" where
  "media_identify src =
     (case src of None \<Rightarrow> Some MEDIA_KIND_UNKNOWN
      | Some img \<Rightarrow> do {
          uef \<leftarrow> (if UEF_HEADER_LEN \<le> length img
                 then map_option (\<lambda>m. m = UEF_MAGIC) (rd_range img 0 UEF_MAGIC_LEN) else Some False);
          if uef then Some MEDIA_KIND_UEF
          else do {
            ssd \<leftarrow> dfs_plausible img;
            Some (if ssd then MEDIA_KIND_SSD else MEDIA_KIND_UNKNOWN) } })"

definition summary_zero :: media_summary where
  "summary_zero = \<lparr>s_title = [], s_kind = MEDIA_KIND_UNKNOWN, s_count = 0, s_total = 0, s_issues = 0,
     s_boot_option = 0\<rparr>"

definition group_zero :: "nat option \<Rightarrow> uef_group" where
  "group_zero cap = \<lparr>g_max = cap, g_entries = [], g_total = 0, g_current = None, g_open = None\<rparr>"

text \<open>\<open>summary0\<close> is what the caller's structure held, which a parameter error leaves alone.\<close>

definition media_catalogue ::
    "bytes option \<Rightarrow> media_kind \<Rightarrow> nat option \<Rightarrow> media_summary \<Rightarrow>
       (media_status \<times> media_entry list \<times> media_summary) option" where
  "media_catalogue src kind cap summary0 =
     (case src of None \<Rightarrow> Some (MEDIA_ERR_PARAM, [], summary0)
      | Some img \<Rightarrow>
          if cap = Some 0 then Some (MEDIA_ERR_PARAM, [], summary0)
          else do {
            kind' \<leftarrow> (if kind = MEDIA_KIND_UNKNOWN then media_identify src else Some kind);
            let summary = summary_zero\<lparr>s_kind := kind'\<rparr>;
            if kind' = MEDIA_KIND_UEF then do {
              (status, g, issues) \<leftarrow> uef_walk img uef_group_block (group_zero cap) 0;
              Some (if status = MEDIA_ERR_FORMAT then status else MEDIA_OK, g_entries g,
                summary\<lparr>s_count := length (g_entries g), s_total := g_total g, s_issues := issues\<rparr>) }
            else if kind' = MEDIA_KIND_SSD then dfs_catalogue img cap summary
            else Some (MEDIA_ERR_FORMAT, [], summary) })"

record uef_copy =
  c_want :: nat
  c_seen :: nat
  c_current :: "bytes option"
  c_out :: bytes
  c_capacity :: nat
  c_written :: nat
  c_overflow :: bool

definition uef_copy_block :: "bytes \<Rightarrow> uef_copy \<Rightarrow> cfs_block \<Rightarrow> uef_copy option" where
  "uef_copy_block img c block =
     (let c1 = (if starts_file (c_current c) block
                then c\<lparr>c_seen := (if c_current c \<noteq> None then c_seen c + 1 else c_seen c),
                       c_current := Some (b_name block)\<rparr>
                else c);
          n = unat (b_data_length block) in
      if c_seen c1 \<noteq> c_want c1 \<or> c_current c1 = None then Some c1
      else if n = 0 then Some c1
      else if c_capacity c1 < c_written c1 + n then Some (c1\<lparr>c_overflow := True\<rparr>)
      else do {
        d \<leftarrow> rd_range img (b_data_offset block) n;
        out \<leftarrow> wr_range (c_out c1) (c_written c1) d;
        Some (c1\<lparr>c_out := out, c_written := c_written c1 + n\<rparr>) })"

definition copy_zero :: "nat \<Rightarrow> bytes \<Rightarrow> nat \<Rightarrow> uef_copy" where
  "copy_zero index out capacity = \<lparr>c_want = index, c_seen = 0, c_current = None, c_out = out,
     c_capacity = capacity, c_written = 0, c_overflow = False\<rparr>"

text \<open>The result is the status, the output buffer and \<open>*out_length\<close>.\<close>

definition media_extract ::
    "bytes option \<Rightarrow> media_kind \<Rightarrow> nat \<Rightarrow> bytes \<Rightarrow> nat \<Rightarrow> (media_status \<times> bytes \<times> nat) option" where
  "media_extract src kind index out out_capacity =
     (case src of None \<Rightarrow> Some (MEDIA_ERR_PARAM, out, 0)
      | Some img \<Rightarrow> do {
          kind' \<leftarrow> (if kind = MEDIA_KIND_UNKNOWN then media_identify src else Some kind);
          if kind' = MEDIA_KIND_UEF then do {
            (status, c, issues) \<leftarrow> uef_walk img (uef_copy_block img) (copy_zero index out out_capacity) 0;
            Some (if status = MEDIA_ERR_FORMAT then (status, c_out c, 0)
                  else if c_overflow c then (MEDIA_ERR_RANGE, c_out c, 0)
                  else if c_current c = None \<or> c_seen c < index then (MEDIA_ERR_RANGE, c_out c, 0)
                  else (MEDIA_OK, c_out c, c_written c)) }
          else if kind' = MEDIA_KIND_SSD then do {
            (status, entries, summary) \<leftarrow>
              media_catalogue src kind' (Some MEDIA_MAX_ENTRIES) summary_zero;
            if status \<noteq> MEDIA_OK then Some (status, out, 0)
            else if s_count summary \<le> index then Some (MEDIA_ERR_RANGE, out, 0)
            else if \<not> index < length entries then None
            else let e = entries ! index in
              if length img < unat (e_offset e) + unat (e_length e) then Some (MEDIA_ERR_TRUNCATED, out, 0)
              else if out_capacity < unat (e_length e) then Some (MEDIA_ERR_RANGE, out, 0)
              else do {
                d \<leftarrow> rd_range img (unat (e_offset e)) (unat (e_length e));
                out' \<leftarrow> wr_range out 0 d;
                Some (MEDIA_OK, out', unat (e_length e)) } }
          else Some (MEDIA_ERR_FORMAT, out, 0) })"

subsection \<open>Rendering an entry\<close>

definition hex_digit :: "u32 \<Rightarrow> u8" where
  "hex_digit v = (if v < 10 then 0x30 + ucast v else 0x41 + ucast v - 10)"

definition hex_text :: "u32 \<Rightarrow> nat \<Rightarrow> bytes" where
  "hex_text value digits =
     map (\<lambda>i. hex_digit (drop_bit ((digits - 1 - i) * 4) value AND 0x0F)) [0..<digits]"

definition put_hex :: "bytes \<Rightarrow> nat \<Rightarrow> u32 \<Rightarrow> nat \<Rightarrow> (bytes \<times> nat) option" where
  "put_hex out n value digits = do { out' \<leftarrow> wr_range out n (hex_text value digits); Some (out', n + digits) }"

definition put_text :: "bytes \<Rightarrow> nat \<Rightarrow> bytes \<Rightarrow> (bytes \<times> nat) option" where
  "put_text out n t = do { out' \<leftarrow> wr_range out n t; Some (out', n + length t) }"

text \<open>\<open>out\<close> is the caller's buffer; the result is its new contents and the returned length.\<close>

definition media_format_entry :: "media_entry \<Rightarrow> bytes \<Rightarrow> nat \<Rightarrow> (bytes \<times> nat) option" where
  "media_format_entry entry out capacity =
     (if capacity < 40 then Some (out, 0)
      else do {
        (out, n) \<leftarrow> put_text out 0 (take 11 (e_name entry));
        (out, n) \<leftarrow> put_text out n (replicate (12 - n) 0x20);
        (out, n) \<leftarrow> put_hex out n (e_load entry) 8;
        (out, n) \<leftarrow> put_text out n [0x20];
        (out, n) \<leftarrow> put_hex out n (e_exec entry) 8;
        (out, n) \<leftarrow> put_text out n [0x20];
        (out, n) \<leftarrow> put_hex out n (e_length entry) 6;
        (out, n) \<leftarrow> (if e_locked entry then put_text out n [0x20, 0x4C] else Some (out, n));
        (out, n) \<leftarrow> (if \<not> e_crc_ok entry then put_text out n [0x20, 0x3F] else Some (out, n));
        out \<leftarrow> wr8 out n 0;
        Some (out, n) })"

end
