(* ===== verification/Media_Props.thy ===== *)
theory Media_Props
  imports Media_Catalogue
begin

unbundle bit_operations_syntax

section \<open>Properties of the container catalogues\<close>

text \<open>
  Decoding of one cassette block; that no image makes catalogue or extraction leave the image or the
  output; and that both agree with the files which the blocks of a UEF stream form.
\<close>

subsection \<open>Decoding one block\<close>

lemma media_tape_crc_loop_eq: "media_tape_crc_loop d c = foldl crc_step c d"
  by (induction d arbitrary: c) (simp_all add: crc_step_def)

lemma media_tape_crc_eq: "i + n \<le> length w \<Longrightarrow> media_tape_crc w i n = Some (crc16 (seg w i n))"
  by (simp add: media_tape_crc_def crc16_def media_tape_crc_loop_eq)

lemma cfs_name_scan_bounds:
  assumes "e \<le> length img"
  shows "\<exists>p' n'. cfs_name_scan img e p n = Some (p', n') \<and> p \<le> p' \<and> (p' \<le> e \<or> p' = p) \<and> p' - p = n' - n \<and> n \<le> n' \<and>
     (n \<le> 15 \<longrightarrow> n' \<le> 15) \<and> (\<forall>k. p \<le> k \<and> k < p' \<longrightarrow> img ! k \<noteq> 0)"
  using assms
proof (induction img e p n rule: cfs_name_scan.induct)
  case (1 img e p n)
  show ?case
  proof (cases "p < e \<and> img ! p \<noteq> 0 \<and> n < 15")
    case True
    then have p: "p < length img" using 1(2) by simp
    obtain p' n' where ih: "cfs_name_scan img e (p + 1) (n + 1) = Some (p', n')" "p + 1 \<le> p'"
      "p' \<le> e \<or> p' = p + 1" "p' - (p + 1) = n' - (n + 1)" "n + 1 \<le> n'" "n + 1 \<le> 15 \<longrightarrow> n' \<le> 15"
      "\<forall>k. p + 1 \<le> k \<and> k < p' \<longrightarrow> img ! k \<noteq> 0"
      using 1(1) [of "img ! p"] True p 1(2) by auto
    have "\<forall>k. p \<le> k \<and> k < p' \<longrightarrow> img ! k \<noteq> 0"
      using ih(7) True by (metis Suc_eq_plus1 not_less_eq_eq le_antisym)
    then show ?thesis
      using ih True p by (auto simp: cfs_name_scan.simps [of img e p n])
  next
    case False
    then show ?thesis using 1(2) by (auto simp: cfs_name_scan.simps [of img e p n])
  qed
qed

definition block_ok :: "bytes \<Rightarrow> cfs_block \<Rightarrow> bool" where
  "block_ok img b \<longleftrightarrow> b_data_offset b + unat (b_data_length b) \<le> length img \<and>
     length (b_name b) \<le> 15 \<and> 0 \<notin> set (b_name b)"

lemma cfs_decode_block_safe:
  assumes "e \<le> length img"
  shows "\<exists>r. cfs_decode_block img e p = Some r \<and> (\<forall>q b. r = Some (q, b) \<longrightarrow> block_ok img b)"
proof (cases "p < e \<and> img ! p = 0x2A")
  case False
  then show ?thesis using assms by (auto simp: cfs_decode_block_def)
next
  case star: True
  obtain p' n' where scan: "cfs_name_scan img e (p + 1) 0 = Some (p', n')" "p + 1 \<le> p'" "p' \<le> e \<or> p' = p + 1"
    "p' - (p + 1) = n'" "n' \<le> 15" "\<forall>k. p + 1 \<le> k \<and> k < p' \<longrightarrow> img ! k \<noteq> 0"
    using cfs_name_scan_bounds [OF assms, of "p + 1" 0] by auto
  show ?thesis
  proof (cases "p' < e \<and> img ! p' = 0 \<and> p' + 20 \<le> e")
    case False
    then show ?thesis using star scan assms by (auto simp: cfs_decode_block_def)
  next
    case True
    have n: "p + 1 + n' = p'" using scan by linarith
    have name: "0 \<notin> set (seg img (p + 1) n')"
      using scan(6) n True assms by (auto simp: in_set_conv_nth)
    show ?thesis
      using star scan(1) True assms n name scan(5)
      by (auto simp: cfs_decode_block_def media_tape_crc_eq block_ok_def Let_def)
  qed
qed


subsection \<open>The walk visits a fixed list of blocks\<close>

fun visit_all :: "('s \<Rightarrow> cfs_block \<Rightarrow> 's option) \<Rightarrow> 's \<Rightarrow> cfs_block list \<Rightarrow> 's option" where
  "visit_all visit s [] = Some s"
| "visit_all visit s (b # bs) = do { s' \<leftarrow> visit s b; visit_all visit s' bs }"

lemma visit_all_append:
  "visit_all visit s (xs @ ys) = do { s' \<leftarrow> visit_all visit s xs; visit_all visit s' ys }"
  by (induction xs arbitrary: s) (auto split: bind_split)

definition collect :: "cfs_block list \<Rightarrow> cfs_block \<Rightarrow> cfs_block list option" where
  "collect bs b = Some (bs @ [b])"

lemma uef_blocks_loop_collect:
  assumes "end \<le> length img"
  shows "\<exists>bs i'. list_all (block_ok img) bs \<and> uef_blocks_loop img collect data end bp bs0 iss = Some (bs0 @ bs, i') \<and>
     uef_blocks_loop img visit data end bp s iss = map_option (\<lambda>s'. (s', i')) (visit_all visit s bs)"
  using assms
proof (induction img collect data "end" bp bs0 iss arbitrary: s rule: uef_blocks_loop.induct)
  case (1 img data e bp bs0 iss)
  note loop = uef_blocks_loop.simps [of img _ data e bp]
  obtain r where r: "cfs_decode_block img e bp = Some r" "\<And>q b. r = Some (q, b) \<Longrightarrow> block_ok img b"
    using cfs_decode_block_safe [OF 1(2)] by blast
  show ?case
  proof (cases "bp < e")
    case False
    then show ?thesis by (intro exI [of _ "[]"]) (simp add: loop)
  next
    case bp: True
    show ?thesis
    proof (cases r)
      case None
      then show ?thesis using r bp by (intro exI [of _ "[]"]) (simp add: loop)
    next
      case (Some qb)
      obtain q b where qb: "qb = (q, b)" by force
      have ok: "block_ok img b" using r(2) Some qb by simp
      define s1 where "s1 = (case visit s b of None \<Rightarrow> s | Some s' \<Rightarrow> s')"
      obtain bs i' where ih: "list_all (block_ok img) bs"
        "uef_blocks_loop img collect data e q (bs0 @ [b]) iss = Some ((bs0 @ [b]) @ bs, i')"
        "uef_blocks_loop img visit data e q s1 iss = map_option (\<lambda>s'. (s', i')) (visit_all visit s1 bs)"
        using 1(1) [OF bp r(1) Some qb [symmetric], of "bs0 @ [b]" s1] 1(2) by (auto simp: collect_def)
      show ?thesis
        using bp r(1) Some qb ok ih
        by (intro exI [of _ "b # bs"] exI [of _ i'])
          (simp add: loop collect_def [of bs0] s1_def split: option.splits)
    qed
  qed
qed

lemma rd_chunk_header:
  assumes "pos + 6 \<le> length img"
  obtains ty cl where "rd16 (rd8 img) pos = Some ty" "rd32 (rd8 img) (pos + 2) = Some cl"
  using assms that by auto

lemma uef_chunks_loop_collect:
  "\<exists>bs i' st. list_all (block_ok img) bs \<and> st \<noteq> MEDIA_ERR_FORMAT \<and>
     uef_chunks_loop img collect pos bs0 iss = Some (st, bs0 @ bs, i') \<and>
     uef_chunks_loop img visit pos s iss = map_option (\<lambda>s'. (st, s', i')) (visit_all visit s bs)"
proof (induction img collect pos bs0 iss arbitrary: s rule: uef_chunks_loop.induct)
  case (1 img pos bs0 iss)
  note loop = uef_chunks_loop.simps [of img _ pos]
  show ?case
  proof (cases "pos + 6 \<le> length img")
    case False
    then show ?thesis by (intro exI [of _ "[]"]) (simp add: loop)
  next
    case pos: True
    obtain ty cl where rd: "rd16 (rd8 img) pos = Some ty" "rd32 (rd8 img) (pos + 2) = Some cl"
      using rd_chunk_header [OF pos] .
    show ?thesis
    proof (cases "length img < unat cl \<or> length img < pos + 6 + unat cl")
      case True
      then show ?thesis using pos rd by (intro exI [of _ "[]"]) (simp add: loop)
    next
      case fits: False
      let ?e = "pos + 6 + unat cl"
      obtain bs1 i1 where one: "list_all (block_ok img) bs1"
        "(if ty = UEF_CHUNK_DATA then uef_blocks_loop img collect (pos + 6) ?e (pos + 6) bs0 iss
          else Some (bs0, iss)) = Some (bs0 @ bs1, i1)"
        "(if ty = UEF_CHUNK_DATA then uef_blocks_loop img visit (pos + 6) ?e (pos + 6) s iss
          else Some (s, iss)) = map_option (\<lambda>s'. (s', i1)) (visit_all visit s bs1)"
      proof (cases "ty = UEF_CHUNK_DATA")
        case True
        then show ?thesis
          using uef_blocks_loop_collect [of ?e img "pos + 6" "pos + 6" bs0 iss visit s] fits that by auto
      next
        case False
        then show ?thesis using that [of "[]" iss] by simp
      qed
      define s1 where "s1 = (case visit_all visit s bs1 of None \<Rightarrow> s | Some s' \<Rightarrow> s')"
      obtain bs2 i2 st where two: "list_all (block_ok img) bs2" "st \<noteq> MEDIA_ERR_FORMAT"
        "uef_chunks_loop img collect ?e (bs0 @ bs1) i1 = Some (st, (bs0 @ bs1) @ bs2, i2)"
        "uef_chunks_loop img visit ?e s1 i1 = map_option (\<lambda>s'. (st, s', i2)) (visit_all visit s1 bs2)"
        using 1(1) [OF pos rd refl fits refl one(2) refl, of s1] by auto
      have "uef_chunks_loop img collect pos bs0 iss = Some (st, bs0 @ (bs1 @ bs2), i2)"
        using pos rd fits one(2) two(3) by (simp add: loop)
      moreover have "uef_chunks_loop img visit pos s iss =
          map_option (\<lambda>s'. (st, s', i2)) (visit_all visit s (bs1 @ bs2))"
        using pos rd fits one(3) two(4)
        by (simp add: loop visit_all_append s1_def split: option.splits)
      ultimately show ?thesis using one(1) two(1, 2) by (intro exI [of _ "bs1 @ bs2"]) auto
    qed
  qed
qed


definition uef_image :: "bytes \<Rightarrow> bool" where
  "uef_image img \<longleftrightarrow> UEF_HEADER_LEN \<le> length img \<and> take UEF_MAGIC_LEN img = UEF_MAGIC"

definition uef_blocks :: "bytes \<Rightarrow> cfs_block list" where
  "uef_blocks img = (case uef_chunks_loop img collect UEF_HEADER_LEN [] 0 of
     None \<Rightarrow> [] | Some (st, bs, i) \<Rightarrow> bs)"

lemma uef_walk_blocks:
  assumes "uef_image img"
  shows "\<exists>st i. st \<noteq> MEDIA_ERR_FORMAT \<and>
     uef_walk img visit s 0 = map_option (\<lambda>s'. (st, s', i)) (visit_all visit s (uef_blocks img))"
proof -
  obtain bs i st where "st \<noteq> MEDIA_ERR_FORMAT" "uef_chunks_loop img collect UEF_HEADER_LEN [] 0 = Some (st, bs, i)"
    "uef_chunks_loop img visit UEF_HEADER_LEN s 0 = map_option (\<lambda>s'. (st, s', i)) (visit_all visit s bs)"
    using uef_chunks_loop_collect [of img UEF_HEADER_LEN "[]" 0 visit s] by auto
  then show ?thesis using assms by (auto simp: uef_walk_def uef_image_def uef_blocks_def seg_def)
qed

lemma uef_blocks_ok: "list_all (block_ok img) (uef_blocks img)"
  using uef_chunks_loop_collect [of img UEF_HEADER_LEN "[]" 0 collect "[]"] by (auto simp: uef_blocks_def)

lemma uef_walk_not_image: "\<not> uef_image img \<Longrightarrow> uef_walk img visit s iss = Some (MEDIA_ERR_FORMAT, s, iss)"
  by (auto simp: uef_walk_def uef_image_def seg_def)

subsection \<open>The files of a cassette stream\<close>

text \<open>Consecutive blocks of one name form a file, and a block numbered 0 always begins a new one.\<close>

definition file_name :: "cfs_block list list \<Rightarrow> bytes option" where
  "file_name fs = (if fs = [] then None else Some (b_name (last (last fs))))"

definition add_block :: "cfs_block list list \<Rightarrow> cfs_block \<Rightarrow> cfs_block list list" where
  "add_block fs b = (if starts_file (file_name fs) b then fs @ [[b]] else butlast fs @ [last fs @ [b]])"

definition files_of :: "cfs_block list \<Rightarrow> cfs_block list list" where
  "files_of bs = foldl add_block [] bs"

definition file_entry :: "cfs_block list \<Rightarrow> media_entry" where
  "file_entry f = \<lparr>e_name = b_name (hd f), e_load = b_load (hd f), e_exec = b_exec (hd f),
     e_length = sum_list (map (\<lambda>b. ucast (b_data_length b)) f), e_offset = 0,
     e_blocks = word_of_nat (length f), e_locked = (b_flags (hd f) AND 1 \<noteq> 0),
     e_crc_ok = list_all b_crc_ok f\<rparr>"

definition block_data :: "bytes \<Rightarrow> cfs_block \<Rightarrow> bytes" where
  "block_data img b = seg img (b_data_offset b) (unat (b_data_length b))"

definition file_data :: "bytes \<Rightarrow> cfs_block list \<Rightarrow> bytes" where
  "file_data img f = concat (map (block_data img) f)"

lemma files_of_snoc: "files_of (bs @ [b]) = add_block (files_of bs) b"
  by (simp add: files_of_def)

lemma files_nonempty: "[] \<notin> set (files_of bs)"
proof (induction bs rule: rev_induct)
  case (snoc b bs)
  then show ?case by (auto simp: files_of_snoc add_block_def dest: in_set_butlastD)
qed (simp add: files_of_def)

definition group_inv :: "nat option \<Rightarrow> cfs_block list list \<Rightarrow> uef_group \<Rightarrow> bool" where
  "group_inv cap fs g \<longleftrightarrow> g_max g = cap \<and> g_total g = length fs \<and> g_current g = file_name fs \<and>
     g_entries g = (case cap of None \<Rightarrow> [] | Some n \<Rightarrow> map file_entry (take n fs)) \<and>
     g_open g = (case cap of None \<Rightarrow> None | Some n \<Rightarrow> if fs \<noteq> [] \<and> length fs \<le> n then Some (length fs - 1) else None)"

lemma file_entry_snoc:
  "f \<noteq> [] \<Longrightarrow> file_entry (f @ [b]) = (file_entry f)\<lparr>e_length := e_length (file_entry f) + ucast (b_data_length b),
     e_blocks := e_blocks (file_entry f) + 1, e_crc_ok := (e_crc_ok (file_entry f) \<and> b_crc_ok b)\<rparr>"
  by (simp add: file_entry_def)

lemma file_name_add: "file_name (add_block fs b) = Some (b_name b)"
  by (simp add: file_name_def add_block_def)

lemma length_add_block: "length (add_block fs b) = (if starts_file (file_name fs) b then Suc (length fs) else length fs)"
  by (auto simp: add_block_def starts_file_def file_name_def)

lemma group_new_file:
  assumes "group_inv cap fs g" "starts_file (file_name fs) b"
  shows "\<exists>g'. uef_group_block g b = Some g' \<and> group_inv cap (fs @ [[b]]) g'"
proof -
  have name: "file_name (fs @ [[b]]) = Some (b_name b)" by (simp add: file_name_def)
  show ?thesis
  proof (cases cap)
    case None
    then show ?thesis using assms name by (simp add: uef_group_block_def group_inv_def Let_def)
  next
    case (Some n)
    have len: "length (g_entries g) = min n (length fs)" using assms(1) Some by (simp add: group_inv_def min.commute)
    show ?thesis
    proof (cases "length fs < n")
      case True
      then show ?thesis using assms name Some len
        by (simp add: uef_group_block_def group_inv_def Let_def file_entry_def)
    next
      case False
      then show ?thesis using assms name Some len
        by (simp add: uef_group_block_def group_inv_def Let_def)
    qed
  qed
qed

lemma group_continue:
  assumes "group_inv cap (ys @ [f]) g" "\<not> starts_file (file_name (ys @ [f])) b" "f \<noteq> []"
  shows "\<exists>g'. uef_group_block g b = Some g' \<and> group_inv cap (ys @ [f @ [b]]) g'"
proof -
  have name: "file_name (ys @ [f @ [b]]) = Some (b_name b)" "file_name (ys @ [f]) = Some (b_name b)"
    using assms(2) by (simp_all add: file_name_def starts_file_def)
  show ?thesis
  proof (cases "\<exists>n. cap = Some n \<and> length ys < n")
    case True
    then obtain n where n: "cap = Some n" "length ys < n" by blast
    then have "g_entries g = map file_entry ys @ [file_entry f]" "g_open g = Some (length ys)"
      using assms(1) by (simp_all add: group_inv_def)
    then show ?thesis using assms name n
      by (simp add: uef_group_block_def group_inv_def Let_def file_entry_snoc nth_append list_update_append)
  next
    case False
    then have "g_open g = None" using assms(1) by (cases cap) (simp_all add: group_inv_def)
    then show ?thesis using assms name False
      by (cases cap) (simp_all add: uef_group_block_def group_inv_def)
  qed
qed

lemma uef_group_block_step:
  assumes "group_inv cap fs g" "[] \<notin> set fs"
  shows "\<exists>g'. uef_group_block g b = Some g' \<and> group_inv cap (add_block fs b) g'"
proof (cases "starts_file (file_name fs) b")
  case True
  then show ?thesis using group_new_file [OF assms(1)] by (simp add: add_block_def)
next
  case False
  then have "fs \<noteq> []" by (auto simp: starts_file_def file_name_def)
  then obtain ys f where "fs = ys @ [f]" by (metis rev_exhaust)
  then show ?thesis using group_continue [of cap ys f g b] assms False by (auto simp: add_block_def)
qed

lemma uef_group_all:
  "\<exists>g. visit_all uef_group_block (group_zero cap) bs = Some g \<and> group_inv cap (files_of bs) g"
proof (induction bs rule: rev_induct)
  case Nil
  show ?case by (simp add: group_zero_def group_inv_def files_of_def file_name_def split: option.split)
next
  case (snoc b bs)
  then show ?case
    using uef_group_block_step [OF _ files_nonempty] by (fastforce simp: visit_all_append files_of_snoc)
qed


subsection \<open>Extracting a file\<close>

text \<open>What has been seen of the wanted file when the files so far are \<open>fs\<close>.\<close>

definition wanted_data :: "bytes \<Rightarrow> nat \<Rightarrow> cfs_block list list \<Rightarrow> bytes" where
  "wanted_data img k fs = (if k < length fs then file_data img (fs ! k) else [])"

definition copy_inv :: "bytes \<Rightarrow> nat \<Rightarrow> bytes \<Rightarrow> nat \<Rightarrow> cfs_block list list \<Rightarrow> uef_copy \<Rightarrow> bool" where
  "copy_inv img k out cap fs c \<longleftrightarrow>
     c_want c = k \<and> c_capacity c = cap \<and> c_current c = file_name fs \<and> c_seen c = length fs - 1 \<and>
     length (c_out c) = length out \<and> c_written c \<le> cap \<and> c_written c \<le> length (wanted_data img k fs) \<and>
     (c_overflow c \<longleftrightarrow> cap < length (wanted_data img k fs)) \<and>
     (\<not> c_overflow c \<longrightarrow> c_written c = length (wanted_data img k fs) \<and>
        c_out c = splice out 0 (wanted_data img k fs))"

lemma length_block_data: "block_ok img b \<Longrightarrow> length (block_data img b) = unat (b_data_length b)"
  by (simp add: block_ok_def block_data_def)

lemma file_data_snoc: "file_data img (f @ [b]) = file_data img f @ block_data img b"
  by (simp add: file_data_def)

lemma wanted_data_add:
  assumes "[] \<notin> set fs"
  shows "wanted_data img k (add_block fs b) = wanted_data img k fs @
     (if k = length (add_block fs b) - 1 then block_data img b else [])"
proof (cases "starts_file (file_name fs) b")
  case True
  then show ?thesis by (auto simp: add_block_def wanted_data_def file_data_def nth_append less_Suc_eq)
next
  case False
  then have "fs \<noteq> []" by (auto simp: starts_file_def file_name_def)
  then obtain ys f where "fs = ys @ [f]" by (metis rev_exhaust)
  then show ?thesis using False
    by (auto simp: add_block_def wanted_data_def file_data_snoc nth_append less_Suc_eq)
qed

lemma splice_extend:
  "length d + length x \<le> length out \<Longrightarrow> splice (splice out 0 d) (length d) x = splice out 0 (d @ x)"
  by (simp add: splice_def add.commute)


lemma uef_copy_block_step:
  assumes inv: "copy_inv img k out cap fs c" and ne: "[] \<notin> set fs" and ok: "block_ok img b" and cap: "cap \<le> length out"
  shows "\<exists>c'. uef_copy_block img c b = Some c' \<and> copy_inv img k out cap (add_block fs b) c'"
proof -
  define c1 where "c1 = (if starts_file (c_current c) b
     then c\<lparr>c_seen := (if c_current c \<noteq> None then c_seen c + 1 else c_seen c), c_current := Some (b_name b)\<rparr> else c)"
  define n where "n = unat (b_data_length b)"
  have eq: "uef_copy_block img c b =
     (if c_seen c1 \<noteq> c_want c1 \<or> c_current c1 = None then Some c1
      else if n = 0 then Some c1
      else if c_capacity c1 < c_written c1 + n then Some (c1\<lparr>c_overflow := True\<rparr>)
      else do {
        d \<leftarrow> rd_range img (b_data_offset b) n;
        out \<leftarrow> wr_range (c_out c1) (c_written c1) d;
        Some (c1\<lparr>c_out := out, c_written := c_written c1 + n\<rparr>) })"
    unfolding uef_copy_block_def Let_def c1_def n_def ..
  have name: "file_name (add_block fs b) = Some (b_name b)" by (rule file_name_add)
  have c1: "c_want c1 = k" "c_capacity c1 = cap" "c_current c1 = Some (b_name b)" "c_out c1 = c_out c"
    "c_written c1 = c_written c" "c_overflow c1 = c_overflow c" "c_seen c1 = length (add_block fs b) - 1"
    using inv by (auto simp: c1_def copy_inv_def starts_file_def file_name_def add_block_def split: if_splits)
  define d where "d = block_data img b"
  have d: "length d = n" "rd_range img (b_data_offset b) n = Some d"
    using ok by (simp_all add: d_def n_def block_data_def length_block_data block_ok_def)
  define w where "w = wanted_data img k fs"
  have w': "wanted_data img k (add_block fs b) = (if k = length (add_block fs b) - 1 then w @ d else w)"
    using wanted_data_add [OF ne] by (simp add: w_def d_def)
  have old: "length (c_out c) = length out" "c_written c \<le> cap" "c_written c \<le> length w"
    "c_overflow c \<longleftrightarrow> cap < length w" "\<not> c_overflow c \<longrightarrow> c_written c = length w \<and> c_out c = splice out 0 w"
    using inv by (simp_all add: copy_inv_def w_def)
  show ?thesis
  proof (cases "k = length (add_block fs b) - 1 \<and> n \<noteq> 0")
    case False
    then have "d = [] \<or> k \<noteq> length (add_block fs b) - 1" using d by auto
    then have "copy_inv img k out cap (add_block fs b) c1"
      using w' old name c1 by (auto simp: copy_inv_def)
    then show ?thesis using eq c1 False by auto
  next
    case want: True
    show ?thesis
    proof (cases "cap < c_written c + n")
      case True
      then have "copy_inv img k out cap (add_block fs b) (c1\<lparr>c_overflow := True\<rparr>)"
        using w' old name c1 want d by (auto simp: copy_inv_def)
      then show ?thesis using eq c1 want True by auto
    next
      case False
      let ?c = "c1\<lparr>c_out := splice (c_out c) (c_written c) d, c_written := c_written c + n\<rparr>"
      have "copy_inv img k out cap (add_block fs b) ?c"
        using w' old name c1 want d False cap by (auto simp: copy_inv_def splice_extend)
      moreover have "uef_copy_block img c b = Some ?c"
        using eq c1 want False d old cap by simp
      ultimately show ?thesis by blast
    qed
  qed
qed

lemma uef_copy_all:
  assumes "list_all (block_ok img) bs" "cap \<le> length out"
  shows "\<exists>c. visit_all (uef_copy_block img) (copy_zero k out cap) bs = Some c \<and>
     copy_inv img k out cap (files_of bs) c"
  using assms(1)
proof (induction bs rule: rev_induct)
  case Nil
  show ?case by (simp add: copy_zero_def copy_inv_def files_of_def file_name_def wanted_data_def splice_def)
next
  case (snoc b bs)
  then show ?case
    using uef_copy_block_step [OF _ files_nonempty _ assms(2)]
    by (fastforce simp: visit_all_append files_of_snoc)
qed

lemma uef_extract_eq:
  assumes "uef_image img" "cap \<le> length out"
  defines "fs \<equiv> files_of (uef_blocks img)"
  shows "\<exists>o'. length o' = length out \<and> media_extract (Some img) MEDIA_KIND_UEF k out cap =
       Some (if k < length fs \<and> length (file_data img (fs ! k)) \<le> cap
             then (MEDIA_OK, splice out 0 (file_data img (fs ! k)), length (file_data img (fs ! k)))
             else (MEDIA_ERR_RANGE, o', 0))"
proof -
  obtain c where c: "visit_all (uef_copy_block img) (copy_zero k out cap) (uef_blocks img) = Some c"
    "copy_inv img k out cap fs c"
    using uef_copy_all [OF uef_blocks_ok assms(2)] unfolding fs_def by blast
  obtain st i where "st \<noteq> MEDIA_ERR_FORMAT"
    "uef_walk img (uef_copy_block img) (copy_zero k out cap) 0 = Some (st, c, i)"
    using uef_walk_blocks [OF assms(1), of "uef_copy_block img" "copy_zero k out cap"] c(1) by auto
  then have ex: "media_extract (Some img) MEDIA_KIND_UEF k out cap =
      Some (if c_overflow c then (MEDIA_ERR_RANGE, c_out c, 0)
            else if c_current c = None \<or> c_seen c < k then (MEDIA_ERR_RANGE, c_out c, 0)
            else (MEDIA_OK, c_out c, c_written c))"
    by (simp add: media_extract_def)
  have "(c_current c = None \<or> c_seen c < k) \<longleftrightarrow> \<not> k < length fs"
    using c(2) by (cases fs) (auto simp: copy_inv_def file_name_def)
  then show ?thesis
    using ex c(2) by (intro exI [of _ "c_out c"]) (auto simp: copy_inv_def wanted_data_def)
qed

text \<open>C9: A UEF stream is catalogued as the files its blocks form: the entries are those of the first \<open>n\<close> files,
  \<open>total\<close> counts them all whatever the capacity, and extracting a file yields exactly the
  concatenated data of its blocks, or a range error when there is no such file or it does not fit.\<close>

theorem uef_catalogue_extract:
  assumes "uef_image img" "0 < n" "cap \<le> length out"
  defines "fs \<equiv> files_of (uef_blocks img)"
  shows "(\<exists>s. media_catalogue (Some img) MEDIA_KIND_UEF (Some n) s0 = Some (MEDIA_OK, map file_entry (take n fs), s) \<and>
       s_count s = min n (length fs) \<and> s_total s = length fs) \<and>
     (\<exists>o'. media_extract (Some img) MEDIA_KIND_UEF k out cap =
       Some (if k < length fs \<and> length (file_data img (fs ! k)) \<le> cap
             then (MEDIA_OK, splice out 0 (file_data img (fs ! k)), length (file_data img (fs ! k)))
             else (MEDIA_ERR_RANGE, o', 0)))"
proof
  obtain g where g: "visit_all uef_group_block (group_zero (Some n)) (uef_blocks img) = Some g" "group_inv (Some n) fs g"
    using uef_group_all unfolding fs_def by blast
  obtain st i where "st \<noteq> MEDIA_ERR_FORMAT"
    "uef_walk img uef_group_block (group_zero (Some n)) 0 = Some (st, g, i)"
    using uef_walk_blocks [OF assms(1), of uef_group_block "group_zero (Some n)"] g(1) by auto
  then show "\<exists>s. media_catalogue (Some img) MEDIA_KIND_UEF (Some n) s0 = Some (MEDIA_OK, map file_entry (take n fs), s) \<and>
       s_count s = min n (length fs) \<and> s_total s = length fs"
    using g(2) assms(2) by (simp add: media_catalogue_def group_inv_def min.commute)
next
  show "\<exists>o'. media_extract (Some img) MEDIA_KIND_UEF k out cap =
       Some (if k < length fs \<and> length (file_data img (fs ! k)) \<le> cap
             then (MEDIA_OK, splice out 0 (file_data img (fs ! k)), length (file_data img (fs ! k)))
             else (MEDIA_ERR_RANGE, o', 0))"
    using uef_extract_eq [OF assms(1, 3), of k] unfolding fs_def by blast
qed


definition demo_cfs :: bytes where
  "demo_cfs = [0x2A, 0x41, 0, 0, 0x19, 0, 0, 0, 0x19, 0, 0, 0, 0, 2, 0, 0x80, 0, 0, 0, 0, 0x11, 0x22, 7, 9, 0x33, 0x44]"

definition demo_uef :: bytes where
  "demo_uef = UEF_MAGIC @ [10, 0] @ [0x00, 0x01, 26, 0, 0, 0] @ demo_cfs"

theorem uef_catalogue_extract_witness:
  "uef_image demo_uef \<and> media_extract (Some demo_uef) MEDIA_KIND_UEF 0 [0, 0, 0] 3 = Some (MEDIA_OK, [7, 9, 0], 2)"
proof -
  have u: "uef_image demo_uef" by code_simp
  have "length (files_of (uef_blocks demo_uef)) = 1" "file_data demo_uef (files_of (uef_blocks demo_uef) ! 0) = [7, 9]"
    by code_simp+
  then show ?thesis
    using uef_catalogue_extract [OF u, of 1 3 "[0, 0, 0]" undefined 0] u by (simp add: splice_def)
qed


subsection \<open>DFS discs\<close>

lemma dfs_names_ok_defined:
  "8 + (i + n) * 8 \<le> length img \<Longrightarrow> \<exists>r. dfs_names_ok img i n = Some r"
proof (induction n arbitrary: i)
  case (Suc n)
  then show ?case using Suc.IH [of "Suc i"] by auto
qed auto

definition dfs_ready :: "bytes \<Rightarrow> nat \<Rightarrow> bool" where
  "dfs_ready img files \<longleftrightarrow> 2 * DFS_SECTOR \<le> length img \<and> unat (img ! (DFS_SECTOR + 5)) div 8 = files \<and>
     files \<le> DFS_MAX_FILES"

lemma dfs_plausible_defined:
  "\<exists>r. dfs_plausible img = Some r \<and> (r \<longrightarrow> dfs_ready img (unat (img ! (DFS_SECTOR + 5)) div 8))"
proof (cases "length img < 2 * DFS_SECTOR \<or> length img mod DFS_SECTOR \<noteq> 0 \<or>
    unat (img ! (DFS_SECTOR + 5)) div 8 > DFS_MAX_FILES")
  case True
  then show ?thesis by (auto simp: dfs_plausible_def)
next
  case False
  then obtain r where "dfs_names_ok img 0 (unat (img ! (DFS_SECTOR + 5)) div 8) = Some r"
    using dfs_names_ok_defined [of 0 "unat (img ! (DFS_SECTOR + 5)) div 8" img] by auto
  then show ?thesis using False by (auto simp: dfs_plausible_def dfs_ready_def)
qed

lemma dfs_entry_defined:
  assumes "dfs_ready img files" "i < files"
  obtains e ss off where "dfs_entry img i = Some (e, ss, off)"
    "off \<longleftrightarrow> length img < unat (e_offset e) + unat (e_length e)"
proof -
  have "8 + i * 8 + 8 \<le> length img" "DFS_SECTOR + 8 + i * 8 + 8 \<le> length img"
    using assms by (auto simp: dfs_ready_def)
  then have "\<exists>e ss off. dfs_entry img i = Some (e, ss, off) \<and>
      (off \<longleftrightarrow> length img < unat (e_offset e) + unat (e_length e))"
    by (simp add: dfs_entry_def Let_def rd_range_def)
  then show ?thesis using that by blast
qed

definition dfs_entry_at :: "bytes \<Rightarrow> nat \<Rightarrow> media_entry" where
  "dfs_entry_at img i = fst (the (dfs_entry img i))"

lemma dfs_entries_loop_eq:
  assumes "dfs_ready img files" "i + k = files"
    and "es = (case cap of None \<Rightarrow> [] | Some m \<Rightarrow> map (dfs_entry_at img) [0..<min m i])"
  shows "\<exists>iss'. dfs_entries_loop img cap st i k es iss =
     Some (case cap of None \<Rightarrow> [] | Some m \<Rightarrow> map (dfs_entry_at img) [0..<min m files], iss')"
  using assms(2, 3)
proof (induction k arbitrary: i es iss)
  case (Suc k)
  have i: "i < files" using Suc.prems(1) by simp
  obtain e ss off where e: "dfs_entry img i = Some (e, ss, off)"
    using dfs_entry_defined [OF assms(1) i] by blast
  then have at: "dfs_entry_at img i = e" by (simp add: dfs_entry_at_def)
  let ?es = "case cap of Some m \<Rightarrow> if length es < m then es @ [e] else es | None \<Rightarrow> es"
  have "?es = (case cap of None \<Rightarrow> [] | Some m \<Rightarrow> map (dfs_entry_at img) [0..<min m (Suc i)])"
    using Suc.prems(2) at by (auto simp: min_def not_less le_Suc_eq split: option.split)
  then show ?case using Suc.IH [of "Suc i" ?es] Suc.prems(1) e by (simp add: Let_def)
qed auto


lemma dfs_catalogue_eq:
  assumes "dfs_plausible img = Some True"
  defines "files \<equiv> unat (img ! (DFS_SECTOR + 5)) div 8"
  shows "\<exists>s'. dfs_catalogue img cap s = Some (MEDIA_OK,
     case cap of None \<Rightarrow> [] | Some m \<Rightarrow> map (dfs_entry_at img) [0..<min m files], s') \<and>
     s_total s' = files \<and> s_count s' = (case cap of None \<Rightarrow> 0 | Some m \<Rightarrow> min m files)"
proof -
  have r: "dfs_ready img files" using dfs_plausible_defined [of img] assms by auto
  then have l: "2 * DFS_SECTOR \<le> length img" by (simp add: dfs_ready_def)
  have loop: "\<exists>iss'. dfs_entries_loop img cap st 0 files [] iss =
     Some (case cap of None \<Rightarrow> [] | Some m \<Rightarrow> map (dfs_entry_at img) [0..<min m files], iss')" for st iss
    by (rule dfs_entries_loop_eq [OF r]) (simp_all split: option.split)
  have title: "\<exists>t. dfs_title img = Some t" using l by (simp add: dfs_title_def)
  have rds: "rd8 img (DFS_SECTOR + 5) = Some (img ! (DFS_SECTOR + 5))" "rd8 img (DFS_SECTOR + 6) = Some (img ! (DFS_SECTOR + 6))"
    "rd8 img (DFS_SECTOR + 7) = Some (img ! (DFS_SECTOR + 7))" using l by simp_all
  obtain t where t: "dfs_title img = Some t" using title by blast
  define tot where "tot = unat (ucast (img ! (DFS_SECTOR + 7)) OR push_bit 8 (ucast (img ! (DFS_SECTOR + 6) AND 0x03)) :: u32)"
  obtain iss' where "dfs_entries_loop img cap tot 0 files [] (s_issues s) =
     Some (case cap of None \<Rightarrow> [] | Some m \<Rightarrow> map (dfs_entry_at img) [0..<min m files], iss')"
    using loop by blast
  then show ?thesis
    unfolding dfs_catalogue_def assms(1) Let_def bind.bind_lunit rds
    using t by (simp add: files_def tot_def split: option.split)
qed

lemma media_identify_defined: "\<exists>k. media_identify src = Some k"
proof (cases src)
  case (Some img)
  then show ?thesis using dfs_plausible_defined [of img] by (auto simp: media_identify_def)
qed (simp add: media_identify_def)

lemma dfs_catalogue_defined: "\<exists>r. dfs_catalogue img cap s = Some r"
proof -
  obtain p where p: "dfs_plausible img = Some p" using dfs_plausible_defined by blast
  show ?thesis using dfs_catalogue_eq [of img cap s] p by (cases p) (auto simp: dfs_catalogue_def)
qed

lemma media_catalogue_defined: "\<exists>r. media_catalogue src kind cap s0 = Some r"
proof (cases src)
  case None
  then show ?thesis by (simp add: media_catalogue_def)
next
  case (Some img)
  obtain k where k: "(if kind = MEDIA_KIND_UNKNOWN then media_identify src else Some kind) = Some k"
    using media_identify_defined by (metis (full_types))
  obtain g where g: "visit_all uef_group_block (group_zero cap) (uef_blocks img) = Some g"
    using uef_group_all by blast
  have "\<exists>w. uef_walk img uef_group_block (group_zero cap) 0 = Some w"
    using uef_walk_blocks [of img uef_group_block "group_zero cap"] 
      uef_walk_not_image [of img uef_group_block "group_zero cap" 0] g
    by (cases "uef_image img") auto
  then show ?thesis
    using Some k dfs_catalogue_defined by (auto simp: media_catalogue_def Let_def)
qed


lemma uef_extract_defined:
  assumes "cap \<le> length out"
  shows "\<exists>w. uef_walk img (uef_copy_block img) (copy_zero k out cap) 0 = Some w"
proof -
  obtain c where "visit_all (uef_copy_block img) (copy_zero k out cap) (uef_blocks img) = Some c"
    using uef_copy_all [OF uef_blocks_ok assms] by blast
  then show ?thesis
    using uef_walk_blocks [of img "uef_copy_block img" "copy_zero k out cap"]
      uef_walk_not_image [of img "uef_copy_block img" "copy_zero k out cap" 0]
    by (cases "uef_image img") auto
qed

lemma ssd_catalogue_cases:
  obtains (plausible) s where "dfs_plausible img = Some True"
      "media_catalogue (Some img) MEDIA_KIND_SSD (Some MEDIA_MAX_ENTRIES) s0 = Some (MEDIA_OK,
         map (dfs_entry_at img) [0..<unat (img ! (DFS_SECTOR + 5)) div 8], s)"
      "s_count s = unat (img ! (DFS_SECTOR + 5)) div 8"
  | (not) es s where "dfs_plausible img = Some False"
      "media_catalogue (Some img) MEDIA_KIND_SSD (Some MEDIA_MAX_ENTRIES) s0 = Some (MEDIA_ERR_FORMAT, es, s)"
proof -
  obtain p where p: "dfs_plausible img = Some p" "p \<longrightarrow> dfs_ready img (unat (img ! (DFS_SECTOR + 5)) div 8)"
    using dfs_plausible_defined by blast
  show ?thesis
  proof (cases p)
    case True
    then have "min MEDIA_MAX_ENTRIES (unat (img ! (DFS_SECTOR + 5)) div 8) = unat (img ! (DFS_SECTOR + 5)) div 8"
      using p(2) by (simp add: dfs_ready_def min_def)
    then show ?thesis
      using dfs_catalogue_eq [of img "Some MEDIA_MAX_ENTRIES" "summary_zero\<lparr>s_kind := MEDIA_KIND_SSD\<rparr>"] p(1) True plausible
      by (auto simp: media_catalogue_def)
  next
    case False
    then show ?thesis using not p(1) by (simp add: media_catalogue_def dfs_catalogue_def)
  qed
qed

lemma dfs_extract_eq:
  assumes "cap \<le> length out"
  shows "media_extract (Some img) MEDIA_KIND_SSD k out cap = Some
     (let e = dfs_entry_at img k in
      if dfs_plausible img \<noteq> Some True then (MEDIA_ERR_FORMAT, out, 0)
      else if unat (img ! (DFS_SECTOR + 5)) div 8 \<le> k then (MEDIA_ERR_RANGE, out, 0)
      else if length img < unat (e_offset e) + unat (e_length e) then (MEDIA_ERR_TRUNCATED, out, 0)
      else if cap < unat (e_length e) then (MEDIA_ERR_RANGE, out, 0)
      else (MEDIA_OK, splice out 0 (seg img (unat (e_offset e)) (unat (e_length e))), unat (e_length e)))"
proof (cases rule: ssd_catalogue_cases [of img summary_zero])
  case (plausible s)
  then show ?thesis using assms(1) by (simp add: media_extract_def Let_def)
next
  case (not es s)
  then show ?thesis by (simp add: media_extract_def)
qed

text \<open>Extracting entry \<open>k\<close> of a DFS disc gives exactly the contiguous bytes its catalogue entry describes, and
  every way it can fail (not a disc, no such entry, data past the end of the image, buffer too
  small) is its own error with nothing written.\<close>

theorem dfs_extract:
  fixes img :: bytes and k :: nat
  assumes "cap \<le> length out"
  defines "e \<equiv> dfs_entry_at img k" and "files \<equiv> unat (img ! (DFS_SECTOR + 5)) div 8"
  shows "media_extract (Some img) MEDIA_KIND_SSD k out cap = Some
     (if dfs_plausible img \<noteq> Some True then (MEDIA_ERR_FORMAT, out, 0)
      else if files \<le> k then (MEDIA_ERR_RANGE, out, 0)
      else if length img < unat (e_offset e) + unat (e_length e) then (MEDIA_ERR_TRUNCATED, out, 0)
      else if cap < unat (e_length e) then (MEDIA_ERR_RANGE, out, 0)
      else (MEDIA_OK, splice out 0 (seg img (unat (e_offset e)) (unat (e_length e))), unat (e_length e)))"
  unfolding e_def files_def using dfs_extract_eq [OF assms(1)] by (simp only: Let_def)

definition demo_ssd :: bytes where
  "demo_ssd = replicate 8 0x20 @ [0x41, 0x42, 0x20, 0x20, 0x20, 0x20, 0x20, 0x24] @ replicate 240 0 @
     [0x20, 0x20, 0x20, 0x20, 0, 8, 0, 3, 0, 0x19, 0, 0x19, 2, 0, 0, 2] @ replicate 240 0 @ [5, 6] @ replicate 254 0"

theorem dfs_extract_witness:
  "media_extract (Some demo_ssd) MEDIA_KIND_SSD 0 [0, 0, 0] 3 = Some (MEDIA_OK, [5, 6, 0], 2)"
proof -
  have "dfs_plausible demo_ssd = Some True" "unat (demo_ssd ! (DFS_SECTOR + 5)) div 8 = 1"
    "length demo_ssd = 768" "unat (e_offset (dfs_entry_at demo_ssd 0)) = 512"
    "unat (e_length (dfs_entry_at demo_ssd 0)) = 2" "seg demo_ssd 512 2 = [5, 6]"
    by code_simp+
  then show ?thesis using dfs_extract [of 3 "[0, 0, 0]" demo_ssd 0] by (simp add: splice_def)
qed

lemma media_extract_defined:
  assumes "cap \<le> length out"
  shows "\<exists>r. media_extract src kind k out cap = Some r"
proof (cases src)
  case (Some img)
  obtain kd where kd: "(if kind = MEDIA_KIND_UNKNOWN then media_identify src else Some kind) = Some kd"
    using media_identify_defined by (metis (full_types))
  obtain w where "uef_walk img (uef_copy_block img) (copy_zero k out cap) 0 = Some w"
    using uef_extract_defined [OF assms] by blast
  moreover have "\<exists>r. media_extract (Some img) MEDIA_KIND_SSD k out cap = Some r"
    using dfs_extract_eq [OF assms] by blast
  ultimately show ?thesis
    using Some kd by (cases kd) (auto simp: media_extract_def split: prod.split)
qed (simp add: media_extract_def)




subsection \<open>Rendered lines\<close>

definition entry_text :: "media_entry \<Rightarrow> bytes" where
  "entry_text e = take 11 (e_name e) @ replicate (12 - length (take 11 (e_name e))) 0x20 @
     hex_text (e_load e) 8 @ [0x20] @ hex_text (e_exec e) 8 @ [0x20] @ hex_text (e_length e) 6 @
     (if e_locked e then [0x20, 0x4C] else []) @ (if e_crc_ok e then [] else [0x20, 0x3F])"

lemma length_hex_text [simp]: "length (hex_text v n) = n"
  by (simp add: hex_text_def)

lemma length_entry_text:
  "length (entry_text e) = 36 + (if e_locked e then 2 else 0) + (if e_crc_ok e then 0 else 2)"
  by (simp add: entry_text_def min_def)

lemma splice_at_end: "length d + length x \<le> length w \<Longrightarrow> n = length d \<Longrightarrow> splice (splice w 0 d) n x = splice w 0 (d @ x)"
  by (simp add: splice_def add.commute)

lemma put_at_end:
  assumes "n = length d"
  shows "n + length t \<le> length w \<Longrightarrow> put_text (splice w 0 d) n t = Some (splice w 0 (d @ t), n + length t)"
    "n + k \<le> length w \<Longrightarrow> put_hex (splice w 0 d) n v k = Some (splice w 0 (d @ hex_text v k), n + k)"
    "n < length w \<Longrightarrow> wr8 (splice w 0 d) n x = Some (splice w 0 (d @ [x]))"
    "n = length w \<Longrightarrow> wr8 (splice w 0 d) n x = None"
  using assms
  by (simp_all add: put_text_def put_hex_def wr_range_def wr8_def splice_at_end)
    (simp add: splice_def list_update_append Cons_nth_drop_Suc [symmetric])

lemma format_entry_eq:
  assumes "40 \<le> capacity" "40 \<le> length out"
  shows "media_format_entry e out capacity =
     (if length (entry_text e) < length out
      then Some (splice out 0 (entry_text e @ [0]), length (entry_text e)) else None)"
proof -
  define nm where "nm = take 11 (e_name e)"
  define d where "d = nm @ replicate (12 - length nm) (0x20 :: u8)"
  have nm: "length nm \<le> 11" by (simp add: nm_def)
  then have d: "length d = 12" by (simp add: d_def)
  define d2 where "d2 = ((((d @ hex_text (e_load e) 8) @ [0x20]) @ hex_text (e_exec e) 8) @ [0x20]) @ hex_text (e_length e) 6"
  have d2: "length d2 = 36" using d by (simp add: d2_def)
  define d3 where "d3 = (if e_locked e then d2 @ [0x20, 0x4C] else d2)"
  define d4 where "d4 = (if e_crc_ok e then d3 else d3 @ [0x20, 0x3F])"
  have line: "entry_text e = d4"
    by (simp add: entry_text_def d4_def d3_def d2_def d_def nm_def)
  have start: "put_text out 0 nm = Some (splice out 0 nm, length nm)"
    using put_at_end(1) [of 0 "[]" nm out] nm assms(2) by (simp add: splice_def [of out 0 "[]"])
  have pad: "put_text (splice out 0 nm) (length nm) (replicate (12 - length nm) 0x20) = Some (splice out 0 d, 12)"
    using put_at_end(1) [of "length nm" nm "replicate (12 - length nm) 0x20" out] nm assms(2) by (simp add: d_def)
  have "media_format_entry e out capacity = do {
      (out, n) \<leftarrow> (if e_locked e then put_text (splice out 0 d2) 36 [0x20, 0x4C] else Some (splice out 0 d2, 36));
      (out, n) \<leftarrow> (if \<not> e_crc_ok e then put_text out n [0x20, 0x3F] else Some (out, n));
      out \<leftarrow> wr8 out n 0;
      Some (out, n) }"
    using assms d
    by (simp add: media_format_entry_def start pad put_at_end nm_def [symmetric] d2_def)
  also have "\<dots> = do { (out, n) \<leftarrow> (if \<not> e_crc_ok e then put_text (splice out 0 d3) (length d3) [0x20, 0x3F]
        else Some (splice out 0 d3, length d3)); out \<leftarrow> wr8 out n 0; Some (out, n) }"
    using assms d2 by (simp add: put_at_end d3_def)
  also have "\<dots> = do { out \<leftarrow> wr8 (splice out 0 d4) (length d4) 0; Some (out, length d4) }"
    using assms d2 by (simp add: put_at_end d4_def d3_def)
  finally show ?thesis
    using assms(2) d2 put_at_end(3, 4) [of "length d4" d4 out 0] unfolding line
    by (auto simp: d4_def d3_def split: if_splits)
qed

text \<open>With room for 41 bytes, a rendered catalogue line is the padded name, the load and execution addresses and
  the length in hexadecimal and the flags, NUL-terminated, at most forty characters long, and the
  routine writes nothing beyond the terminator.\<close>

theorem media_format_entry_line:
  assumes "40 \<le> capacity" "41 \<le> length out"
  shows "media_format_entry e out capacity = Some (splice out 0 (entry_text e @ [0]), length (entry_text e)) \<and>
     length (entry_text e) \<le> 40 \<and> length (splice out 0 (entry_text e @ [0])) = length out"
  using format_entry_eq [of capacity out e] assms length_entry_text [of e] by auto

definition demo_entry :: media_entry where
  "demo_entry = \<lparr>e_name = [0x41], e_load = 0xFFFF1900, e_exec = 0xFFFF8023, e_length = 0x4A0, e_offset = 0,
     e_blocks = 1, e_locked = True, e_crc_ok = False\<rparr>"

theorem media_format_entry_line_witness:
  "media_format_entry demo_entry (replicate 41 0) 40 =
     Some (splice (replicate 41 0) 0 (entry_text demo_entry @ [0]), length (entry_text demo_entry))"
  using media_format_entry_line [of 40 "replicate 41 0" demo_entry] by simp

text \<open>The capacity test of \<open>media_format_entry\<close> is one too small: an entry that is both locked and damaged fills
  all forty columns, and with a buffer of exactly forty bytes, which the test accepts, the
  terminator is written one byte past its end.\<close>

theorem media_format_entry_overflow:
  assumes "e_locked e" "\<not> e_crc_ok e" "length out = 40"
  shows "media_format_entry e out 40 = None"
  using format_entry_eq [of 40 out e] assms length_entry_text [of e] by simp

theorem media_format_entry_overflow_witness: "media_format_entry demo_entry (replicate 40 0) 40 = None"
  using media_format_entry_overflow [of demo_entry "replicate 40 0"] by (simp add: demo_entry_def)


subsection \<open>Blocks as they stand on tape\<close>

text \<open>
  A cassette block as \<open>uef_repair.c\<close> rewrites it and as real tapes carry it: both CRCs are stored high
  byte first.
\<close>

definition be16 :: "u16 \<Rightarrow> bytes" where
  "be16 c = [byte_of c 1, byte_of c 0]"

definition bytes32 :: "u32 \<Rightarrow> bytes" where
  "bytes32 v = [byte_of v 0, byte_of v 1, byte_of v 2, byte_of v 3]"

definition tape_header :: "bytes \<Rightarrow> u32 \<Rightarrow> u32 \<Rightarrow> u16 \<Rightarrow> u16 \<Rightarrow> u8 \<Rightarrow> u32 \<Rightarrow> bytes" where
  "tape_header name load exec blk len flags next = name @ [0] @ bytes32 load @ bytes32 exec @
     [byte_of blk 0, byte_of blk 1] @ [byte_of len 0, byte_of len 1] @ [flags] @ bytes32 next"

definition tape_block :: "bytes \<Rightarrow> u32 \<Rightarrow> u32 \<Rightarrow> u16 \<Rightarrow> u8 \<Rightarrow> u32 \<Rightarrow> bytes \<Rightarrow> bytes" where
  "tape_block name load exec blk flags next data =
     (let h = tape_header name load exec blk (word_of_nat (length data)) flags next in
      [0x2A] @ h @ be16 (crc16 h) @ (if data = [] then [] else data @ be16 (crc16 data)))"

definition swap16 :: "u16 \<Rightarrow> u16" where
  "swap16 c = le16 (byte_of c 1) (byte_of c 0)"

lemma rd8_shift: "rd8 (A @ xs) (length A + k) = rd8 xs k"
  by (simp add: rd8_def nth_append)

lemma rd16_shift: "rd16 (rd8 (A @ xs)) (length A + k) = rd16 (rd8 xs) k"
  by (simp only: rd16_def add.assoc rd8_shift)

lemma rd32_shift: "rd32 (rd8 (A @ xs)) (length A + k) = rd32 (rd8 xs) k"
  by (simp only: rd32_def add.assoc rd8_shift)

lemma cfs_name_scan_found:
  assumes "0 \<notin> set ys" "n + length ys \<le> 15" "length B + length ys < e"
  shows "cfs_name_scan (B @ ys @ 0 # r) e (length B) n = Some (length B + length ys, n + length ys)"
  using assms
proof (induction ys arbitrary: B n)
  case Nil
  then show ?case by (simp add: cfs_name_scan.simps [of _ _ "length B" n])
next
  case (Cons y ys)
  have "cfs_name_scan ((B @ [y]) @ ys @ 0 # r) e (length (B @ [y])) (n + 1) =
      Some (length (B @ [y]) + length ys, (n + 1) + length ys)"
    using Cons.prems by (intro Cons.IH) auto
  then show ?case using Cons.prems by (simp add: cfs_name_scan.simps [of _ _ "length B" n])
qed

lemma seg_middle: "seg (A @ m @ r) (length A) (length m) = m"
  by (simp add: seg_def)

lemma tape_crc_middle: "media_tape_crc (A @ m @ r) (length A) (length m) = Some (crc16 m)"
  by (simp add: media_tape_crc_eq seg_middle)

lemma rd_range_middle: "rd_range (A @ m @ r) (length A) (length m) = Some m"
  by (simp add: seg_middle)


lemma rd_header_fields:
  assumes F: "F = bytes32 load @ bytes32 exec @ [byte_of blk 0, byte_of blk 1] @ [byte_of len 0, byte_of len 1] @
      [flags] @ bytes32 next @ be16 c @ r"
  shows "rd32 (rd8 (A @ F)) (length A) = Some load" "rd32 (rd8 (A @ F)) (length A + 4) = Some exec"
    "rd16 (rd8 (A @ F)) (length A + 8) = Some blk" "rd16 (rd8 (A @ F)) (length A + 10) = Some len"
    "rd8 (A @ F) (length A + 12) = Some flags" "rd16 (rd8 (A @ F)) (length A + 17) = Some (swap16 c)"
proof -
  have le: "le32 (byte_of v 0) (byte_of v (Suc 0)) (byte_of v 2) (byte_of v 3) = v"
    "le16 (byte_of w 0) (byte_of w (Suc 0)) = w" for v :: u32 and w :: u16
    using le32_byte_of [of v] le16_byte_of [of w] by simp_all
  show "rd32 (rd8 (A @ F)) (length A) = Some load"
    using rd32_shift [of A F 0] by (simp add: F bytes32_def le)
  show "rd32 (rd8 (A @ F)) (length A + 4) = Some exec"
    by (simp only: rd32_shift) (simp add: F bytes32_def le)
  show "rd16 (rd8 (A @ F)) (length A + 8) = Some blk"
    by (simp only: rd16_shift) (simp add: F bytes32_def le)
  show "rd16 (rd8 (A @ F)) (length A + 10) = Some len"
    by (simp only: rd16_shift) (simp add: F bytes32_def le)
  show "rd8 (A @ F) (length A + 12) = Some flags"
    by (simp only: rd8_shift) (simp add: F bytes32_def)
  show "rd16 (rd8 (A @ F)) (length A + 17) = Some (swap16 c)"
    by (simp only: rd16_shift) (simp add: F bytes32_def be16_def swap16_def)
qed

text \<open>C12: Decoding a cassette block recovers its name, addresses, block number, length, flags and the place of its data,
  and ends just past it; but because the stored CRCs are read low byte first, the block is reported
  intact only when each CRC equals its own byte swap, although both CRCs are right.\<close>

theorem tape_block_decoded:
  assumes "length name \<le> 15" "0 \<notin> set name" "length data < 65536"
    and img: "img = pre @ tape_block name load exec blk flags next data @ post"
    and e: "length pre + length (tape_block name load exec blk flags next data) \<le> e"
  defines "h \<equiv> tape_header name load exec blk (word_of_nat (length data)) flags next"
  shows "cfs_decode_block img e (length pre) = Some (Some
     (length pre + length (tape_block name load exec blk flags next data),
      \<lparr>b_name = name, b_load = load, b_exec = exec, b_block = blk, b_data_length = word_of_nat (length data),
       b_flags = flags, b_data_offset = length pre + length name + 21,
       b_crc_ok = (swap16 (crc16 h) = crc16 h \<and> (data = [] \<or> swap16 (crc16 data) = crc16 data))\<rparr>))"
proof -
  define r where "r = (if data = [] then [] else data @ be16 (crc16 data)) @ post"
  define A where "A = pre @ 0x2A # name @ [0]"
  define F where "F = bytes32 load @ bytes32 exec @ [byte_of blk 0, byte_of blk 1] @
     [byte_of (word_of_nat (length data) :: u16) 0, byte_of (word_of_nat (length data) :: u16) 1] @ [flags] @ bytes32 next @
     be16 (crc16 h) @ r"
  define B where "B = pre @ [0x2A]"
  have lA: "length A = length pre + length name + 2" "length B = length pre + 1" by (simp_all add: A_def B_def)
  have lh: "length h = length name + 18" by (simp add: h_def tape_header_def bytes32_def)
  have iA: "img = A @ F"
    by (simp add: img tape_block_def tape_header_def h_def A_def F_def r_def Let_def del: One_nat_def)
  have iB: "img = B @ name @ 0 # F" by (simp add: iA A_def B_def)
  have ih: "img = B @ h @ (be16 (crc16 h) @ r)"
    by (simp add: iB h_def tape_header_def F_def del: One_nat_def)
  have ud: "unat (word_of_nat (length data) :: u16) = length data" using assms(3) by (simp add: unat_of_nat)
  have nz: "(word_of_nat (length data) :: u16) \<noteq> 0" if "data \<noteq> []"
    using ud that by (metis length_0_conv unsigned_0)
  have lt: "length (tape_block name load exec blk flags next data) =
      length name + 21 + (if data = [] then 0 else length data + 2)"
    using lh by (simp add: tape_block_def be16_def Let_def h_def)
  note fields = rd_header_fields [OF F_def, of A, folded iA]
  have scan: "cfs_name_scan img e (length B) 0 = Some (length B + length name, length name)"
    using cfs_name_scan_found [OF assms(2), of 0 B e F] assms(1) e lt unfolding iB by (simp add: lA)
  have crc: "media_tape_crc img (length B) (length name + 18) = Some (crc16 h)"
    using tape_crc_middle [of B h] lh unfolding ih by simp
  have nm: "rd_range img (length B) (length name) = Some name"
    unfolding iB by (rule rd_range_middle)
  have star: "rd8 img (length pre) = Some 0x2A" by (simp add: iB B_def rd8_def nth_append)
  have nul: "rd8 img (length B + length name) = Some 0"
    unfolding iB by (simp add: rd8_def nth_append)
  have dat: "media_tape_crc img (length pre + length name + 21) (length data) = Some (crc16 data) \<and>
      rd16 (rd8 img) (length pre + length name + 21 + length data) = Some (swap16 (crc16 data))" if "data \<noteq> []"
  proof -
    define D where "D = B @ h @ be16 (crc16 h)"
    have D: "length D = length pre + length name + 21" by (simp add: D_def lA lh be16_def)
    have iD: "img = D @ data @ (be16 (crc16 data) @ post)" using that by (simp add: ih D_def r_def)
    have "media_tape_crc img (length D) (length data) = Some (crc16 data)"
      unfolding iD by (rule tape_crc_middle)
    moreover have "rd16 (rd8 ((D @ data) @ (be16 (crc16 data) @ post))) (length (D @ data) + 0) = Some (swap16 (crc16 data))"
      by (simp only: rd16_shift) (simp add: be16_def swap16_def)
    ultimately show ?thesis unfolding iD using D by simp
  qed
  have pos: "length pre < e" "length B + length name < e" "length A + 19 \<le> e" using e lt lA by auto
  show ?thesis
    using star scan nul nm fields crc dat pos e lt lA ud nz
    by (cases "data = []") (simp_all add: cfs_decode_block_def Let_def add.assoc add.commute add.left_commute)
qed


theorem tape_block_decoded_witness:
  "\<exists>q b. cfs_decode_block (tape_block [0x41] 0x1900 0x1900 0 0x80 0 [1, 2, 3]) 28 0 = Some (Some (q, b)) \<and>
     b_name b = [0x41] \<and> b_load b = 0x1900 \<and> \<not> b_crc_ok b"
proof -
  have "length (tape_block [0x41] 0x1900 0x1900 0 0x80 0 [1, 2, 3]) = 27" by code_simp
  moreover have "swap16 (crc16 [1, 2, 3]) \<noteq> crc16 [1, 2, 3]" by code_simp
  ultimately show ?thesis
    using tape_block_decoded [of "[0x41]" "[1, 2, 3]" _ "[]" "0x1900" "0x1900" 0 "0x80" 0 "[]" 28] by simp
qed


subsection \<open>Facts for the clients of the catalogue\<close>

lemma media_extract_length:
  assumes "media_extract src kind k out cap = Some (st, o', n)" "cap \<le> length out"
  shows "length o' = length out \<and> n \<le> cap"
proof (cases src)
  case (Some img)
  obtain kd where kd: "(if kind = MEDIA_KIND_UNKNOWN then media_identify src else Some kind) = Some kd"
    using media_identify_defined by (metis (full_types))
  have ex: "media_extract src kind k out cap = (if kd = MEDIA_KIND_UNKNOWN then Some (MEDIA_ERR_FORMAT, out, 0)
      else media_extract (Some img) kd k out cap)"
    unfolding media_extract_def Some option.case kd [unfolded Some] bind.bind_lunit by (cases kd) simp_all
  show ?thesis
  proof (cases kd)
    case MEDIA_KIND_UNKNOWN
    then show ?thesis using assms(1) ex by simp
  next
    case MEDIA_KIND_UEF
    then show ?thesis
    proof (cases "uef_image img")
      case True
      show ?thesis
        using uef_extract_eq [OF True assms(2), of k] assms ex MEDIA_KIND_UEF by (auto split: if_splits)
    next
      case False
      then show ?thesis using assms ex MEDIA_KIND_UEF
        by (simp add: media_extract_def uef_walk_not_image copy_zero_def)
    qed
  next
    case MEDIA_KIND_SSD
    then show ?thesis
      using dfs_extract_eq [OF assms(2), of img k] assms ex by (auto simp: Let_def split: if_splits)
  qed
qed (use assms in \<open>simp add: media_extract_def\<close>)

lemma media_catalogue_count:
  assumes "media_catalogue src kind (Some n) s0 = Some (MEDIA_OK, es, s)"
  shows "length es = s_count s"
proof (cases src)
  case (Some img)
  then show ?thesis
    using assms by (auto simp: media_catalogue_def dfs_catalogue_def Let_def bind_eq_Some_conv split: if_splits)
qed (use assms in \<open>simp add: media_catalogue_def\<close>)


lemma files_blocks: "f \<in> set (files_of bs) \<Longrightarrow> set f \<subseteq> set bs"
proof (induction bs arbitrary: f rule: rev_induct)
  case (snoc b bs)
  then consider "f \<in> set (files_of bs)" | "f = [b]" | "files_of bs \<noteq> []" "f = last (files_of bs) @ [b]"
    by (auto simp: files_of_snoc add_block_def starts_file_def file_name_def split: if_splits dest: in_set_butlastD)
  then show ?case
    by cases (use snoc.IH in \<open>auto dest: last_in_set\<close>)
qed (simp add: files_of_def)

lemma uef_entry_names: "f \<in> set (files_of (uef_blocks img)) \<Longrightarrow> length (e_name (file_entry f)) \<le> 15"
proof -
  assume f: "f \<in> set (files_of (uef_blocks img))"
  then have "f \<noteq> []" using files_nonempty by auto
  then have "hd f \<in> set (uef_blocks img)" using files_blocks [OF f] by auto
  then show ?thesis using uef_blocks_ok [of img] by (simp add: file_entry_def list_all_iff block_ok_def)
qed

lemma dfs_entry_names: "dfs_entry img i = Some (e, ss, off) \<Longrightarrow> length (e_name e) \<le> 15"
  using length_takeWhile_le [of "\<lambda>ch. ch \<noteq> 0x20" "map (\<lambda>ch. ch AND 0x7F) (take 7 (seg img (8 + i * 8) 8))"]
  by (auto simp: dfs_entry_def Let_def bind_eq_Some_conv rd_range_def split: if_splits)

lemma media_catalogue_names:
  assumes "media_catalogue src kind (Some n) s0 = Some (MEDIA_OK, es, s)" "e \<in> set es"
  shows "length (e_name e) \<le> 15"
proof -
  obtain img where src: "src = Some img" using assms(1) by (cases src) (auto simp: media_catalogue_def)
  obtain kd where kd: "(if kind = MEDIA_KIND_UNKNOWN then media_identify src else Some kind) = Some kd"
    using media_identify_defined by (metis (full_types))
  have cat: "media_catalogue src kind (Some n) s0 = (if n = 0 then Some (MEDIA_ERR_PARAM, [], s0)
     else if kd = MEDIA_KIND_UEF then do {
              (status, g, issues) \<leftarrow> uef_walk img uef_group_block (group_zero (Some n)) 0;
              Some (if status = MEDIA_ERR_FORMAT then status else MEDIA_OK, g_entries g,
                (summary_zero\<lparr>s_kind := kd\<rparr>)\<lparr>s_count := length (g_entries g), s_total := g_total g, s_issues := issues\<rparr>) }
     else if kd = MEDIA_KIND_SSD then dfs_catalogue img (Some n) (summary_zero\<lparr>s_kind := kd\<rparr>)
     else Some (MEDIA_ERR_FORMAT, [], summary_zero\<lparr>s_kind := kd\<rparr>))"
    unfolding media_catalogue_def src option.case kd [unfolded src] bind.bind_lunit Let_def by simp
  obtain g where g: "visit_all uef_group_block (group_zero (Some n)) (uef_blocks img) = Some g"
    "group_inv (Some n) (files_of (uef_blocks img)) g"
    using uef_group_all by blast
  show ?thesis
  proof (cases kd)
    case MEDIA_KIND_UEF
    have "uef_image img"
      using assms cat MEDIA_KIND_UEF by (cases "n = 0") (auto simp: uef_walk_not_image intro: ccontr)
    then have "es = g_entries g"
      using uef_walk_blocks [of img uef_group_block "group_zero (Some n)"] g(1) assms cat MEDIA_KIND_UEF
      by (auto split: if_splits)
    then show ?thesis using g(2) assms(2) uef_entry_names by (auto simp: group_inv_def dest: in_set_takeD)
  next
    case MEDIA_KIND_SSD
    obtain p where p: "dfs_plausible img = Some p" "p \<longrightarrow> dfs_ready img (unat (img ! (DFS_SECTOR + 5)) div 8)"
      using dfs_plausible_defined by blast
    have "p" using assms(1) cat MEDIA_KIND_SSD p(1) by (auto simp: dfs_catalogue_def split: if_splits)
    then have "es = map (dfs_entry_at img) [0..<min n (unat (img ! (DFS_SECTOR + 5)) div 8)]"
      using dfs_catalogue_eq [of img "Some n" "summary_zero\<lparr>s_kind := kd\<rparr>"] p assms(1) cat MEDIA_KIND_SSD
      by (auto split: if_splits)
    then obtain i where i: "i < unat (img ! (DFS_SECTOR + 5)) div 8" "e = dfs_entry_at img i"
      using assms(2) by auto
    obtain e' ss off where "dfs_entry img i = Some (e', ss, off)"
      using dfs_entry_defined [of img _ i] p(2) \<open>p\<close> i(1) by blast
    then show ?thesis using i(2) dfs_entry_names by (simp add: dfs_entry_at_def)
  qed (use assms cat in \<open>auto split: if_splits\<close>)
qed

end
