(* ===== verification/Media_Service.thy ===== *)
theory Media_Service
  imports Media_Props
begin

unbundle bit_operations_syntax

section \<open>The media session (media\_service\_core.c)\<close>

text \<open>
  One record holds the session \<open>media_service\<close> and the file-scope stream buffer of
  \<open>dispatch_read\<close> (\<open>stream_data\<close>, \<open>stream_length\<close>, \<open>stream_index\<close>, \<open>stream_valid\<close>), which every
  session shares. The entries array is the list of its decoded entries. NULL arguments of the
  dispatcher are the caller's business; a NULL image is \<open>None\<close>.
\<close>

abbreviation MEDIA_CMD_OPEN :: u8 where "MEDIA_CMD_OPEN \<equiv> 120"
abbreviation MEDIA_CMD_CAT :: u8 where "MEDIA_CMD_CAT \<equiv> 121"
abbreviation MEDIA_CMD_INFO :: u8 where "MEDIA_CMD_INFO \<equiv> 122"
abbreviation MEDIA_CMD_READ :: u8 where "MEDIA_CMD_READ \<equiv> 123"
abbreviation MEDIA_CMD_CLOSE :: u8 where "MEDIA_CMD_CLOSE \<equiv> 124"
abbreviation MEDIA_SVC_OK :: u8 where "MEDIA_SVC_OK \<equiv> 0"
abbreviation MEDIA_SVC_EOF :: u8 where "MEDIA_SVC_EOF \<equiv> 0x20"
abbreviation MEDIA_SVC_ERR_PARAM :: u8 where "MEDIA_SVC_ERR_PARAM \<equiv> 0x23"
abbreviation MEDIA_SVC_ERR_FORMAT :: u8 where "MEDIA_SVC_ERR_FORMAT \<equiv> 0x27"
abbreviation MEDIA_SVC_ERR_RANGE :: u8 where "MEDIA_SVC_ERR_RANGE \<equiv> 0x2B"
abbreviation MEDIA_SVC_REPLY_MAX :: nat where "MEDIA_SVC_REPLY_MAX \<equiv> 240"
abbreviation MEDIA_SVC_READ_WINDOW :: nat where "MEDIA_SVC_READ_WINDOW \<equiv> 236"
abbreviation STREAM_SIZE :: nat where "STREAM_SIZE \<equiv> 65536"

record media_service =
  svc_image :: "bytes option"
  svc_kind :: media_kind
  svc_summary :: media_summary
  svc_entries :: "media_entry list"
  cat_cursor :: nat
  read_index :: nat
  read_offset :: nat
  svc_open :: bool
  stream_data :: bytes
  stream_length :: nat
  stream_index :: nat
  stream_valid :: bool

definition media_service_reset :: "media_service \<Rightarrow> media_service" where
  "media_service_reset s = s\<lparr>svc_image := None, svc_kind := MEDIA_KIND_UNKNOWN,
     svc_summary := summary_zero, svc_entries := [], cat_cursor := 0, read_index := 0,
     read_offset := 0, svc_open := False\<rparr>"

definition media_service_open :: "media_service \<Rightarrow> bytes option \<Rightarrow> (u8 \<times> media_service) option" where
  "media_service_open s src =
     (let s0 = media_service_reset s in
      if src = None \<or> src = Some [] then Some (MEDIA_SVC_ERR_PARAM, s0)
      else do {
        kind \<leftarrow> media_identify src;
        let s1 = s0\<lparr>svc_kind := kind\<rparr>;
        if kind = MEDIA_KIND_UNKNOWN then Some (MEDIA_SVC_ERR_FORMAT, s1)
        else do {
          (status, entries, summary) \<leftarrow>
            media_catalogue src kind (Some MEDIA_MAX_ENTRIES) (svc_summary s1);
          let s2 = s1\<lparr>svc_entries := entries, svc_summary := summary\<rparr>;
          if status \<noteq> MEDIA_OK then Some (MEDIA_SVC_ERR_FORMAT, s2)
          else Some (MEDIA_SVC_OK, s2\<lparr>svc_image := src, svc_open := True\<rparr>) } })"

text \<open>A dispatch yields the status, the session, the reply buffer and \<open>*reply_length\<close>.\<close>

type_synonym svc_result = "u8 \<times> media_service \<times> bytes \<times> nat"

definition kind_code :: "media_kind \<Rightarrow> u8" where
  "kind_code k = (case k of MEDIA_KIND_UNKNOWN \<Rightarrow> 0 | MEDIA_KIND_UEF \<Rightarrow> 1 | MEDIA_KIND_SSD \<Rightarrow> 2)"

definition dispatch_open :: "media_service \<Rightarrow> bytes \<Rightarrow> nat \<Rightarrow> svc_result option" where
  "dispatch_open s reply capacity =
     (if \<not> svc_open s then Some (MEDIA_SVC_ERR_PARAM, s, reply, 0)
      else if capacity < 4 then Some (MEDIA_SVC_ERR_RANGE, s, reply, 0)
      else do {
        reply' \<leftarrow> wr_range reply 0 [kind_code (svc_kind s), word_of_nat (s_count (svc_summary s)),
          word_of_nat (s_total (svc_summary s)), s_boot_option (svc_summary s)];
        Some (MEDIA_SVC_OK, s, reply', 4) })"

definition dispatch_cat :: "media_service \<Rightarrow> bytes \<Rightarrow> nat \<Rightarrow> svc_result option" where
  "dispatch_cat s reply capacity =
     (if \<not> svc_open s then Some (MEDIA_SVC_ERR_PARAM, s, reply, 0)
      else if s_count (svc_summary s) \<le> cat_cursor s then Some (MEDIA_SVC_EOF, s, reply, 0)
      else if \<not> cat_cursor s < length (svc_entries s) then None
      else do {
        (line, n) \<leftarrow> media_format_entry (svc_entries s ! cat_cursor s) (replicate 64 0) 64;
        if n = 0 then Some (MEDIA_SVC_ERR_RANGE, s, reply, 0)
        else if capacity < n + 1 \<or> MEDIA_SVC_REPLY_MAX < n + 1
        then Some (MEDIA_SVC_ERR_RANGE, s, reply, 0)
        else do {
          t \<leftarrow> rd_range line 0 n;
          reply1 \<leftarrow> wr_range reply 0 t;
          reply2 \<leftarrow> wr8 reply1 n 0x0D;
          Some (MEDIA_SVC_OK, s\<lparr>cat_cursor := cat_cursor s + 1\<rparr>, reply2, n + 1) } })"

definition info_bytes :: "media_entry \<Rightarrow> bytes" where
  "info_bytes e = [byte_of (e_load e) 0, byte_of (e_load e) 1, byte_of (e_load e) 2, byte_of (e_load e) 3,
     byte_of (e_exec e) 0, byte_of (e_exec e) 1, byte_of (e_exec e) 2, byte_of (e_exec e) 3,
     byte_of (e_length e) 0, byte_of (e_length e) 1, byte_of (e_length e) 2, byte_of (e_length e) 3,
     (if e_locked e then 1 else 0) OR (if e_crc_ok e then 0 else 2)] @ take MEDIA_NAME_MAX (e_name e) @ [0]"

definition dispatch_info :: "media_service \<Rightarrow> u8 \<Rightarrow> bytes \<Rightarrow> nat \<Rightarrow> svc_result option" where
  "dispatch_info s arg reply capacity =
     (if \<not> svc_open s then Some (MEDIA_SVC_ERR_PARAM, s, reply, 0)
      else if s_count (svc_summary s) \<le> unat arg then Some (MEDIA_SVC_ERR_RANGE, s, reply, 0)
      else if \<not> unat arg < length (svc_entries s) then None
      else if capacity < 13 + MEDIA_NAME_MAX then Some (MEDIA_SVC_ERR_RANGE, s, reply, 0)
      else do {
        let b = info_bytes (svc_entries s ! unat arg);
        reply' \<leftarrow> wr_range reply 0 b;
        Some (MEDIA_SVC_OK, s, reply', length b) })"

text \<open>Starting a stream: the extraction writes the shared buffer and its length even when it fails.\<close>

definition stream_start :: "media_service \<Rightarrow> nat \<Rightarrow> (media_status \<times> media_service) option" where
  "stream_start s index = do {
     (status, data, n) \<leftarrow> media_extract (svc_image s) (svc_kind s) index (stream_data s) STREAM_SIZE;
     let s1 = s\<lparr>stream_data := data, stream_length := n\<rparr>;
     Some (status, if status = MEDIA_OK
       then s1\<lparr>stream_index := index, stream_valid := True, read_index := index, read_offset := 0\<rparr>
       else s1) }"

definition stream_window :: "media_service \<Rightarrow> bytes \<Rightarrow> nat \<Rightarrow> svc_result option" where
  "stream_window s reply capacity =
     (if stream_length s \<le> read_offset s
      then Some (MEDIA_SVC_EOF, s\<lparr>read_offset := 0, stream_valid := False\<rparr>, reply, 0)
      else do {
        let remaining = stream_length s - read_offset s;
        let w = (if remaining < MEDIA_SVC_READ_WINDOW then remaining else MEDIA_SVC_READ_WINDOW);
        let window = (if capacity < w + 4 then capacity - 4 else w);
        reply1 \<leftarrow> wr_range reply 0 [word_of_nat remaining, word_of_nat (remaining div 256),
          word_of_nat (remaining div 65536), word_of_nat window];
        d \<leftarrow> rd_range (stream_data s) (read_offset s) window;
        reply2 \<leftarrow> wr_range reply1 4 d;
        Some (MEDIA_SVC_OK, s\<lparr>read_offset := read_offset s + window\<rparr>, reply2, window + 4) })"

definition dispatch_read :: "media_service \<Rightarrow> u8 \<Rightarrow> bytes \<Rightarrow> nat \<Rightarrow> svc_result option" where
  "dispatch_read s arg reply capacity =
     (if \<not> svc_open s then Some (MEDIA_SVC_ERR_PARAM, s, reply, 0)
      else if s_count (svc_summary s) \<le> unat arg then Some (MEDIA_SVC_ERR_RANGE, s, reply, 0)
      else if capacity < 4 then Some (MEDIA_SVC_ERR_RANGE, s, reply, 0)
      else if \<not> stream_valid s \<or> stream_index s \<noteq> unat arg \<or> read_index s \<noteq> unat arg then do {
        (status, s') \<leftarrow> stream_start s (unat arg);
        if status = MEDIA_ERR_RANGE then Some (MEDIA_SVC_ERR_RANGE, s', reply, 0)
        else if status \<noteq> MEDIA_OK then Some (MEDIA_SVC_ERR_FORMAT, s', reply, 0)
        else stream_window s' reply capacity }
      else stream_window s reply capacity)"

definition media_service_dispatch :: "media_service \<Rightarrow> u8 \<Rightarrow> u8 \<Rightarrow> bytes \<Rightarrow> nat \<Rightarrow> svc_result option" where
  "media_service_dispatch s cmd arg reply reply_capacity =
     (let capacity = (if MEDIA_SVC_REPLY_MAX < reply_capacity then MEDIA_SVC_REPLY_MAX else reply_capacity) in
      if cmd = MEDIA_CMD_OPEN then dispatch_open s reply capacity
      else if cmd = MEDIA_CMD_CAT then dispatch_cat s reply capacity
      else if cmd = MEDIA_CMD_INFO then dispatch_info s arg reply capacity
      else if cmd = MEDIA_CMD_READ then dispatch_read s arg reply capacity
      else if cmd = MEDIA_CMD_CLOSE
      then Some (MEDIA_SVC_OK, media_service_reset (s\<lparr>stream_valid := False\<rparr>), reply, 0)
      else Some (MEDIA_SVC_ERR_PARAM, s, reply, 0))"

subsection \<open>Invariant\<close>

definition svc_inv :: "media_service \<Rightarrow> bool" where
  "svc_inv s \<longleftrightarrow> length (stream_data s) = STREAM_SIZE \<and> stream_length s \<le> STREAM_SIZE \<and>
     (svc_open s \<longrightarrow> length (svc_entries s) = s_count (svc_summary s) \<and>
       (\<forall>e \<in> set (svc_entries s). length (e_name e) \<le> 15))"

lemma svc_inv_entries: "svc_inv s \<Longrightarrow> svc_open s \<Longrightarrow> k < s_count (svc_summary s) \<Longrightarrow> k < length (svc_entries s)"
  by (simp add: svc_inv_def)

lemma media_service_open_inv:
  assumes "svc_inv s" shows "\<exists>r s'. media_service_open s src = Some (r, s') \<and> svc_inv s'"
proof -
  obtain k where k: "media_identify src = Some k" using media_identify_defined by blast
  obtain st es su where c: "media_catalogue src k (Some MEDIA_MAX_ENTRIES) summary_zero = Some (st, es, su)"
    using media_catalogue_defined by (metis prod_cases3)
  have "length es = s_count su" "\<forall>e \<in> set es. length (e_name e) \<le> 15" if "st = MEDIA_OK"
    using media_catalogue_count media_catalogue_names c that by blast+
  then show ?thesis using assms k c
    by (simp add: media_service_open_def media_service_reset_def svc_inv_def Let_def)
qed

lemma dispatch_open_safe:
  "svc_inv s \<Longrightarrow> capacity \<le> length reply \<Longrightarrow> \<exists>r rep n. dispatch_open s reply capacity = Some (r, s, rep, n) \<and>
     length rep = length reply \<and> n \<le> capacity"
  by (simp add: dispatch_open_def)

lemma format_line_64:
  "media_format_entry e (replicate 64 0) 64 =
     Some (splice (replicate 64 0) 0 (entry_text e @ [0]), length (entry_text e))"
  using format_entry_eq [of 64 "replicate 64 0" e] length_entry_text [of e] by auto

lemma dispatch_cat_line:
  assumes "svc_open s" "cat_cursor s < s_count (svc_summary s)" "cat_cursor s < length (svc_entries s)"
    and "length (entry_text (svc_entries s ! cat_cursor s)) < capacity" "capacity \<le> length reply"
  shows "dispatch_cat s reply capacity = Some (MEDIA_SVC_OK, s\<lparr>cat_cursor := cat_cursor s + 1\<rparr>,
     splice reply 0 (entry_text (svc_entries s ! cat_cursor s) @ [0x0D]),
     length (entry_text (svc_entries s ! cat_cursor s)) + 1)"
proof -
  define t where "t = entry_text (svc_entries s ! cat_cursor s)"
  have t: "36 \<le> length t" "length t \<le> 40" by (simp_all add: t_def length_entry_text)
  then have "t \<noteq> []" by auto
  moreover have "rd_range (splice (replicate 64 0) 0 (t @ [0])) 0 (length t) = Some t"
    using t by (simp add: rd_range_def) (simp add: splice_def seg_def)
  ultimately show ?thesis
    using assms t put_at_end(3) [of "length t" t reply "0x0D"]
    by (simp add: dispatch_cat_def format_line_64 flip: t_def)
qed

lemma dispatch_cat_safe:
  assumes "svc_inv s" "capacity \<le> length reply"
  shows "\<exists>r s' rep n. dispatch_cat s reply capacity = Some (r, s', rep, n) \<and> svc_inv s' \<and>
     length rep = length reply \<and> n \<le> capacity"
proof (cases "svc_open s \<and> cat_cursor s < s_count (svc_summary s) \<and>
    length (entry_text (svc_entries s ! cat_cursor s)) < capacity")
  case True
  then show ?thesis
    using dispatch_cat_line [OF _ _ svc_inv_entries [OF assms(1)] _ assms(2)] assms
    by (simp add: svc_inv_def)
next
  case False
  then show ?thesis using assms svc_inv_entries [OF assms(1), of "cat_cursor s"]
    by (auto simp: dispatch_cat_def format_line_64)
qed

lemma dispatch_info_safe:
  assumes "svc_inv s" "capacity \<le> length reply"
  shows "\<exists>r rep n. dispatch_info s a reply capacity = Some (r, s, rep, n) \<and>
     length rep = length reply \<and> n \<le> capacity"
proof -
  have "length (info_bytes (svc_entries s ! unat a)) \<le> 29" if "svc_open s" "unat a < length (svc_entries s)"
    using that assms(1) by (auto simp: svc_inv_def info_bytes_def intro!: min.coboundedI1)
  then show ?thesis using assms svc_inv_entries [OF assms(1), of "unat a"]
    by (auto simp: dispatch_info_def Let_def not_le)
qed

lemma stream_start_safe:
  assumes "svc_inv s" shows "\<exists>st s'. stream_start s k = Some (st, s') \<and> svc_inv s'"
proof -
  have len: "STREAM_SIZE \<le> length (stream_data s)" using assms by (simp add: svc_inv_def)
  obtain st d n where ex: "media_extract (svc_image s) (svc_kind s) k (stream_data s) STREAM_SIZE = Some (st, d, n)"
    using media_extract_defined [OF len] by (metis prod_cases3)
  then show ?thesis using media_extract_length [OF ex len] assms
    by (simp add: stream_start_def svc_inv_def Let_def)
qed

lemma stream_window_data:
  assumes "svc_inv s" "4 \<le> capacity" "capacity \<le> length reply" "read_offset s < stream_length s"
  defines "w \<equiv> min (min (stream_length s - read_offset s) MEDIA_SVC_READ_WINDOW) (capacity - 4)"
  shows "\<exists>rep. stream_window s reply capacity =
     Some (MEDIA_SVC_OK, s\<lparr>read_offset := read_offset s + w\<rparr>, rep, w + 4) \<and> length rep = length reply \<and>
     seg rep 4 w = seg (stream_data s) (read_offset s) w \<and> read_offset s + w \<le> stream_length s"
proof -
  have w: "read_offset s + w \<le> stream_length s" "w + 4 \<le> capacity" using assms by (auto simp: w_def)
  then have d: "read_offset s + w \<le> length (stream_data s)" using assms(1) by (auto simp: svc_inv_def)
  have win: "(if capacity < (if stream_length s - read_offset s < MEDIA_SVC_READ_WINDOW
      then stream_length s - read_offset s else MEDIA_SVC_READ_WINDOW) + 4 then capacity - 4
      else if stream_length s - read_offset s < MEDIA_SVC_READ_WINDOW
      then stream_length s - read_offset s else MEDIA_SVC_READ_WINDOW) = w"
    using assms(2) by (auto simp: w_def min_def)
  show ?thesis
    unfolding stream_window_def Let_def win
    using assms(2-4) w d by simp
qed

lemma stream_window_safe:
  assumes "svc_inv s" "4 \<le> capacity" "capacity \<le> length reply"
  shows "\<exists>r s' rep n. stream_window s reply capacity = Some (r, s', rep, n) \<and> svc_inv s' \<and>
     length rep = length reply \<and> n \<le> capacity"
proof (cases "read_offset s < stream_length s")
  case True
  then show ?thesis using stream_window_data [OF assms True] assms by (auto simp: svc_inv_def min_def)
next
  case False
  then show ?thesis using assms by (auto simp: stream_window_def svc_inv_def)
qed

lemma dispatch_read_safe:
  assumes "svc_inv s" "capacity \<le> length reply"
  shows "\<exists>r s' rep n. dispatch_read s a reply capacity = Some (r, s', rep, n) \<and> svc_inv s' \<and>
     length rep = length reply \<and> n \<le> capacity"
proof -
  obtain st s1 where "stream_start s (unat a) = Some (st, s1)" "svc_inv s1"
    using stream_start_safe [OF assms(1)] by blast
  then show ?thesis
    using stream_window_safe [OF _ _ assms(2), of s1] stream_window_safe [OF assms(1) _ assms(2)] assms
    by (auto simp: dispatch_read_def not_less)
qed

lemma dispatch_safe:
  assumes "svc_inv s" "capacity \<le> length reply"
  shows "\<exists>r s' rep n. media_service_dispatch s cmd a reply capacity = Some (r, s', rep, n) \<and> svc_inv s' \<and>
     length rep = length reply \<and> n \<le> capacity \<and> n \<le> MEDIA_SVC_REPLY_MAX"
proof -
  define c where "c = (if MEDIA_SVC_REPLY_MAX < capacity then MEDIA_SVC_REPLY_MAX else capacity)"
  have c: "c \<le> length reply" "c \<le> capacity" "c \<le> MEDIA_SVC_REPLY_MAX" using assms(2) by (auto simp: c_def)
  have "\<exists>r s' rep n. media_service_dispatch s cmd a reply capacity = Some (r, s', rep, n) \<and> svc_inv s' \<and>
     length rep = length reply \<and> n \<le> c"
    unfolding media_service_dispatch_def Let_def c_def [symmetric]
    using dispatch_open_safe [OF assms(1) c(1)] dispatch_cat_safe [OF assms(1) c(1)]
      dispatch_info_safe [OF assms(1) c(1), of a] dispatch_read_safe [OF assms(1) c(1), of a] assms(1)
    by (auto simp: media_service_reset_def svc_inv_def)
  then show ?thesis using c by fastforce
qed


subsection \<open>Driving a session\<close>

datatype svc_op = Svc_Open "bytes option" | Svc_Dispatch u8 u8 nat

fun svc_exec :: "svc_op \<Rightarrow> media_service \<Rightarrow> media_service option" where
  "svc_exec (Svc_Open src) s = map_option snd (media_service_open s src)"
| "svc_exec (Svc_Dispatch cmd a cap) s =
     map_option (\<lambda>r. fst (snd r)) (media_service_dispatch s cmd a (replicate cap 0) cap)"

definition svc_start :: media_service where
  "svc_start = media_service_reset \<lparr>svc_image = None, svc_kind = MEDIA_KIND_UNKNOWN, svc_summary = summary_zero,
     svc_entries = [], cat_cursor = 0, read_index = 0, read_offset = 0, svc_open = False,
     stream_data = replicate STREAM_SIZE 0, stream_length = 0, stream_index = 0, stream_valid = False\<rparr>"

lemma svc_start_inv: "svc_inv svc_start"
  by (simp add: svc_start_def media_service_reset_def svc_inv_def)

lemma svc_exec_safe: "svc_inv s \<Longrightarrow> \<exists>s'. svc_exec op s = Some s' \<and> svc_inv s'"
proof (cases op)
  case (Svc_Open src)
  then show "svc_inv s \<Longrightarrow> \<exists>s'. svc_exec op s = Some s' \<and> svc_inv s'"
    using media_service_open_inv [of s src] by auto
next
  case (Svc_Dispatch cmd a cap)
  then show "svc_inv s \<Longrightarrow> \<exists>s'. svc_exec op s = Some s' \<and> svc_inv s'"
    using dispatch_safe [of s cap "replicate cap 0" cmd a] by auto
qed

interpretation svc: safe_component svc_exec "\<lambda>_. True" svc_inv
  by unfold_locales (rule svc_exec_safe)



text \<open>The host's reading loop: READ until the status is not OK, keeping the bytes after the four-byte header.\<close>

fun host_read_stream :: "nat \<Rightarrow> u8 \<Rightarrow> nat \<Rightarrow> media_service \<Rightarrow> (bytes \<times> u8 \<times> media_service) option" where
  "host_read_stream 0 k cap s = None"
| "host_read_stream (Suc fuel) k cap s = do {
     (r, s', rep, n) \<leftarrow> media_service_dispatch s MEDIA_CMD_READ k (replicate cap 0) cap;
     if r \<noteq> MEDIA_SVC_OK then Some ([], r, s')
     else do { (ds, r', s'') \<leftarrow> host_read_stream fuel k cap s'; Some (seg rep 4 (n - 4) @ ds, r', s'') } }"

definition streaming :: "media_service \<Rightarrow> nat \<Rightarrow> bool" where
  "streaming s k \<longleftrightarrow> svc_inv s \<and> svc_open s \<and> k < s_count (svc_summary s) \<and> stream_valid s \<and>
     stream_index s = k \<and> read_index s = k \<and> read_offset s \<le> stream_length s"

lemma read_streaming:
  assumes "streaming s (unat k)" "5 \<le> cap"
  shows "media_service_dispatch s MEDIA_CMD_READ k (replicate cap 0) cap =
     stream_window s (replicate cap 0) (min cap MEDIA_SVC_REPLY_MAX)"
  using assms by (auto simp: media_service_dispatch_def Let_def dispatch_read_def streaming_def min_def)

lemma host_read_stream_rest:
  assumes "streaming s (unat k)" "5 \<le> cap" "stream_length s - read_offset s < fuel"
  shows "\<exists>s'. host_read_stream fuel k cap s =
     Some (seg (stream_data s) (read_offset s) (stream_length s - read_offset s), MEDIA_SVC_EOF, s') \<and> \<not> stream_valid s'"
  using assms
proof (induction fuel arbitrary: s)
  case (Suc fuel)
  define c where "c = min cap MEDIA_SVC_REPLY_MAX"
  have c: "4 \<le> c" "c \<le> length (replicate cap (0 :: u8))" "5 \<le> c" using Suc.prems(2) by (auto simp: c_def)
  have inv: "svc_inv s" using Suc.prems(1) by (simp add: streaming_def)
  note rd = read_streaming [OF Suc.prems(1, 2), folded c_def]
  show ?case
  proof (cases "read_offset s < stream_length s")
    case False
    then show ?thesis using rd Suc.prems(1) by (auto simp: stream_window_def streaming_def)
  next
    case True
    define w where "w = min (min (stream_length s - read_offset s) MEDIA_SVC_READ_WINDOW) (c - 4)"
    have w: "0 < w" using True c by (auto simp: w_def)
    obtain rep where win: "stream_window s (replicate cap 0) c =
        Some (MEDIA_SVC_OK, s\<lparr>read_offset := read_offset s + w\<rparr>, rep, w + 4)"
      "seg rep 4 w = seg (stream_data s) (read_offset s) w" "read_offset s + w \<le> stream_length s"
      using stream_window_data [OF inv c(1, 2) True] unfolding w_def by blast
    define s1 where "s1 = s\<lparr>read_offset := read_offset s + w\<rparr>"
    have "streaming s1 (unat k)" using Suc.prems(1) win(3) by (simp add: s1_def streaming_def svc_inv_def)
    moreover have "stream_length s1 - read_offset s1 < fuel" using Suc.prems(3) w win(3) by (simp add: s1_def)
    ultimately obtain s' where ih: "host_read_stream fuel k cap s1 =
        Some (seg (stream_data s1) (read_offset s1) (stream_length s1 - read_offset s1), MEDIA_SVC_EOF, s')" "\<not> stream_valid s'"
      using Suc.IH [of s1] Suc.prems(2) by blast
    have split: "seg (stream_data s) (read_offset s) (stream_length s - read_offset s) =
        seg (stream_data s) (read_offset s) w @ seg (stream_data s1) (read_offset s1) (stream_length s1 - read_offset s1)"
      using seg_add [of "stream_data s" "read_offset s" w "stream_length s - read_offset s - w"] win(3)
      by (simp add: s1_def)
    show ?thesis using rd win ih by (simp add: split flip: s1_def)
  qed
qed simp

text \<open>C10: A host that reads an entry window by window until EOF, starting with no live stream, receives exactly the
  bytes that the extraction of that entry yields, whatever reply capacity of at least five bytes it
  offers, and the stream is closed again afterwards.\<close>

theorem stream_reassembles_entry:
  assumes "svc_inv s" "svc_open s" "unat k < s_count (svc_summary s)" "\<not> stream_valid s" "5 \<le> cap"
    and "media_extract (svc_image s) (svc_kind s) (unat k) (stream_data s) STREAM_SIZE = Some (MEDIA_OK, d, n)"
  shows "\<exists>s'. host_read_stream (n + 2) k cap s = Some (take n d, MEDIA_SVC_EOF, s') \<and> \<not> stream_valid s'"
proof -
  define s1 where "s1 = s\<lparr>stream_data := d, stream_length := n, stream_index := unat k, stream_valid := True,
    read_index := unat k, read_offset := 0\<rparr>"
  have start: "stream_start s (unat k) = Some (MEDIA_OK, s1)"
    using assms(6) by (simp add: stream_start_def s1_def)
  then have "svc_inv s1" using stream_start_safe [OF assms(1), of "unat k"] by auto
  then have st: "streaming s1 (unat k)" using assms(2, 3) by (simp add: streaming_def s1_def)
  have "media_service_dispatch s MEDIA_CMD_READ k (replicate cap 0) cap =
      media_service_dispatch s1 MEDIA_CMD_READ k (replicate cap 0) cap"
    unfolding read_streaming [OF st assms(5)]
    using assms(2-5) start by (auto simp: media_service_dispatch_def Let_def dispatch_read_def min_def)
  then have "host_read_stream (n + 2) k cap s = host_read_stream (n + 2) k cap s1"
    by (simp add: numeral_2_eq_2)
  then show ?thesis
    using host_read_stream_rest [OF st assms(5), of "n + 2"] by (simp add: s1_def seg_def)
qed


definition demo_session :: media_service where
  "demo_session = svc_start\<lparr>svc_image := Some demo_uef, svc_kind := MEDIA_KIND_UEF, svc_entries := [demo_entry],
     svc_summary := summary_zero\<lparr>s_count := 1\<rparr>, svc_open := True\<rparr>"

lemma demo_session_inv: "svc_inv demo_session"
  using svc_start_inv by (simp add: demo_session_def svc_inv_def demo_entry_def)

lemma demo_uef_facts:
  "uef_image demo_uef" "length (files_of (uef_blocks demo_uef)) = 1"
  "file_data demo_uef (files_of (uef_blocks demo_uef) ! 0) = [7, 9]"
  "media_identify (Some demo_uef) = Some MEDIA_KIND_UEF" "demo_uef \<noteq> []"
  by code_simp+

theorem stream_reassembles_entry_witness:
  "\<exists>s'. host_read_stream 4 0 5 demo_session = Some ([7, 9], MEDIA_SVC_EOF, s')"
proof -
  have "media_extract (Some demo_uef) MEDIA_KIND_UEF 0 (replicate STREAM_SIZE 0) STREAM_SIZE =
      Some (MEDIA_OK, splice (replicate STREAM_SIZE 0) 0 [7, 9], 2)"
    using uef_extract_eq [OF demo_uef_facts(1), of STREAM_SIZE "replicate STREAM_SIZE 0" 0] demo_uef_facts by simp
  then have "\<exists>s'. host_read_stream (2 + 2) 0 5 demo_session =
      Some (take 2 (splice (replicate STREAM_SIZE 0) 0 [7, 9]), MEDIA_SVC_EOF, s') \<and> \<not> stream_valid s'"
    by (intro stream_reassembles_entry [OF demo_session_inv])
      (simp_all add: demo_session_def svc_start_def media_service_reset_def)
  then show ?thesis by (auto simp: splice_def)
qed

text \<open>C13: Opening another image does not end a live stream: after a successful open, reading entry 0 serves the bytes
  that were extracted from the previous image, whatever the new one holds.\<close>

theorem stale_stream_served:
  assumes "svc_inv s" "stream_valid s" "stream_index s = 0" "0 < stream_length s" "5 \<le> cap"
    and "media_service_open s src = Some (MEDIA_SVC_OK, s')" "0 < s_count (svc_summary s')"
  shows "\<exists>s'' rep w. media_service_dispatch s' MEDIA_CMD_READ 0 (replicate cap 0) cap = Some (MEDIA_SVC_OK, s'', rep, w + 4) \<and>
     0 < w \<and> seg rep 4 w = take w (stream_data s)"
proof -
  have inv: "svc_inv s'" using media_service_open_inv [OF assms(1), of src] assms(6) by simp
  have keep: "stream_data s' = stream_data s" "stream_length s' = stream_length s" "stream_valid s'"
    "stream_index s' = 0" "read_index s' = 0" "read_offset s' = 0" "svc_open s'"
    using assms by (auto simp: media_service_open_def media_service_reset_def Let_def bind_eq_Some_conv split: if_splits)
  then have st: "streaming s' (unat (0 :: u8))" using inv assms(7) by (simp add: streaming_def)
  have c: "4 \<le> min cap MEDIA_SVC_REPLY_MAX" "min cap MEDIA_SVC_REPLY_MAX \<le> length (replicate cap (0 :: u8))"
    using assms(5) by auto
  have "read_offset s' < stream_length s'" using keep assms(4) by simp
  from stream_window_data [OF inv c this] show ?thesis
    unfolding read_streaming [OF st assms(5)] using keep assms(4, 5)
    by (auto simp: seg_def intro!: exI [of _ "min (min (stream_length s) MEDIA_SVC_READ_WINDOW) (min cap MEDIA_SVC_REPLY_MAX - 4)"])
qed

theorem stale_stream_served_witness:
  "\<exists>s' s'' rep w. media_service_open (demo_session\<lparr>stream_valid := True, stream_length := 3\<rparr>) (Some demo_uef) = Some (MEDIA_SVC_OK, s') \<and>
     media_service_dispatch s' MEDIA_CMD_READ 0 (replicate 9 0) 9 = Some (MEDIA_SVC_OK, s'', rep, w + 4) \<and>
     seg rep 4 w = take w (replicate STREAM_SIZE 0)"
proof -
  let ?s = "demo_session\<lparr>stream_valid := True, stream_length := 3\<rparr>"
  have "map_option (\<lambda>(st, es, su). (st, s_count su))
      (media_catalogue (Some demo_uef) MEDIA_KIND_UEF (Some MEDIA_MAX_ENTRIES) summary_zero) = Some (MEDIA_OK, 1)"
    by code_simp
  then obtain es su where cat: "media_catalogue (Some demo_uef) MEDIA_KIND_UEF (Some MEDIA_MAX_ENTRIES) summary_zero =
      Some (MEDIA_OK, es, su)" "s_count su = 1" by auto
  have inv: "svc_inv ?s" using demo_session_inv by (simp add: svc_inv_def)
  have "\<exists>s'. media_service_open ?s (Some demo_uef) = Some (MEDIA_SVC_OK, s') \<and> s_count (svc_summary s') = 1"
    using cat demo_uef_facts by (simp add: media_service_open_def media_service_reset_def Let_def)
  then obtain s' where "media_service_open ?s (Some demo_uef) = Some (MEDIA_SVC_OK, s')" "s_count (svc_summary s') = 1" by blast
  moreover have "stream_data ?s = replicate STREAM_SIZE 0"
    by (simp add: demo_session_def svc_start_def media_service_reset_def)
  ultimately show ?thesis
    using stale_stream_served [OF inv, of 9 "Some demo_uef" s']
    by (auto simp: demo_session_def svc_start_def media_service_reset_def)
qed

text \<open>The host's catalogue loop: CAT until the status is not OK.\<close>

fun host_cat :: "nat \<Rightarrow> nat \<Rightarrow> media_service \<Rightarrow> (bytes list \<times> u8 \<times> media_service) option" where
  "host_cat 0 cap s = None"
| "host_cat (Suc fuel) cap s = do {
     (r, s', rep, n) \<leftarrow> media_service_dispatch s MEDIA_CMD_CAT 0 (replicate cap 0) cap;
     if r \<noteq> MEDIA_SVC_OK then Some ([], r, s')
     else do { (ls, r', s'') \<leftarrow> host_cat fuel cap s'; Some (take n rep # ls, r', s'') } }"

lemma host_cat_rest:
  assumes "svc_inv s" "svc_open s" "41 \<le> cap" "length (svc_entries s) - cat_cursor s < fuel"
  shows "\<exists>s'. host_cat fuel cap s = Some (map (\<lambda>e. entry_text e @ [0x0D]) (drop (cat_cursor s) (svc_entries s)), MEDIA_SVC_EOF, s')"
  using assms
proof (induction fuel arbitrary: s)
  case (Suc fuel)
  have cnt: "s_count (svc_summary s) = length (svc_entries s)" using Suc.prems(1, 2) by (simp add: svc_inv_def)
  define c where "c = (if MEDIA_SVC_REPLY_MAX < cap then MEDIA_SVC_REPLY_MAX else cap)"
  have disp: "media_service_dispatch s MEDIA_CMD_CAT 0 (replicate cap 0) cap = dispatch_cat s (replicate cap 0) c"
    unfolding media_service_dispatch_def Let_def c_def by simp
  show ?case
  proof (cases "cat_cursor s < length (svc_entries s)")
    case False
    then show ?thesis using disp Suc.prems(2) cnt by (simp add: dispatch_cat_def)
  next
    case True
    define e where "e = svc_entries s ! cat_cursor s"
    have len: "length (entry_text e) < c" "c \<le> cap" using length_entry_text [of e] Suc.prems(3) by (auto simp: c_def)
    have one: "dispatch_cat s (replicate cap 0) c = Some (MEDIA_SVC_OK, s\<lparr>cat_cursor := cat_cursor s + 1\<rparr>,
        splice (replicate cap 0) 0 (entry_text e @ [0x0D]), length (entry_text e) + 1)"
      using dispatch_cat_line [of s c "replicate cap 0"] Suc.prems(2) cnt True len by (simp add: e_def)
    have "svc_inv (s\<lparr>cat_cursor := cat_cursor s + 1\<rparr>)" using Suc.prems(1) by (simp add: svc_inv_def)
    moreover have "length (svc_entries s) - (cat_cursor s + 1) < fuel" using Suc.prems(4) True by linarith
    ultimately obtain s' where "host_cat fuel cap (s\<lparr>cat_cursor := cat_cursor s + 1\<rparr>) =
        Some (map (\<lambda>e. entry_text e @ [0x0D]) (drop (cat_cursor s + 1) (svc_entries s)), MEDIA_SVC_EOF, s')"
      using Suc.IH [of "s\<lparr>cat_cursor := cat_cursor s + 1\<rparr>"] Suc.prems True by auto
    moreover have "drop (cat_cursor s) (svc_entries s) = e # drop (cat_cursor s + 1) (svc_entries s)"
      using True by (simp add: e_def Cons_nth_drop_Suc)
    ultimately show ?thesis using disp one by (simp add: splice_def)
  qed
qed simp

text \<open>Repeating CAT on a freshly opened session lists every catalogued entry once, in order, one rendered line
  per reply terminated by a carriage return, and then reports end of file.\<close>

theorem cat_lists_every_entry:
  assumes "svc_inv s" "svc_open s" "41 \<le> cap" "cat_cursor s = 0"
  shows "\<exists>s'. host_cat (s_count (svc_summary s) + 1) cap s =
     Some (map (\<lambda>e. entry_text e @ [0x0D]) (svc_entries s), MEDIA_SVC_EOF, s')"
proof -
  have "s_count (svc_summary s) = length (svc_entries s)" using assms(1, 2) by (simp add: svc_inv_def)
  then show ?thesis using host_cat_rest [OF assms(1-3), of "s_count (svc_summary s) + 1"] assms(4) by simp
qed

theorem cat_lists_every_entry_witness:
  "\<exists>s'. host_cat (1 + 1) 41 demo_session = Some ([entry_text demo_entry @ [0x0D]], MEDIA_SVC_EOF, s')"
proof -
  have "svc_open demo_session" "cat_cursor demo_session = 0" "s_count (svc_summary demo_session) = 1"
    "svc_entries demo_session = [demo_entry]"
    by (simp_all add: demo_session_def svc_start_def media_service_reset_def)
  then show ?thesis using cat_lists_every_entry [OF demo_session_inv, of 41] by (auto simp del: host_cat.simps)
qed

end
