(* ===== verification/Ap5_Tube.thy ===== *)
theory Ap5_Tube
  imports Mailbox
begin

unbundle bit_operations_syntax

section \<open>The AP5 Tube ULA and its parasite (ap5\_tube.c)\<close>

text \<open>
  The record holds the file-scope state of \<open>ap5_tube.c\<close>: the registers and FIFOs of the Tube ULA,
  the parasite's memory, and the switches around it. The 65C02 core is a vendored emulator
  (\<open>vrEmu6502\<close>): it is a parameter of type \<open>'c cpu_ops\<close>. What it does in one call is a finite
  sequence of calls back into \<open>parasite_read\<close> and \<open>parasite_write\<close> and of accesses to its two
  interrupt pins, each free to depend on what it read before, which the type \<open>'c bus_prog\<close>
  expresses; it ends with the new processor state. \<open>parasite\<close> is \<open>None\<close> while there is no
  processor, and then the pin pointers are NULL: resetting a NULL processor does nothing, ticking
  one is a fault. \<open>updateulaints()\<close> belongs to the host emulator; all
  it reads of this component is \<open>ap5_tube_host_irq\<close>. \<open>host_ram\<close> stands for the host's memory.
  The ring of register 1 is indexed through checked accesses.
\<close>

abbreviation FLOW_SPACE :: u8 where "FLOW_SPACE \<equiv> 0x40"
abbreviation FLOW_DATA :: u8 where "FLOW_DATA \<equiv> 0x80"
abbreviation FLOW_BOTH :: u8 where "FLOW_BOTH \<equiv> 0xC0"
abbreviation CTRL_Q :: u8 where "CTRL_Q \<equiv> 0x01"
abbreviation CTRL_I :: u8 where "CTRL_I \<equiv> 0x02"
abbreviation CTRL_J :: u8 where "CTRL_J \<equiv> 0x04"
abbreviation CTRL_M :: u8 where "CTRL_M \<equiv> 0x08"
abbreviation CTRL_V :: u8 where "CTRL_V \<equiv> 0x10"
abbreviation CTRL_P :: u8 where "CTRL_P \<equiv> 0x20"
abbreviation CTRL_T :: u8 where "CTRL_T \<equiv> 0x40"
abbreviation CTRL_S :: u8 where "CTRL_S \<equiv> 0x80"
abbreviation R1_FIFO_SIZE :: nat where "R1_FIFO_SIZE \<equiv> 24"
abbreviation PARASITE_ROM_SIZE :: nat where "PARASITE_ROM_SIZE \<equiv> 0x800"

record tube_ula =
  p2h_r1_buf :: bytes
  p2h_r1_head :: nat
  p2h_r1_tail :: nat
  p2h_r1_count :: nat
  parasite_to_host :: "u8 list"
  host_to_parasite :: "u8 list"
  p2h_r3 :: "u8 list"
  h2p_r3 :: "u8 list"
  p2h_r3_count :: nat
  h2p_r3_count :: nat
  host_status :: "u8 list"
  parasite_status :: "u8 list"
  control :: u8
  last_host_write :: u8
  last_parasite_write :: u8

datatype 'c bus_prog =
    Bus_Done 'c
  | Bus_Rd u16 "u8 \<Rightarrow> 'c bus_prog"
  | Bus_Wr u16 u8 "'c bus_prog"
  | Bus_Pins "bool \<Rightarrow> bool \<Rightarrow> 'c bus_prog"
  | Bus_Set_Pins bool bool "'c bus_prog"

record 'c cpu_ops =
  cpu_new :: "'c bus_prog option"
  cpu_reset :: "'c \<Rightarrow> 'c bus_prog"
  cpu_tick :: "'c \<Rightarrow> 'c bus_prog"

record 'c tube =
  ula :: tube_ula
  parasite :: "'c option"
  irq_pin :: bool
  nmi_pin :: bool
  parasite_ram :: "u16 \<Rightarrow> u8"
  parasite_rom :: "nat \<Rightarrow> u8"
  parasite_rom_mapped :: bool
  tube_enabled :: bool
  selected :: bool
  nmi_asserted :: bool
  half_cycle :: int
  tube_clock :: host_clock
  host_ram :: "nat \<Rightarrow> u8"

subsection \<open>Signals and reset of the ULA\<close>

definition has :: "u8 \<Rightarrow> u8 \<Rightarrow> bool" where
  "has v m \<longleftrightarrow> v AND m \<noteq> 0"

definition irq_level :: "tube_ula \<Rightarrow> bool" where
  "irq_level u \<longleftrightarrow> has (control u) CTRL_I \<and> has (parasite_status u ! 0) FLOW_DATA \<or>
     has (control u) CTRL_J \<and> has (parasite_status u ! 3) FLOW_DATA"

definition nmi_level :: "tube_ula \<Rightarrow> bool" where
  "nmi_level u \<longleftrightarrow> has (control u) CTRL_M \<and> has (parasite_status u ! 2) FLOW_DATA"

definition update_signals :: "'c tube \<Rightarrow> 'c tube" where
  "update_signals t =
     (let irq = irq_level (ula t); nmi = nmi_level (ula t);
          t1 = (if parasite t \<noteq> None then t\<lparr>irq_pin := irq\<rparr> else t);
          t2 = (if parasite t \<noteq> None \<and> nmi \<and> \<not> nmi_asserted t then t1\<lparr>nmi_pin := True\<rparr> else t1) in
      t2\<lparr>nmi_asserted := nmi\<rparr>)"

definition ula_reset :: tube_ula where
  "ula_reset = \<lparr>p2h_r1_buf = replicate R1_FIFO_SIZE 0, p2h_r1_head = 0, p2h_r1_tail = 0,
     p2h_r1_count = 0, parasite_to_host = replicate 4 0, host_to_parasite = replicate 4 0,
     p2h_r3 = [0, 0], h2p_r3 = [0, 0], p2h_r3_count = 0, h2p_r3_count = 0,
     host_status = [FLOW_SPACE, FLOW_SPACE, FLOW_BOTH, FLOW_SPACE],
     parasite_status = [FLOW_SPACE, 0x7F, 0x3F, 0x7F], control = 0, last_host_write = 0,
     last_parasite_write = 0\<rparr>"

definition reset_ula_channels :: "'c tube \<Rightarrow> 'c tube" where
  "reset_ula_channels t = update_signals (t\<lparr>ula := ula_reset, nmi_asserted := False\<rparr>)"

subsection \<open>The flow flags\<close>

definition set_hs :: "nat \<Rightarrow> u8 \<Rightarrow> tube_ula \<Rightarrow> tube_ula" where
  "set_hs i m u = u\<lparr>host_status := (host_status u)[i := host_status u ! i OR m]\<rparr>"

definition clr_hs :: "nat \<Rightarrow> u8 \<Rightarrow> tube_ula \<Rightarrow> tube_ula" where
  "clr_hs i m u = u\<lparr>host_status := (host_status u)[i := host_status u ! i AND NOT m]\<rparr>"

definition set_ps :: "nat \<Rightarrow> u8 \<Rightarrow> tube_ula \<Rightarrow> tube_ula" where
  "set_ps i m u = u\<lparr>parasite_status := (parasite_status u)[i := parasite_status u ! i OR m]\<rparr>"

definition clr_ps :: "nat \<Rightarrow> u8 \<Rightarrow> tube_ula \<Rightarrow> tube_ula" where
  "clr_ps i m u = u\<lparr>parasite_status := (parasite_status u)[i := parasite_status u ! i AND NOT m]\<rparr>"

subsection \<open>The parasite's side\<close>

text \<open>The value of a register read and the ULA it leaves.\<close>

definition parasite_reg_read :: "tube_ula \<Rightarrow> nat \<Rightarrow> u8 \<times> tube_ula" where
  "parasite_reg_read u reg =
     (if reg = 0 then (parasite_status u ! 0 OR control u, u)
      else if reg = 1 then (host_to_parasite u ! 0, set_hs 0 FLOW_SPACE (clr_ps 0 FLOW_DATA u))
      else if reg = 2 then (parasite_status u ! 1, u)
      else if reg = 3 then (host_to_parasite u ! 1, set_hs 1 FLOW_SPACE (clr_ps 1 FLOW_DATA u))
      else if reg = 4 then (parasite_status u ! 2, u)
      else if reg = 5 then
        (if h2p_r3_count u \<noteq> 0 then
           let u1 = u\<lparr>h2p_r3 := (h2p_r3 u)[0 := h2p_r3 u ! 1], h2p_r3_count := h2p_r3_count u - 1\<rparr> in
           (h2p_r3 u ! 0,
            if h2p_r3_count u1 = 0 then set_hs 2 FLOW_BOTH (clr_ps 2 FLOW_DATA u1) else u1)
         else (last_host_write u, u))
      else if reg = 6 then (parasite_status u ! 3, u)
      else (host_to_parasite u ! 3, set_hs 3 FLOW_SPACE (clr_ps 3 FLOW_DATA u)))"

definition parasite_read :: "'c tube \<Rightarrow> u16 \<Rightarrow> u8 \<times> 'c tube" where
  "parasite_read t address =
     (if address AND 0xFFF8 \<noteq> 0xFEF8 then
        (if parasite_rom_mapped t \<and> 0xF000 \<le> address
         then (parasite_rom t (unat (address AND 0x7FF)), t)
         else (parasite_ram t address, t))
      else
        let reg = unat (address AND 7);
            (value, u) = parasite_reg_read (ula t) reg;
            t1 = t\<lparr>ula := u, parasite_rom_mapped := (reg \<noteq> 0 \<and> parasite_rom_mapped t)\<rparr> in
        (value, update_signals t1))"

text \<open>Putting a byte into the register 1 FIFO; a full FIFO drops it.\<close>

definition r1_put :: "tube_ula \<Rightarrow> u8 \<Rightarrow> tube_ula option" where
  "r1_put u value =
     (if p2h_r1_count u < R1_FIFO_SIZE then do {
        buf \<leftarrow> wr8 (p2h_r1_buf u) (p2h_r1_tail u) value;
        let u1 = set_hs 0 FLOW_DATA (u\<lparr>p2h_r1_buf := buf,
          p2h_r1_tail := (p2h_r1_tail u + 1) mod R1_FIFO_SIZE, p2h_r1_count := p2h_r1_count u + 1\<rparr>);
        Some (if p2h_r1_count u1 = R1_FIFO_SIZE then clr_ps 0 FLOW_SPACE u1 else u1) }
      else Some u)"

definition r3_threshold :: "tube_ula \<Rightarrow> nat" where
  "r3_threshold u = (if has (control u) CTRL_V then 2 else 1)"

definition parasite_reg_write :: "tube_ula \<Rightarrow> nat \<Rightarrow> u8 \<Rightarrow> tube_ula option" where
  "parasite_reg_write u reg value =
     (if reg = 1 then r1_put u value
      else if reg = 3 then
        Some (clr_ps 1 FLOW_SPACE (set_hs 1 FLOW_DATA (u\<lparr>parasite_to_host := (parasite_to_host u)[1 := value]\<rparr>)))
      else if reg = 5 then
        Some (if p2h_r3_count u < 2 then
          let u1 = u\<lparr>p2h_r3 := (p2h_r3 u)[p2h_r3_count u := value], p2h_r3_count := p2h_r3_count u + 1\<rparr> in
          if r3_threshold u1 \<le> p2h_r3_count u1 then clr_ps 2 FLOW_BOTH (set_hs 2 FLOW_DATA u1) else u1
          else u)
      else if reg = 7 then
        Some (clr_ps 3 FLOW_SPACE (set_hs 3 FLOW_DATA (u\<lparr>parasite_to_host := (parasite_to_host u)[3 := value]\<rparr>)))
      else Some u)"

definition parasite_write :: "'c tube \<Rightarrow> u16 \<Rightarrow> u8 \<Rightarrow> 'c tube option" where
  "parasite_write t address value =
     (if address AND 0xFFF8 \<noteq> 0xFEF8 then Some (t\<lparr>parasite_ram := (parasite_ram t)(address := value)\<rparr>)
      else do {
        u \<leftarrow> parasite_reg_write ((ula t)\<lparr>last_parasite_write := value\<rparr>) (unat (address AND 7)) value;
        Some (update_signals (t\<lparr>ula := u\<rparr>)) })"

text \<open>Running the processor's callbacks to their end.\<close>

primrec run_bus :: "'c bus_prog \<Rightarrow> 'c tube \<Rightarrow> ('c \<times> 'c tube) option" where
  "run_bus (Bus_Done c) t = Some (c, t)"
| "run_bus (Bus_Rd a k) t = (let (v, t') = parasite_read t a in run_bus (k v) t')"
| "run_bus (Bus_Wr a v k) t = do { t' \<leftarrow> parasite_write t a v; run_bus k t' }"
| "run_bus (Bus_Pins k) t = run_bus (k (irq_pin t) (nmi_pin t)) t"
| "run_bus (Bus_Set_Pins irq nmi k) t = run_bus k (t\<lparr>irq_pin := irq, nmi_pin := nmi\<rparr>)"

text \<open>The calls \<open>vrEmu6502Reset\<close> and \<open>vrEmu6502Tick\<close>: callbacks, then the new processor state.\<close>

definition cpu_call :: "('c \<Rightarrow> 'c bus_prog) \<Rightarrow> 'c \<Rightarrow> 'c tube \<Rightarrow> 'c tube option" where
  "cpu_call f c t = do { (c', t') \<leftarrow> run_bus (f c) t; Some (t'\<lparr>parasite := Some c'\<rparr>) }"

definition cpu_do_reset :: "'c cpu_ops \<Rightarrow> 'c tube \<Rightarrow> 'c tube option" where
  "cpu_do_reset ops t = (case parasite t of None \<Rightarrow> Some t | Some c \<Rightarrow> cpu_call (cpu_reset ops) c t)"

definition cpu_do_tick :: "'c cpu_ops \<Rightarrow> 'c tube \<Rightarrow> 'c tube option" where
  "cpu_do_tick ops t = (case parasite t of None \<Rightarrow> None | Some c \<Rightarrow> cpu_call (cpu_tick ops) c t)"

subsection \<open>Construction, reset and time\<close>

definition tube_reset :: "'c cpu_ops \<Rightarrow> 'c tube \<Rightarrow> 'c tube option" where
  "tube_reset ops t =
     (if \<not> tube_enabled t then Some t
      else do {
        let t1 = (reset_ula_channels t)\<lparr>parasite_rom_mapped := True, half_cycle := 0,
          tube_clock := (tube_clock (reset_ula_channels t))\<lparr>hc_valid := False\<rparr>\<rparr>;
        t2 \<leftarrow> cpu_do_reset ops t1;
        Some (update_signals t2) })"

definition prepare_cold_boot :: "'c tube \<Rightarrow> 'c tube" where
  "prepare_cold_boot t = (if \<not> tube_enabled t then t
     else t\<lparr>host_ram := (host_ram t)(0x0D6D := host_ram t 0x0D6D OR 0x20)\<rparr>)"

text \<open>\<open>rom_file\<close> is the file's contents, or \<open>None\<close> when it cannot be opened; at most 4096 bytes are read.\<close>

definition tube_init :: "'c cpu_ops \<Rightarrow> bytes option \<Rightarrow> 'c tube \<Rightarrow> (bool \<times> 'c tube) option" where
  "tube_init ops rom_file t =
     (case rom_file of None \<Rightarrow> Some (False, t)
      | Some f \<Rightarrow>
         let img = take 4096 f; size = length img in
         if size \<noteq> 2048 \<and> size \<noteq> 4096 then Some (False, t)
         else let t1 = t\<lparr>parasite_rom := (\<lambda>i. img ! (size - PARASITE_ROM_SIZE + i)), parasite_ram := (\<lambda>_. 0)\<rparr> in
           (case cpu_new ops of None \<Rightarrow> Some (False, t1\<lparr>parasite := None\<rparr>)
            | Some prog \<Rightarrow> do {
                (c, t2) \<leftarrow> run_bus prog t1;
                let t3 = prepare_cold_boot (t2\<lparr>parasite := Some c, tube_enabled := True, selected := True\<rparr>);
                t4 \<leftarrow> tube_reset ops t3;
                Some (True, t4) }))"

definition tube_close :: "'c tube \<Rightarrow> 'c tube" where
  "tube_close t = t\<lparr>parasite := None, tube_enabled := False, selected := False\<rparr>"

text \<open>One host cycle is one and a half parasite cycles; odd halves are carried in \<open>half_cycle\<close>.\<close>

definition host_ticks :: "int \<Rightarrow> nat \<Rightarrow> nat \<times> int" where
  "host_ticks half host_cycles =
     (let ticks = host_cycles + host_cycles div 2; half' = half + int (host_cycles mod 2) in
      if 2 \<le> half' then (ticks + 1, half' - 2) else (ticks, half'))"

fun tick_loop :: "'c cpu_ops \<Rightarrow> nat \<Rightarrow> 'c tube \<Rightarrow> 'c tube option" where
  "tick_loop ops 0 t = Some t"
| "tick_loop ops (Suc n) t = do {
     t1 \<leftarrow> cpu_do_tick ops (update_signals t);
     tick_loop ops n t1 }"

definition run_host_cycles :: "'c cpu_ops \<Rightarrow> 'c tube \<Rightarrow> nat \<Rightarrow> 'c tube option" where
  "run_host_cycles ops t host_cycles =
     (if \<not> tube_enabled t \<or> \<not> selected t \<or> has (control (ula t)) CTRL_P then Some t
      else let (ticks, half') = host_ticks (half_cycle t) host_cycles in
        tick_loop ops ticks (t\<lparr>half_cycle := half'\<rparr>))"

definition sync_host_clock :: "'c cpu_ops \<Rightarrow> 'c tube \<Rightarrow> int \<Rightarrow> 'c tube option" where
  "sync_host_clock ops t counter =
     (if \<not> tube_enabled t then Some t
      else let (c, elapsed) = host_clock_sync (tube_clock t) counter; t1 = t\<lparr>tube_clock := c\<rparr> in
        if 0 < elapsed then run_host_cycles ops t1 elapsed else Some t1)"

definition rebase_host_clock :: "'c tube \<Rightarrow> int \<Rightarrow> 'c tube" where
  "rebase_host_clock t counter = t\<lparr>tube_clock := host_clock_rebase (tube_clock t) counter\<rparr>"

definition tube_handles :: "'c tube \<Rightarrow> u16 \<Rightarrow> bool" where
  "tube_handles t address \<longleftrightarrow> tube_enabled t \<and> 0xFCE0 \<le> address \<and> address \<le> 0xFCEF"

subsection \<open>The host's side\<close>

definition r1_get :: "tube_ula \<Rightarrow> (u8 \<times> tube_ula) option" where
  "r1_get u =
     (if p2h_r1_count u \<noteq> 0 then do {
        value \<leftarrow> rd8 (p2h_r1_buf u) (p2h_r1_head u);
        let u1 = u\<lparr>p2h_r1_head := (p2h_r1_head u + 1) mod R1_FIFO_SIZE, p2h_r1_count := p2h_r1_count u - 1\<rparr>;
        let u2 = (if p2h_r1_count u1 = 0 then clr_hs 0 FLOW_DATA u1 else u1);
        Some (value, set_ps 0 FLOW_SPACE u2) }
      else Some (last_parasite_write u, u))"

definition host_reg_read :: "tube_ula \<Rightarrow> nat \<Rightarrow> (u8 \<times> tube_ula) option" where
  "host_reg_read u reg =
     (if reg = 0 then Some (host_status u ! 0 OR control u, u)
      else if reg = 1 then r1_get u
      else if reg = 2 then Some (host_status u ! 1, u)
      else if reg = 3 then Some (parasite_to_host u ! 1, set_ps 1 FLOW_SPACE (clr_hs 1 FLOW_DATA u))
      else if reg = 4 then Some (host_status u ! 2, u)
      else if reg = 5 then Some
        (if p2h_r3_count u \<noteq> 0 then
           let u1 = u\<lparr>p2h_r3 := (p2h_r3 u)[0 := p2h_r3 u ! 1], p2h_r3_count := p2h_r3_count u - 1\<rparr> in
           (p2h_r3 u ! 0,
            if p2h_r3_count u1 = 0 then set_ps 2 FLOW_BOTH (clr_hs 2 FLOW_DATA u1) else u1)
         else (last_parasite_write u, u))
      else if reg = 6 then Some (host_status u ! 3, u)
      else Some (parasite_to_host u ! 3, set_ps 3 FLOW_SPACE (clr_hs 3 FLOW_DATA u)))"

definition host_read :: "'c tube \<Rightarrow> u16 \<Rightarrow> (u8 \<times> 'c tube) option" where
  "host_read t address =
     (if \<not> selected t then Some (0xFE, t)
      else do {
        (value, u) \<leftarrow> host_reg_read (ula t) (unat (address AND 7));
        Some (value, update_signals (t\<lparr>ula := u\<rparr>)) })"

text \<open>Register 0: set or clear control bits; T resets the channels, and a held P guards the reset.\<close>

definition control_write :: "'c cpu_ops \<Rightarrow> 'c tube \<Rightarrow> u8 \<Rightarrow> 'c tube option" where
  "control_write ops t value = do {
     let previous = control (ula t);
     t1 \<leftarrow> (if has value CTRL_S then
        let t' = (if has value CTRL_T \<and> \<not> has previous CTRL_T
                  then let r = reset_ula_channels t in r\<lparr>ula := (ula r)\<lparr>control := control (ula t)\<rparr>\<rparr> else t) in
        Some (t'\<lparr>ula := (ula t')\<lparr>control := control (ula t') OR (value AND 0x3F)\<rparr>\<rparr>)
      else
        let t' = t\<lparr>ula := (ula t)\<lparr>control := control (ula t) AND NOT (value AND 0x3F)\<rparr>\<rparr> in
        if \<not> has value CTRL_P \<and> has previous CTRL_P
        then cpu_do_reset ops (t'\<lparr>parasite_rom_mapped := True\<rparr>)
        else Some t');
     Some (t1\<lparr>ula := (ula t1)\<lparr>host_status := (host_status (ula t1))
       [0 := host_status (ula t1) ! 0 AND FLOW_BOTH]\<rparr>\<rparr>) }"

definition host_data_write :: "tube_ula \<Rightarrow> nat \<Rightarrow> u8 \<Rightarrow> tube_ula" where
  "host_data_write u reg value =
     (if reg = 1 then clr_hs 0 FLOW_SPACE (set_ps 0 FLOW_DATA (u\<lparr>host_to_parasite := (host_to_parasite u)[0 := value]\<rparr>))
      else if reg = 3 then clr_hs 1 FLOW_SPACE (set_ps 1 FLOW_DATA (u\<lparr>host_to_parasite := (host_to_parasite u)[1 := value]\<rparr>))
      else if reg = 5 then
        (if h2p_r3_count u < 2 then
          let u1 = u\<lparr>h2p_r3 := (h2p_r3 u)[h2p_r3_count u := value], h2p_r3_count := h2p_r3_count u + 1\<rparr> in
          if r3_threshold u1 \<le> h2p_r3_count u1 then clr_hs 2 FLOW_SPACE (set_ps 2 FLOW_DATA u1) else u1
         else u)
      else if reg = 7 then clr_hs 3 FLOW_SPACE (set_ps 3 FLOW_DATA (u\<lparr>host_to_parasite := (host_to_parasite u)[3 := value]\<rparr>))
      else u)"

definition host_write :: "'c cpu_ops \<Rightarrow> 'c tube \<Rightarrow> u16 \<Rightarrow> u8 \<Rightarrow> 'c tube option" where
  "host_write ops t address value =
     (let reg = unat (address AND 7) in
      if reg = 6 then
        let t1 = t\<lparr>selected := (value = 0 \<or> value = 1)\<rparr> in
        if selected t1 then tube_reset ops t1 else Some (reset_ula_channels t1)
      else if \<not> selected t then Some t
      else do {
        let t1 = t\<lparr>ula := (ula t)\<lparr>last_host_write := value\<rparr>\<rparr>;
        t2 \<leftarrow> (if reg = 0 then control_write ops t1 value
              else Some (t1\<lparr>ula := host_data_write (ula t1) reg value\<rparr>));
        Some (update_signals t2) })"

definition tube_host_irq :: "'c tube \<Rightarrow> bool" where
  "tube_host_irq t \<longleftrightarrow> tube_enabled t \<and> has (control (ula t)) CTRL_Q \<and> has (host_status (ula t) ! 3) FLOW_DATA"

end
