(* ===== verification/Ap5_Inv.thy ===== *)
theory Ap5_Inv
  imports Ap5_Tube
begin

unbundle bit_operations_syntax

section \<open>The invariant of the Tube\<close>

text \<open>
  The properties of the ULA that all register operations keep, as instances of one interface
  (\<open>ula_property\<close>): that its arrays are in shape, and that the flow flags tell the truth. Lifted to the
  Tube with its processor, and to sessions from the zeroed static variables on.
\<close>

subsection \<open>Flags\<close>

named_theorems flag_simps \<open>setting, clearing and testing flow flags\<close>

lemma has_bit [flag_simps]: "has v FLOW_DATA \<longleftrightarrow> bit v 7" "has v FLOW_SPACE \<longleftrightarrow> bit v 6"
  using and_exp_eq_0_iff_not_bit [of v 7] and_exp_eq_0_iff_not_bit [of v 6] by (simp_all add: has_def)

lemma flag_bits [flag_simps]:
  "bit (v OR FLOW_DATA) 7" "bit (v OR FLOW_DATA) 6 = bit v 6" "bit (v OR FLOW_SPACE) 6" "bit (v OR FLOW_SPACE) 7 = bit v 7"
  "\<not> bit (v AND NOT FLOW_DATA) 7" "bit (v AND NOT FLOW_DATA) 6 = bit v 6"
  "\<not> bit (v AND NOT FLOW_SPACE) 6" "bit (v AND NOT FLOW_SPACE) 7 = bit v 7"
  "bit (v AND FLOW_BOTH) 7 = bit v 7" "bit (v AND FLOW_BOTH) 6 = bit v 6" for v :: u8
proof -
  have c: "bit (0x80 :: u8) 7" "\<not> bit (0x80 :: u8) 6" "\<not> bit (0x40 :: u8) 7" "bit (0x40 :: u8) 6"
    "bit (0xC0 :: u8) 7" "bit (0xC0 :: u8) 6" by code_simp+
  have n: "bit (NOT 0x80 :: u8) 7 = False" "bit (NOT 0x80 :: u8) 6" "bit (NOT 0x40 :: u8) 6 = False" "bit (NOT 0x40 :: u8) 7"
    by code_simp+
  show "bit (v OR FLOW_DATA) 7" "bit (v OR FLOW_DATA) 6 = bit v 6" "bit (v OR FLOW_SPACE) 6" "bit (v OR FLOW_SPACE) 7 = bit v 7"
  "\<not> bit (v AND NOT FLOW_DATA) 7" "bit (v AND NOT FLOW_DATA) 6 = bit v 6"
  "\<not> bit (v AND NOT FLOW_SPACE) 6" "bit (v AND NOT FLOW_SPACE) 7 = bit v 7"
  "bit (v AND FLOW_BOTH) 7 = bit v 7" "bit (v AND FLOW_BOTH) 6 = bit v 6"
    by (simp_all only: bit_or_iff bit_and_iff c n) simp_all
qed

lemma flag_bits_neg [flag_simps]:
  "\<not> bit (v AND - 129) 7" "bit (v AND - 129) 6 = bit v 6" "\<not> bit (v AND - 65) 6" "bit (v AND - 65) 7 = bit v 7" for v :: u8
  using flag_bits(5-8) [of v] by simp_all

text \<open>
  The invariant of the ULA: the register 1 ring is well-formed and its flags tell whether it holds
  bytes and has room; for the single-byte channels "data" on one side means "no space" on the other.
\<close>

definition ring_ok :: "tube_ula \<Rightarrow> bool" where
  "ring_ok u \<longleftrightarrow> length (p2h_r1_buf u) = R1_FIFO_SIZE \<and> p2h_r1_head u < R1_FIFO_SIZE \<and>
     p2h_r1_count u \<le> R1_FIFO_SIZE \<and> p2h_r1_tail u = (p2h_r1_head u + p2h_r1_count u) mod R1_FIFO_SIZE"

definition flags_ok :: "tube_ula \<Rightarrow> bool" where
  "flags_ok u \<longleftrightarrow> length (host_status u) = 4 \<and> length (parasite_status u) = 4 \<and>
     (bit (host_status u ! 0) 7 \<longleftrightarrow> p2h_r1_count u \<noteq> 0) \<and>
     (bit (parasite_status u ! 0) 6 \<longleftrightarrow> p2h_r1_count u < R1_FIFO_SIZE) \<and>
     (bit (parasite_status u ! 0) 7 \<longleftrightarrow> \<not> bit (host_status u ! 0) 6) \<and>
     (bit (host_status u ! 1) 7 \<longleftrightarrow> \<not> bit (parasite_status u ! 1) 6) \<and>
     (bit (parasite_status u ! 1) 7 \<longleftrightarrow> \<not> bit (host_status u ! 1) 6) \<and>
     (bit (host_status u ! 3) 7 \<longleftrightarrow> \<not> bit (parasite_status u ! 3) 6) \<and>
     (bit (parasite_status u ! 3) 7 \<longleftrightarrow> \<not> bit (host_status u ! 3) 6)"

definition latches_ok :: "tube_ula \<Rightarrow> bool" where
  "latches_ok u \<longleftrightarrow> length (parasite_to_host u) = 4 \<and> length (host_to_parasite u) = 4 \<and>
     length (p2h_r3 u) = 2 \<and> length (h2p_r3 u) = 2 \<and> p2h_r3_count u \<le> 2 \<and> h2p_r3_count u \<le> 2"

definition ula_inv :: "tube_ula \<Rightarrow> bool" where
  "ula_inv u \<longleftrightarrow> ring_ok u \<and> flags_ok u \<and> latches_ok u"

lemmas ula_inv_defs = ula_inv_def ring_ok_def flags_ok_def latches_ok_def

lemma ula_reset_inv: "ula_inv ula_reset"
proof -
  have "bit (0x40 :: u8) 6" "\<not> bit (0x40 :: u8) 7" "bit (0x7F :: u8) 6" "\<not> bit (0x7F :: u8) 7" by code_simp+
  then show ?thesis by (simp add: ula_inv_defs ula_reset_def)
qed

subsection \<open>What the flag operations touch\<close>

lemma flow_fields [simp]:
  "host_status (set_ps i m u) = host_status u" "host_status (clr_ps i m u) = host_status u"
  "parasite_status (set_hs i m u) = parasite_status u" "parasite_status (clr_hs i m u) = parasite_status u"
  "length (host_status (set_hs i m u)) = length (host_status u)" "length (host_status (clr_hs i m u)) = length (host_status u)"
  "length (parasite_status (set_ps i m u)) = length (parasite_status u)" "length (parasite_status (clr_ps i m u)) = length (parasite_status u)"
  by (simp_all add: set_hs_def clr_hs_def set_ps_def clr_ps_def)

lemma flow_nth [simp]:
  "j < length (host_status u) \<Longrightarrow> host_status (set_hs i m u) ! j = (if i = j then host_status u ! j OR m else host_status u ! j)"
  "j < length (host_status u) \<Longrightarrow> host_status (clr_hs i m u) ! j = (if i = j then host_status u ! j AND NOT m else host_status u ! j)"
  "j < length (parasite_status u) \<Longrightarrow> parasite_status (set_ps i m u) ! j = (if i = j then parasite_status u ! j OR m else parasite_status u ! j)"
  "j < length (parasite_status u) \<Longrightarrow> parasite_status (clr_ps i m u) ! j = (if i = j then parasite_status u ! j AND NOT m else parasite_status u ! j)"
  by (simp_all add: set_hs_def clr_hs_def set_ps_def clr_ps_def nth_list_update)

lemma set_hs_fields [simp]:
  "p2h_r1_head (set_hs i m u) = p2h_r1_head u" "p2h_r1_tail (set_hs i m u) = p2h_r1_tail u" "p2h_r1_count (set_hs i m u) = p2h_r1_count u"
  "p2h_r3_count (set_hs i m u) = p2h_r3_count u" "h2p_r3_count (set_hs i m u) = h2p_r3_count u" "p2h_r1_buf (set_hs i m u) = p2h_r1_buf u"
  "parasite_to_host (set_hs i m u) = parasite_to_host u" "host_to_parasite (set_hs i m u) = host_to_parasite u" "p2h_r3 (set_hs i m u) = p2h_r3 u"
  "h2p_r3 (set_hs i m u) = h2p_r3 u" "control (set_hs i m u) = control u"
  by (simp_all add: set_hs_def)

lemma clr_hs_fields [simp]:
  "p2h_r1_head (clr_hs i m u) = p2h_r1_head u" "p2h_r1_tail (clr_hs i m u) = p2h_r1_tail u" "p2h_r1_count (clr_hs i m u) = p2h_r1_count u"
  "p2h_r3_count (clr_hs i m u) = p2h_r3_count u" "h2p_r3_count (clr_hs i m u) = h2p_r3_count u" "p2h_r1_buf (clr_hs i m u) = p2h_r1_buf u"
  "parasite_to_host (clr_hs i m u) = parasite_to_host u" "host_to_parasite (clr_hs i m u) = host_to_parasite u" "p2h_r3 (clr_hs i m u) = p2h_r3 u"
  "h2p_r3 (clr_hs i m u) = h2p_r3 u" "control (clr_hs i m u) = control u"
  by (simp_all add: clr_hs_def)

lemma set_ps_fields [simp]:
  "p2h_r1_head (set_ps i m u) = p2h_r1_head u" "p2h_r1_tail (set_ps i m u) = p2h_r1_tail u" "p2h_r1_count (set_ps i m u) = p2h_r1_count u"
  "p2h_r3_count (set_ps i m u) = p2h_r3_count u" "h2p_r3_count (set_ps i m u) = h2p_r3_count u" "p2h_r1_buf (set_ps i m u) = p2h_r1_buf u"
  "parasite_to_host (set_ps i m u) = parasite_to_host u" "host_to_parasite (set_ps i m u) = host_to_parasite u" "p2h_r3 (set_ps i m u) = p2h_r3 u"
  "h2p_r3 (set_ps i m u) = h2p_r3 u" "control (set_ps i m u) = control u"
  by (simp_all add: set_ps_def)

lemma clr_ps_fields [simp]:
  "p2h_r1_head (clr_ps i m u) = p2h_r1_head u" "p2h_r1_tail (clr_ps i m u) = p2h_r1_tail u" "p2h_r1_count (clr_ps i m u) = p2h_r1_count u"
  "p2h_r3_count (clr_ps i m u) = p2h_r3_count u" "h2p_r3_count (clr_ps i m u) = h2p_r3_count u" "p2h_r1_buf (clr_ps i m u) = p2h_r1_buf u"
  "parasite_to_host (clr_ps i m u) = parasite_to_host u" "host_to_parasite (clr_ps i m u) = host_to_parasite u" "p2h_r3 (clr_ps i m u) = p2h_r3 u"
  "h2p_r3 (clr_ps i m u) = h2p_r3 u" "control (clr_ps i m u) = control u"
  by (simp_all add: clr_ps_def)

subsection \<open>The ULA's invariant\<close>

lemma host_data_write_inv: "ula_inv u \<Longrightarrow> ula_inv (host_data_write u reg v)"
  by (simp add: host_data_write_def ula_inv_defs flag_simps Let_def)

lemma parasite_reg_read_inv: "ula_inv u \<Longrightarrow> ula_inv (snd (parasite_reg_read u reg))"
  by (simp add: parasite_reg_read_def ula_inv_defs flag_simps Let_def) auto

text \<open>The bytes of the register 1 FIFO, oldest first.\<close>

definition r1_bytes :: "tube_ula \<Rightarrow> bytes" where
  "r1_bytes u = ring_contents (p2h_r1_buf u) (p2h_r1_head u) (p2h_r1_count u)"

lemma r1_put_law:
  assumes "ula_inv u"
  shows "\<exists>u'. r1_put u v = Some u' \<and> ula_inv u' \<and>
    r1_bytes u' = (if length (r1_bytes u) < R1_FIFO_SIZE then r1_bytes u @ [v] else r1_bytes u)"
proof (cases "p2h_r1_count u < R1_FIFO_SIZE")
  case True
  note i = assms [unfolded ula_inv_defs]
  have "(p2h_r1_tail u + 1) mod R1_FIFO_SIZE = (p2h_r1_head u + (p2h_r1_count u + 1)) mod R1_FIFO_SIZE"
    using i by (simp add: mod_simps)
  moreover have "ring_contents ((p2h_r1_buf u)[p2h_r1_tail u := v]) (p2h_r1_head u) (Suc (p2h_r1_count u)) = r1_bytes u @ [v]"
    using ring_put [of "p2h_r1_count u" "p2h_r1_buf u" "p2h_r1_head u" v] i True by (simp add: r1_bytes_def)
  ultimately show ?thesis using i True
    by (simp add: r1_put_def ula_inv_defs flag_simps Let_def r1_bytes_def) auto
qed (use assms in \<open>simp add: r1_put_def r1_bytes_def\<close>)

lemma r1_get_law:
  assumes "ula_inv u"
  shows "\<exists>v u'. r1_get u = Some (v, u') \<and> ula_inv u' \<and> (\<forall>w ws. r1_bytes u = w # ws \<longrightarrow> v = w \<and> r1_bytes u' = ws)"
proof (cases "p2h_r1_count u")
  case (Suc n)
  note i = assms [unfolded ula_inv_defs]
  have "r1_bytes u = p2h_r1_buf u ! p2h_r1_head u # ring_contents (p2h_r1_buf u) ((p2h_r1_head u + 1) mod R1_FIFO_SIZE) n"
    using ring_get [of "p2h_r1_buf u" "p2h_r1_head u" n] i Suc by (simp add: r1_bytes_def)
  moreover have "p2h_r1_tail u = ((p2h_r1_head u + 1) mod R1_FIFO_SIZE + n) mod R1_FIFO_SIZE"
    using i Suc by (simp add: mod_simps)
  ultimately show ?thesis using i Suc
    by (simp add: r1_get_def ula_inv_defs flag_simps Let_def r1_bytes_def)
qed (use assms in \<open>simp add: r1_get_def r1_bytes_def ring_contents_def\<close>)

lemma parasite_reg_write_inv:
  assumes "ula_inv u" shows "\<exists>u'. parasite_reg_write u reg v = Some u' \<and> ula_inv u'"
proof (cases "reg = 1")
  case True then show ?thesis using assms r1_put_law [of u v] by (auto simp: parasite_reg_write_def)
next
  case False then show ?thesis using assms by (simp add: parasite_reg_write_def ula_inv_defs flag_simps Let_def)
qed

lemma host_reg_read_inv:
  assumes "ula_inv u" shows "\<exists>v u'. host_reg_read u reg = Some (v, u') \<and> ula_inv u'"
proof (cases "reg = 1")
  case True then show ?thesis using assms r1_get_law [of u] by (auto simp: host_reg_read_def)
next
  case False then show ?thesis using assms by (simp add: host_reg_read_def ula_inv_defs flag_simps Let_def) auto
qed

subsection \<open>The Tube's invariant\<close>

text \<open>
  What surrounds the ULA: an enabled Tube has a processor, and the half-cycle carry is a bit.
\<close>

definition tube_inv :: "'c tube \<Rightarrow> bool" where
  "tube_inv t \<longleftrightarrow> ula_inv (ula t) \<and> (tube_enabled t \<longrightarrow> parasite t \<noteq> None) \<and> half_cycle t \<in> {0, 1}"

lemma update_signals_fields [simp]:
  "ula (update_signals t) = ula t" "parasite (update_signals t) = parasite t"
  "tube_enabled (update_signals t) = tube_enabled t" "half_cycle (update_signals t) = half_cycle t"
  "selected (update_signals t) = selected t" "parasite_rom_mapped (update_signals t) = parasite_rom_mapped t"
  "tube_clock (update_signals t) = tube_clock t"
  by (simp_all add: update_signals_def Let_def)

lemma tube_inv_signals [simp]: "tube_inv (update_signals t) = tube_inv t"
  by (simp add: tube_inv_def)

lemma reset_ula_channels_inv: "tube_inv t \<Longrightarrow> tube_inv (reset_ula_channels t)"
  by (simp add: reset_ula_channels_def tube_inv_def ula_reset_inv)

text \<open>The parts of the Tube that no access from the parasite changes.\<close>

definition tube_frame :: "'c tube \<Rightarrow> 'c option \<times> bool \<times> bool \<times> int" where
  "tube_frame t = (parasite t, tube_enabled t, selected t, half_cycle t)"

text \<open>
  What a property of the ULA has to satisfy so that no program of bus accesses can break it: the register
  operations of the parasite keep it, and it does not depend on the last byte the parasite wrote.
\<close>

locale ula_property =
  fixes kept :: "tube_ula \<Rightarrow> bool"
  assumes reg_read: "kept u \<Longrightarrow> kept (snd (parasite_reg_read u reg))"
    and reg_write: "kept u \<Longrightarrow> \<exists>u'. parasite_reg_write u reg v = Some u' \<and> kept u'"
    and last_write: "kept u \<Longrightarrow> kept (u\<lparr>last_parasite_write := v\<rparr>)"
begin

lemma read_step:
  assumes "kept (ula t)" "parasite_read t a = (v, t')"
  shows "kept (ula t') \<and> tube_frame t' = tube_frame t"
  using assms reg_read [of "ula t" "unat (a AND 7)"]
  by (auto simp: parasite_read_def tube_frame_def Let_def split: if_splits prod.splits)

lemma write_step:
  assumes "kept (ula t)"
  shows "\<exists>t'. parasite_write t a v = Some t' \<and> kept (ula t') \<and> tube_frame t' = tube_frame t"
  using reg_write [OF last_write [OF assms, of v], of "unat (a AND 7)" v] assms by (auto simp: parasite_write_def tube_frame_def)

lemma bus_safe:
  "kept (ula t) \<Longrightarrow> \<exists>c t'. run_bus p t = Some (c, t') \<and> kept (ula t') \<and> tube_frame t' = tube_frame t"
proof (induction p arbitrary: t)
  case (Bus_Rd a k)
  obtain v t1 where r: "parasite_read t a = (v, t1)" by fastforce
  then have "kept (ula t1)" "tube_frame t1 = tube_frame t"
    using read_step [OF Bus_Rd.prems] by auto
  then show ?case using Bus_Rd.IH [of "k v" t1] r by auto
next
  case (Bus_Wr a v p)
  obtain t1 where "parasite_write t a v = Some t1" "kept (ula t1)" "tube_frame t1 = tube_frame t"
    using write_step [OF Bus_Wr.prems] by blast
  then show ?case using Bus_Wr.IH [of t1] by auto
next
  case (Bus_Pins k)
  then show ?case using Bus_Pins.IH [of "k (irq_pin t)" "k (irq_pin t) (nmi_pin t)" t] by simp
next
  case (Bus_Set_Pins irq nmi p)
  then show ?case using Bus_Set_Pins.IH [of "t\<lparr>irq_pin := irq, nmi_pin := nmi\<rparr>"] by (auto simp: tube_frame_def)
qed auto

end

interpretation full: ula_property ula_inv
  by unfold_locales (simp_all add: parasite_reg_read_inv parasite_reg_write_inv, simp add: ula_inv_defs)

text \<open>
  Before the first reset the ULA is the zeroed static variable, whose flags do not tell the truth yet. Its shape
  is enough for every access to stay inside the arrays.
\<close>

definition ula_shape :: "tube_ula \<Rightarrow> bool" where
  "ula_shape u \<longleftrightarrow> ring_ok u \<and> latches_ok u \<and> length (host_status u) = 4 \<and> length (parasite_status u) = 4"

lemmas ula_shape_defs = ula_shape_def ring_ok_def latches_ok_def

lemma ula_inv_shape: "ula_inv u \<Longrightarrow> ula_shape u"
  by (simp add: ula_inv_def ula_shape_def flags_ok_def)

lemma ula_shape_flow [simp]:
  "ula_shape (set_hs i m u) = ula_shape u" "ula_shape (clr_hs i m u) = ula_shape u"
  "ula_shape (set_ps i m u) = ula_shape u" "ula_shape (clr_ps i m u) = ula_shape u"
  by (simp_all add: ula_shape_defs set_hs_def clr_hs_def set_ps_def clr_ps_def)

lemma r1_shape:
  assumes "ula_shape u"
  shows "\<exists>u'. r1_put u v = Some u' \<and> ula_shape u'" "\<exists>w u'. r1_get u = Some (w, u') \<and> ula_shape u'"
proof -
  note i = assms [unfolded ula_shape_defs]
  have "(p2h_r1_tail u + 1) mod R1_FIFO_SIZE = (p2h_r1_head u + (p2h_r1_count u + 1)) mod R1_FIFO_SIZE"
    using i by (simp add: mod_simps)
  then have "ula_shape (u\<lparr>p2h_r1_buf := (p2h_r1_buf u)[p2h_r1_tail u := v], p2h_r1_tail := (p2h_r1_tail u + 1) mod R1_FIFO_SIZE,
      p2h_r1_count := p2h_r1_count u + 1\<rparr>)" if "p2h_r1_count u < R1_FIFO_SIZE"
    using i that by (simp add: ula_shape_defs)
  moreover have "p2h_r1_tail u < length (p2h_r1_buf u)" using i by simp
  ultimately show "\<exists>u'. r1_put u v = Some u' \<and> ula_shape u'"
    using assms by (cases "p2h_r1_count u < R1_FIFO_SIZE") (auto simp: r1_put_def Let_def)
  have "ula_shape (u\<lparr>p2h_r1_head := (p2h_r1_head u + 1) mod R1_FIFO_SIZE, p2h_r1_count := p2h_r1_count u - 1\<rparr>)" if "p2h_r1_count u \<noteq> 0"
  proof -
    obtain n where "p2h_r1_count u = Suc n" using \<open>p2h_r1_count u \<noteq> 0\<close> not0_implies_Suc by blast
    then show ?thesis using i by (simp add: ula_shape_defs mod_simps)
  qed
  then show "\<exists>w u'. r1_get u = Some (w, u') \<and> ula_shape u'"
    using i assms by (cases "p2h_r1_count u = 0"; cases "p2h_r1_count u = 1") (simp_all add: r1_get_def Let_def)
qed

lemma reg_shape:
  assumes "ula_shape u"
  shows "ula_shape (snd (parasite_reg_read u reg))" "\<exists>u'. parasite_reg_write u reg v = Some u' \<and> ula_shape u'"
    "\<exists>w u'. host_reg_read u reg = Some (w, u') \<and> ula_shape u'" "ula_shape (host_data_write u reg v)"
    "ula_shape (u\<lparr>last_parasite_write := v\<rparr>)" "ula_shape (u\<lparr>last_host_write := v\<rparr>)" "ula_shape (u\<lparr>control := c\<rparr>)"
proof -
  show "ula_shape (snd (parasite_reg_read u reg))"
    using assms by (simp add: parasite_reg_read_def Let_def) (auto simp: ula_shape_defs)
  show "\<exists>u'. parasite_reg_write u reg v = Some u' \<and> ula_shape u'"
    using assms r1_shape(1) [OF assms, of v] by (simp add: parasite_reg_write_def Let_def) (simp add: ula_shape_defs)
  show "\<exists>w u'. host_reg_read u reg = Some (w, u') \<and> ula_shape u'"
    using assms r1_shape(2) [OF assms] by (simp add: host_reg_read_def Let_def) (auto simp: ula_shape_defs)
  show "ula_shape (host_data_write u reg v)"
    using assms by (simp add: host_data_write_def Let_def) (simp add: ula_shape_defs)
qed (use assms in \<open>simp_all add: ula_shape_defs\<close>)

interpretation shape: ula_property ula_shape
  by unfold_locales (rule reg_shape, assumption)+

lemma cpu_call_safe:
  assumes "ula_inv (ula t)"
  shows "\<exists>t'. cpu_call f c t = Some t' \<and> ula_inv (ula t') \<and> parasite t' \<noteq> None \<and>
    (tube_enabled t', selected t', half_cycle t') = (tube_enabled t, selected t, half_cycle t)"
  using full.bus_safe [OF assms, of "f c"] by (auto simp: cpu_call_def tube_frame_def)

lemma cpu_do_reset_inv: "tube_inv t \<Longrightarrow> \<exists>t'. cpu_do_reset ops t = Some t' \<and> tube_inv t'"
  using cpu_call_safe [of t "cpu_reset ops" "the (parasite t)"]
  by (auto simp: cpu_do_reset_def tube_inv_def split: option.splits)

lemma tick_loop_inv:
  "tube_inv t \<Longrightarrow> tube_enabled t \<Longrightarrow> \<exists>t'. tick_loop ops n t = Some t' \<and> tube_inv t'"
proof (induction n arbitrary: t)
  case (Suc n)
  let ?t = "update_signals t"
  obtain c where c: "parasite ?t = Some c" using Suc.prems by (auto simp: tube_inv_def)
  obtain t1 where t1: "cpu_call (cpu_tick ops) c ?t = Some t1" "ula_inv (ula t1)" "parasite t1 \<noteq> None"
    "(tube_enabled t1, selected t1, half_cycle t1) = (tube_enabled t, selected t, half_cycle t)"
    using cpu_call_safe [of ?t "cpu_tick ops" c] Suc.prems by (auto simp: tube_inv_def)
  then have "tube_inv t1" "tube_enabled t1" using Suc.prems by (auto simp: tube_inv_def)
  then show ?case using Suc.IH [of t1] t1(1) c by (auto simp: cpu_do_tick_def)
qed simp

lemma tube_reset_inv: "tube_inv t \<Longrightarrow> \<exists>t'. tube_reset ops t = Some t' \<and> tube_inv t'"
proof -
  assume "tube_inv t"
  let ?t1 = "(reset_ula_channels t)\<lparr>parasite_rom_mapped := True, half_cycle := 0,
    tube_clock := (tube_clock (reset_ula_channels t))\<lparr>hc_valid := False\<rparr>\<rparr>"
  have "tube_inv ?t1" using reset_ula_channels_inv [OF \<open>tube_inv t\<close>] by (simp add: tube_inv_def)
  from cpu_do_reset_inv [OF this, of ops] show ?thesis
    using \<open>tube_inv t\<close> by (auto simp: tube_reset_def)
qed

lemma host_ticks_half: "h \<in> {0, 1} \<Longrightarrow> snd (host_ticks h n) \<in> {0, 1}"
  by (auto simp: host_ticks_def Let_def)

lemma run_host_cycles_inv: "tube_inv t \<Longrightarrow> \<exists>t'. run_host_cycles ops t n = Some t' \<and> tube_inv t'"
proof -
  assume i: "tube_inv t"
  obtain k h where k: "host_ticks (half_cycle t) n = (k, h)" by fastforce
  then have "tube_inv (t\<lparr>half_cycle := h\<rparr>)" using i host_ticks_half [of "half_cycle t" n] by (simp add: tube_inv_def)
  from tick_loop_inv [OF this, of ops k] show ?thesis using i k by (auto simp: run_host_cycles_def)
qed

lemma sync_host_clock_inv: "tube_inv t \<Longrightarrow> \<exists>t'. sync_host_clock ops t n = Some t' \<and> tube_inv t'"
  using run_host_cycles_inv [of "t\<lparr>tube_clock := fst (host_clock_sync (tube_clock t) n)\<rparr>" ops "snd (host_clock_sync (tube_clock t) n)"]
  by (auto simp: sync_host_clock_def tube_inv_def Let_def split: prod.splits)

lemma host_read_inv: "tube_inv t \<Longrightarrow> \<exists>v t'. host_read t a = Some (v, t') \<and> tube_inv t'"
  using host_reg_read_inv [of "ula t" "unat (a AND 7)"] by (auto simp: host_read_def tube_inv_def)

lemma ula_inv_control [simp]: "ula_inv (u\<lparr>control := c\<rparr>) = ula_inv u" "ula_inv (u\<lparr>last_host_write := v\<rparr>) = ula_inv u"
  by (simp_all add: ula_inv_defs)

lemma ula_inv_mask: "ula_inv u \<Longrightarrow> ula_inv (u\<lparr>host_status := (host_status u)[0 := host_status u ! 0 AND FLOW_BOTH]\<rparr>)"
  by (simp add: ula_inv_defs flag_simps)

lemma tube_inv_ula: "tube_inv t \<Longrightarrow> ula_inv u \<Longrightarrow> tube_inv (t\<lparr>ula := u\<rparr>)"
  by (simp add: tube_inv_def)

lemma tube_inv_imp_ula: "tube_inv t \<Longrightarrow> ula_inv (ula t)"
  by (simp add: tube_inv_def)

lemma control_write_inv:
  assumes "tube_inv t" shows "\<exists>t'. control_write ops t v = Some t' \<and> tube_inv t'"
proof -
  have fin: "tube_inv (t1\<lparr>ula := (ula t1)\<lparr>control := x, host_status := (host_status (ula t1))[0 := host_status (ula t1) ! 0 AND FLOW_BOTH]\<rparr>\<rparr>)"
    if "tube_inv t1" for x and t1 :: "'a tube" using that ula_inv_mask [of "(ula t1)\<lparr>control := x\<rparr>"] by (simp add: tube_inv_def)
  have fin': "tube_inv (t1\<lparr>ula := (ula t1)\<lparr>host_status := (host_status (ula t1))[0 := host_status (ula t1) ! 0 AND FLOW_BOTH]\<rparr>\<rparr>)"
    if "tube_inv t1" for t1 :: "'a tube" using fin [OF that, of "control (ula t1)"] by simp
  let ?t = "t\<lparr>ula := (ula t)\<lparr>control := control (ula t) AND NOT (v AND 0x3F)\<rparr>, parasite_rom_mapped := True\<rparr>"
  have "tube_inv ?t" using assms by (simp add: tube_inv_def)
  then obtain t2 where t2: "cpu_do_reset ops ?t = Some t2" "tube_inv t2" using cpu_do_reset_inv by blast
  note r = reset_ula_channels_inv [OF assms]
  show ?thesis
  proof (cases "has v CTRL_S")
    case True then show ?thesis using assms r by (auto simp: control_write_def Let_def intro!: fin)
  next
    case False then show ?thesis using t2 assms by (auto simp: control_write_def Let_def intro!: fin fin')
  qed
qed

lemma host_write_inv:
  assumes "tube_inv t" shows "\<exists>t'. host_write ops t a v = Some t' \<and> tube_inv t'"
proof -
  let ?s = "\<lambda>b. t\<lparr>selected := b\<rparr>" and ?w = "t\<lparr>ula := (ula t)\<lparr>last_host_write := v\<rparr>\<rparr>"
  have i: "tube_inv (?s b)" "tube_inv ?w" for b using assms by (simp_all add: tube_inv_def)
  then have "tube_inv (?w\<lparr>ula := host_data_write (ula ?w) r v\<rparr>)" for r
    using host_data_write_inv [of "ula ?w" r v] by (simp add: tube_inv_def)
  then show ?thesis
    using tube_reset_inv [OF i(1), of ops True] reset_ula_channels_inv [OF i(1), of False] control_write_inv [OF i(2), of ops v] assms
    by (auto simp: host_write_def Let_def)
qed

subsection \<open>Driving the Tube\<close>

datatype tube_op = Tube_Read u16 | Tube_Write u16 u8 | Run_Host_Cycles nat | Sync_Host_Clock int
  | Rebase_Host_Clock int | Tube_Reset | Prepare_Cold_Boot | Tube_Close

fun tube_exec :: "'c cpu_ops \<Rightarrow> tube_op \<Rightarrow> 'c tube \<Rightarrow> 'c tube option" where
  "tube_exec ops (Tube_Read a) t = do { (v, t') \<leftarrow> host_read t a; Some t' }"
| "tube_exec ops (Tube_Write a v) t = host_write ops t a v"
| "tube_exec ops (Run_Host_Cycles n) t = run_host_cycles ops t n"
| "tube_exec ops (Sync_Host_Clock n) t = sync_host_clock ops t n"
| "tube_exec ops (Rebase_Host_Clock n) t = Some (rebase_host_clock t n)"
| "tube_exec ops Tube_Reset t = tube_reset ops t"
| "tube_exec ops Prepare_Cold_Boot t = Some (prepare_cold_boot t)"
| "tube_exec ops Tube_Close t = Some (tube_close t)"

lemma plain_ops_inv [simp]:
  "tube_inv t \<Longrightarrow> tube_inv (rebase_host_clock t n)" "tube_inv t \<Longrightarrow> tube_inv (prepare_cold_boot t)"
  "tube_inv t \<Longrightarrow> tube_inv (tube_close t)"
  by (simp_all add: tube_inv_def rebase_host_clock_def prepare_cold_boot_def tube_close_def)

lemma tube_exec_safe: "tube_inv t \<Longrightarrow> \<exists>t'. tube_exec ops op t = Some t' \<and> tube_inv t'"
proof (cases op)
  case (Tube_Read a) then show "tube_inv t \<Longrightarrow> ?thesis" using host_read_inv [of t a] by auto
qed (simp_all add: host_write_inv run_host_cycles_inv sync_host_clock_inv tube_reset_inv)

interpretation tb: safe_component "tube_exec ops" "\<lambda>_. True" tube_inv for ops
  by unfold_locales (rule tube_exec_safe)

subsection \<open>From power-on\<close>

text \<open>
  The static variables of \<open>ap5_tube.c\<close> as the program starts with them: zero. \<open>ram\<close> is the memory of the emulated
  machine, of which the Tube changes one byte.
\<close>

definition ula_zero :: tube_ula where
  "ula_zero = \<lparr>p2h_r1_buf = replicate R1_FIFO_SIZE 0, p2h_r1_head = 0, p2h_r1_tail = 0,
     p2h_r1_count = 0, parasite_to_host = replicate 4 0, host_to_parasite = replicate 4 0,
     p2h_r3 = [0, 0], h2p_r3 = [0, 0], p2h_r3_count = 0, h2p_r3_count = 0,
     host_status = replicate 4 0, parasite_status = replicate 4 0, control = 0, last_host_write = 0,
     last_parasite_write = 0\<rparr>"

definition tube_static :: "(nat \<Rightarrow> u8) \<Rightarrow> 'c tube" where
  "tube_static ram = \<lparr>ula = ula_zero, parasite = None, irq_pin = False, nmi_pin = False, parasite_ram = (\<lambda>_. 0),
     parasite_rom = (\<lambda>_. 0), parasite_rom_mapped = False, tube_enabled = False, selected = False, nmi_asserted = False,
     half_cycle = 0, tube_clock = \<lparr>hc_valid = False, last_cycle = 0\<rparr>, host_ram = ram\<rparr>"

text \<open>A Tube that is not running: its arrays are in shape and there is no processor.\<close>

definition tube_idle :: "'c tube \<Rightarrow> bool" where
  "tube_idle t \<longleftrightarrow> ula_shape (ula t) \<and> \<not> tube_enabled t \<and> parasite t = None \<and> half_cycle t \<in> {0, 1}"

lemma tube_static_idle: "tube_idle (tube_static ram)"
  by (simp add: tube_idle_def tube_static_def ula_zero_def ula_shape_defs)

lemma reset_makes_inv:
  assumes "tube_enabled t" "parasite t \<noteq> None"
  shows "\<exists>t'. tube_reset ops t = Some t' \<and> tube_inv t'"
proof -
  let ?t1 = "(reset_ula_channels t)\<lparr>parasite_rom_mapped := True, half_cycle := 0,
    tube_clock := (tube_clock (reset_ula_channels t))\<lparr>hc_valid := False\<rparr>\<rparr>"
  have "tube_inv ?t1" using assms by (simp add: reset_ula_channels_def tube_inv_def ula_reset_inv)
  from cpu_do_reset_inv [OF this, of ops] show ?thesis using assms(1) by (auto simp: tube_reset_def)
qed

definition boots :: "'c cpu_ops \<Rightarrow> bytes option \<Rightarrow> bool" where
  "boots ops rom \<longleftrightarrow> cpu_new ops \<noteq> None \<and> (case rom of None \<Rightarrow> False | Some f \<Rightarrow> length f = 2048 \<or> 4096 \<le> length f)"

lemma tube_init_result:
  assumes "tube_idle t"
  shows "\<exists>t'. tube_init ops rom t = Some (boots ops rom, t') \<and> (if boots ops rom then tube_inv t' else tube_idle t')"
proof (cases "boots ops rom")
  case True
  then obtain f prog where f: "rom = Some f" "length f = 2048 \<or> 4096 \<le> length f" "cpu_new ops = Some prog"
    by (auto simp: boots_def split: option.splits)
  let ?t1 = "t\<lparr>parasite_rom := (\<lambda>i. take 4096 f ! (length (take 4096 f) - PARASITE_ROM_SIZE + i)), parasite_ram := (\<lambda>_. 0)\<rparr>"
  obtain c t2 where r: "run_bus prog ?t1 = Some (c, t2)" using shape.bus_safe [of ?t1 prog] assms by (auto simp: tube_idle_def)
  let ?t3 = "prepare_cold_boot (t2\<lparr>parasite := Some c, tube_enabled := True, selected := True\<rparr>)"
  have "tube_enabled ?t3" "parasite ?t3 \<noteq> None" by (simp_all add: prepare_cold_boot_def)
  then obtain t4 where "tube_reset ops ?t3 = Some t4" "tube_inv t4" using reset_makes_inv by blast
  then show ?thesis using True f r by (auto simp: tube_init_def Let_def min_def)
next
  case False
  then show ?thesis using assms
    by (auto simp: boots_def tube_init_def tube_idle_def Let_def min_def split: option.splits)
qed

lemma idle_control:
  assumes "tube_idle t"
  shows "\<exists>t'. control_write ops t v = Some t' \<and> tube_idle t'"
proof -
  have shape: "ula_shape (u\<lparr>control := y, host_status := (host_status u)[0 := x]\<rparr>) = ula_shape u"
    "ula_shape (u\<lparr>control := y\<rparr>) = ula_shape u" for u x y by (simp_all add: ula_shape_defs)
  have "ula_shape (ula t)" "ula_shape (ula (reset_ula_channels t))" "parasite t = None"
    "\<not> tube_enabled (reset_ula_channels t)" "parasite (reset_ula_channels t) = None" "half_cycle (reset_ula_channels t) = half_cycle t"
    using assms ula_inv_shape [OF ula_reset_inv] by (simp_all add: tube_idle_def reset_ula_channels_def)
  then show ?thesis using assms by (simp add: control_write_def cpu_do_reset_def Let_def tube_idle_def shape)
qed

lemma idle_exec:
  assumes "tube_idle t"
  shows "\<exists>t'. tube_exec ops op t = Some t' \<and> tube_idle t'"
proof (cases op)
  case (Tube_Read a)
  obtain w u where "host_reg_read (ula t) (unat (a AND 7)) = Some (w, u)" "ula_shape u"
    using reg_shape(3) [of "ula t" "unat (a AND 7)"] assms by (auto simp: tube_idle_def)
  then show ?thesis using assms Tube_Read by (auto simp: host_read_def tube_idle_def)
next
  case (Tube_Write a v)
  have off: "\<not> tube_enabled t" "parasite t = None" "ula_shape (ula t)" using assms by (simp_all add: tube_idle_def)
  let ?t = "t\<lparr>ula := (ula t)\<lparr>last_host_write := v\<rparr>\<rparr>"
  have w: "tube_idle ?t" using assms reg_shape(6) by (simp add: tube_idle_def)
  have upd: "tube_idle (t'\<lparr>ula := u\<rparr>)" if "tube_idle t'" "ula_shape u" for t' :: "'a tube" and u using that by (simp add: tube_idle_def)
  have sig: "tube_idle (update_signals t') = tube_idle t'" for t' :: "'a tube" by (simp add: tube_idle_def)
  have sel: "tube_idle (t\<lparr>selected := b\<rparr>)" for b using assms by (simp add: tube_idle_def)
  have rst: "tube_idle (reset_ula_channels t')" if "tube_idle t'" for t' :: "'a tube"
    using that ula_inv_shape [OF ula_reset_inv] by (simp add: reset_ula_channels_def tube_idle_def)
  obtain t2 where c: "control_write ops ?t v = Some t2" "tube_idle t2" using idle_control [OF w] by blast
  have d: "tube_idle (?t\<lparr>ula := host_data_write (ula ?t) r v\<rparr>)" for r
    by (rule upd [OF w]) (rule reg_shape(4), use w in \<open>simp add: tube_idle_def\<close>)
  have "\<exists>t'. host_write ops t a v = Some t' \<and> tube_idle t'"
  proof (cases "unat (a AND 7) = 6")
    case True
    then show ?thesis using sel rst [OF sel] off(1) by (simp add: host_write_def Let_def tube_reset_def)
  next
    case False
    then show ?thesis using c d assms by (simp add: host_write_def Let_def sig)
  qed
  then show ?thesis using Tube_Write by simp
qed (use assms in \<open>simp_all add: tube_idle_def run_host_cycles_def sync_host_clock_def rebase_host_clock_def tube_reset_def
  prepare_cold_boot_def tube_close_def\<close>)

interpretation off: safe_component "tube_exec ops" "\<lambda>_. True" tube_idle for ops
  by unfold_locales (rule idle_exec)

lemma close_idle: "tube_inv t \<or> tube_idle t \<Longrightarrow> tube_idle (tube_close t)"
  using ula_inv_shape by (auto simp: tube_idle_def tube_close_def tube_inv_def)

text \<open>Sessions one after the other: the Tube is set up (which may fail), driven, and closed.\<close>

fun tube_sessions :: "'c cpu_ops \<Rightarrow> (bytes option \<times> tube_op list) list \<Rightarrow> 'c tube \<Rightarrow> 'c tube option" where
  "tube_sessions ops [] t = Some t"
| "tube_sessions ops ((rom, op_list) # ss) t = do {
     (ok, t1) \<leftarrow> tube_init ops rom t;
     t2 \<leftarrow> run_ops (tube_exec ops) op_list t1;
     tube_sessions ops ss (tube_close t2) }"

lemma session_safe:
  assumes "tube_idle t"
  shows "\<exists>t1 t2. tube_init ops rom t = Some (boots ops rom, t1) \<and> run_ops (tube_exec ops) op_list t1 = Some t2 \<and>
    (if boots ops rom then tube_inv t2 else tube_idle t2)"
proof -
  obtain t1 where t1: "tube_init ops rom t = Some (boots ops rom, t1)" "if boots ops rom then tube_inv t1 else tube_idle t1"
    using tube_init_result [OF assms] by blast
  have "list_all (\<lambda>_. True) op_list" by (simp add: list_all_iff)
  then show ?thesis using t1 tb.run_safe [of t1 op_list ops] off.run_safe [of t1 op_list ops] by (cases "boots ops rom") auto
qed

lemma sessions_idle: "tube_idle t \<Longrightarrow> \<exists>t'. tube_sessions ops ss t = Some t' \<and> tube_idle t'"
proof (induction ss arbitrary: t)
  case (Cons s ss)
  obtain rom op_list where s: "s = (rom, op_list)" by fastforce
  obtain t1 t2 where "tube_init ops rom t = Some (boots ops rom, t1)" "run_ops (tube_exec ops) op_list t1 = Some t2" "tube_inv t2 \<or> tube_idle t2"
    using session_safe [OF Cons.prems, of ops rom op_list] by (auto split: if_splits)
  then show ?case using Cons.IH [OF close_idle [of t2]] s by simp
qed simp

end
