(* ===== verification/Ap5_Props.thy ===== *)
theory Ap5_Props
  imports Ap5_Inv
begin

unbundle bit_operations_syntax

section \<open>Properties of the Tube\<close>

text \<open>
  Safety of all sessions, register 1 as a bounded queue, and the clock ratio.
\<close>

text \<open>C14: From the zeroed variables the program starts with, through any number of sessions in which the Tube is set
  up with any boot ROM file, driven and closed, no sequence of bus accesses, clock updates, resets and closes from
  the host, interleaved with whatever a 65C02 does on its own side, indexes a FIFO out of its bounds or ticks
  a missing processor. The Tube comes up exactly when the file has a legal size and a processor can be made, and from then
  on the flow flags always tell the truth about the register 1 FIFO and the three one-byte channels; otherwise it stays
  off.\<close>

theorem tube_ops_safe:
  "\<exists>t1 ok t2 t3. tube_sessions ops ss (tube_static ram) = Some t1 \<and> tube_init ops rom t1 = Some (ok, t2) \<and>
     run_ops (tube_exec ops) op_list t2 = Some t3 \<and> (ok \<longleftrightarrow> boots ops rom) \<and>
     (if ok then tube_inv t3 else \<not> tube_enabled t3)"
proof -
  obtain t1 where t1: "tube_sessions ops ss (tube_static ram) = Some t1" "tube_idle t1" using sessions_idle [OF tube_static_idle] by blast
  from session_safe [OF t1(2), of ops rom op_list] show ?thesis using t1(1) by (auto simp: tube_idle_def split: if_splits)
qed

text \<open>A processor that stores what it reads at a fixed address, for concrete runs.\<close>

definition echo_cpu :: "unit cpu_ops" where
  "echo_cpu = \<lparr>cpu_new = Some (Bus_Done ()), cpu_reset = (\<lambda>_. Bus_Set_Pins False False (Bus_Done ())),
     cpu_tick = (\<lambda>_. Bus_Rd 0xFEF8 (\<lambda>s. if has s FLOW_DATA then Bus_Rd 0xFEF9 (\<lambda>v. Bus_Wr 0xFEF9 v (Bus_Done ())) else Bus_Done ()))\<rparr>"

definition tube_off :: "unit tube" where
  "tube_off = \<lparr>ula = ula_reset, parasite = None, irq_pin = False, nmi_pin = False, parasite_ram = (\<lambda>_. 0),
     parasite_rom = (\<lambda>_. 0), parasite_rom_mapped = False, tube_enabled = False, selected = False, nmi_asserted = False,
     half_cycle = 0, tube_clock = \<lparr>hc_valid = False, last_cycle = 0\<rparr>, host_ram = (\<lambda>_. 0)\<rparr>"

theorem tube_ops_safe_witness:
  "\<exists>t1 t2 t3. tube_sessions echo_cpu [(None, [Tube_Read 0xFCE0])] (tube_static (\<lambda>_. 0)) = Some t1 \<and>
     tube_init echo_cpu (Some (replicate 2048 0xEA)) t1 = Some (True, t2) \<and>
     run_ops (tube_exec echo_cpu) [Tube_Write 0xFCE1 7, Run_Host_Cycles 3, Tube_Read 0xFCE1] t2 = Some t3 \<and> tube_inv t3"
  using tube_ops_safe [of echo_cpu "[(None, [Tube_Read 0xFCE0])]" "\<lambda>_. 0" "Some (replicate 2048 0xEA)"
    "[Tube_Write 0xFCE1 7, Run_Host_Cycles 3, Tube_Read 0xFCE1]"]
  by (auto simp: boots_def echo_cpu_def simp del: run_ops.simps tube_sessions.simps split: if_splits)

subsection \<open>Register 1 from the parasite to the host\<close>

definition r1_selected :: "'c tube \<Rightarrow> bool" where
  "r1_selected t \<longleftrightarrow> ula_inv (ula t) \<and> selected t"

definition tube_r1 :: "'c tube \<Rightarrow> bytes" where
  "tube_r1 t = r1_bytes (ula t)"

lemma reg1_addresses: "unat ((0xFEF9 :: u16) AND 7) = 1" "(0xFEF9 :: u16) AND 0xFFF8 = 0xFEF8" "unat ((0xFCE1 :: u16) AND 7) = 1"
  by code_simp+

lemma tube_r1_put:
  assumes "r1_selected t"
  shows "\<exists>t'. parasite_write t 0xFEF9 v = Some t' \<and> r1_selected t' \<and>
    tube_r1 t' = (if length (tube_r1 t) < R1_FIFO_SIZE then tube_r1 t @ [v] else tube_r1 t)"
proof -
  let ?u = "(ula t)\<lparr>last_parasite_write := v\<rparr>"
  have "ula_inv ?u" "r1_bytes ?u = tube_r1 t" using assms by (simp_all add: r1_selected_def ula_inv_defs r1_bytes_def tube_r1_def)
  then show ?thesis using r1_put_law [of ?u v] assms
    by (auto simp: parasite_write_def reg1_addresses parasite_reg_write_def r1_selected_def tube_r1_def)
qed

lemma tube_r1_get:
  assumes "r1_selected t" "tube_r1 t = v # vs"
  shows "\<exists>t'. host_read t 0xFCE1 = Some (v, t') \<and> r1_selected t' \<and> tube_r1 t' = vs"
  using r1_get_law [of "ula t"] assms
  by (auto simp: host_read_def host_reg_read_def r1_selected_def tube_r1_def reg1_addresses)

interpretation r1: bounded_queue "\<lambda>t v. parasite_write t 0xFEF9 v" "\<lambda>t. host_read t 0xFCE1" tube_r1 R1_FIFO_SIZE r1_selected
  by unfold_locales (simp_all only: tube_r1_put tube_r1_get)

text \<open>C15: Register 1 carries a message from the parasite to the host: up to 24 bytes written at &FEF9
  while the FIFO is empty are read back by the host at &FCE1 in the order they were written, with no
  byte lost, repeated or invented, wherever in the ring the FIFO happens to start.\<close>

theorem r1_message_in_order:
  assumes "ula_inv (ula t)" "selected t" "p2h_r1_count (ula t) = 0" "length vs \<le> R1_FIFO_SIZE"
  shows "\<exists>t1 t2. enq_all (\<lambda>t v. parasite_write t 0xFEF9 v) vs t = Some t1 \<and>
    deq_n (\<lambda>t. host_read t 0xFCE1) (length vs) t1 = Some (vs, t2) \<and> p2h_r1_count (ula t2) = 0"
proof -
  have "r1_selected t" "tube_r1 t = []" using assms by (simp_all add: r1_selected_def tube_r1_def r1_bytes_def ring_contents_def)
  from r1.fifo_order [OF this assms(4)] show ?thesis
    by (auto simp: bind_eq_Some_conv tube_r1_def r1_bytes_def ring_contents_def)
qed

theorem r1_message_in_order_witness:
  "\<exists>t1 t2. enq_all (\<lambda>t v. parasite_write t 0xFEF9 v) [0x41, 0x42, 0x43] (tube_off\<lparr>selected := True\<rparr>) = Some t1 \<and>
    deq_n (\<lambda>t. host_read t 0xFCE1) (length [0x41, 0x42, 0x43 :: u8]) t1 = Some ([0x41, 0x42, 0x43], t2) \<and> p2h_r1_count (ula t2) = 0"
  by (rule r1_message_in_order) (simp_all add: tube_off_def ula_reset_inv, simp add: ula_reset_def)

subsection \<open>The one-byte channels from the host to the parasite\<close>

lemma channel_addresses:
  "unat ((0xFCE3 :: u16) AND 7) = 3" "unat ((0xFCE7 :: u16) AND 7) = 7" "unat ((0xFCE0 :: u16) AND 7) = 0"
  "(0xFEFB :: u16) AND 0xFFF8 = 0xFEF8" "(0xFEFF :: u16) AND 0xFFF8 = 0xFEF8"
  "unat ((0xFEFB :: u16) AND 7) = 3" "unat ((0xFEFF :: u16) AND 7) = 7"
  by code_simp+

lemma signals_irq: "parasite t \<noteq> None \<Longrightarrow> irq_pin (update_signals t) = irq_level (ula t)"
  by (simp add: update_signals_def Let_def)

text \<open>One channel on the ULA alone.\<close>

lemma channel_write:
  assumes "ula_inv u" "(r, i) \<in> {(1, 0), (3, 1), (7, 3)}"
  shows "host_data_write u r v = clr_hs i FLOW_SPACE (set_ps i FLOW_DATA (u\<lparr>host_to_parasite := (host_to_parasite u)[i := v]\<rparr>))"
  using assms(2) unfolding insert_iff prod.inject by (elim disjE) (simp_all add: host_data_write_def)

lemma channel_read:
  assumes "ula_inv u" "(r, i) \<in> {(1, 0), (3, 1), (7, 3)}"
  shows "parasite_reg_read u r = (host_to_parasite u ! i, set_hs i FLOW_SPACE (clr_ps i FLOW_DATA u))"
  using assms(2) unfolding insert_iff prod.inject by (elim disjE) (simp_all add: parasite_reg_read_def)

lemma channel_flags:
  fixes u :: tube_ula and v :: u8
  assumes "ula_inv u" "i \<in> {0, 1, 3}"
  defines "u1 \<equiv> clr_hs i FLOW_SPACE (set_ps i FLOW_DATA (u\<lparr>host_to_parasite := (host_to_parasite u)[i := v]\<rparr>))"
  shows "\<not> has (host_status u1 ! i) FLOW_SPACE" "has (parasite_status u1 ! i) FLOW_DATA" "host_to_parasite u1 ! i = v"
    "has (host_status (set_hs i FLOW_SPACE (clr_ps i FLOW_DATA u1)) ! i) FLOW_SPACE"
    "\<not> has (parasite_status (set_hs i FLOW_SPACE (clr_ps i FLOW_DATA u1)) ! i) FLOW_DATA" "control u1 = control u"
proof -
  have "length (host_status u) = 4" "length (parasite_status u) = 4" "length (host_to_parasite u) = 4" "i < 4"
    using assms(1, 2) by (auto simp: ula_inv_defs)
  then show "\<not> has (host_status u1 ! i) FLOW_SPACE" "has (parasite_status u1 ! i) FLOW_DATA" "host_to_parasite u1 ! i = v"
    "has (host_status (set_hs i FLOW_SPACE (clr_ps i FLOW_DATA u1)) ! i) FLOW_SPACE"
    "\<not> has (parasite_status (set_hs i FLOW_SPACE (clr_ps i FLOW_DATA u1)) ! i) FLOW_DATA" "control u1 = control u"
    by (simp_all add: u1_def flag_simps)
qed

text \<open>A byte the host writes to register 1, 2 or 4 is the byte the parasite reads there. The write
  takes the host's "space" flag away and raises the parasite's "data" flag, together with its
  interrupt line when the channel's interrupt is enabled (I for register 1, J for register 4); the
  parasite's read reverses both flags.\<close>

theorem host_byte_handshake:
  assumes "ula_inv (ula t)" "selected t" "(ha, pa, i) \<in> {(0xFCE1, 0xFEF9, 0), (0xFCE3, 0xFEFB, 1), (0xFCE7, 0xFEFF, 3)}"
  shows "\<exists>t1 t2. host_write ops t ha v = Some t1 \<and> parasite_read t1 pa = (v, t2) \<and>
     \<not> has (host_status (ula t1) ! i) FLOW_SPACE \<and> has (parasite_status (ula t1) ! i) FLOW_DATA \<and>
     has (host_status (ula t2) ! i) FLOW_SPACE \<and> \<not> has (parasite_status (ula t2) ! i) FLOW_DATA \<and>
     (parasite t \<noteq> None \<and> (i = 0 \<and> has (control (ula t)) CTRL_I \<or> i = 3 \<and> has (control (ula t)) CTRL_J) \<longrightarrow> irq_pin t1)"
proof -
  let ?w = "(ula t)\<lparr>last_host_write := v\<rparr>" and ?r = "unat (ha AND 7)"
  let ?u = "host_data_write ?w ?r v"
  let ?t1 = "update_signals (t\<lparr>ula := ?u\<rparr>)"
  have a: "(?r, i) \<in> {(1, 0), (3, 1), (7, 3)}" "pa AND 0xFFF8 = 0xFEF8" "unat (pa AND 7) = ?r" "i \<in> {0, 1, 3}"
    using assms(3) by (auto simp: reg1_addresses channel_addresses)
  have w: "ula_inv ?w" using assms(1) by simp
  note c = channel_flags [OF w a(4), of v, folded channel_write [OF w a(1), of v]]
  have "host_write ops t ha v = Some ?t1" using assms(2) a(1) by (auto simp: host_write_def)
  moreover have "parasite_read ?t1 pa = (v, update_signals (?t1\<lparr>ula := set_hs i FLOW_SPACE (clr_ps i FLOW_DATA ?u), parasite_rom_mapped := ?r \<noteq> 0 \<and> parasite_rom_mapped t\<rparr>))"
    using c(3) channel_read [OF host_data_write_inv [OF w, of ?r v] a(1)] a(2, 3) by (simp add: parasite_read_def Let_def)
  moreover have "irq_pin ?t1" if "parasite t \<noteq> None" "i = 0 \<and> has (control (ula t)) CTRL_I \<or> i = 3 \<and> has (control (ula t)) CTRL_J"
    using that c(2, 6) by (auto simp: signals_irq irq_level_def)
  ultimately show ?thesis using c by auto
qed

theorem host_byte_handshake_witness:
  "\<exists>t1 t2. host_write echo_cpu (tube_off\<lparr>selected := True\<rparr>) 0xFCE3 0x5A = Some t1 \<and> parasite_read t1 0xFEFB = (0x5A, t2) \<and>
     \<not> has (host_status (ula t1) ! 1) FLOW_SPACE"
  using host_byte_handshake [of "tube_off\<lparr>selected := True\<rparr>" "0xFCE3" "0xFEFB" 1 echo_cpu "0x5A"]
  by (auto simp: tube_off_def ula_reset_inv)

subsection \<open>Three parasite cycles for two host cycles\<close>

lemma half_swap:
  "t\<lparr>half_cycle := h, ula := u\<rparr> = t\<lparr>ula := u, half_cycle := h\<rparr>"
  "t\<lparr>half_cycle := h, parasite_rom_mapped := b\<rparr> = t\<lparr>parasite_rom_mapped := b, half_cycle := h\<rparr>"
  "t\<lparr>half_cycle := h, parasite_ram := m\<rparr> = t\<lparr>parasite_ram := m, half_cycle := h\<rparr>"
  "t\<lparr>half_cycle := h, irq_pin := b\<rparr> = t\<lparr>irq_pin := b, half_cycle := h\<rparr>"
  "t\<lparr>half_cycle := h, nmi_pin := b\<rparr> = t\<lparr>nmi_pin := b, half_cycle := h\<rparr>"
  "t\<lparr>half_cycle := h, parasite := c\<rparr> = t\<lparr>parasite := c, half_cycle := h\<rparr>"
  by simp_all

lemma update_signals_half: "update_signals (t\<lparr>half_cycle := h\<rparr>) = (update_signals t)\<lparr>half_cycle := h\<rparr>"
  by (cases "parasite t") (simp_all add: update_signals_def Let_def)

lemma parasite_read_half:
  "parasite_read (t\<lparr>half_cycle := h\<rparr>) a = (let (v, t') = parasite_read t a in (v, t'\<lparr>half_cycle := h\<rparr>))"
  by (auto simp: parasite_read_def Let_def update_signals_half half_swap split: prod.splits)

lemma parasite_write_half:
  "parasite_write (t\<lparr>half_cycle := h\<rparr>) a v = map_option (\<lambda>t'. t'\<lparr>half_cycle := h\<rparr>) (parasite_write t a v)"
  by (auto simp: parasite_write_def update_signals_half half_swap split: bind_split)

lemma run_bus_half:
  "run_bus p (t\<lparr>half_cycle := h\<rparr>) = map_option (\<lambda>(c, t'). (c, t'\<lparr>half_cycle := h\<rparr>)) (run_bus p t)"
proof (induction p arbitrary: t)
  case (Bus_Set_Pins irq nmi p)
  then show ?case using Bus_Set_Pins.IH [of "t\<lparr>irq_pin := irq, nmi_pin := nmi\<rparr>"] by (simp add: half_swap)
next
  case (Bus_Pins k)
  then show ?case using Bus_Pins.IH [of "k (irq_pin t)" "k (irq_pin t) (nmi_pin t)" t] by simp
qed (auto simp: parasite_read_half parasite_write_half Let_def split: prod.splits bind_split)

lemma tick_loop_half:
  "tick_loop ops n (t\<lparr>half_cycle := h\<rparr>) = map_option (\<lambda>t'. t'\<lparr>half_cycle := h\<rparr>) (tick_loop ops n t)"
proof (induction n arbitrary: t)
  case (Suc n)
  have "cpu_do_tick ops (t\<lparr>half_cycle := h\<rparr>) = map_option (\<lambda>t'. t'\<lparr>half_cycle := h\<rparr>) (cpu_do_tick ops t)" for t
    by (cases "run_bus (cpu_tick ops (the (parasite t))) t")
      (auto simp: cpu_do_tick_def cpu_call_def run_bus_half half_swap split: option.splits)
  then show ?case by (simp add: update_signals_half Suc.IH split: bind_split)
qed simp

text \<open>A parasite access leaves the control latch and everything around the ULA alone, so a Tube that
  runs keeps running.\<close>

lemma parasite_keeps_control [simp]:
  "parasite_reg_read u r = (v, u') \<Longrightarrow> control u' = control u"
  "parasite_reg_write u r v = Some u' \<Longrightarrow> control u' = control u"
  by (auto simp: parasite_reg_read_def parasite_reg_write_def r1_put_def Let_def split: if_splits bind_splits)

definition tube_running :: "'c tube \<Rightarrow> bool" where
  "tube_running t \<longleftrightarrow> tube_enabled t \<and> selected t \<and> \<not> has (control (ula t)) CTRL_P"

lemma parasite_read_running: "parasite_read t a = (v, t') \<Longrightarrow> tube_running t' = tube_running t"
  by (auto simp: parasite_read_def tube_running_def Let_def split: if_splits prod.splits)

lemma parasite_write_running: "parasite_write t a v = Some t' \<Longrightarrow> tube_running t' = tube_running t"
  by (auto simp: parasite_write_def tube_running_def split: if_splits bind_splits)

lemma run_bus_running: "run_bus p t = Some (c, t') \<Longrightarrow> tube_running t' = tube_running t"
proof (induction p arbitrary: t)
  case (Bus_Pins k)
  then show ?case using Bus_Pins.IH [of "k (irq_pin t)" "k (irq_pin t) (nmi_pin t)" t] by simp
next
  case (Bus_Set_Pins irq nmi p)
  then show ?case using Bus_Set_Pins.IH [of "t\<lparr>irq_pin := irq, nmi_pin := nmi\<rparr>"] by (simp add: tube_running_def)
next
  case (Bus_Rd a k)
  obtain v t1 where "parasite_read t a = (v, t1)" by fastforce
  then show ?case using Bus_Rd.IH [of "k v" t1] Bus_Rd.prems parasite_read_running [of t a v t1] by simp
qed (auto simp: parasite_write_running split: bind_splits)

lemma cpu_do_tick_running: "cpu_do_tick ops t = Some t' \<Longrightarrow> tube_running t' = tube_running t"
  using run_bus_running
  by (fastforce simp: cpu_do_tick_def cpu_call_def tube_running_def split: option.splits bind_splits)

lemma tick_loop_running: "tick_loop ops n t = Some t' \<Longrightarrow> tube_running t' = tube_running t"
proof (induction n arbitrary: t)
  case (Suc n)
  then obtain t1 where "cpu_do_tick ops (update_signals t) = Some t1" "tick_loop ops n t1 = Some t'"
    by (auto split: bind_splits)
  then show ?case using Suc.IH [of t1] cpu_do_tick_running [of ops "update_signals t" t1] by (simp add: tube_running_def)
qed simp

lemma tick_loop_add: "tick_loop ops (m + n) t = do { t' \<leftarrow> tick_loop ops m t; tick_loop ops n t' }"
  by (induction m arbitrary: t) (auto split: bind_split)

lemma host_ticks_eq:
  "host_ticks (int h) n = ((3 * n + h) div 2, int ((n + h) mod 2))" if "h < 2"
proof -
  have "h = 0 \<or> h = 1" using that by auto
  then show ?thesis
    by (cases "even n") (auto simp: host_ticks_def Let_def elim!: evenE oddE)
qed

lemma run_host_cycles_eq:
  assumes "tube_running t" "half_cycle t = int h" "h < 2"
  shows "run_host_cycles ops t n = map_option (\<lambda>t'. t'\<lparr>half_cycle := int ((n + h) mod 2)\<rparr>) (tick_loop ops ((3 * n + h) div 2) t)"
  using assms host_ticks_eq [OF assms(3), of n]
  by (auto simp: run_host_cycles_def tube_running_def tick_loop_half)

lemma half_cycle_carry:
  "(3 * (n + s) + h) div 2 = (3 * n + h) div 2 + (3 * s + (n + h) mod 2) div 2"
  "(n + s + h) mod 2 = (s + (n + h) mod 2) mod 2" for n s h :: nat
proof -
  have e: "3 * (n + s) + h = 2 * (n + (n + h) div 2) + (3 * s + (n + h) mod 2)"
    "3 * n + h = 2 * (n + (n + h) div 2) + (n + h) mod 2"
    using div_mult_mod_eq [of "n + h" 2] by (simp_all add: algebra_simps)
  have d: "(2 * a + b) div 2 = a + b div 2" "(n + h) mod 2 div 2 = 0" for a b :: nat by simp_all
  show "(3 * (n + s) + h) div 2 = (3 * n + h) div 2 + (3 * s + (n + h) mod 2) div 2"
    by (simp only: e d add_0_right)
  show "(n + s + h) mod 2 = (s + (n + h) mod 2) mod 2" by (simp add: mod_simps ac_simps)
qed

lemma run_batches_eq:
  assumes "tube_running t" "half_cycle t = int h" "h < 2"
  shows "run_ops (tube_exec ops) (map Run_Host_Cycles ns) t =
    map_option (\<lambda>t'. t'\<lparr>half_cycle := int ((sum_list ns + h) mod 2)\<rparr>) (tick_loop ops ((3 * sum_list ns + h) div 2) t)"
  using assms
proof (induction ns arbitrary: t h)
  case Nil
  then show ?case by (cases t) auto
next
  case (Cons n ns)
  let ?h = "(n + h) mod 2"
  note split = half_cycle_carry [of n "sum_list ns" h, folded sum_list.Cons]
  show ?case
  proof (cases "tick_loop ops ((3 * n + h) div 2) t")
    case None
    then show ?thesis using run_host_cycles_eq [OF Cons.prems, of ops n] by (simp add: split(1) tick_loop_add del: sum_list.Cons)
  next
    case (Some t1)
    have "tube_running (t1\<lparr>half_cycle := int ?h\<rparr>)" using tick_loop_running [OF Some] Cons.prems by (simp add: tube_running_def)
    from Cons.IH [OF this, of ?h] show ?thesis
      using run_host_cycles_eq [OF Cons.prems, of ops n] Some
      by (simp add: split tick_loop_add tick_loop_half option.map_comp comp_def del: sum_list.Cons)
  qed
qed

text \<open>C16: The parasite runs at 3 MHz against the host's 2 MHz whatever the batches: running host cycles in
  any sequence of calls is running the parasite for one and a half times their sum, rounded down,
  in one go, and the odd half cycle is carried to the next call.\<close>

theorem three_mhz_ratio:
  assumes "tube_enabled t" "selected t" "\<not> has (control (ula t)) CTRL_P" "half_cycle t = 0"
  shows "run_ops (tube_exec ops) (map Run_Host_Cycles ns) t =
    map_option (\<lambda>t'. t'\<lparr>half_cycle := int (sum_list ns mod 2)\<rparr>) (tick_loop ops (3 * sum_list ns div 2) t)"
  using run_batches_eq [of t 0 ops ns] assms by (simp add: tube_running_def)

theorem three_mhz_ratio_witness:
  fixes t :: "unit tube"
  defines "t \<equiv> tube_off\<lparr>tube_enabled := True, selected := True, parasite := Some ()\<rparr>"
  shows "run_ops (tube_exec echo_cpu) (map Run_Host_Cycles [1, 4, 2]) t =
    map_option (\<lambda>t'. t'\<lparr>half_cycle := 1\<rparr>) (tick_loop echo_cpu 10 t)"
  using three_mhz_ratio [of t echo_cpu "[1, 4, 2]"] by (simp add: t_def tube_off_def ula_reset_def has_def)

subsection \<open>Holding the parasite in reset\<close>

text \<open>Releasing the parasite from reset does not reset it: clearing the control bit P while it is held
  leaves the processor and its boot ROM mapping as they were. Clearing any other bit while P is held
  is what resets the processor and maps the boot ROM, with P still set.\<close>

theorem release_does_not_reset:
  assumes "selected t" "control (ula t) = CTRL_P" "parasite t = Some c" "cpu_reset ops c = Bus_Done c0"
  shows "\<exists>t1 t2. host_write ops t 0xFCE0 CTRL_P = Some t1 \<and> parasite t1 = Some c \<and>
      parasite_rom_mapped t1 = parasite_rom_mapped t \<and> control (ula t1) = 0 \<and>
      host_write ops t 0xFCE0 CTRL_Q = Some t2 \<and> parasite t2 = Some c0 \<and> parasite_rom_mapped t2 \<and> control (ula t2) = CTRL_P"
proof -
  have c: "has CTRL_P CTRL_S = False" "has CTRL_P CTRL_P = True" "has CTRL_Q CTRL_S = False" "has CTRL_Q CTRL_P = False"
    "CTRL_P AND NOT (CTRL_P AND 0x3F) = 0" "CTRL_P AND NOT (CTRL_Q AND 0x3F) = CTRL_P" by code_simp+
  show ?thesis
    by (simp only: host_write_def control_write_def cpu_do_reset_def cpu_call_def channel_addresses Let_def)
      (use assms c in simp)
qed

theorem release_does_not_reset_witness:
  "\<exists>t1. host_write (echo_cpu\<lparr>cpu_reset := Bus_Done\<rparr>) (tube_off\<lparr>selected := True, parasite := Some (), ula := ula_reset\<lparr>control := CTRL_P\<rparr>\<rparr>) 0xFCE0 CTRL_P = Some t1 \<and>
     \<not> parasite_rom_mapped t1"
  using release_does_not_reset [of "tube_off\<lparr>selected := True, parasite := Some (), ula := ula_reset\<lparr>control := CTRL_P\<rparr>\<rparr>" "()"
      "echo_cpu\<lparr>cpu_reset := Bus_Done\<rparr>" "()"]
  by (auto simp: tube_off_def)

end
