(* ===== verification/Beebscsi.thy ===== *)
theory Beebscsi
  imports Prelude
begin

unbundle bit_operations_syntax

section \<open>The Acorn SCSI host adapter (beebscsi\_elkulator.c)\<close>

text \<open>
  The record holds the file-scope state of \<open>beebscsi_elkulator.c\<close>. Counters of type \<open>unsigned\<close> are
  32-bit words and wrap; \<open>unsigned long\<close> byte offsets are natural numbers (a 32-bit sector number
  times 256 fits in 64 bits). The mounted LUN is the byte list of its file, \<open>None\<close> while no file is
  open; \<open>bad_sector\<close> tells at which sectors a seek or a transfer of the host's file system fails.
  The interrupt callback belongs to the host emulator; the model counts its calls. Buffers are
  accessed through the checked operations. Trace and error messages are not modelled.
\<close>

datatype scsi_phase = BUS_FREE | SELECTION | COMMAND | SCSI_READ | SCSI_WRITE | STATUS | MESSAGE

record scsi =
  phase :: scsi_phase
  selected :: bool
  message_phase :: bool
  command_phase :: bool
  input_phase :: bool
  busy :: bool
  request :: bool
  irq_armed :: bool
  irq_pending :: bool
  command :: bytes
  buffer :: bytes
  geometry :: bytes
  status :: u32
  message :: u32
  blocks :: u32
  next_sector :: u32
  offset :: u32
  xfer_length :: u32
  last_write :: u32
  sense_code :: u32
  sense_sector :: u32
  lun_image :: "bytes option"
  image_bytes :: nat
  writable :: bool
  initialised :: bool
  irq_callback :: bool
  published_irq :: bool
  irq_calls :: nat
  bad_sector :: "u32 \<Rightarrow> bool"

subsection \<open>The interrupt latch and the bus signals\<close>

definition scsi_host_irq :: "scsi \<Rightarrow> bool" where
  "scsi_host_irq s \<longleftrightarrow> lun_image s \<noteq> None \<and> irq_pending s"

definition publish_irq :: "scsi \<Rightarrow> scsi" where
  "publish_irq s =
     (let current = (lun_image s \<noteq> None \<and> irq_pending s) in
      if current = published_irq s then s
      else s\<lparr>published_irq := current, irq_calls := (if irq_callback s then irq_calls s + 1 else irq_calls s)\<rparr>)"

definition set_request :: "bool \<Rightarrow> scsi \<Rightarrow> scsi" where
  "set_request active s = publish_irq (s\<lparr>request := active, irq_pending := (irq_armed s \<and> active \<or> irq_pending s)\<rparr>)"

definition bus_free :: "scsi \<Rightarrow> scsi" where
  "bus_free s = (set_request False (s\<lparr>selected := False, message_phase := False, command_phase := False,
     input_phase := False, busy := False\<rparr>))\<lparr>phase := BUS_FREE\<rparr>"

subsection \<open>Mounting\<close>

text \<open>
  The process environment: the three variables, the files that can be opened (contents, and whether
  they can also be opened for writing), whether \<open>malloc\<close> succeeds and whether closing the geometry
  file does.
\<close>

record scsi_env =
  env_lun :: "string option"
  env_read_only :: "string option"
  env_dsc :: "string option"
  env_file :: "string \<Rightarrow> (bytes \<times> bool) option"
  env_malloc :: bool
  env_close :: bool

definition nonempty :: "string option \<Rightarrow> bool" where
  "nonempty v \<longleftrightarrow> v \<noteq> None \<and> v \<noteq> Some ''''"

fun rfind :: "char \<Rightarrow> string \<Rightarrow> nat option" where
  "rfind c [] = None"
| "rfind c (x # xs) = (case rfind c xs of Some i \<Rightarrow> Some (Suc i) | None \<Rightarrow> if x = c then Some 0 else None)"

definition derived_geometry :: "string \<Rightarrow> string" where
  "derived_geometry path =
     (case rfind (CHR ''.'') path of None \<Rightarrow> path @ ''.dsc''
      | Some e \<Rightarrow> (case rfind (CHR ''/'') path of None \<Rightarrow> take e path @ ''.dsc''
          | Some sep \<Rightarrow> if e < sep then path @ ''.dsc'' else take e path @ ''.dsc''))"

definition geometry_path :: "scsi_env \<Rightarrow> string \<Rightarrow> string option" where
  "geometry_path e path = (if nonempty (env_dsc e) then env_dsc e
     else if env_malloc e then Some (derived_geometry path) else env_dsc e)"

definition default_geometry :: "nat \<Rightarrow> bytes" where
  "default_geometry n =
     (let cylinders = min 65535 (1 + (n - 1) div (256 * 33 * 255)) in
      (replicate 33 0)[13 := of_nat (cylinders div 256), 14 := of_nat cylinders, 15 := 255])"

text \<open>Whether the geometry is usable (a short or unreadable file, or a missing explicit one, is not), and the geometry bytes.\<close>

definition load_geometry :: "scsi_env \<Rightarrow> string \<Rightarrow> nat \<Rightarrow> bool \<times> bytes" where
  "load_geometry e path n =
     (case Option.bind (geometry_path e path) (env_file e) of
        Some (g, _) \<Rightarrow> (22 \<le> length (take 33 g) \<and> env_close e, take 33 g @ replicate (33 - length (take 33 g)) 0)
      | None \<Rightarrow> if nonempty (env_dsc e) then (False, replicate 33 0) else (True, default_geometry n))"

definition open_image :: "scsi_env \<Rightarrow> string \<Rightarrow> (bytes \<times> bool) option" where
  "open_image e path =
     (let want = (\<not> nonempty (env_read_only e) \<or> env_read_only e = Some ''0'') in
      case env_file e path of None \<Rightarrow> None | Some (img, w) \<Rightarrow> Some (img, want \<and> w))"

text \<open>Mounting happens once; the result tells whether a LUN is mounted.\<close>

definition scsi_initialise :: "scsi_env \<Rightarrow> scsi \<Rightarrow> bool \<times> scsi" where
  "scsi_initialise e s =
     (if initialised s then (lun_image s \<noteq> None, s)
      else
        let s1 = s\<lparr>initialised := True\<rparr> in
        if \<not> nonempty (env_lun e) then (False, s1)
        else let path = the (env_lun e) in
          case open_image e path of
            None \<Rightarrow> (False, s1\<lparr>writable := False, lun_image := None\<rparr>)
          | Some (img, w) \<Rightarrow>
              if img = [] then (False, s1\<lparr>writable := w, lun_image := None\<rparr>)
              else let (ok, g) = load_geometry e path (length img);
                       s2 = s1\<lparr>writable := w, image_bytes := length img, geometry := g\<rparr> in
                if ok then (True, bus_free (s2\<lparr>lun_image := Some img\<rparr>)) else (False, s2\<lparr>lun_image := None\<rparr>))"

subsection \<open>Sectors\<close>

definition sector_from_command :: "scsi \<Rightarrow> u32" where
  "sector_from_command s =
     (push_bit 16 (ucast (command s ! 1) AND 0x1F) OR push_bit 8 (ucast (command s ! 2))) OR ucast (command s ! 3)"

text \<open>
  The result tells success; a read past the end of the file inside the last sector yields zeros.
  A transfer on an image that is not open is a fault.
\<close>

definition read_sector :: "u32 \<Rightarrow> scsi \<Rightarrow> (bool \<times> scsi) option" where
  "read_sector sector s =
     (let off = unat sector * 256 in
      if image_bytes s \<le> off then Some (False, s)
      else case lun_image s of None \<Rightarrow> None
      | Some img \<Rightarrow>
         if bad_sector s sector then Some (False, s)
         else let got = seg img off 256 in
           Some (got \<noteq> [], s\<lparr>buffer := got @ replicate (256 - length got) 0\<rparr>))"

definition write_sector :: "u32 \<Rightarrow> scsi \<Rightarrow> (bool \<times> scsi) option" where
  "write_sector sector s =
     (let off = unat sector * 256 in
      if \<not> writable s \<or> image_bytes s < off + 256 then Some (False, s)
      else case lun_image s of None \<Rightarrow> None
      | Some img \<Rightarrow>
         if bad_sector s sector then Some (False, s)
         else Some (True, s\<lparr>lun_image := Some (splice img off (buffer s))\<rparr>))"

subsection \<open>Phases\<close>

definition status_phase :: "bool \<Rightarrow> scsi \<Rightarrow> scsi" where
  "status_phase good s =
     (set_request True (s\<lparr>phase := STATUS, input_phase := True, command_phase := True, message_phase := False\<rparr>))
       \<lparr>status := (if good then 0 else 2), message := 0\<rparr>"

definition read_phase :: "u32 \<Rightarrow> scsi \<Rightarrow> scsi" where
  "read_phase n s =
     (set_request True (s\<lparr>phase := SCSI_READ, input_phase := True, command_phase := False, message_phase := False\<rparr>))
       \<lparr>offset := 0, xfer_length := n, status := 0, message := 0\<rparr>"

text \<open>The data-out phase of WRITE and MODE SELECT, up to the request.\<close>

definition write_phase :: "u32 \<Rightarrow> scsi \<Rightarrow> scsi" where
  "write_phase n s = set_request True (s\<lparr>offset := 0, xfer_length := n, phase := SCSI_WRITE,
     input_phase := False, command_phase := False, message_phase := False\<rparr>)"

definition sense_error :: "u32 \<Rightarrow> scsi \<Rightarrow> scsi" where
  "sense_error sector s = status_phase False (s\<lparr>sense_code := 0x21, sense_sector := sector\<rparr>)"

definition block_count :: "scsi \<Rightarrow> u32" where
  "block_count s = (if command s ! 4 \<noteq> 0 then ucast (command s ! 4) else 256)"

definition request_sense :: "scsi \<Rightarrow> scsi option" where
  "request_sense s = do {
     let allocation = (if command s ! 4 \<noteq> 0 then unat (command s ! 4) else 4);
     let allocation = (if 256 < allocation then 256 else allocation);
     b \<leftarrow> wr_range (buffer s) 0 (replicate allocation 0);
     b \<leftarrow> wr_range b 0 [ucast (sense_code s), byte_of (sense_sector s) 2, byte_of (sense_sector s) 1, byte_of (sense_sector s) 0];
     Some (read_phase (of_nat allocation) (s\<lparr>buffer := b, sense_code := 0, sense_sector := 0, blocks := 1\<rparr>)) }"

definition read6 :: "scsi \<Rightarrow> scsi option" where
  "read6 s = do {
     let sector = sector_from_command s;
     (ok, s1) \<leftarrow> read_sector sector (s\<lparr>blocks := block_count s\<rparr>);
     Some (if \<not> ok then sense_error sector s1
       else read_phase 256 (s1\<lparr>next_sector := sector + 1\<rparr>)) }"

definition write6 :: "scsi \<Rightarrow> scsi" where
  "write6 s = (write_phase 256 (s\<lparr>blocks := block_count s, next_sector := sector_from_command s\<rparr>))\<lparr>status := 0, message := 0\<rparr>"

definition translate :: "scsi \<Rightarrow> scsi option" where
  "translate s = do {
     b \<leftarrow> wr_range (buffer s) 0 [command s ! 3, command s ! 2, command s ! 1 AND 0x1F, 0];
     Some (read_phase 4 (s\<lparr>buffer := b, blocks := 1\<rparr>)) }"

definition mode_sense :: "scsi \<Rightarrow> scsi option" where
  "mode_sense s = do {
     let allocation = (if command s ! 4 \<noteq> 0 then unat (command s ! 4) else 22);
     let allocation = (if 33 < allocation then 33 else allocation);
     g \<leftarrow> rd_range (geometry s) 0 allocation;
     b \<leftarrow> wr_range (buffer s) 0 g;
     Some (read_phase (of_nat allocation) (s\<lparr>buffer := b, blocks := 1\<rparr>)) }"

definition verify10 :: "scsi \<Rightarrow> scsi" where
  "verify10 s =
     (let sector = sector_from_command s in
      if unat sector * 256 < image_bytes s then status_phase True s else sense_error sector s)"

definition execute_command :: "scsi \<Rightarrow> scsi option" where
  "execute_command s =
     (let c = command s ! 0 in
      if c = 0x00 then Some (status_phase (lun_image s \<noteq> None) s)
      else if c = 0x03 then request_sense s
      else if c = 0x08 then read6 s
      else if c = 0x0A then Some (write6 s)
      else if c = 0x0F then translate s
      else if c = 0x15 then Some (write_phase (ucast (command s ! 4)) (s\<lparr>blocks := 1\<rparr>))
      else if c = 0x1A then mode_sense s
      else if c = 0x1B then Some (status_phase True s)
      else if c = 0x2F then Some (verify10 s)
      else Some (status_phase False s))"

subsection \<open>Data register\<close>

definition store_byte :: "bytes \<Rightarrow> u32 \<Rightarrow> u8 \<Rightarrow> bytes" where
  "store_byte b off v = (if unat off < length b then b[unat off := v] else b)"

definition command_byte :: "u8 \<Rightarrow> scsi \<Rightarrow> scsi option" where
  "command_byte v s =
     (let len = (if offset s = 0 \<and> 0x20 \<le> v \<and> v \<le> 0x3F then 10 else xfer_length s);
          s1 = set_request False (s\<lparr>command := store_byte (command s) (offset s) v, offset := offset s + 1, xfer_length := len - 1\<rparr>) in
      if xfer_length s1 = 0 then execute_command s1 else Some s1)"

definition write_block_done :: "scsi \<Rightarrow> scsi option" where
  "write_block_done s = do {
     (ok, s1) \<leftarrow> (if command s ! 0 = 0x0A then do {
          (w, s') \<leftarrow> write_sector (next_sector s) s;
          Some (w, if w then s'\<lparr>next_sector := next_sector s + 1\<rparr> else s') }
        else Some (True, s));
     Some (if \<not> ok then sense_error (next_sector s1) s1
       else let s2 = s1\<lparr>blocks := blocks s1 - 1\<rparr> in
         if blocks s2 = 0 then status_phase True s2
         else set_request True (s2\<lparr>offset := 0, xfer_length := 256\<rparr>)) }"

definition data_out_byte :: "u8 \<Rightarrow> scsi \<Rightarrow> scsi option" where
  "data_out_byte v s =
     (let s1 = set_request False (s\<lparr>buffer := store_byte (buffer s) (offset s) v, offset := offset s + 1, xfer_length := xfer_length s - 1\<rparr>) in
      if xfer_length s1 \<noteq> 0 then Some s1 else write_block_done s1)"

definition write_data :: "u8 \<Rightarrow> scsi \<Rightarrow> scsi option" where
  "write_data v s0 =
     (let s = s0\<lparr>last_write := ucast v\<rparr> in
      case phase s of
        BUS_FREE \<Rightarrow> Some (if selected s then s\<lparr>busy := True, phase := SELECTION\<rparr> else s)
      | SELECTION \<Rightarrow> Some (if \<not> selected s then s\<lparr>phase := COMMAND, input_phase := False, command_phase := True,
            message_phase := False, offset := 0, xfer_length := 6\<rparr> else s)
      | COMMAND \<Rightarrow> command_byte v s
      | SCSI_WRITE \<Rightarrow> data_out_byte v s
      | _ \<Rightarrow> Some (bus_free s))"

text \<open>The last byte of a block was read: status, the next sector, or an error.\<close>

definition read_block_done :: "scsi \<Rightarrow> scsi option" where
  "read_block_done s = do {
     let s1 = s\<lparr>blocks := blocks s - 1\<rparr>;
     if blocks s1 = 0 then Some (status_phase True s1)
     else do {
       (ok, s2) \<leftarrow> read_sector (next_sector s1) (s1\<lparr>next_sector := next_sector s1 + 1\<rparr>);
       Some (if ok then set_request True (s2\<lparr>offset := 0, xfer_length := 256\<rparr>)
         else sense_error (next_sector s2 - 1) s2) } }"

definition data_in_byte :: "scsi \<Rightarrow> (u32 \<times> scsi) option" where
  "data_in_byte s = do {
     v \<leftarrow> rd8 (buffer s) (unat (offset s));
     let s1 = set_request False (s\<lparr>offset := offset s + 1, xfer_length := xfer_length s - 1\<rparr>);
     s2 \<leftarrow> (if xfer_length s1 = 0 then read_block_done s1 else Some s1);
     Some (ucast v, s2) }"

definition read_data :: "scsi \<Rightarrow> (u32 \<times> scsi) option" where
  "read_data s =
     (case phase s of
        STATUS \<Rightarrow> Some (status s, set_request True ((set_request False s)\<lparr>phase := MESSAGE, message_phase := True\<rparr>))
      | MESSAGE \<Rightarrow> Some (message s, bus_free (set_request False s))
      | SCSI_READ \<Rightarrow> data_in_byte s
      | BUS_FREE \<Rightarrow> Some (last_write s, s)
      | _ \<Rightarrow> Some (last_write s, bus_free s))"

subsection \<open>The bus interface\<close>

definition scsi_handles :: "scsi_env \<Rightarrow> u16 \<Rightarrow> scsi \<Rightarrow> bool \<times> scsi" where
  "scsi_handles e address s = (if 0xFC40 \<le> address \<and> address \<le> 0xFC44 then scsi_initialise e s else (False, s))"

definition status_bits :: "scsi \<Rightarrow> u8" where
  "status_bits s = 0x20 OR (if command_phase s then 0x80 else 0) OR (if input_phase s then 0x40 else 0)
     OR (if request s then 0x20 else 0) OR (if scsi_host_irq s then 0x10 else 0)
     OR (if busy s then 0x02 else 0) OR (if message_phase s then 0x01 else 0)"

definition scsi_read :: "u16 \<Rightarrow> scsi \<Rightarrow> (u8 \<times> scsi) option" where
  "scsi_read address s =
     (if address = 0xFC44 then Some (0xFF, s)
      else if address AND 3 = 0 then do { (v, s1) \<leftarrow> read_data s; Some (ucast v, publish_irq s1) }
      else if address AND 3 \<noteq> 1 then Some (0xFF, s)
      else Some (status_bits s, s))"

definition scsi_write :: "u16 \<Rightarrow> u8 \<Rightarrow> scsi \<Rightarrow> scsi option" where
  "scsi_write address v s =
     (if address = 0xFC44 then Some s
      else do {
        s1 \<leftarrow> (if address AND 3 = 0 then write_data v (s\<lparr>selected := True\<rparr>)
          else if address AND 3 = 1 then Some s
          else if address AND 3 = 2 then write_data v (s\<lparr>selected := False\<rparr>)
          else let armed = (v AND 1 \<noteq> 0) in
            Some (s\<lparr>selected := True, irq_armed := armed, irq_pending := (armed \<and> (request s \<or> irq_pending s))\<rparr>));
        Some (publish_irq s1) })"

definition scsi_reset :: "scsi_env \<Rightarrow> scsi \<Rightarrow> scsi" where
  "scsi_reset e s =
     (let (ok, s1) = scsi_initialise e s in
      if \<not> ok then s1
      else publish_irq (bus_free (s1\<lparr>sense_code := 0, sense_sector := 0, irq_armed := False, irq_pending := False\<rparr>)))"

definition set_irq_callback :: "bool \<Rightarrow> scsi \<Rightarrow> scsi" where
  "set_irq_callback registered s = publish_irq (s\<lparr>irq_callback := registered\<rparr>)"

end
