(* ===== verification/Beebscsi_Props.thy ===== *)
theory Beebscsi_Props
  imports Beebscsi
begin

unbundle bit_operations_syntax

section \<open>Properties of the SCSI adapter\<close>

text \<open>
  The invariant of the adapter over all register accesses, and the round trip of sectors through
  the phases of the bus.
\<close>

subsection \<open>What the signal operations touch\<close>

lemma publish_irq_fields [simp]:
  "phase (publish_irq s) = phase s" "selected (publish_irq s) = selected s" "message_phase (publish_irq s) = message_phase s"
  "command_phase (publish_irq s) = command_phase s" "input_phase (publish_irq s) = input_phase s" "busy (publish_irq s) = busy s"
  "request (publish_irq s) = request s" "irq_armed (publish_irq s) = irq_armed s" "irq_pending (publish_irq s) = irq_pending s"
  "command (publish_irq s) = command s" "buffer (publish_irq s) = buffer s" "geometry (publish_irq s) = geometry s"
  "status (publish_irq s) = status s" "message (publish_irq s) = message s" "blocks (publish_irq s) = blocks s"
  "next_sector (publish_irq s) = next_sector s" "offset (publish_irq s) = offset s" "xfer_length (publish_irq s) = xfer_length s"
  "last_write (publish_irq s) = last_write s" "sense_code (publish_irq s) = sense_code s" "sense_sector (publish_irq s) = sense_sector s"
  "lun_image (publish_irq s) = lun_image s" "image_bytes (publish_irq s) = image_bytes s" "writable (publish_irq s) = writable s"
  "initialised (publish_irq s) = initialised s" "irq_callback (publish_irq s) = irq_callback s" "bad_sector (publish_irq s) = bad_sector s"
  by (simp_all add: publish_irq_def Let_def)

lemma set_request_fields [simp]:
  "phase (set_request a s) = phase s" "selected (set_request a s) = selected s" "message_phase (set_request a s) = message_phase s"
  "command_phase (set_request a s) = command_phase s" "input_phase (set_request a s) = input_phase s" "busy (set_request a s) = busy s"
  "irq_armed (set_request a s) = irq_armed s" "command (set_request a s) = command s" "buffer (set_request a s) = buffer s"
  "geometry (set_request a s) = geometry s" "status (set_request a s) = status s" "message (set_request a s) = message s"
  "blocks (set_request a s) = blocks s" "next_sector (set_request a s) = next_sector s" "offset (set_request a s) = offset s"
  "xfer_length (set_request a s) = xfer_length s" "last_write (set_request a s) = last_write s" "sense_code (set_request a s) = sense_code s"
  "sense_sector (set_request a s) = sense_sector s" "lun_image (set_request a s) = lun_image s" "image_bytes (set_request a s) = image_bytes s"
  "writable (set_request a s) = writable s" "initialised (set_request a s) = initialised s" "irq_callback (set_request a s) = irq_callback s"
  "bad_sector (set_request a s) = bad_sector s"
  by (simp_all add: set_request_def)

lemma bus_free_fields [simp]:
  "irq_armed (bus_free s) = irq_armed s" "command (bus_free s) = command s" "buffer (bus_free s) = buffer s"
  "geometry (bus_free s) = geometry s" "status (bus_free s) = status s" "message (bus_free s) = message s"
  "blocks (bus_free s) = blocks s" "next_sector (bus_free s) = next_sector s" "offset (bus_free s) = offset s"
  "xfer_length (bus_free s) = xfer_length s" "last_write (bus_free s) = last_write s" "sense_code (bus_free s) = sense_code s"
  "sense_sector (bus_free s) = sense_sector s" "lun_image (bus_free s) = lun_image s" "image_bytes (bus_free s) = image_bytes s"
  "writable (bus_free s) = writable s" "initialised (bus_free s) = initialised s" "irq_callback (bus_free s) = irq_callback s"
  "bad_sector (bus_free s) = bad_sector s"
  by (simp_all add: bus_free_def)

lemma status_phase_fields [simp]:
  "selected (status_phase a s) = selected s" "busy (status_phase a s) = busy s" "irq_armed (status_phase a s) = irq_armed s"
  "command (status_phase a s) = command s" "buffer (status_phase a s) = buffer s" "geometry (status_phase a s) = geometry s"
  "blocks (status_phase a s) = blocks s" "next_sector (status_phase a s) = next_sector s" "offset (status_phase a s) = offset s"
  "xfer_length (status_phase a s) = xfer_length s" "last_write (status_phase a s) = last_write s" "sense_code (status_phase a s) = sense_code s"
  "sense_sector (status_phase a s) = sense_sector s" "lun_image (status_phase a s) = lun_image s" "image_bytes (status_phase a s) = image_bytes s"
  "writable (status_phase a s) = writable s" "initialised (status_phase a s) = initialised s" "irq_callback (status_phase a s) = irq_callback s"
  "bad_sector (status_phase a s) = bad_sector s"
  by (simp_all add: status_phase_def)

lemma read_phase_fields [simp]:
  "selected (read_phase n s) = selected s" "busy (read_phase n s) = busy s" "irq_armed (read_phase n s) = irq_armed s"
  "command (read_phase n s) = command s" "buffer (read_phase n s) = buffer s" "geometry (read_phase n s) = geometry s"
  "blocks (read_phase n s) = blocks s" "next_sector (read_phase n s) = next_sector s" "last_write (read_phase n s) = last_write s"
  "sense_code (read_phase n s) = sense_code s" "sense_sector (read_phase n s) = sense_sector s" "lun_image (read_phase n s) = lun_image s"
  "image_bytes (read_phase n s) = image_bytes s" "writable (read_phase n s) = writable s" "initialised (read_phase n s) = initialised s"
  "irq_callback (read_phase n s) = irq_callback s" "bad_sector (read_phase n s) = bad_sector s"
  by (simp_all add: read_phase_def)

lemma write_phase_fields [simp]:
  "selected (write_phase n s) = selected s" "busy (write_phase n s) = busy s" "irq_armed (write_phase n s) = irq_armed s"
  "command (write_phase n s) = command s" "buffer (write_phase n s) = buffer s" "geometry (write_phase n s) = geometry s"
  "status (write_phase n s) = status s" "message (write_phase n s) = message s" "blocks (write_phase n s) = blocks s"
  "next_sector (write_phase n s) = next_sector s" "last_write (write_phase n s) = last_write s" "sense_code (write_phase n s) = sense_code s"
  "sense_sector (write_phase n s) = sense_sector s" "lun_image (write_phase n s) = lun_image s" "image_bytes (write_phase n s) = image_bytes s"
  "writable (write_phase n s) = writable s" "initialised (write_phase n s) = initialised s" "irq_callback (write_phase n s) = irq_callback s"
  "bad_sector (write_phase n s) = bad_sector s"
  by (simp_all add: write_phase_def)

lemma phase_results [simp]:
  "phase (bus_free s) = BUS_FREE" "phase (status_phase a s) = STATUS" "phase (read_phase n s) = SCSI_READ"
  "phase (write_phase n s) = SCSI_WRITE" "offset (read_phase n s) = 0" "xfer_length (read_phase n s) = n"
  "offset (write_phase n s) = 0" "xfer_length (write_phase n s) = n" "status (status_phase a s) = (if a then 0 else 2)"
  "message (status_phase a s) = 0"
  by (simp_all add: bus_free_def status_phase_def read_phase_def write_phase_def)

lemma sense_error_fields [simp]:
  "phase (sense_error n s) = STATUS" "status (sense_error n s) = 2" "message (sense_error n s) = 0" "sense_code (sense_error n s) = 0x21"
  "sense_sector (sense_error n s) = n" "lun_image (sense_error n s) = lun_image s" "image_bytes (sense_error n s) = image_bytes s"
  "command (sense_error n s) = command s" "buffer (sense_error n s) = buffer s" "geometry (sense_error n s) = geometry s"
  "initialised (sense_error n s) = initialised s" "bad_sector (sense_error n s) = bad_sector s" "writable (sense_error n s) = writable s"
  by (simp_all add: sense_error_def)

subsection \<open>The invariant\<close>

text \<open>
  The buffers have their C sizes, the mounted file keeps the size measured when it was mounted, the
  published interrupt level is the real one, and a data-in phase has between one and 256 bytes left,
  all inside the sector buffer.
\<close>

definition irq_ok :: "scsi \<Rightarrow> bool" where
  "irq_ok s \<longleftrightarrow> published_irq s = scsi_host_irq s"

definition sizes_ok :: "scsi \<Rightarrow> bool" where
  "sizes_ok s \<longleftrightarrow> length (command s) = 10 \<and> length (buffer s) = 256 \<and> length (geometry s) = 33 \<and>
     initialised s \<and> (\<exists>img. lun_image s = Some img \<and> length img = image_bytes s)"

definition data_in_ok :: "scsi \<Rightarrow> bool" where
  "data_in_ok s \<longleftrightarrow> (phase s = SCSI_READ \<longrightarrow> xfer_length s \<noteq> 0 \<and> unat (offset s) + unat (xfer_length s) \<le> 256)"

definition scsi_inv :: "scsi \<Rightarrow> bool" where
  "scsi_inv s \<longleftrightarrow> irq_ok s \<and> sizes_ok s \<and> data_in_ok s"

lemma irq_ok_publish [simp]: "irq_ok (publish_irq s)"
  by (simp add: irq_ok_def publish_irq_def scsi_host_irq_def Let_def)

lemma irq_ok_phases [simp]:
  "irq_ok (set_request a s)" "irq_ok (bus_free s)" "irq_ok (status_phase a s)" "irq_ok (read_phase n s)"
  "irq_ok (write_phase n s)" "irq_ok (sense_error n s)"
proof -
  show r: "irq_ok (set_request a s)" for a s by (simp add: set_request_def)
  show "irq_ok (bus_free s)" using r [of False] by (simp add: bus_free_def irq_ok_def scsi_host_irq_def)
  show st: "irq_ok (status_phase a s)" for a s using r [of True] by (simp add: status_phase_def irq_ok_def scsi_host_irq_def)
  show "irq_ok (read_phase n s)" using r [of True] by (simp add: read_phase_def irq_ok_def scsi_host_irq_def)
  show "irq_ok (write_phase n s)" by (simp add: write_phase_def r)
  show "irq_ok (sense_error n s)" by (simp add: sense_error_def st)
qed

lemma u32_step:
  "unat (x :: u32) < 1000 \<Longrightarrow> unat (x + 1) = unat x + 1"
  "x \<noteq> 0 \<Longrightarrow> unat (x - 1) = unat x - 1"
proof -
  show "unat x < 1000 \<Longrightarrow> unat (x + 1) = unat x + 1" by (simp add: unat_word_ariths)
  show "x \<noteq> 0 \<Longrightarrow> unat (x - 1) = unat x - 1" by (rule unat_minus_one)
qed

lemma sizes_ok_phases [simp]:
  "sizes_ok (publish_irq s) = sizes_ok s" "sizes_ok (set_request a s) = sizes_ok s" "sizes_ok (bus_free s) = sizes_ok s"
  "sizes_ok (status_phase a s) = sizes_ok s" "sizes_ok (read_phase n s) = sizes_ok s" "sizes_ok (write_phase n s) = sizes_ok s"
  "sizes_ok (sense_error n s) = sizes_ok s"
  by (simp_all add: sizes_ok_def)

lemma sizes_ok_updates [simp]:
  "sizes_ok (s\<lparr>phase := x0\<rparr>) = sizes_ok s" "sizes_ok (s\<lparr>selected := x1\<rparr>) = sizes_ok s" "sizes_ok (s\<lparr>message_phase := x2\<rparr>) = sizes_ok s"
  "sizes_ok (s\<lparr>command_phase := x3\<rparr>) = sizes_ok s" "sizes_ok (s\<lparr>input_phase := x4\<rparr>) = sizes_ok s" "sizes_ok (s\<lparr>busy := x5\<rparr>) = sizes_ok s"
  "sizes_ok (s\<lparr>request := x6\<rparr>) = sizes_ok s" "sizes_ok (s\<lparr>irq_armed := x7\<rparr>) = sizes_ok s" "sizes_ok (s\<lparr>irq_pending := x8\<rparr>) = sizes_ok s"
  "sizes_ok (s\<lparr>status := x9\<rparr>) = sizes_ok s" "sizes_ok (s\<lparr>message := x10\<rparr>) = sizes_ok s" "sizes_ok (s\<lparr>blocks := x11\<rparr>) = sizes_ok s"
  "sizes_ok (s\<lparr>next_sector := x12\<rparr>) = sizes_ok s" "sizes_ok (s\<lparr>offset := x13\<rparr>) = sizes_ok s" "sizes_ok (s\<lparr>xfer_length := x14\<rparr>) = sizes_ok s"
  "sizes_ok (s\<lparr>last_write := x15\<rparr>) = sizes_ok s" "sizes_ok (s\<lparr>sense_code := x16\<rparr>) = sizes_ok s" "sizes_ok (s\<lparr>sense_sector := x17\<rparr>) = sizes_ok s"
  "sizes_ok (s\<lparr>writable := x18\<rparr>) = sizes_ok s" "sizes_ok (s\<lparr>irq_callback := x20\<rparr>) = sizes_ok s"
  "sizes_ok (s\<lparr>published_irq := x21\<rparr>) = sizes_ok s" "sizes_ok (s\<lparr>irq_calls := x22\<rparr>) = sizes_ok s" "sizes_ok (s\<lparr>bad_sector := x23\<rparr>) = sizes_ok s"
  by (simp_all add: sizes_ok_def)

lemma irq_ok_updates [simp]:
  "irq_ok (s\<lparr>phase := x0\<rparr>) = irq_ok s" "irq_ok (s\<lparr>selected := x1\<rparr>) = irq_ok s" "irq_ok (s\<lparr>message_phase := x2\<rparr>) = irq_ok s"
  "irq_ok (s\<lparr>command_phase := x3\<rparr>) = irq_ok s" "irq_ok (s\<lparr>input_phase := x4\<rparr>) = irq_ok s" "irq_ok (s\<lparr>busy := x5\<rparr>) = irq_ok s"
  "irq_ok (s\<lparr>request := x6\<rparr>) = irq_ok s" "irq_ok (s\<lparr>irq_armed := x7\<rparr>) = irq_ok s" "irq_ok (s\<lparr>command := x8\<rparr>) = irq_ok s"
  "irq_ok (s\<lparr>buffer := x9\<rparr>) = irq_ok s" "irq_ok (s\<lparr>geometry := x10\<rparr>) = irq_ok s" "irq_ok (s\<lparr>status := x11\<rparr>) = irq_ok s"
  "irq_ok (s\<lparr>message := x12\<rparr>) = irq_ok s" "irq_ok (s\<lparr>blocks := x13\<rparr>) = irq_ok s" "irq_ok (s\<lparr>next_sector := x14\<rparr>) = irq_ok s"
  "irq_ok (s\<lparr>offset := x15\<rparr>) = irq_ok s" "irq_ok (s\<lparr>xfer_length := x16\<rparr>) = irq_ok s" "irq_ok (s\<lparr>last_write := x17\<rparr>) = irq_ok s"
  "irq_ok (s\<lparr>sense_code := x18\<rparr>) = irq_ok s" "irq_ok (s\<lparr>sense_sector := x19\<rparr>) = irq_ok s" "irq_ok (s\<lparr>image_bytes := x20\<rparr>) = irq_ok s"
  "irq_ok (s\<lparr>writable := x21\<rparr>) = irq_ok s" "irq_ok (s\<lparr>initialised := x22\<rparr>) = irq_ok s" "irq_ok (s\<lparr>irq_callback := x23\<rparr>) = irq_ok s"
  "irq_ok (s\<lparr>irq_calls := x24\<rparr>) = irq_ok s" "irq_ok (s\<lparr>bad_sector := x25\<rparr>) = irq_ok s"
  by (simp_all add: irq_ok_def scsi_host_irq_def)

lemma data_in_ok_updates [simp]:
  "data_in_ok (s\<lparr>selected := x0\<rparr>) = data_in_ok s" "data_in_ok (s\<lparr>message_phase := x1\<rparr>) = data_in_ok s" "data_in_ok (s\<lparr>command_phase := x2\<rparr>) = data_in_ok s"
  "data_in_ok (s\<lparr>input_phase := x3\<rparr>) = data_in_ok s" "data_in_ok (s\<lparr>busy := x4\<rparr>) = data_in_ok s" "data_in_ok (s\<lparr>request := x5\<rparr>) = data_in_ok s"
  "data_in_ok (s\<lparr>irq_armed := x6\<rparr>) = data_in_ok s" "data_in_ok (s\<lparr>irq_pending := x7\<rparr>) = data_in_ok s" "data_in_ok (s\<lparr>command := x8\<rparr>) = data_in_ok s"
  "data_in_ok (s\<lparr>buffer := x9\<rparr>) = data_in_ok s" "data_in_ok (s\<lparr>geometry := x10\<rparr>) = data_in_ok s" "data_in_ok (s\<lparr>status := x11\<rparr>) = data_in_ok s"
  "data_in_ok (s\<lparr>message := x12\<rparr>) = data_in_ok s" "data_in_ok (s\<lparr>blocks := x13\<rparr>) = data_in_ok s" "data_in_ok (s\<lparr>next_sector := x14\<rparr>) = data_in_ok s"
  "data_in_ok (s\<lparr>last_write := x15\<rparr>) = data_in_ok s" "data_in_ok (s\<lparr>sense_code := x16\<rparr>) = data_in_ok s" "data_in_ok (s\<lparr>sense_sector := x17\<rparr>) = data_in_ok s"
  "data_in_ok (s\<lparr>lun_image := x18\<rparr>) = data_in_ok s" "data_in_ok (s\<lparr>image_bytes := x19\<rparr>) = data_in_ok s" "data_in_ok (s\<lparr>writable := x20\<rparr>) = data_in_ok s"
  "data_in_ok (s\<lparr>initialised := x21\<rparr>) = data_in_ok s" "data_in_ok (s\<lparr>irq_callback := x22\<rparr>) = data_in_ok s" "data_in_ok (s\<lparr>published_irq := x23\<rparr>) = data_in_ok s"
  "data_in_ok (s\<lparr>irq_calls := x24\<rparr>) = data_in_ok s" "data_in_ok (s\<lparr>bad_sector := x25\<rparr>) = data_in_ok s"
  by (simp_all add: data_in_ok_def)

lemma data_in_ok_phases [simp]:
  "data_in_ok (publish_irq s) = data_in_ok s" "data_in_ok (set_request a s) = data_in_ok s" "data_in_ok (bus_free s)"
  "data_in_ok (status_phase a s)" "data_in_ok (write_phase n s)" "data_in_ok (sense_error n s)"
  "data_in_ok (read_phase n s) \<longleftrightarrow> n \<noteq> 0 \<and> unat n \<le> 256"
  by (simp_all add: data_in_ok_def)

lemma read_sector_total:
  assumes "sizes_ok s"
  shows "\<exists>ok s'. read_sector n s = Some (ok, s') \<and> sizes_ok s' \<and>
    s' = s\<lparr>buffer := buffer s'\<rparr>"
proof -
  obtain img where "lun_image s = Some img" "length img = image_bytes s" using assms by (auto simp: sizes_ok_def)
  then show ?thesis using assms by (auto simp: read_sector_def sizes_ok_def Let_def seg_def)
qed

lemma write_sector_total:
  assumes "sizes_ok s"
  shows "\<exists>ok s'. write_sector n s = Some (ok, s') \<and> sizes_ok s' \<and> s' = s\<lparr>lun_image := lun_image s'\<rparr>"
proof -
  obtain img where "lun_image s = Some img" "length img = image_bytes s" using assms by (auto simp: sizes_ok_def)
  then show ?thesis using assms by (auto simp: write_sector_def sizes_ok_def Let_def)
qed

lemma wr_range_total: "length b \<le> length w \<Longrightarrow> \<exists>w'. wr_range w 0 b = Some w' \<and> length w' = length w"
  by simp

lemma unat_of_small: "n < 1000 \<Longrightarrow> unat (of_nat n :: u32) = n"
  by (simp add: unat_of_nat)

lemma read_phase_small: "0 < n \<Longrightarrow> n \<le> 256 \<Longrightarrow> data_in_ok (read_phase (of_nat n) s)"
  using unat_of_small [of n] by (auto simp: unat_eq_0 [symmetric] simp del: unat_eq_0)

lemma request_sense_inv: "sizes_ok s \<Longrightarrow> \<exists>s'. request_sense s = Some s' \<and> scsi_inv s'"
proof -
  assume s: "sizes_ok s"
  let ?n = "if command s ! 4 \<noteq> 0 then unat (command s ! 4) else 4"
  have n: "0 < ?n" "?n \<le> 255" using unsigned_less [of "command s ! 4", where ?'a = nat] by (auto simp: unat_gt_0)
  define n where "n = ?n"
  have "n \<le> 255" "\<not> 256 < n" "data_in_ok (read_phase (of_nat n) t)" for t
    using n by (auto simp only: n_def intro!: read_phase_small)
  then show ?thesis using s
    by (simp only: request_sense_def Let_def scsi_inv_def n_def [symmetric] if_False) (simp add: sizes_ok_def)
qed

lemma mode_sense_inv: "sizes_ok s \<Longrightarrow> \<exists>s'. mode_sense s = Some s' \<and> scsi_inv s'"
proof -
  assume s: "sizes_ok s"
  let ?n = "if command s ! 4 \<noteq> 0 then unat (command s ! 4) else 22"
  let ?m = "if 33 < ?n then 33 else ?n"
  have "0 < ?n" by (auto simp: unat_gt_0)
  then have "data_in_ok (read_phase (of_nat ?m) t)" for t by (intro read_phase_small) auto
  moreover have "?m \<le> 33" by simp
  ultimately show ?thesis using s by (simp only: mode_sense_def Let_def scsi_inv_def) (simp add: sizes_ok_def)
qed

lemma read6_inv: "sizes_ok s \<Longrightarrow> \<exists>s'. read6 s = Some s' \<and> scsi_inv s'"
  using read_sector_total [of "s\<lparr>blocks := block_count s\<rparr>" "sector_from_command s"]
  by (auto simp: read6_def scsi_inv_def Let_def)

lemma translate_inv: "sizes_ok s \<Longrightarrow> \<exists>s'. translate s = Some s' \<and> scsi_inv s'"
  by (simp add: translate_def scsi_inv_def sizes_ok_def)

lemma execute_command_inv: "sizes_ok s \<Longrightarrow> \<exists>s'. execute_command s = Some s' \<and> scsi_inv s'"
  using request_sense_inv [of s] mode_sense_inv [of s] read6_inv [of s] translate_inv [of s]
  by (simp add: execute_command_def Let_def scsi_inv_def write6_def verify10_def)

lemma length_store_byte [simp]: "length (store_byte b i v) = length b"
  by (simp add: store_byte_def)

lemma command_byte_inv: "sizes_ok s \<Longrightarrow> phase s = COMMAND \<Longrightarrow> \<exists>s'. command_byte v s = Some s' \<and> scsi_inv s'"
  by (simp add: command_byte_def Let_def, intro conjI impI execute_command_inv)
    (simp_all add: scsi_inv_def data_in_ok_def, simp_all add: sizes_ok_def)

lemma write_block_done_inv:
  assumes "sizes_ok s" "phase s = SCSI_WRITE" shows "\<exists>s'. write_block_done s = Some s' \<and> scsi_inv s'"
proof -
  obtain ok s1 where w: "write_sector (next_sector s) s = Some (ok, s1)" "sizes_ok s1" "s1 = s\<lparr>lun_image := lun_image s1\<rparr>"
    using write_sector_total [OF assms(1)] by blast
  then have "phase s1 = SCSI_WRITE" using assms(2) by (metis scsi.select_convs(1) scsi.surjective scsi.update_convs(22))
  then show ?thesis using assms w(1, 2)
    by (cases "command s ! 0 = 0x0A") (auto simp: write_block_done_def scsi_inv_def Let_def data_in_ok_def)
qed

lemma data_out_byte_inv: "sizes_ok s \<Longrightarrow> phase s = SCSI_WRITE \<Longrightarrow> \<exists>s'. data_out_byte v s = Some s' \<and> scsi_inv s'"
  by (simp add: data_out_byte_def Let_def, intro conjI impI write_block_done_inv)
    (simp_all add: scsi_inv_def data_in_ok_def, simp_all add: sizes_ok_def)

lemma write_data_inv:
  assumes "scsi_inv s" shows "\<exists>s'. write_data v s = Some s' \<and> scsi_inv s'"
proof -
  note i = assms [unfolded scsi_inv_def]
  let ?s = "s\<lparr>last_write := ucast v\<rparr>"
  have "sizes_ok ?s" using i by simp
  then show ?thesis using i command_byte_inv [of ?s v] data_out_byte_inv [of ?s v]
    by (cases "phase s") (auto simp: write_data_def Let_def scsi_inv_def, auto simp: data_in_ok_def)
qed

lemma read_block_done_inv:
  assumes "sizes_ok s" shows "\<exists>s'. read_block_done s = Some s' \<and> scsi_inv s'"
proof -
  let ?s = "s\<lparr>blocks := blocks s - 1, next_sector := next_sector s + 1\<rparr>"
  obtain ok s1 where "read_sector (next_sector s) ?s = Some (ok, s1)" "sizes_ok s1"
    using read_sector_total [of ?s "next_sector s"] assms by auto
  then show ?thesis using assms by (auto simp: read_block_done_def scsi_inv_def Let_def data_in_ok_def)
qed

lemma data_in_byte_inv:
  assumes "scsi_inv s" "phase s = SCSI_READ" shows "\<exists>v s'. data_in_byte s = Some (v, s') \<and> scsi_inv s'"
proof -
  note i = assms [unfolded scsi_inv_def data_in_ok_def]
  let ?s = "set_request False (s\<lparr>offset := offset s + 1, xfer_length := xfer_length s - 1\<rparr>)"
  have l: "0 < unat (xfer_length s)" using i by (simp add: unat_gt_0)
  then have o: "unat (offset s) < 256" using i by simp
  from o l have "data_in_ok ?s" if "xfer_length s - 1 \<noteq> 0" using i that u32_step [of "offset s"] u32_step(2) [of "xfer_length s"]
    by (auto simp: data_in_ok_def)
  moreover have "sizes_ok ?s" using i by simp
  ultimately show ?thesis using read_block_done_inv [of ?s] i o
    by (auto simp: data_in_byte_def Let_def scsi_inv_def sizes_ok_def)
qed

lemma read_data_inv:
  assumes "scsi_inv s" shows "\<exists>v s'. read_data s = Some (v, s') \<and> scsi_inv s'"
  using assms data_in_byte_inv [OF assms]
  by (cases "phase s") (simp_all add: read_data_def, simp_all add: scsi_inv_def, simp_all add: data_in_ok_def)

lemma scsi_read_inv: "scsi_inv s \<Longrightarrow> \<exists>v s'. scsi_read a s = Some (v, s') \<and> scsi_inv s'"
  using read_data_inv [of s] by (auto simp: scsi_read_def scsi_inv_def)

lemma scsi_write_inv:
  assumes "scsi_inv s" shows "\<exists>s'. scsi_write a v s = Some s' \<and> scsi_inv s'"
proof -
  have i: "scsi_inv (s\<lparr>selected := b\<rparr>)" for b using assms by (simp add: scsi_inv_def)
  show ?thesis using write_data_inv [OF i, of v True] write_data_inv [OF i, of v False] assms
    by (auto simp: scsi_write_def scsi_inv_def Let_def)
qed

lemma scsi_reset_inv: "scsi_inv s \<Longrightarrow> scsi_inv (scsi_reset e s)"
  by (auto simp: scsi_reset_def scsi_initialise_def scsi_inv_def sizes_ok_def Let_def)

subsection \<open>Driving the adapter\<close>

datatype scsi_op = Scsi_Read u16 | Scsi_Write u16 u8 | Scsi_Reset scsi_env | Scsi_Callback bool

fun scsi_exec :: "scsi_op \<Rightarrow> scsi \<Rightarrow> scsi option" where
  "scsi_exec (Scsi_Read a) s = do { (v, s') \<leftarrow> scsi_read a s; Some s' }"
| "scsi_exec (Scsi_Write a v) s = scsi_write a v s"
| "scsi_exec (Scsi_Reset e) s = Some (scsi_reset e s)"
| "scsi_exec (Scsi_Callback b) s = Some (set_irq_callback b s)"

lemma scsi_exec_safe: "scsi_inv s \<Longrightarrow> \<exists>s'. scsi_exec op s = Some s' \<and> scsi_inv s'"
proof (cases op)
  case (Scsi_Read a) then show "scsi_inv s \<Longrightarrow> ?thesis" using scsi_read_inv [of s a] by auto
next
  case (Scsi_Callback b) then show "scsi_inv s \<Longrightarrow> ?thesis" by (simp add: set_irq_callback_def scsi_inv_def)
qed (simp_all add: scsi_write_inv scsi_reset_inv)

interpretation sc: safe_component scsi_exec "\<lambda>_. True" scsi_inv
  by unfold_locales (rule scsi_exec_safe)

definition scsi_zero :: "(u32 \<Rightarrow> bool) \<Rightarrow> scsi" where
  "scsi_zero bad = \<lparr>phase = BUS_FREE, selected = False, message_phase = False, command_phase = False, input_phase = False,
     busy = False, request = False, irq_armed = False, irq_pending = False, command = replicate 10 0, buffer = replicate 256 0,
     geometry = replicate 33 0, status = 0, message = 0, blocks = 0, next_sector = 0, offset = 0, xfer_length = 0, last_write = 0,
     sense_code = 0, sense_sector = 0, lun_image = None, image_bytes = 0, writable = False, initialised = False,
     irq_callback = False, published_irq = False, irq_calls = 0, bad_sector = bad\<rparr>"

lemma length_load_geometry: "load_geometry e path n = (ok, g) \<Longrightarrow> length g = 33"
  by (auto simp: load_geometry_def default_geometry_def Let_def split: option.splits prod.splits if_splits)

lemma mount_inv:
  assumes "scsi_initialise e (scsi_zero bad) = (True, s)"
  shows "scsi_inv s \<and> phase s = BUS_FREE \<and> image_bytes s \<noteq> 0"
proof -
  have "\<not> initialised (scsi_zero bad)" by (simp add: scsi_zero_def)
  with assms obtain img w g where m: "img \<noteq> []" "load_geometry e (the (env_lun e)) (length img) = (True, g)"
    "s = bus_free ((scsi_zero bad)\<lparr>initialised := True, writable := w, image_bytes := length img, geometry := g, lun_image := Some img\<rparr>)"
    by (auto simp: scsi_initialise_def Let_def split: if_splits option.splits prod.splits)
  then show ?thesis using length_load_geometry [OF m(2)]
    by (simp add: scsi_inv_def sizes_ok_def scsi_zero_def)
qed

text \<open>C18: Once a LUN is mounted, no sequence of register accesses, resets and callback registrations makes
  the adapter read outside its sector buffer, transfer through a closed image or change the size of
  the image file; and after every operation the interrupt level last published to the host emulator
  is the level the status register shows.\<close>

theorem scsi_ops_safe:
  assumes "scsi_initialise e (scsi_zero bad) = (True, s)"
  shows "\<exists>s'. run_ops scsi_exec ops s = Some s' \<and> published_irq s' = scsi_host_irq s' \<and>
    (\<exists>img. lun_image s' = Some img \<and> length img = image_bytes s')"
  using sc.run_safe [of s ops] mount_inv [OF assms] by (auto simp: list_all_iff scsi_inv_def irq_ok_def sizes_ok_def)

definition demo_env :: scsi_env where
  "demo_env = \<lparr>env_lun = Some ''lun/scsi0.dat'', env_read_only = None, env_dsc = None,
     env_file = [''lun/scsi0.dat'' \<mapsto> (replicate 1024 0xE5, True)], env_malloc = True, env_close = True\<rparr>"

definition demo_lun :: scsi where
  "demo_lun = snd (scsi_initialise demo_env (scsi_zero (\<lambda>_. False)))"

lemma demo_mounted: "scsi_initialise demo_env (scsi_zero (\<lambda>_. False)) = (True, demo_lun)"
  by (simp add: scsi_initialise_def demo_lun_def demo_env_def scsi_zero_def nonempty_def open_image_def load_geometry_def
      geometry_path_def derived_geometry_def Let_def)

lemma demo_fields: "lun_image demo_lun = Some (replicate 1024 0xE5)" "image_bytes demo_lun = 1024" "writable demo_lun"
    "bad_sector demo_lun n = False"
  by (simp_all add: scsi_initialise_def demo_lun_def demo_env_def scsi_zero_def nonempty_def open_image_def load_geometry_def
      geometry_path_def derived_geometry_def Let_def)

theorem scsi_ops_safe_witness:
  "\<exists>s'. run_ops scsi_exec [Scsi_Write 0xFC40 1, Scsi_Write 0xFC42 0, Scsi_Read 0xFC41, Scsi_Write 0xFC43 1] demo_lun = Some s' \<and>
     published_irq s' = scsi_host_irq s'"
  using scsi_ops_safe [OF demo_mounted, of "[Scsi_Write 0xFC40 1, Scsi_Write 0xFC42 0, Scsi_Read 0xFC41, Scsi_Write 0xFC43 1]"]
  by blast

subsection \<open>Commands over the bus\<close>

text \<open>The host selects the target, sends the command bytes and moves data through the data register.\<close>

abbreviation data_put :: "scsi \<Rightarrow> u8 \<Rightarrow> scsi option" where
  "data_put s v \<equiv> scsi_write 0xFC40 v s"

abbreviation data_get :: "scsi \<Rightarrow> (u8 \<times> scsi) option" where
  "data_get s \<equiv> scsi_read 0xFC40 s"

definition scsi_command :: "bytes \<Rightarrow> scsi \<Rightarrow> scsi option" where
  "scsi_command cdb s = do { s1 \<leftarrow> scsi_write 0xFC40 1 s; s2 \<leftarrow> scsi_write 0xFC42 0 s1; enq_all data_put cdb s2 }"

definition core :: "scsi \<Rightarrow> bytes option \<times> nat \<times> bool \<times> (u32 \<Rightarrow> bool) \<times> u32 \<times> u32 \<times> bytes \<times> bool" where
  "core s = (lun_image s, image_bytes s, writable s, bad_sector s, sense_code s, sense_sector s, geometry s, initialised s)"

lemma core_simps [simp]: "core (publish_irq s) = core s" "core (set_request a s) = core s" "core (bus_free s) = core s"
  "core (status_phase a s) = core s" "core (read_phase n s) = core s" "core (write_phase n s) = core s"
  by (simp_all add: core_def)

lemma data_address: "(0xFC40 :: u16) AND 3 = 0" "(0xFC42 :: u16) AND 3 = 2"
  by code_simp+

lemma publish_irq_id: "irq_ok s \<Longrightarrow> publish_irq s = s"
  by (simp add: irq_ok_def publish_irq_def scsi_host_irq_def)

lemma command_more:
  assumes "phase s = COMMAND" "offset s = of_nat k" "xfer_length s = of_nat (Suc (Suc n))" "k + Suc (Suc n) \<le> 10"
    "length (command s) = 10" "k = 0 \<longrightarrow> \<not> (0x20 \<le> v \<and> v \<le> 0x3F)"
  shows "\<exists>s'. data_put s v = Some s' \<and> phase s' = COMMAND \<and> offset s' = of_nat (Suc k) \<and> xfer_length s' = of_nat (Suc n) \<and>
    command s' = (command s)[k := v] \<and> core s' = core s \<and> buffer s' = buffer s"
proof -
  have k: "unat (of_nat k :: u32) = k" "of_nat k = (0 :: u32) \<longleftrightarrow> k = 0" using assms(4)
    by (auto simp: unat_of_nat word_of_nat_eq_0_iff dest: dvd_imp_le)
  have "(1 + word_of_nat n :: u32) \<noteq> 0"
    using assms(4) word_of_nat_eq_0_iff [of "Suc n", where ?'a = 32] by (auto dest: dvd_imp_le)
  then show ?thesis using assms k
    by (simp add: scsi_write_def data_address write_data_def command_byte_def Let_def store_byte_def core_def) blast
qed

lemma command_last:
  assumes "phase s = COMMAND" "offset s = of_nat k" "xfer_length s = 1" "0 < k" "k < 10" "sizes_ok s"
  shows "\<exists>s'. data_put s v = execute_command s' \<and> command s' = (command s)[k := v] \<and> core s' = core s \<and> sizes_ok s'"
proof -
  let ?s = "set_request False (s\<lparr>selected := True, last_write := ucast v, command := (command s)[k := v], offset := of_nat k + 1, xfer_length := 0\<rparr>)"
  have k: "unat (of_nat k :: u32) = k" "of_nat k \<noteq> (0 :: u32)" using assms(4, 5) by (auto simp: unat_of_nat word_of_nat_eq_0_iff dest: dvd_imp_le)
  have z: "sizes_ok ?s" "core ?s = core s" using assms(6) by (simp_all add: sizes_ok_def core_def)
  obtain s2 where e: "execute_command ?s = Some s2" "scsi_inv s2" using execute_command_inv [OF z(1)] by blast
  have "data_put s v = execute_command ?s" using assms k e
    by (simp add: scsi_write_def data_address write_data_def command_byte_def Let_def store_byte_def scsi_inv_def publish_irq_id sizes_ok_def)
  then show ?thesis using z by auto
qed

lemma command_bytes:
  assumes "phase s = COMMAND" "offset s = of_nat k" "xfer_length s = of_nat (length vs)" "1 < k + length vs" "k + length vs \<le> 10" "sizes_ok s"
    "vs \<noteq> []" "k = 0 \<longrightarrow> \<not> (0x20 \<le> hd vs \<and> hd vs \<le> 0x3F)"
  shows "\<exists>s'. enq_all data_put vs s = execute_command s' \<and> command s' = splice (command s) k vs \<and> core s' = core s \<and> sizes_ok s'"
  using assms
proof (induction vs arbitrary: s k)
  case (Cons v vs)
  have l: "length (command s) = 10" "k < 10" using Cons.prems by (auto simp: sizes_ok_def)
  show ?case
  proof (cases vs)
    case Nil
    then obtain s' where "data_put s v = execute_command s'" "command s' = (command s)[k := v]" "core s' = core s" "sizes_ok s'"
      using command_last [of s k v] Cons.prems l by auto
    moreover have "(command s)[k := v] = splice (command s) k [v]" using l by (simp add: splice_def upd_conv_take_nth_drop)
    ultimately show ?thesis using Nil by (intro exI [of _ s']) (simp split: bind_split)
  next
    case (Cons w ws)
    obtain s1 where s1: "data_put s v = Some s1" "phase s1 = COMMAND" "offset s1 = of_nat (Suc k)" "xfer_length s1 = of_nat (Suc (length ws))"
      "command s1 = (command s)[k := v]" "core s1 = core s" "buffer s1 = buffer s"
      using command_more [of s k "length ws" v] Cons.prems Cons l by auto
    have "sizes_ok s1" using Cons.prems(6) s1(5-7) by (auto simp: sizes_ok_def core_def)
    with Cons.IH [of s1 "Suc k"] s1 Cons.prems Cons
    obtain s' where "enq_all data_put vs s1 = execute_command s'" "command s' = splice (command s1) (Suc k) vs" "core s' = core s1" "sizes_ok s'"
      by auto
    moreover have "splice ((command s)[k := v]) (Suc k) vs = splice (command s) k (v # vs)"
      using l Cons.prems(5) by (simp add: splice_def take_Suc_conv_app_nth [of k "(command s)[k := v]"] drop_update_cancel)
    ultimately show ?thesis using s1 by auto
  qed
qed simp

lemma six_byte_command:
  assumes "scsi_inv s" "phase s = BUS_FREE" "length cdb = 6" "\<not> (0x20 \<le> hd cdb \<and> hd cdb \<le> 0x3F)"
  shows "\<exists>s'. scsi_command cdb s = execute_command s' \<and> take 6 (command s') = cdb \<and> core s' = core s \<and> sizes_ok s'"
proof -
  let ?s1 = "publish_irq (s\<lparr>selected := True, last_write := 1, busy := True, phase := SELECTION\<rparr>)"
  let ?s2 = "publish_irq (?s1\<lparr>selected := False, last_write := 0, phase := COMMAND, input_phase := False, command_phase := True,
    message_phase := False, offset := 0, xfer_length := 6\<rparr>)"
  have w: "scsi_write 0xFC40 1 s = Some ?s1" "scsi_write 0xFC42 0 ?s1 = Some ?s2"
    using assms(2) by (simp_all add: scsi_write_def data_address write_data_def Let_def)
  have c: "core ?s2 = core s" "command ?s2 = command s" "sizes_ok ?s2" using assms(1) by (simp_all add: core_def scsi_inv_def)
  have "\<exists>s'. enq_all data_put cdb ?s2 = execute_command s' \<and> command s' = splice (command ?s2) 0 cdb \<and> core s' = core ?s2 \<and> sizes_ok s'"
    using c(3) assms(3, 4) by (intro command_bytes) auto
  then show ?thesis using w c assms(3) by (auto simp: scsi_command_def splice_def)
qed

lemma small_word_bits: "unat (x :: u32) < 2 ^ n \<Longrightarrow> bit x i \<Longrightarrow> i < n"
proof -
  assume "unat x < 2 ^ n" "bit x i"
  then have "take_bit n x = x" by (simp add: word_unat_eq_iff unsigned_take_bit_eq take_bit_nat_eq_self)
  then show "i < n" using \<open>bit x i\<close> by (metis bit_take_bit_iff)
qed

lemma sector_bytes:
  assumes "unat (sec :: u32) < 0x200000" "take 6 (command s) = [op, byte_of sec 2, byte_of sec 1, byte_of sec 0, n, c]"
  shows "sector_from_command s = sec" "command s ! 0 = op" "command s ! 4 = n"
proof -
  have nth: "command s ! i = [op, byte_of sec 2, byte_of sec 1, byte_of sec 0, n, c] ! i" if "i < 6" for i
    using that by (subst assms(2) [symmetric]) simp
  show "command s ! 0 = op" "command s ! 4 = n" using nth [of 0] nth [of 4] by simp_all
  have b: "command s ! 1 = byte_of sec 2" "command s ! 2 = byte_of sec 1" "command s ! 3 = byte_of sec 0"
    using nth [of 1] nth [of 2] nth [of 3] by simp_all
  have hi: "bit sec i \<Longrightarrow> i < 21" for i using small_word_bits [of sec 21 i] assms(1) by simp
  have m: "(0x1F :: u32) = mask 5" by code_simp
  show "sector_from_command s = sec"
    unfolding sector_from_command_def b m
    by (rule bit_word_eqI) (auto simp: byte_of_def bit_simps dest: hi)
qed

subsection \<open>Data in\<close>

text \<open>What stays fixed while one sector moves.\<close>

definition frame :: "scsi \<Rightarrow> scsi_phase \<times> bytes \<times> u32 \<times> u32" where
  "frame s = (phase s, command s, blocks s, next_sector s)"

lemma byte_u32_byte [simp]: "ucast (ucast b :: u32) = (b :: u8)"
  by (rule bit_word_eqI) (auto simp: bit_simps)

lemma data_in_more:
  assumes "phase s = SCSI_READ" "offset s = of_nat k" "xfer_length s = of_nat (Suc (Suc n))" "k + Suc (Suc n) \<le> 256" "length (buffer s) = 256"
  shows "\<exists>s'. data_get s = Some (buffer s ! k, s') \<and> offset s' = of_nat (Suc k) \<and> xfer_length s' = of_nat (Suc n) \<and>
    frame s' = frame s \<and> core s' = core s \<and> buffer s' = buffer s"
proof -
  have k: "unat (of_nat k :: u32) = k" using assms(4) by (simp add: unat_of_nat)
  have "(1 + word_of_nat n :: u32) \<noteq> 0"
    using assms(4) word_of_nat_eq_0_iff [of "Suc n", where ?'a = 32] by (auto dest: dvd_imp_le)
  then show ?thesis using assms k
    by (simp add: scsi_read_def data_address read_data_def data_in_byte_def Let_def core_def frame_def)
qed

lemma data_in_run:
  assumes "phase s = SCSI_READ" "offset s = of_nat k" "xfer_length s = of_nat (Suc n)" "k + Suc n \<le> 256" "length (buffer s) = 256"
  shows "\<exists>s'. deq_n data_get n s = Some (seg (buffer s) k n, s') \<and> offset s' = of_nat (k + n) \<and> xfer_length s' = 1 \<and>
    frame s' = frame s \<and> core s' = core s \<and> buffer s' = buffer s"
  using assms
proof (induction n arbitrary: s k)
  case (Suc n)
  obtain s1 where s1: "data_get s = Some (buffer s ! k, s1)" "offset s1 = of_nat (Suc k)" "xfer_length s1 = of_nat (Suc n)"
    "frame s1 = frame s" "core s1 = core s" "buffer s1 = buffer s"
    using data_in_more [OF Suc.prems(1, 2) _ _ Suc.prems(5), of n] Suc.prems by auto
  then show ?case using Suc.IH [of s1 "Suc k"] Suc.prems by (auto simp: frame_def seg_Suc)
qed simp

lemma data_in_all:
  assumes "phase s = SCSI_READ" "offset s = 0" "xfer_length s = of_nat (Suc k)" "Suc k \<le> 256" "sizes_ok s"
  shows "\<exists>s'. deq_n data_get (Suc k) s = map_option (\<lambda>t. (take (Suc k) (buffer s), t)) (read_block_done s') \<and>
    frame s' = frame s \<and> core s' = core s \<and> sizes_ok s'"
proof -
  have l: "length (buffer s) = 256" using assms(5) by (simp add: sizes_ok_def)
  obtain s1 where s1: "deq_n data_get k s = Some (take k (buffer s), s1)" "offset s1 = of_nat k" "xfer_length s1 = 1"
    "frame s1 = frame s" "core s1 = core s" "buffer s1 = buffer s"
    using data_in_run [of s 0 k] assms l by (auto simp: seg_def)
  let ?s = "set_request False (s1\<lparr>offset := of_nat k + 1, xfer_length := 0\<rparr>)"
  have z: "sizes_ok ?s" using s1(4-6) assms(5) by (auto simp: sizes_ok_def core_def frame_def)
  obtain s2 where s2: "read_block_done ?s = Some s2" "scsi_inv s2" using read_block_done_inv [OF z] by blast
  have "unat (of_nat k :: u32) = k" using assms(4) by (simp add: unat_of_nat)
  then have g: "data_get s1 = Some (buffer s ! k, s2)" using s1(2-6) s2 l assms(1, 4)
    by (simp add: scsi_read_def data_address read_data_def data_in_byte_def Let_def frame_def scsi_inv_def publish_irq_id)
  have "deq_n data_get (k + 1) s = Some (take (Suc k) (buffer s), s2)"
    unfolding deq_n_add using g l assms(4) by (simp add: s1(1) take_Suc_conv_app_nth)
  then show ?thesis using s2 z s1(4, 5) by (intro exI [of _ ?s]) (simp add: frame_def core_def)
qed

lemma sector_in:
  assumes "phase s = SCSI_READ" "offset s = 0" "xfer_length s = 256" "sizes_ok s"
  shows "\<exists>s'. deq_n data_get 256 s = map_option (\<lambda>t. (buffer s, t)) (read_block_done s') \<and> frame s' = frame s \<and> core s' = core s \<and> sizes_ok s'"
  using data_in_all [OF assms(1, 2) _ _ assms(4), of 255] assms(3, 4) by (simp add: sizes_ok_def)

lemma status_bytes:
  assumes "phase s = STATUS" "irq_ok s" "message s = 0"
  shows "\<exists>s'. deq_n data_get 2 s = Some ([ucast (status s), 0], s') \<and> phase s' = BUS_FREE \<and> core s' = core s \<and> command s' = command s \<and>
    buffer s' = buffer s \<and> irq_ok s'"
  using assms unfolding numeral_2_eq_2
  by (simp add: scsi_read_def data_address read_data_def publish_irq_id bus_free_def [symmetric] core_def)

lemma read_sector_good:
  assumes "lun_image s = Some img" "image_bytes s = length img" "unat sec * 256 + 256 \<le> length img" "\<not> bad_sector s sec"
  shows "read_sector sec s = Some (True, s\<lparr>buffer := seg img (unat sec * 256) 256\<rparr>)"
proof -
  have "length (seg img (unat sec * 256) 256) = 256" using assms(3) by simp
  then have "seg img (unat sec * 256) 256 \<noteq> []" by (metis list.size(3) zero_neq_numeral)
  with \<open>length _ = _\<close> show ?thesis using assms by (auto simp: read_sector_def Let_def)
qed

lemma sectors_in:
  assumes "phase s = SCSI_READ" "offset s = 0" "xfer_length s = 256" "sizes_ok s" "lun_image s = Some img"
    "buffer s = seg img (unat sec * 256) 256" "blocks s = of_nat (Suc n)" "next_sector s = sec + 1"
    "n < 256" "unat sec + n < 0x300000" "(unat sec + Suc n) * 256 \<le> length img"
    "\<forall>i \<le> n. \<not> bad_sector s (sec + of_nat i)"
  shows "\<exists>s'. deq_n data_get (256 * Suc n) s = Some (seg img (unat sec * 256) (256 * Suc n), s') \<and>
    phase s' = STATUS \<and> status s' = 0 \<and> message s' = 0 \<and> core s' = core s \<and> scsi_inv s'"
  using assms
proof (induction n arbitrary: s sec)
  case 0
  obtain s' where s': "deq_n data_get 256 s = map_option (\<lambda>t. (buffer s, t)) (read_block_done s')" "frame s' = frame s" "core s' = core s" "sizes_ok s'"
    using sector_in [OF 0(1-4)] by blast
  moreover have "read_block_done s' = Some (status_phase True (s'\<lparr>blocks := 0\<rparr>))"
    using s'(2) 0(7) by (simp add: read_block_done_def frame_def)
  ultimately show ?case using 0(6) by (simp add: scsi_inv_def) (simp add: core_def)
next
  case (Suc n)
  obtain s' where s': "deq_n data_get 256 s = map_option (\<lambda>t. (buffer s, t)) (read_block_done s')" "frame s' = frame s" "core s' = core s" "sizes_ok s'"
    using sector_in [OF Suc.prems(1-4)] by blast
  have u: "unat (sec + 1) = unat sec + 1" using Suc.prems(10) by (simp add: unat_word_ariths)
  let ?t = "s'\<lparr>blocks := of_nat (Suc n), next_sector := sec + 1 + 1\<rparr>"
  have c: "lun_image s' = Some img" "image_bytes s' = length img" "bad_sector s' = bad_sector s"
    using s'(3, 4) Suc.prems(4, 5) by (auto simp: core_def sizes_ok_def)
  have "\<not> bad_sector s (sec + 1)" using Suc.prems(12) [rule_format, of 1] by simp
  then have r: "read_sector (sec + 1) ?t = Some (True, ?t\<lparr>buffer := seg img (unat (sec + 1) * 256) 256\<rparr>)"
    using c u Suc.prems(11) by (intro read_sector_good) simp_all
  let ?t2 = "set_request True (?t\<lparr>buffer := seg img (unat (sec + 1) * 256) 256, offset := 0, xfer_length := 256\<rparr>)"
  have nz: "(1 + word_of_nat n :: u32) \<noteq> 0" using Suc.prems(9) word_of_nat_eq_0_iff [of "Suc n", where ?'a = 32] by (auto dest: dvd_imp_le)
  have d: "read_block_done s' = Some ?t2"
    using s'(2) Suc.prems(7, 8) r nz by (simp add: read_block_done_def frame_def)
  have "length (seg img (unat (sec + 1) * 256) 256) = 256" using u Suc.prems(11) by simp
  then have z: "sizes_ok ?t2" using s'(4) by (simp add: sizes_ok_def)
  have core2: "core ?t2 = core s" using s'(3) by (simp add: core_def)
  have "\<exists>s''. deq_n data_get (256 * Suc n) ?t2 = Some (seg img (unat (sec + 1) * 256) (256 * Suc n), s'') \<and>
    phase s'' = STATUS \<and> status s'' = 0 \<and> message s'' = 0 \<and> core s'' = core ?t2 \<and> scsi_inv s''"
  proof (rule Suc.IH)
    show "\<forall>i \<le> n. \<not> bad_sector ?t2 (sec + 1 + of_nat i)"
      using Suc.prems(12) [rule_format, of "Suc _"] c(3) by (simp add: ac_simps)
  qed (use z s'(2) c u Suc.prems in \<open>simp_all add: frame_def\<close>)
  then obtain s'' where s'': "deq_n data_get (256 * Suc n) ?t2 = Some (seg img (unat (sec + 1) * 256) (256 * Suc n), s'')"
    "phase s'' = STATUS" "status s'' = 0" "message s'' = 0" "core s'' = core ?t2" "scsi_inv s''" by blast
  have "seg img (unat sec * 256) (256 * Suc (Suc n)) = buffer s @ seg img (unat (sec + 1) * 256) (256 * Suc n)"
    using seg_add [of img "unat sec * 256" 256 "256 * Suc n"] Suc.prems(6) u by (simp add: algebra_simps)
  moreover have "deq_n data_get (256 + 256 * Suc n) s = Some (buffer s @ seg img (unat (sec + 1) * 256) (256 * Suc n), s'')"
    unfolding deq_n_add using s'(1) d s''(1) by simp
  moreover have "256 * Suc (Suc n) = 256 + 256 * Suc n" by simp
  ultimately show ?case using s''(2-6) core2 by metis
qed


subsection \<open>Data out\<close>

lemma data_out_more:
  assumes "phase s = SCSI_WRITE" "offset s = of_nat k" "xfer_length s = of_nat (Suc (Suc n))" "k + Suc (Suc n) \<le> 256" "length (buffer s) = 256"
  shows "\<exists>s'. data_put s v = Some s' \<and> offset s' = of_nat (Suc k) \<and> xfer_length s' = of_nat (Suc n) \<and>
    frame s' = frame s \<and> core s' = core s \<and> buffer s' = (buffer s)[k := v]"
proof -
  have k: "unat (of_nat k :: u32) = k" using assms(4) by (simp add: unat_of_nat)
  have "(1 + word_of_nat n :: u32) \<noteq> 0"
    using assms(4) word_of_nat_eq_0_iff [of "Suc n", where ?'a = 32] by (auto dest: dvd_imp_le)
  then show ?thesis using assms k
    by (simp add: scsi_write_def data_address write_data_def data_out_byte_def Let_def core_def frame_def store_byte_def)
qed

lemma data_out_run:
  assumes "phase s = SCSI_WRITE" "offset s = of_nat k" "xfer_length s = of_nat (Suc (length vs))" "k + Suc (length vs) \<le> 256" "length (buffer s) = 256"
  shows "\<exists>s'. enq_all data_put vs s = Some s' \<and> offset s' = of_nat (k + length vs) \<and> xfer_length s' = 1 \<and>
    frame s' = frame s \<and> core s' = core s \<and> buffer s' = splice (buffer s) k vs"
  using assms
proof (induction vs arbitrary: s k)
  case Nil then show ?case by (simp add: splice_def)
next
  case (Cons v vs)
  obtain s1 where s1: "data_put s v = Some s1" "offset s1 = of_nat (Suc k)" "xfer_length s1 = of_nat (Suc (length vs))"
    "frame s1 = frame s" "core s1 = core s" "buffer s1 = (buffer s)[k := v]"
    using data_out_more [OF Cons.prems(1, 2) _ _ Cons.prems(5), of "length vs" v] Cons.prems by auto
  have "splice ((buffer s)[k := v]) (Suc k) vs = splice (buffer s) k (v # vs)"
    using Cons.prems(4, 5) by (simp add: splice_def take_Suc_conv_app_nth [of k "(buffer s)[k := v]"] drop_update_cancel)
  then show ?case using Cons.IH [of s1 "Suc k"] s1 Cons.prems by (auto simp: frame_def)
qed

lemma sector_out:
  assumes "phase s = SCSI_WRITE" "offset s = 0" "xfer_length s = 256" "sizes_ok s" "length d = 256"
  shows "\<exists>s'. enq_all data_put d s = write_block_done s' \<and> frame s' = frame s \<and> core s' = core s \<and> sizes_ok s' \<and> buffer s' = d"
proof -
  have l: "length (buffer s) = 256" using assms(4) by (simp add: sizes_ok_def)
  obtain d0 v where d: "d = d0 @ [v]" "length d0 = 255" using assms(5) by (cases d rule: rev_cases) auto
  obtain s1 where s1: "enq_all data_put d0 s = Some s1" "offset s1 = 255" "xfer_length s1 = 1"
    "frame s1 = frame s" "core s1 = core s" "buffer s1 = splice (buffer s) 0 d0"
    using data_out_run [of s 0 d0] assms d l by auto
  let ?s = "set_request False (s1\<lparr>selected := True, last_write := ucast v, buffer := d, offset := 256, xfer_length := 0\<rparr>)"
  have b: "(splice (buffer s) 0 d0)[255 := v] = d" using d l by (simp add: splice_def list_update_append Cons_nth_drop_Suc [symmetric])
  have z: "sizes_ok ?s" "phase ?s = SCSI_WRITE" using s1(4-6) assms by (auto simp: sizes_ok_def core_def frame_def)
  obtain s2 where s2: "write_block_done ?s = Some s2" "scsi_inv s2" using write_block_done_inv [OF z] by blast
  have "data_put s1 v = Some s2" using s1(2-6) s2 l d b assms(1)
    by (simp add: scsi_write_def data_address write_data_def data_out_byte_def Let_def frame_def store_byte_def scsi_inv_def publish_irq_id unat_of_nat)
  then show ?thesis using s1 s2 d z by (intro exI [of _ ?s]) (simp add: enq_all_append frame_def core_def)
qed


lemma write_sector_good:
  assumes "lun_image s = Some img" "image_bytes s = length img" "unat sec * 256 + 256 \<le> length img" "\<not> bad_sector s sec" "writable s"
  shows "write_sector sec s = Some (True, s\<lparr>lun_image := Some (splice img (unat sec * 256) (buffer s))\<rparr>)"
  using assms by (simp add: write_sector_def Let_def)

text \<open>The state once \<open>img\<close> has been written through to the end.\<close>

definition written :: "bytes \<Rightarrow> scsi \<Rightarrow> scsi \<Rightarrow> bool" where
  "written img s s' \<longleftrightarrow> phase s' = STATUS \<and> status s' = 0 \<and> message s' = 0 \<and> lun_image s' = Some img \<and>
     bad_sector s' = bad_sector s \<and> scsi_inv s'"

lemma sectors_out:
  assumes "phase s = SCSI_WRITE" "offset s = 0" "xfer_length s = 256" "sizes_ok s" "lun_image s = Some img" "writable s"
    "command s ! 0 = 0x0A" "blocks s = of_nat (Suc n)" "next_sector s = sec" "length d = 256 * Suc n"
    "n < 256" "unat sec + n < 0x300000" "(unat sec + Suc n) * 256 \<le> length img"
    "\<forall>i \<le> n. \<not> bad_sector s (sec + of_nat i)"
  shows "\<exists>s'. enq_all data_put d s = Some s' \<and> written (splice img (unat sec * 256) d) s s'"
  using assms
proof (induction n arbitrary: s sec d img)
  case 0
  obtain s1 where s1: "enq_all data_put d s = write_block_done s1" "frame s1 = frame s" "core s1 = core s" "sizes_ok s1" "buffer s1 = d"
    using sector_out [OF 0(1-4), of d] 0(10) by auto
  have c: "lun_image s1 = Some img" "image_bytes s1 = length img" "writable s1" "bad_sector s1 = bad_sector s"
    using s1(3, 4) 0(5, 6) by (auto simp: core_def sizes_ok_def)
  have w: "write_sector sec s1 = Some (True, s1\<lparr>lun_image := Some (splice img (unat sec * 256) d)\<rparr>)"
    using write_sector_good [OF c(1, 2) _ _ c(3), of sec] c(4) 0(13, 14) s1(5) by simp
  have "write_block_done s1 = Some (status_phase True (s1\<lparr>lun_image := Some (splice img (unat sec * 256) d), next_sector := sec + 1, blocks := 0\<rparr>))"
    using s1(2) w 0(7-9) by (simp add: write_block_done_def frame_def Let_def)
  then show ?case using s1 c 0(10, 13) by (simp add: written_def scsi_inv_def) (simp add: sizes_ok_def)
next
  case (Suc n)
  let ?d1 = "take 256 d" and ?d2 = "drop 256 d" and ?img = "splice img (unat sec * 256) (take 256 d)"
  have ld: "length ?d1 = 256" "length ?d2 = 256 * Suc n" using Suc.prems(10) by simp_all
  obtain s1 where s1: "enq_all data_put ?d1 s = write_block_done s1" "frame s1 = frame s" "core s1 = core s" "sizes_ok s1" "buffer s1 = ?d1"
    using sector_out [OF Suc.prems(1-4) ld(1)] by blast
  have u: "unat (sec + 1) = unat sec + 1" using Suc.prems(12) by (simp add: unat_word_ariths)
  have c: "lun_image s1 = Some img" "image_bytes s1 = length img" "writable s1" "bad_sector s1 = bad_sector s"
    using s1(3, 4) Suc.prems(5, 6) by (auto simp: core_def sizes_ok_def)
  have "\<not> bad_sector s sec" using Suc.prems(14) [rule_format, of 0] by simp
  then have w: "write_sector sec s1 = Some (True, s1\<lparr>lun_image := Some ?img\<rparr>)"
    using write_sector_good [OF c(1, 2) _ _ c(3), of sec] c(4) Suc.prems(13) s1(5) by simp
  let ?t = "set_request True (s1\<lparr>lun_image := Some ?img, next_sector := sec + 1, blocks := of_nat (Suc n), offset := 0, xfer_length := 256\<rparr>)"
  have nz: "(1 + word_of_nat n :: u32) \<noteq> 0" using Suc.prems(11) word_of_nat_eq_0_iff [of "Suc n", where ?'a = 32] by (auto dest: dvd_imp_le)
  have done1: "write_block_done s1 = Some ?t"
    using s1(2) w nz Suc.prems(7-9) by (simp add: write_block_done_def frame_def Let_def)
  have li: "length ?img = length img" using ld(1) Suc.prems(13) by (intro length_splice) simp
  have z: "sizes_ok ?t" using s1(4) c(2) li by (simp add: sizes_ok_def)
  have "\<exists>s'. enq_all data_put ?d2 ?t = Some s' \<and> written (splice ?img (unat (sec + 1) * 256) ?d2) ?t s'"
  proof (rule Suc.IH)
    show "\<forall>i \<le> n. \<not> bad_sector ?t (sec + 1 + of_nat i)"
      using Suc.prems(14) [rule_format, of "Suc _"] c(4) by (simp add: ac_simps)
    show "(unat (sec + 1) + Suc n) * 256 \<le> length ?img" using li u Suc.prems(13) by simp
  qed (use z s1(2) c u ld Suc.prems in \<open>simp_all add: frame_def\<close>)
  moreover have "splice ?img (unat (sec + 1) * 256) ?d2 = splice img (unat sec * 256) d"
    using splice_append [of "unat sec * 256" ?d1 ?d2 img] ld u Suc.prems(13) by (simp add: algebra_simps)
  moreover have "bad_sector ?t = bad_sector s" using c(4) by simp
  ultimately show ?case using s1(1) done1 enq_all_append [of data_put ?d1 ?d2 s] by (auto simp: written_def)
qed

subsection \<open>Whole transfers\<close>

definition transfer_blocks :: "u8 \<Rightarrow> nat" where
  "transfer_blocks n = (if n = 0 then 256 else unat n)"

lemma block_count_blocks: "command s ! 4 = n \<Longrightarrow> block_count s = of_nat (transfer_blocks n)"
  by (simp add: block_count_def transfer_blocks_def)

lemma transfer_blocks_bounds: "\<exists>m. transfer_blocks n = Suc m \<and> m < 256"
  using unsigned_less [of n, where ?'a = nat] by (cases "unat n") (auto simp: transfer_blocks_def unat_eq_0)

abbreviation rw_cdb :: "u8 \<Rightarrow> u32 \<Rightarrow> u8 \<Rightarrow> bytes" where
  "rw_cdb op sec n \<equiv> [op, byte_of sec 2, byte_of sec 1, byte_of sec 0, n, 0]"

lemma read_transfer:
  assumes "scsi_inv s" "phase s = BUS_FREE" "lun_image s = Some img" "unat sec < 0x200000"
    "(unat sec + transfer_blocks n) * 256 \<le> length img" "\<forall>i < transfer_blocks n. \<not> bad_sector s (sec + of_nat i)"
  shows "\<exists>s1 s2. scsi_command (rw_cdb 0x08 sec n) s = Some s1 \<and>
    deq_n data_get (256 * transfer_blocks n + 2) s1 = Some (seg img (unat sec * 256) (256 * transfer_blocks n) @ [0, 0], s2) \<and>
    phase s2 = BUS_FREE \<and> core s2 = core s"
proof -
  obtain m where m: "transfer_blocks n = Suc m" "m < 256" using transfer_blocks_bounds by blast
  obtain s1 where s1: "scsi_command (rw_cdb 0x08 sec n) s = execute_command s1" "take 6 (command s1) = rw_cdb 0x08 sec n" "core s1 = core s" "sizes_ok s1"
    using six_byte_command [OF assms(1, 2), of "rw_cdb 0x08 sec n"] by auto
  note cmd = sector_bytes [OF assms(4) s1(2)]
  have c: "lun_image s1 = Some img" "image_bytes s1 = length img" "bad_sector s1 = bad_sector s"
    using s1(3, 4) assms(3) by (auto simp: core_def sizes_ok_def)
  let ?t = "read_phase 256 (s1\<lparr>blocks := of_nat (Suc m), buffer := seg img (unat sec * 256) 256, next_sector := sec + 1\<rparr>)"
  have "read_sector sec (s1\<lparr>blocks := of_nat (Suc m)\<rparr>) = Some (True, s1\<lparr>blocks := of_nat (Suc m), buffer := seg img (unat sec * 256) 256\<rparr>)"
    using c assms(5) assms(6) [rule_format, of 0] m by (intro read_sector_good) simp_all
  then have e: "execute_command s1 = Some ?t" using cmd block_count_blocks [OF cmd(3)] m
    by (simp add: execute_command_def read6_def Let_def)
  have "length (seg img (unat sec * 256) 256) = 256" using assms(5) m by simp
  then have "sizes_ok ?t" using s1(4) by (simp add: sizes_ok_def)
  then have "\<exists>s'. deq_n data_get (256 * Suc m) ?t = Some (seg img (unat sec * 256) (256 * Suc m), s') \<and>
    phase s' = STATUS \<and> status s' = 0 \<and> message s' = 0 \<and> core s' = core ?t \<and> scsi_inv s'"
    using c assms(4-6) m by (intro sectors_in) auto
  then obtain s2 where s2: "deq_n data_get (256 * Suc m) ?t = Some (seg img (unat sec * 256) (256 * Suc m), s2)"
    "phase s2 = STATUS" "status s2 = 0" "message s2 = 0" "core s2 = core ?t" "scsi_inv s2" by blast
  obtain s3 where s3: "deq_n data_get 2 s2 = Some ([0, 0], s3)" "phase s3 = BUS_FREE" "core s3 = core s2"
    using status_bytes [of s2] s2 by (auto simp: scsi_inv_def)
  have "core ?t = core s" using s1(3) by (simp add: core_def)
  moreover have "deq_n data_get (256 * Suc m + 2) ?t = Some (seg img (unat sec * 256) (256 * Suc m) @ [0, 0], s3)"
    unfolding deq_n_add using s2(1) s3(1) by simp
  ultimately show ?thesis using s1(1) e s2(5) s3 unfolding m(1) by metis
qed

lemma write_transfer:
  assumes "scsi_inv s" "phase s = BUS_FREE" "lun_image s = Some img" "writable s" "unat sec < 0x200000"
    "(unat sec + transfer_blocks n) * 256 \<le> length img" "\<forall>i < transfer_blocks n. \<not> bad_sector s (sec + of_nat i)"
    "length d = 256 * transfer_blocks n"
  shows "\<exists>s1 s2 s3. scsi_command (rw_cdb 0x0A sec n) s = Some s1 \<and> enq_all data_put d s1 = Some s2 \<and>
    deq_n data_get 2 s2 = Some ([0, 0], s3) \<and> phase s3 = BUS_FREE \<and> scsi_inv s3 \<and>
    lun_image s3 = Some (splice img (unat sec * 256) d) \<and> bad_sector s3 = bad_sector s"
proof -
  obtain m where m: "transfer_blocks n = Suc m" "m < 256" using transfer_blocks_bounds by blast
  obtain s1 where s1: "scsi_command (rw_cdb 0x0A sec n) s = execute_command s1" "take 6 (command s1) = rw_cdb 0x0A sec n" "core s1 = core s" "sizes_ok s1"
    using six_byte_command [OF assms(1, 2), of "rw_cdb 0x0A sec n"] by auto
  note cmd = sector_bytes [OF assms(5) s1(2)]
  have c: "lun_image s1 = Some img" "writable s1" "bad_sector s1 = bad_sector s"
    using s1(3, 4) assms(3, 4) by (auto simp: core_def sizes_ok_def)
  let ?t = "(write_phase 256 (s1\<lparr>blocks := of_nat (Suc m), next_sector := sec\<rparr>))\<lparr>status := 0, message := 0\<rparr>"
  have e: "execute_command s1 = Some ?t" using cmd block_count_blocks [OF cmd(3)] m
    by (simp add: execute_command_def write6_def Let_def)
  have "\<exists>s'. enq_all data_put d ?t = Some s' \<and> written (splice img (unat sec * 256) d) ?t s'"
    using c assms(5-8) m cmd(2) s1(4) by (intro sectors_out) auto
  then obtain s2 where s2: "enq_all data_put d ?t = Some s2" "written (splice img (unat sec * 256) d) ?t s2" by blast
  then obtain s3 where s3: "deq_n data_get 2 s2 = Some ([0, 0], s3)" "phase s3 = BUS_FREE" "core s3 = core s2"
    "command s3 = command s2" "buffer s3 = buffer s2" "irq_ok s3"
    using status_bytes [of s2] by (auto simp: written_def scsi_inv_def)
  have "scsi_inv s3" using s2(2) s3 by (auto simp: written_def scsi_inv_def core_def sizes_ok_def data_in_ok_def)
  then show ?thesis using s1(1) e s2 s3 c(3) by (auto simp: written_def core_def)
qed

subsection \<open>The block device behind the bus\<close>

text \<open>C17: The adapter is a block device: a WRITE(6) command for one to 256 sectors, with its data sent byte by
  byte, ends with good status and stores the data at the sectors' place in the image and nowhere
  else; a READ(6) command for the same sectors then returns exactly those bytes, good status, and a
  free bus.\<close>

theorem sector_roundtrip:
  assumes "scsi_inv s" "phase s = BUS_FREE" "lun_image s = Some img" "writable s" "unat sec < 0x200000"
    "(unat sec + transfer_blocks n) * 256 \<le> length img" "\<forall>i < transfer_blocks n. \<not> bad_sector s (sec + of_nat i)"
    "length d = 256 * transfer_blocks n"
  shows "\<exists>s1 s2 s3 s4 s5. scsi_command (rw_cdb 0x0A sec n) s = Some s1 \<and> enq_all data_put d s1 = Some s2 \<and>
    deq_n data_get 2 s2 = Some ([0, 0], s3) \<and> lun_image s3 = Some (splice img (unat sec * 256) d) \<and>
    scsi_command (rw_cdb 0x08 sec n) s3 = Some s4 \<and>
    deq_n data_get (256 * transfer_blocks n + 2) s4 = Some (d @ [0, 0], s5) \<and> phase s5 = BUS_FREE"
proof -
  obtain s1 s2 s3 where w: "scsi_command (rw_cdb 0x0A sec n) s = Some s1" "enq_all data_put d s1 = Some s2"
    "deq_n data_get 2 s2 = Some ([0, 0], s3)" "phase s3 = BUS_FREE" "scsi_inv s3"
    "lun_image s3 = Some (splice img (unat sec * 256) d)" "bad_sector s3 = bad_sector s"
    using write_transfer [OF assms] by blast
  have fits: "unat sec * 256 + length d \<le> length img" using assms(6, 8) by (simp add: algebra_simps)
  then have "(unat sec + transfer_blocks n) * 256 \<le> length (splice img (unat sec * 256) d)" using assms(6) by simp
  from read_transfer [OF w(5, 4, 6) assms(5) this] w(7) assms(7) obtain s4 s5 where
    "scsi_command (rw_cdb 0x08 sec n) s3 = Some s4" "phase s5 = BUS_FREE"
    "deq_n data_get (256 * transfer_blocks n + 2) s4 =
       Some (seg (splice img (unat sec * 256) d) (unat sec * 256) (256 * transfer_blocks n) @ [0, 0], s5)" by auto
  moreover have "seg (splice img (unat sec * 256) d) (unat sec * 256) (256 * transfer_blocks n) = d"
    using fits assms(8) by (intro seg_splice) simp_all
  ultimately show ?thesis using w by metis
qed

lemma demo_ready: "scsi_inv demo_lun" "phase demo_lun = BUS_FREE"
  using mount_inv [OF demo_mounted] by simp_all

theorem sector_roundtrip_witness:
  "\<exists>s1 s2 s3 s4 s5. scsi_command (rw_cdb 0x0A 1 2) demo_lun = Some s1 \<and> enq_all data_put (replicate 512 0x42) s1 = Some s2 \<and>
    deq_n data_get 2 s2 = Some ([0, 0], s3) \<and>
    lun_image s3 = Some (splice (replicate 1024 0xE5) 256 (replicate 512 0x42)) \<and>
    scsi_command (rw_cdb 0x08 1 2) s3 = Some s4 \<and>
    deq_n data_get 514 s4 = Some (replicate 512 0x42 @ [0, 0], s5) \<and> phase s5 = BUS_FREE"
  using sector_roundtrip [OF demo_ready demo_fields(1, 3), of 1 2 "replicate 512 0x42"]
  by (simp add: transfer_blocks_def demo_fields)

subsection \<open>Errors\<close>

text \<open>A READ(6) that starts past the end of the image, or at a sector the file system cannot deliver, is
  refused: the target goes straight to a check-condition status (02) without a data phase, and the
  REQUEST SENSE that follows reports error 21 with the sector's number, once.\<close>

theorem read_error_sensed:
  assumes "scsi_inv s" "phase s = BUS_FREE" "unat sec < 0x200000" "image_bytes s \<le> unat sec * 256 \<or> bad_sector s sec"
  shows "\<exists>s1 s2 s3 s4. scsi_command (rw_cdb 0x08 sec n) s = Some s1 \<and> deq_n data_get 2 s1 = Some ([2, 0], s2) \<and>
    scsi_command [0x03, 0, 0, 0, 4, 0] s2 = Some s3 \<and>
    deq_n data_get 6 s3 = Some ([0x21, byte_of sec 2, byte_of sec 1, byte_of sec 0, 0, 0], s4) \<and>
    phase s4 = BUS_FREE \<and> sense_code s4 = 0 \<and> lun_image s4 = lun_image s"
proof -
  obtain s1 where s1: "scsi_command (rw_cdb 0x08 sec n) s = execute_command s1" "take 6 (command s1) = rw_cdb 0x08 sec n" "core s1 = core s" "sizes_ok s1"
    using six_byte_command [OF assms(1, 2), of "rw_cdb 0x08 sec n"] by auto
  note cmd = sector_bytes [OF assms(3) s1(2)]
  have c: "image_bytes s1 = image_bytes s" "bad_sector s1 = bad_sector s" "lun_image s1 \<noteq> None" "lun_image s1 = lun_image s"
    using s1(3, 4) by (auto simp: core_def sizes_ok_def)
  let ?t = "sense_error sec (s1\<lparr>blocks := block_count s1\<rparr>)"
  have "read_sector sec (s1\<lparr>blocks := block_count s1\<rparr>) = Some (False, s1\<lparr>blocks := block_count s1\<rparr>)"
    using assms(4) c by (auto simp: read_sector_def Let_def split: option.splits)
  then have e: "execute_command s1 = Some ?t" using cmd by (simp add: execute_command_def read6_def Let_def)
  obtain s2 where s2: "deq_n data_get 2 ?t = Some ([2, 0], s2)" "phase s2 = BUS_FREE" "core s2 = core ?t" "command s2 = command ?t"
    "buffer s2 = buffer ?t" "irq_ok s2" using status_bytes [of ?t] by auto
  have i2: "scsi_inv s2" using s2 s1(4) by (auto simp: scsi_inv_def core_def sizes_ok_def data_in_ok_def)
  obtain s3 where s3: "scsi_command [0x03, 0, 0, 0, 4, 0] s2 = execute_command s3" "take 6 (command s3) = [0x03, 0, 0, 0, 4, 0]"
    "core s3 = core s2" "sizes_ok s3" using six_byte_command [OF i2 s2(2), of "[0x03, 0, 0, 0, 4, 0]"] by auto
  have "command s3 ! 0 = take 6 (command s3) ! 0" "command s3 ! 4 = take 6 (command s3) ! 4" by simp_all
  then have c3: "command s3 ! 0 = 0x03" "command s3 ! 4 = 4" using s3(2) by simp_all
  let ?b = "[0x21, byte_of sec 2, byte_of sec 1, byte_of sec 0] @ drop 4 (buffer s3)"
  have "sense_code s3 = 0x21" "sense_sector s3 = sec" using s3(3) s2(3) by (simp_all add: core_def)
  then have e3: "execute_command s3 = Some (read_phase 4 (s3\<lparr>buffer := ?b, sense_code := 0, sense_sector := 0, blocks := 1\<rparr>))"
    using c3 s3(4) by (simp add: execute_command_def request_sense_def Let_def wr_range_def splice_def sizes_ok_def)
  let ?u = "read_phase 4 (s3\<lparr>buffer := ?b, sense_code := 0, sense_sector := 0, blocks := 1\<rparr>)"
  have "sizes_ok ?u" using s3(4) by (simp add: sizes_ok_def)
  then obtain s4 where s4: "deq_n data_get (Suc 3) ?u = map_option (\<lambda>t. (take (Suc 3) (buffer ?u), t)) (read_block_done s4)"
    "frame s4 = frame ?u" "core s4 = core ?u" "sizes_ok s4" using data_in_all [of ?u 3] by auto
  have d4: "read_block_done s4 = Some (status_phase True (s4\<lparr>blocks := 0\<rparr>))"
    using s4(2) by (simp add: read_block_done_def frame_def)
  obtain s5 where s5: "deq_n data_get 2 (status_phase True (s4\<lparr>blocks := 0\<rparr>)) = Some ([0, 0], s5)" "phase s5 = BUS_FREE" "core s5 = core (s4\<lparr>blocks := 0\<rparr>)"
    using status_bytes [of "status_phase True (s4\<lparr>blocks := 0\<rparr>)"] by auto
  have "deq_n data_get (Suc 3 + 2) ?u = Some ([0x21, byte_of sec 2, byte_of sec 1, byte_of sec 0, 0, 0], s5)"
    unfolding deq_n_add using s4(1) d4 s5(1) by simp
  moreover have "sense_code s5 = 0" "lun_image s5 = lun_image s"
    using s5(3) s4(3) s3(3) s2(3) c(4) by (simp_all add: core_def)
  ultimately show ?thesis using s1(1) e s2(1) s3(1) e3 s5(2) by (simp add: eval_nat_numeral(2, 3))
qed

theorem read_error_sensed_witness:
  "\<exists>s1 s2. scsi_command (rw_cdb 0x08 4 1) demo_lun = Some s1 \<and> deq_n data_get 2 s1 = Some ([2, 0], s2)"
  using read_error_sensed [OF demo_ready, of 4 1] by (auto simp: demo_fields)

lemma data_out_wraps:
  "phase s = SCSI_WRITE \<Longrightarrow> xfer_length s = - of_nat k \<Longrightarrow> k + length vs < 2 ^ 32 \<Longrightarrow>
     \<exists>s'. enq_all data_put vs s = Some s' \<and> phase s' = SCSI_WRITE"
proof (induction vs arbitrary: s k)
  case (Cons v vs)
  have "(of_nat (Suc k) :: u32) \<noteq> 0"
    using Cons.prems(3) word_of_nat_eq_0_iff [of "Suc k", where ?'a = 32] by (auto dest!: dvd_imp_le)
  moreover have "xfer_length s - 1 = - of_nat (Suc k)" using Cons.prems(2) by simp
  ultimately have nz: "xfer_length s - 1 \<noteq> 0" by (metis neg_equal_0_iff_equal)
  let ?s = "publish_irq (set_request False (s\<lparr>selected := True, last_write := ucast v, buffer := store_byte (buffer s) (offset s) v,
    offset := offset s + 1, xfer_length := xfer_length s - 1\<rparr>))"
  have "data_put s v = Some ?s" using Cons.prems(1) nz
    by (simp add: scsi_write_def data_address write_data_def data_out_byte_def Let_def)
  moreover have "\<exists>s'. enq_all data_put vs ?s = Some s' \<and> phase s' = SCSI_WRITE"
    using Cons.prems by (intro Cons.IH [of _ "Suc k"]) simp_all
  ultimately show ?case by simp
qed simp

text \<open>A MODE SELECT command whose parameter list is empty never completes: the transfer counter wraps
  below zero, and fewer than four gigabytes of further data leave the target in its data-out phase,
  where the initiator expects the status phase at once.\<close>

theorem empty_mode_select_hangs:
  assumes "scsi_inv s" "phase s = BUS_FREE" "length vs < 2 ^ 32"
  shows "\<exists>s1 s2. scsi_command [0x15, 0, 0, 0, 0, 0] s = Some s1 \<and> enq_all data_put vs s1 = Some s2 \<and> phase s2 = SCSI_WRITE"
proof -
  obtain s1 where s1: "scsi_command [0x15, 0, 0, 0, 0, 0] s = execute_command s1" "take 6 (command s1) = [0x15, 0, 0, 0, 0, 0]"
    using six_byte_command [OF assms(1, 2), of "[0x15, 0, 0, 0, 0, 0]"] by auto
  have "command s1 ! 0 = take 6 (command s1) ! 0" "command s1 ! 4 = take 6 (command s1) ! 4" by simp_all
  then have "execute_command s1 = Some (write_phase 0 (s1\<lparr>blocks := 1\<rparr>))"
    using s1(2) by (simp add: execute_command_def)
  then show ?thesis using s1(1) data_out_wraps [of "write_phase 0 (s1\<lparr>blocks := 1\<rparr>)" 0 vs] assms(3) by simp
qed

theorem empty_mode_select_hangs_witness:
  "\<exists>s1 s2. scsi_command [0x15, 0, 0, 0, 0, 0] demo_lun = Some s1 \<and> enq_all data_put [0x00, 0x01] s1 = Some s2 \<and> phase s2 = SCSI_WRITE"
  by (rule empty_mode_select_hangs [OF demo_ready]) simp

end
