(* ===== verification/C_Text.thy ===== *)
theory C_Text
  imports Prelude
begin

section \<open>Text as the C sources handle it\<close>

text \<open>
  Characters are bytes; a C string is the bytes in front of its terminator. The theory holds the
  parts of the C library that more than one component relies on: character classes, searching, and
  \<open>strtoul\<close> with its white space, sign, base prefix, overflow and the rest it leaves. An
  \<open>unsigned long\<close> has 64 bits.
\<close>

definition ascii :: "string \<Rightarrow> bytes" where
  "ascii s = map (\<lambda>c. of_nat (of_char c)) s"

lemma length_ascii [simp]: "length (ascii s) = length s"
  by (simp add: ascii_def)

abbreviation CR :: u8 where "CR \<equiv> 13"
abbreviation LF :: u8 where "LF \<equiv> 10"

definition cstr :: "bytes \<Rightarrow> bytes" where
  "cstr b = takeWhile (\<lambda>c. c \<noteq> 0) b"

text \<open>\<open>strchr\<close>: the text from the first occurrence on.\<close>

definition from_chr :: "u8 \<Rightarrow> bytes \<Rightarrow> bytes option" where
  "from_chr c b = (case dropWhile (\<lambda>x. x \<noteq> c) (cstr b) of [] \<Rightarrow> None | r \<Rightarrow> Some r)"

definition is_digit :: "u8 \<Rightarrow> bool" where
  "is_digit c \<longleftrightarrow> 0x30 \<le> c \<and> c \<le> 0x39"

definition starts_with :: "bytes \<Rightarrow> bytes \<Rightarrow> bool" where
  "starts_with p b \<longleftrightarrow> take (length p) b = p"

definition lower :: "u8 \<Rightarrow> u8" where
  "lower c = (if 0x41 \<le> c \<and> c \<le> 0x5A then c + 32 else c)"

text \<open>\<open>!strncasecmp(b, p, strlen(p))\<close> for a lower-case \<open>p\<close>, and \<open>strstr\<close> as a test.\<close>

definition starts_nocase :: "bytes \<Rightarrow> bytes \<Rightarrow> bool" where
  "starts_nocase p b \<longleftrightarrow> map lower (take (length p) b) = p"

fun contains :: "bytes \<Rightarrow> bytes \<Rightarrow> bool" where
  "contains p [] \<longleftrightarrow> p = []"
| "contains p (c # cs) \<longleftrightarrow> starts_with p (c # cs) \<or> contains p cs"

subsection \<open>strtoul\<close>

abbreviation ULONG_MAX :: int where "ULONG_MAX \<equiv> 18446744073709551615"

definition is_space :: "u8 \<Rightarrow> bool" where
  "is_space c \<longleftrightarrow> c = 0x20 \<or> 9 \<le> c \<and> c \<le> 13"

definition digit_value :: "u8 \<Rightarrow> int option" where
  "digit_value c =
     (if is_digit c then Some (uint c - 48)
      else if 0x61 \<le> c \<and> c \<le> 0x7A then Some (uint c - 87)
      else if 0x41 \<le> c \<and> c \<le> 0x5A then Some (uint c - 55) else None)"

definition digit_in :: "int \<Rightarrow> u8 \<Rightarrow> bool" where
  "digit_in base c = (case digit_value c of None \<Rightarrow> False | Some d \<Rightarrow> d < base)"

fun base_value :: "int \<Rightarrow> int \<Rightarrow> bytes \<Rightarrow> int" where
  "base_value base v [] = v"
| "base_value base v (c # cs) = base_value base (v * base + the (digit_value c)) cs"

definition base_prefix :: "int \<Rightarrow> bytes \<Rightarrow> int \<times> bytes" where
  "base_prefix base s =
     (if (base = 0 \<or> base = 16) \<and> 3 \<le> length s \<and> s ! 0 = 0x30 \<and> lower (s ! 1) = 0x78 \<and> digit_in 16 (s ! 2)
      then (16, drop 2 s)
      else if base = 0 then (if starts_with [0x30] s then (8, s) else (10, s))
      else (base, s))"

text \<open>The value, whether it is out of range (\<open>ERANGE\<close>), and the rest of the text.\<close>

definition strtoul :: "int \<Rightarrow> bytes \<Rightarrow> int \<times> bool \<times> bytes" where
  "strtoul base s =
     (let s1 = dropWhile is_space s;
          neg = starts_with [0x2D] s1;
          s2 = (if neg \<or> starts_with [0x2B] s1 then drop 1 s1 else s1);
          (b, s3) = base_prefix base s2;
          ds = takeWhile (digit_in b) s3; rest = drop (length ds) s3;
          v = base_value b 0 ds in
      if ds = [] then (0, False, s)
      else if ULONG_MAX < v then (ULONG_MAX, True, rest)
      else (if neg then (ULONG_MAX + 1 - v) mod (ULONG_MAX + 1) else v, False, rest))"

subsection \<open>Storing a text\<close>

text \<open>\<open>strcpy\<close> into an array of \<open>cap\<close> characters, undefined when the text does not fit with its terminator.\<close>

definition fitting :: "nat \<Rightarrow> bytes \<Rightarrow> bytes option" where
  "fitting cap t = (if length t < cap then Some t else None)"

subsection \<open>Decimal numbers\<close>

function dec :: "nat \<Rightarrow> bytes" where
  "dec n = (if n < 10 then [of_nat (48 + n)] else dec (n div 10) @ [of_nat (48 + n mod 10)])"
  by pat_completeness auto
termination by (relation "measure id") auto

declare dec.simps [simp del]

definition digits_value :: "nat \<Rightarrow> bytes \<Rightarrow> nat" where
  "digits_value v ds = foldl (\<lambda>v c. v * 10 + (unat c - 48)) v ds"

lemma digit_of: "d < 10 \<Longrightarrow> is_digit (of_nat (48 + d))" "d < 10 \<Longrightarrow> unat (of_nat (48 + d) :: u8) = 48 + d"
proof -
  assume "d < 10"
  then show u: "unat (of_nat (48 + d) :: u8) = 48 + d" by (simp only: unat_of_nat) simp
  then show "is_digit (of_nat (48 + d))" using \<open>d < 10\<close> by (simp only: is_digit_def word_le_nat_alt) simp
qed

lemma dec_digits: "\<forall>c \<in> set (dec n). is_digit c"
proof (induction n rule: dec.induct)
  case (1 n)
  then show ?case using digit_of(1) [of n] digit_of(1) [of "n mod 10"]
    by (subst dec.simps) (auto simp del: of_nat_add)
qed

lemma dec_value: "digits_value 0 (dec n) = n"
proof (induction n rule: dec.induct)
  case (1 n)
  have "unat (of_nat (48 + n mod 10) :: u8) = 48 + n mod 10" by (rule digit_of) simp
  then show ?case using 1 digit_of(2) [of n]
    by (subst dec.simps) (simp add: digits_value_def del: of_nat_add)
qed

lemma dec_nonempty: "dec n \<noteq> []" "is_digit (hd (dec n))"
proof -
  show "dec n \<noteq> []" by (subst dec.simps) simp
  then show "is_digit (hd (dec n))" using dec_digits [of n] by (simp add: list.set_sel)
qed

lemma digits_value_ge: "v \<le> digits_value v ds"
proof (induction ds arbitrary: v)
  case (Cons d ds)
  have "v \<le> v * 10 + (unat d - 48)" by simp
  also have "\<dots> \<le> digits_value (v * 10 + (unat d - 48)) ds" by (rule Cons.IH)
  finally show ?case by (simp add: digits_value_def)
qed (simp add: digits_value_def)

lemma cstr_append: "0 \<notin> set a \<Longrightarrow> cstr (a @ b) = a @ cstr b"
  unfolding cstr_def by (rule takeWhile_append2) auto

lemma takeWhile_stop: "c \<notin> set t \<Longrightarrow> takeWhile (\<lambda>x. x \<noteq> c) (t @ c # r) = t"
  by (induction t) auto

lemma digit_facts: "is_digit c \<Longrightarrow> c \<noteq> 0 \<and> c \<noteq> 0x28 \<and> c \<noteq> 0x29 \<and> c \<noteq> 0x2C"
  by (auto simp: is_digit_def)

lemma dec_no: "\<not> is_digit c \<Longrightarrow> c \<notin> set (dec n)"
  using dec_digits [of n] by auto

subsection \<open>Passive replies\<close>

text \<open>An extended passive reply with its port between three and one delimiters, and a classic one
  with its six numbers.\<close>

definition epsv_text :: "bytes \<Rightarrow> u8 \<Rightarrow> nat \<Rightarrow> bytes \<Rightarrow> bytes" where
  "epsv_text pre d port post = pre @ [0x28, d, d, d] @ dec port @ [d, 0x29] @ post"

fun commas :: "nat list \<Rightarrow> bytes" where
  "commas [] = []"
| "commas [v] = dec v"
| "commas (v # vs) = dec v @ 0x2C # commas vs"

definition pasv_text :: "bytes \<Rightarrow> nat list \<Rightarrow> bytes \<Rightarrow> bytes" where
  "pasv_text pre vs post = pre @ 0x28 # commas vs @ 0x29 # post"

end
