(* ===== verification/Ftp_Service.thy ===== *)
theory Ftp_Service
  imports C_Text
begin

unbundle bit_operations_syntax

section \<open>The interactive FTP client (ftp\_service.c)\<close>

text \<open>
  The record holds the file-scope state of \<open>ftp_service.c\<close>: the connection state, the operation in
  progress, the text buffers, the data ring, and the request that the mailbox posted. Text buffers
  are the bytes in front of their terminator, stored through \<open>store_text\<close>, which faults when the text
  and its terminator do not fit the C array; \<open>control_text\<close> is the received part of its array.
  The 16-bit ring indices stay below 8192 and are natural numbers.

  lwIP, the WiFi driver, the system timer and the JIM memory are outside the repository. A poll
  takes an answer record with what they answer during it: every function of them is called at most
  once in a poll, apart from the two closes of a reset, whose answer nobody looks at. The pcbs are
  named by numbers, and what the service does to them is recorded in \<open>net_log\<close>, newest first.
  \<open>pbuf_copy_partial\<close> is the parameter \<open>pcopy\<close>: the bytes it copies from a packet, at most as
  many as asked for, at an offset. \<open>Pi1MHz_MemoryWrite\<close> is recorded in \<open>mem_log\<close>.
\<close>

abbreviation FTP_TEXT_MAX :: nat where "FTP_TEXT_MAX \<equiv> 237"
abbreviation FTP_CONTROL_CAPACITY :: nat where "FTP_CONTROL_CAPACITY \<equiv> 768"
abbreviation FTP_DATA_CAPACITY :: nat where "FTP_DATA_CAPACITY \<equiv> 8192"
abbreviation FTP_SCRATCH_OFFSET :: u32 where "FTP_SCRATCH_OFFSET \<equiv> 0xFFF100"
abbreviation FTP_TIMEOUT_MS :: u32 where "FTP_TIMEOUT_MS \<equiv> 30000"

abbreviation FTP_CMD_OPEN :: u8 where "FTP_CMD_OPEN \<equiv> 128"
abbreviation FTP_CMD_EXEC :: u8 where "FTP_CMD_EXEC \<equiv> 129"
abbreviation FTP_CMD_READ :: u8 where "FTP_CMD_READ \<equiv> 130"
abbreviation FTP_CMD_WRITE :: u8 where "FTP_CMD_WRITE \<equiv> 131"
abbreviation FTP_CMD_CLOSE :: u8 where "FTP_CMD_CLOSE \<equiv> 132"
abbreviation FTP_CMD_CANCEL :: u8 where "FTP_CMD_CANCEL \<equiv> 133"
abbreviation FTP_RESULT_OK :: u8 where "FTP_RESULT_OK \<equiv> 0x00"
abbreviation FTP_RESULT_PENDING :: u8 where "FTP_RESULT_PENDING \<equiv> 0x80"
abbreviation FTP_RESULT_EOF :: u8 where "FTP_RESULT_EOF \<equiv> 0x20"
abbreviation FTP_RESULT_PARAM :: u8 where "FTP_RESULT_PARAM \<equiv> 0x23"
abbreviation FTP_RESULT_DNS :: u8 where "FTP_RESULT_DNS \<equiv> 0x24"
abbreviation FTP_RESULT_CONNECT :: u8 where "FTP_RESULT_CONNECT \<equiv> 0x25"
abbreviation FTP_RESULT_TIMEOUT :: u8 where "FTP_RESULT_TIMEOUT \<equiv> 0x2B"
abbreviation FTP_RESULT_ABORT :: u8 where "FTP_RESULT_ABORT \<equiv> 0x2D"
abbreviation FTP_TRANSFER_NONE :: u8 where "FTP_TRANSFER_NONE \<equiv> 0"
abbreviation FTP_TRANSFER_READ :: u8 where "FTP_TRANSFER_READ \<equiv> 1"
abbreviation FTP_TRANSFER_WRITE :: u8 where "FTP_TRANSFER_WRITE \<equiv> 2"
abbreviation FTP_TRANSFER_LIST :: u8 where "FTP_TRANSFER_LIST \<equiv> 3"

datatype ftp_state = FTP_STATE_CLOSED | FTP_STATE_DNS | FTP_STATE_CONNECTING | FTP_STATE_GREETING
  | FTP_STATE_READY | FTP_STATE_ERROR

datatype ftp_operation = FTP_OP_NONE | FTP_OP_OPEN | FTP_OP_SIMPLE_SEND | FTP_OP_SIMPLE_REPLY
  | FTP_OP_EPSV_SEND | FTP_OP_EPSV_REPLY | FTP_OP_PASV_SEND | FTP_OP_PASV_REPLY | FTP_OP_DATA_CONNECT
  | FTP_OP_TRANSFER_SEND | FTP_OP_TRANSFER_REPLY | FTP_OP_READ | FTP_OP_WRITE | FTP_OP_WRITE_FINISH | FTP_OP_CLOSE

datatype net_event = Net_Connect nat u32 u16 | Net_Write nat bytes | Net_Close nat | Net_Abort nat | Net_Lookup bytes

datatype dns_answer = Dns_Now u32 | Dns_In_Progress | Dns_Error

record lwip =
  now_ms :: u32
  address_ready :: bool
  dns_query :: dns_answer
  new_pcb :: "nat option"
  connect_ok :: bool
  sndbuf :: nat
  write_ok :: bool
  close_ok :: bool

record ftp =
  state :: ftp_state
  operation :: ftp_operation
  control :: "nat option"
  data :: "nat option"
  address :: u32
  dns_done :: bool
  dns_ok :: bool
  control_connected :: bool
  control_eof :: bool
  data_connected :: bool
  data_eof :: bool
  data_error :: bool
  data_port :: u16
  transfer :: u8
  host :: bytes
  req_text :: bytes
  transfer_command :: bytes
  control_text :: bytes
  last_reply :: bytes
  data_buffer :: bytes
  data_head :: nat
  data_tail :: nat
  data_count :: nat
  deadline_ms :: u32
  control_port :: u16
  request_pending :: bool
  request_cancel :: bool
  request_pointer :: u32
  request_status_address :: u32
  request_started :: bool
  request_command :: u8
  jim_ram :: "u32 \<Rightarrow> u8"
  net_log :: "net_event list"
  mem_log :: "(u32 \<times> u8) list"

lemma shrink_less: "xs \<noteq> [] \<Longrightarrow> off < n \<Longrightarrow> n - (off + length xs) < n - off"
  by (cases xs) auto

subsection \<open>Text\<close>

definition store_text :: "nat \<Rightarrow> bytes \<Rightarrow> bytes option" where
  "store_text capacity b = (if length b < capacity then Some b else None)"

subsection \<open>Time and connections\<close>

definition ftp_expired :: "lwip \<Rightarrow> ftp \<Rightarrow> bool" where
  "ftp_expired n f \<longleftrightarrow> 0 \<le> sint (now_ms n - deadline_ms f)"

definition ftp_set_deadline :: "lwip \<Rightarrow> ftp \<Rightarrow> ftp" where
  "ftp_set_deadline n f = f\<lparr>deadline_ms := now_ms n + FTP_TIMEOUT_MS\<rparr>"

definition log_net :: "net_event \<Rightarrow> ftp \<Rightarrow> ftp" where
  "log_net e f = f\<lparr>net_log := e # net_log f\<rparr>"

definition close_event :: "lwip \<Rightarrow> bool \<Rightarrow> nat \<Rightarrow> net_event" where
  "close_event n abort_connection pcb = (if abort_connection \<or> \<not> close_ok n then Net_Abort pcb else Net_Close pcb)"

definition detach_data :: "lwip \<Rightarrow> bool \<Rightarrow> ftp \<Rightarrow> ftp" where
  "detach_data n ab f = (case data f of None \<Rightarrow> f | Some pcb \<Rightarrow> log_net (close_event n ab pcb) (f\<lparr>data := None\<rparr>))"

definition detach_control :: "lwip \<Rightarrow> bool \<Rightarrow> ftp \<Rightarrow> ftp" where
  "detach_control n ab f = (case control f of None \<Rightarrow> f | Some pcb \<Rightarrow> log_net (close_event n ab pcb) (f\<lparr>control := None\<rparr>))"

definition ftp_zero :: "ftp \<Rightarrow> ftp" where
  "ftp_zero f = f\<lparr>state := FTP_STATE_CLOSED, operation := FTP_OP_NONE, control := None, data := None, address := 0,
     dns_done := False, dns_ok := False, control_connected := False, control_eof := False, data_connected := False,
     data_eof := False, data_error := False, data_port := 0, transfer := 0, host := [], req_text := [],
     transfer_command := [], control_text := [], last_reply := [], data_buffer := replicate FTP_DATA_CAPACITY 0,
     data_head := 0, data_tail := 0, data_count := 0, deadline_ms := 0\<rparr>"

definition ftp_reset :: "lwip \<Rightarrow> bool \<Rightarrow> ftp \<Rightarrow> ftp" where
  "ftp_reset n ab f = ftp_zero (detach_control n ab (detach_data n ab f))"

definition ftp_error :: "u8 \<Rightarrow> ftp \<Rightarrow> u8 \<times> ftp" where
  "ftp_error result f = (result, f\<lparr>state := FTP_STATE_ERROR, operation := FTP_OP_NONE\<rparr>)"

text \<open>The usual answer of a step that is still waiting.\<close>

definition pending_or :: "lwip \<Rightarrow> ftp \<Rightarrow> u8" where
  "pending_or n f = (if ftp_expired n f then FTP_RESULT_TIMEOUT else FTP_RESULT_PENDING)"

subsection \<open>Callbacks from the network stack\<close>

definition ftp_control_error :: "ftp \<Rightarrow> ftp" where
  "ftp_control_error f = f\<lparr>control := None, state := FTP_STATE_ERROR\<rparr>"

definition ftp_data_error :: "ftp \<Rightarrow> ftp" where
  "ftp_data_error f = f\<lparr>data := None, data_error := True\<rparr>"

function control_copy :: "(bytes \<Rightarrow> nat \<Rightarrow> nat \<Rightarrow> bytes) \<Rightarrow> bytes \<Rightarrow> nat \<Rightarrow> bytes \<Rightarrow> bytes option" where
  "control_copy pcopy p off ctext =
     (if off < length p then
        let available = length p - off; copied = pcopy p available off in
        if copied = [] then Some ctext
        else if available < length copied then None
        else do { t \<leftarrow> store_text FTP_CONTROL_CAPACITY (ctext @ copied); control_copy pcopy p (off + length copied) t }
      else Some ctext)"
  by pat_completeness auto
termination
  by (relation "measure (\<lambda>(_, p, off, _). length p - off)") (auto intro: shrink_less)

text \<open>\<open>None\<close> stands for the NULL packet; \<open>err\<close> tells that the callback reports an error.\<close>

definition ftp_control_receive :: "(bytes \<Rightarrow> nat \<Rightarrow> nat \<Rightarrow> bytes) \<Rightarrow> bytes option \<Rightarrow> bool \<Rightarrow> ftp \<Rightarrow> ftp option" where
  "ftp_control_receive pcopy pkt err f =
     (if err then Some (f\<lparr>state := FTP_STATE_ERROR\<rparr>)
      else case pkt of None \<Rightarrow> Some (f\<lparr>control_eof := True\<rparr>)
      | Some p \<Rightarrow>
          if FTP_CONTROL_CAPACITY \<le> length (control_text f) + length p then Some (f\<lparr>state := FTP_STATE_ERROR\<rparr>)
          else do { t \<leftarrow> control_copy pcopy p 0 (control_text f); Some (f\<lparr>control_text := t\<rparr>) })"

text \<open>One byte enters or leaves the data ring.\<close>

definition ring_store :: "ftp \<Rightarrow> u8 \<Rightarrow> ftp option" where
  "ring_store f v = do {
     b \<leftarrow> wr8 (data_buffer f) (data_head f) v;
     Some (f\<lparr>data_buffer := b, data_head := (data_head f + 1) mod FTP_DATA_CAPACITY\<rparr>) }"

definition ring_fetch :: "ftp \<Rightarrow> (u8 \<times> ftp) option" where
  "ring_fetch f = do {
     v \<leftarrow> rd8 (data_buffer f) (data_tail f);
     Some (v, f\<lparr>data_tail := (data_tail f + 1) mod FTP_DATA_CAPACITY\<rparr>) }"

function data_copy :: "(bytes \<Rightarrow> nat \<Rightarrow> nat \<Rightarrow> bytes) \<Rightarrow> bytes \<Rightarrow> nat \<Rightarrow> ftp \<Rightarrow> ftp option" where
  "data_copy pcopy p off f =
     (if off < length p then
        let wanted = min 128 (length p - off); copied = pcopy p wanted off in
        if copied = [] then Some f
        else if wanted < length copied then None
        else do {
          f1 \<leftarrow> enq_all ring_store copied f;
          data_copy pcopy p (off + length copied) (f1\<lparr>data_count := data_count f1 + length copied\<rparr>) }
      else Some f)"
  by pat_completeness auto
termination
  by (relation "measure (\<lambda>(_, p, off, _). length p - off)") (auto intro: shrink_less)

text \<open>The flag tells whether the packet was accepted; a refused one (\<open>ERR_MEM\<close>) is delivered again later.\<close>

definition ftp_data_receive :: "(bytes \<Rightarrow> nat \<Rightarrow> nat \<Rightarrow> bytes) \<Rightarrow> bytes option \<Rightarrow> bool \<Rightarrow> ftp \<Rightarrow> (bool \<times> ftp) option" where
  "ftp_data_receive pcopy pkt err f =
     (if err then Some (True, f\<lparr>data_error := True\<rparr>)
      else case pkt of None \<Rightarrow> Some (True, f\<lparr>data_eof := True\<rparr>)
      | Some p \<Rightarrow>
          if FTP_DATA_CAPACITY - data_count f < length p then Some (False, f)
          else do { f1 \<leftarrow> data_copy pcopy p 0 f; Some (True, f1) })"

definition ftp_control_connected :: "bool \<Rightarrow> ftp \<Rightarrow> ftp" where
  "ftp_control_connected ok f = (if ok then f\<lparr>control_connected := True, state := FTP_STATE_GREETING\<rparr>
     else f\<lparr>control := None, state := FTP_STATE_ERROR\<rparr>)"

definition ftp_data_connected :: "bool \<Rightarrow> ftp \<Rightarrow> ftp" where
  "ftp_data_connected ok f = (if ok then f\<lparr>data_connected := True\<rparr> else f\<lparr>data := None, data_error := True\<rparr>)"

definition ftp_dns_found :: "u32 option \<Rightarrow> ftp \<Rightarrow> ftp" where
  "ftp_dns_found addr f = (case addr of None \<Rightarrow> f\<lparr>dns_done := True\<rparr>
     | Some a \<Rightarrow> f\<lparr>dns_done := True, address := a, dns_ok := True\<rparr>)"

subsection \<open>Replies\<close>

text \<open>The three digits of a line that has at least four characters in front of its end.\<close>

definition line_code :: "bytes \<Rightarrow> nat \<Rightarrow> nat \<Rightarrow> nat option" where
  "line_code t start i =
     (if start + 4 \<le> i \<and> 0x31 \<le> t ! start \<and> t ! start \<le> 0x35 \<and> is_digit (t ! (start + 1)) \<and> is_digit (t ! (start + 2))
      then Some ((unat (t ! start) - 48) * 100 + (unat (t ! (start + 1)) - 48) * 10 + (unat (t ! (start + 2)) - 48))
      else None)"

text \<open>The scan for the final line: its code and where it ends.\<close>

function reply_scan :: "bytes \<Rightarrow> nat \<Rightarrow> nat \<Rightarrow> nat \<Rightarrow> (nat \<times> nat) option" where
  "reply_scan t i start multiline =
     (if i + 1 < length t then
        if t ! i \<noteq> CR \<or> t ! (i + 1) \<noteq> LF then reply_scan t (i + 1) start multiline
        else case line_code t start i of
          None \<Rightarrow> reply_scan t (i + 2) (i + 2) multiline
        | Some code \<Rightarrow>
            let multiline' = (if start = 0 \<and> t ! (start + 3) = 0x2D then code else multiline) in
            if t ! (start + 3) \<noteq> 0x20 \<or> (multiline' \<noteq> 0 \<and> code \<noteq> multiline')
            then reply_scan t (i + 2) (i + 2) multiline'
            else Some (code, i + 2)
      else None)"
  by pat_completeness auto
termination
  by (relation "measure (\<lambda>(t, i, _, _). length t - i)") auto

definition ftp_reply :: "ftp \<Rightarrow> (nat option \<times> ftp) option" where
  "ftp_reply f =
     (case reply_scan (control_text f) 0 0 0 of
        None \<Rightarrow> Some (None, f)
      | Some (code, reply_length) \<Rightarrow> do {
          let copy = (if reply_length < FTP_TEXT_MAX then reply_length else FTP_TEXT_MAX);
          r \<leftarrow> store_text (FTP_TEXT_MAX + 1) (take copy (control_text f));
          Some (Some code, f\<lparr>last_reply := r, control_text := drop reply_length (control_text f)\<rparr>) })"

definition ftp_send :: "lwip \<Rightarrow> bytes \<Rightarrow> ftp \<Rightarrow> bool \<times> ftp" where
  "ftp_send n cmd f =
     (case control f of None \<Rightarrow> (False, f)
      | Some pcb \<Rightarrow>
          if 0xFFFF < length cmd \<or> sndbuf n < length cmd \<or> \<not> write_ok n then (False, f)
          else (True, ftp_set_deadline n (log_net (Net_Write pcb cmd) f)))"

subsection \<open>Opening\<close>

definition skip_scheme :: "bytes \<Rightarrow> bytes" where
  "skip_scheme url = (if map lower (take 6 url) = ascii ''ftp://'' then drop 6 url else url)"

text \<open>The authority up to the first slash; a control character, a space or an at sign makes it invalid.\<close>

fun authority :: "bytes \<Rightarrow> bytes option" where
  "authority [] = Some []"
| "authority (c # cs) = (if c = 0x2F then Some []
     else if c < 0x21 \<or> c = 0x40 then None
     else map_option ((#) c) (authority cs))"

fun parse_port :: "nat \<Rightarrow> bytes \<Rightarrow> nat option" where
  "parse_port v [] = Some v"
| "parse_port v (c # cs) = (if \<not> is_digit c then None
     else let v' = v * 10 + (unat c - 48) in if 65535 < v' then None else parse_port v' cs)"

text \<open>The part in front of the last colon and the part after it.\<close>

fun split_colon :: "bytes \<Rightarrow> (bytes \<times> bytes) option" where
  "split_colon [] = None"
| "split_colon (c # cs) = (case split_colon cs of Some (a, b) \<Rightarrow> Some (c # a, b)
     | None \<Rightarrow> if c = 0x3A then Some ([], cs) else None)"

definition ftp_parse_url :: "bytes \<Rightarrow> nat \<Rightarrow> (bytes \<times> u16) option" where
  "ftp_parse_url url host_size = do {
     auth \<leftarrow> authority (skip_scheme url);
     (h, port) \<leftarrow> (case split_colon auth of None \<Rightarrow> Some (auth, 21)
       | Some (h, p) \<Rightarrow> if p = [] then None else do { v \<leftarrow> parse_port 0 p; Some (h, of_nat v) });
     if h = [] \<or> host_size \<le> length h then None else Some (h, port) }"

text \<open>The port of a refused target is not kept; every later OPEN sets it again.\<close>

definition ftp_start_control :: "lwip \<Rightarrow> u16 \<Rightarrow> ftp \<Rightarrow> u8 \<times> ftp" where
  "ftp_start_control n port f =
     (case new_pcb n of None \<Rightarrow> ftp_error FTP_RESULT_CONNECT (f\<lparr>control := None\<rparr>)
      | Some pcb \<Rightarrow>
          let f1 = log_net (Net_Connect pcb (address f) port) (f\<lparr>control := Some pcb\<rparr>) in
          if \<not> connect_ok n then ftp_error FTP_RESULT_CONNECT (detach_control n True f1)
          else (FTP_RESULT_PENDING, ftp_set_deadline n (f1\<lparr>state := FTP_STATE_CONNECTING\<rparr>)))"

definition wait_or_error :: "lwip \<Rightarrow> ftp \<Rightarrow> u8 \<times> ftp" where
  "wait_or_error n f = (if ftp_expired n f then ftp_error FTP_RESULT_TIMEOUT f else (FTP_RESULT_PENDING, f))"

text \<open>The lookup that starts a connection; the left side of the result ends the poll.\<close>

definition open_lookup :: "lwip \<Rightarrow> ftp \<Rightarrow> (u8 \<times> ftp) + ftp" where
  "open_lookup n f =
     (case ftp_parse_url (req_text f) 192 of
        None \<Rightarrow> Inl (FTP_RESULT_PARAM, f)
      | Some (h, port) \<Rightarrow>
          let f1 = f\<lparr>host := h, control_port := port\<rparr> in
          if \<not> address_ready n then Inl (pending_or n f1, f1)
          else let f2 = log_net (Net_Lookup h) (f1\<lparr>state := FTP_STATE_DNS\<rparr>) in
            (case dns_query n of
               Dns_Now a \<Rightarrow> Inr (ftp_set_deadline n (f2\<lparr>address := a, dns_done := True, dns_ok := True\<rparr>))
             | Dns_In_Progress \<Rightarrow> Inr (ftp_set_deadline n f2)
             | Dns_Error \<Rightarrow> Inl (ftp_error FTP_RESULT_DNS f2)))"

definition open_dns :: "lwip \<Rightarrow> ftp \<Rightarrow> u8 \<times> ftp" where
  "open_dns n f = (if \<not> dns_done f then wait_or_error n f
     else if \<not> dns_ok f then ftp_error FTP_RESULT_DNS f
     else ftp_start_control n (control_port f) f)"

definition open_greeting :: "lwip \<Rightarrow> ftp \<Rightarrow> (u8 \<times> ftp) option" where
  "open_greeting n f = do {
     (code, f1) \<leftarrow> ftp_reply f;
     Some (case code of None \<Rightarrow> wait_or_error n f1
       | Some c \<Rightarrow> if c \<noteq> 220 then ftp_error FTP_RESULT_CONNECT f1
           else (FTP_RESULT_OK, f1\<lparr>state := FTP_STATE_READY, operation := FTP_OP_NONE\<rparr>)) }"

definition ftp_open_poll :: "lwip \<Rightarrow> ftp \<Rightarrow> (u8 \<times> ftp) option" where
  "ftp_open_poll n f =
     (case state f of
        FTP_STATE_ERROR \<Rightarrow> Some (FTP_RESULT_CONNECT, f)
      | FTP_STATE_CLOSED \<Rightarrow> Some (case open_lookup n f of Inl r \<Rightarrow> r | Inr f1 \<Rightarrow> open_dns n f1)
      | FTP_STATE_DNS \<Rightarrow> Some (open_dns n f)
      | FTP_STATE_CONNECTING \<Rightarrow> Some (wait_or_error n f)
      | FTP_STATE_GREETING \<Rightarrow> open_greeting n f
      | FTP_STATE_READY \<Rightarrow> Some (FTP_RESULT_OK, f))"

subsection \<open>Commands\<close>

fun ftp_upper_word :: "bytes \<Rightarrow> bytes" where
  "ftp_upper_word [] = []"
| "ftp_upper_word (c # cs) = (if c = 0x20 then c # cs
     else (if 0x61 \<le> c \<and> c \<le> 0x7A then c - 32 else c) # ftp_upper_word cs)"

definition ftp_is_transfer :: "bytes \<Rightarrow> (u8 \<times> bytes) option" where
  "ftp_is_transfer cmd =
     (if starts_with (ascii ''GET '') cmd then Some (FTP_TRANSFER_READ, ascii ''RETR'')
      else if starts_with (ascii ''PUT '') cmd then Some (FTP_TRANSFER_WRITE, ascii ''STOR'')
      else if cmd = ascii ''DIR'' \<or> starts_with (ascii ''DIR '') cmd then Some (FTP_TRANSFER_LIST, ascii ''LIST'')
      else if cmd = ascii ''LS'' \<or> starts_with (ascii ''LS '') cmd then Some (FTP_TRANSFER_LIST, ascii ''NLST'')
      else None)"

text \<open>The argument of a command with its leading space, empty when there is none.\<close>

definition argument :: "bytes \<Rightarrow> bytes" where
  "argument cmd = (case from_chr 0x20 cmd of None \<Rightarrow> [] | Some r \<Rightarrow> r)"

definition crlf :: bytes where "crlf = [CR, LF]"

text \<open>\<open>snprintf\<close>: what is stored, and whether it was all of it.\<close>

definition snprintf :: "nat \<Rightarrow> bytes \<Rightarrow> bytes \<times> bool" where
  "snprintf n b = (take (n - 1) b, length b < n)"

definition command_line :: "bytes \<Rightarrow> bytes" where
  "command_line input =
     (let word = takeWhile (\<lambda>c. c \<noteq> 0x20) input in
      if word = ascii ''CD'' then ascii ''CWD'' @ argument input @ crlf
      else if word = ascii ''DELETE'' then ascii ''DELE'' @ argument input @ crlf
      else if word = ascii ''MKDIR'' then ascii ''MKD'' @ argument input @ crlf
      else if word = ascii ''RMDIR'' then ascii ''RMD'' @ argument input @ crlf
      else if word = ascii ''BINARY'' then ascii ''TYPE I'' @ crlf
      else if word = ascii ''ASCII'' then ascii ''TYPE A'' @ crlf
      else input @ crlf)"

definition ftp_make_command :: "nat \<Rightarrow> bytes \<Rightarrow> bytes \<times> bool" where
  "ftp_make_command output_size input = snprintf output_size (command_line input)"

fun parse_digits :: "nat \<Rightarrow> nat \<Rightarrow> bytes \<Rightarrow> (nat \<times> bytes) option" where
  "parse_digits limit v [] = Some (v, [])"
| "parse_digits limit v (c # cs) = (if \<not> is_digit c then Some (v, c # cs)
     else let v' = v * 10 + (unat c - 48) in if limit < v' then None else parse_digits limit v' cs)"

text \<open>\<open>inner\<close> is the text between the parentheses; the delimiter is its first character.\<close>

definition ftp_parse_epsv :: "bytes \<Rightarrow> u16 option" where
  "ftp_parse_epsv reply = do {
     op \<leftarrow> from_chr 0x28 reply;
     _ \<leftarrow> from_chr 0x29 op;
     let inner = takeWhile (\<lambda>c. c \<noteq> 0x29) (tl op);
     if length inner < 5 then None
     else let d = inner ! 0 in
       if inner ! 1 \<noteq> d \<or> inner ! 2 \<noteq> d \<or> \<not> is_digit (inner ! 3) then None
       else do {
         (v, rest) \<leftarrow> parse_digits 65535 0 (drop 3 inner);
         if rest = [] \<or> hd rest \<noteq> d \<or> v = 0 then None else Some (of_nat v) } }"

fun pasv_values :: "nat \<Rightarrow> bytes \<Rightarrow> nat list option" where
  "pasv_values 0 p = Some []"
| "pasv_values (Suc n) p =
     (if p = [] \<or> \<not> is_digit (hd p) then None
      else do {
        (v, rest) \<leftarrow> parse_digits 255 0 p;
        if n = 0 then Some [v]
        else if rest = [] \<or> hd rest \<noteq> 0x2C then None
        else do { vs \<leftarrow> pasv_values n (tl rest); Some (v # vs) } })"

text \<open>A PASV reply with port 0 is refused; the source leaves that 0 in \<open>data_port\<close>, which the next
  accepted reply overwrites before anything reads it.\<close>

definition ftp_parse_pasv :: "bytes \<Rightarrow> u16 option" where
  "ftp_parse_pasv reply = do {
     op \<leftarrow> from_chr 0x28 reply;
     vs \<leftarrow> pasv_values 6 (tl op);
     let port = (of_nat (vs ! 4 * 256 + vs ! 5) :: u16);
     if port = 0 then None else Some port }"

definition ftp_start_data :: "lwip \<Rightarrow> ftp \<Rightarrow> u8 \<times> ftp" where
  "ftp_start_data n f =
     (let f1 = (detach_data n True f)\<lparr>data_connected := False, data_eof := False, data_error := False,
        data_head := 0, data_tail := 0, data_count := 0\<rparr> in
      case new_pcb n of None \<Rightarrow> (FTP_RESULT_CONNECT, f1)
      | Some pcb \<Rightarrow>
          let f2 = log_net (Net_Connect pcb (address f1) (data_port f1)) (f1\<lparr>data := Some pcb\<rparr>) in
          if \<not> connect_ok n then (FTP_RESULT_CONNECT, detach_data n True f2)
          else (FTP_RESULT_PENDING, ftp_set_deadline n f2))"

text \<open>Sending a line and moving to the next operation, and waiting for a reply.\<close>

definition send_step :: "lwip \<Rightarrow> bytes \<Rightarrow> ftp_operation \<Rightarrow> ftp \<Rightarrow> u8 \<times> ftp" where
  "send_step n cmd next f =
     (let (ok, f1) = ftp_send n cmd f in
      if ok then (FTP_RESULT_PENDING, f1\<lparr>operation := next\<rparr>) else (pending_or n f1, f1))"

definition reply_step :: "lwip \<Rightarrow> (nat \<Rightarrow> ftp \<Rightarrow> u8 \<times> ftp) \<Rightarrow> ftp \<Rightarrow> (u8 \<times> ftp) option" where
  "reply_step n k f = do {
     (code, f1) \<leftarrow> ftp_reply f;
     Some (case code of None \<Rightarrow> (pending_or n f1, f1) | Some c \<Rightarrow> k c f1) }"

definition exec_epsv_reply :: "lwip \<Rightarrow> nat \<Rightarrow> ftp \<Rightarrow> u8 \<times> ftp" where
  "exec_epsv_reply n code f =
     (case (if code = 229 then ftp_parse_epsv (last_reply f) else None) of
        Some port \<Rightarrow> ftp_start_data n (f\<lparr>data_port := port, operation := FTP_OP_DATA_CONNECT\<rparr>)
      | None \<Rightarrow> if 400 \<le> code then (FTP_RESULT_PENDING, f\<lparr>operation := FTP_OP_PASV_SEND\<rparr>)
          else (FTP_RESULT_CONNECT, f))"

definition exec_pasv_reply :: "lwip \<Rightarrow> nat \<Rightarrow> ftp \<Rightarrow> u8 \<times> ftp" where
  "exec_pasv_reply n code f =
     (case (if code = 227 then ftp_parse_pasv (last_reply f) else None) of
        Some port \<Rightarrow> ftp_start_data n (f\<lparr>data_port := port, operation := FTP_OP_DATA_CONNECT\<rparr>)
      | None \<Rightarrow> (FTP_RESULT_CONNECT, f))"

definition exec_transfer_reply :: "lwip \<Rightarrow> nat \<Rightarrow> ftp \<Rightarrow> u8 \<times> ftp" where
  "exec_transfer_reply n code f =
     (if code \<noteq> 125 \<and> code \<noteq> 150
      then (FTP_RESULT_OK, (detach_data n True f)\<lparr>operation := FTP_OP_NONE, transfer := FTP_TRANSFER_NONE\<rparr>)
      else (FTP_RESULT_OK, f\<lparr>operation := (if transfer f = FTP_TRANSFER_WRITE then FTP_OP_WRITE else FTP_OP_READ)\<rparr>))"

text \<open>Interpreting a new command; the left side of the result ends the poll.\<close>

definition exec_new :: "ftp \<Rightarrow> (u8 \<times> ftp) + ftp" where
  "exec_new f0 =
     (let f = f0\<lparr>req_text := ftp_upper_word (req_text f0)\<rparr> in
      case ftp_is_transfer (req_text f) of
        Some (tr, verb) \<Rightarrow>
          let f1 = f\<lparr>transfer := tr\<rparr> in
          if (tr = FTP_TRANSFER_READ \<or> tr = FTP_TRANSFER_WRITE) \<and> length (argument (req_text f)) \<le> 1 then Inl (FTP_RESULT_PARAM, f1)
          else let (b, ok) = snprintf (FTP_TEXT_MAX + 8) (verb @ argument (req_text f) @ crlf); f2 = f1\<lparr>transfer_command := b\<rparr> in
            if \<not> ok then Inl (FTP_RESULT_PARAM, f2) else Inr (f2\<lparr>operation := FTP_OP_EPSV_SEND\<rparr>)
      | None \<Rightarrow>
          let (b, ok) = ftp_make_command (FTP_TEXT_MAX + 8) (req_text f); f2 = f\<lparr>transfer_command := b\<rparr> in
          if \<not> ok then Inl (FTP_RESULT_PARAM, f2)
          else Inr (f2\<lparr>transfer := FTP_TRANSFER_NONE, operation := FTP_OP_SIMPLE_SEND\<rparr>))"

definition ftp_exec_poll :: "lwip \<Rightarrow> ftp \<Rightarrow> (u8 \<times> ftp) option" where
  "ftp_exec_poll n f =
     (if state f \<noteq> FTP_STATE_READY then Some (FTP_RESULT_CONNECT, f)
      else case operation f of
        FTP_OP_NONE \<Rightarrow> Some (case exec_new f of Inl r \<Rightarrow> r | Inr f1 \<Rightarrow> send_step n (transfer_command f1) FTP_OP_SIMPLE_REPLY f1)
      | FTP_OP_SIMPLE_SEND \<Rightarrow> Some (send_step n (transfer_command f) FTP_OP_SIMPLE_REPLY f)
      | FTP_OP_SIMPLE_REPLY \<Rightarrow> reply_step n (\<lambda>code f1. (FTP_RESULT_OK, f1\<lparr>operation := FTP_OP_NONE\<rparr>)) f
      | FTP_OP_EPSV_SEND \<Rightarrow> Some (send_step n (ascii ''EPSV'' @ crlf) FTP_OP_EPSV_REPLY f)
      | FTP_OP_EPSV_REPLY \<Rightarrow> reply_step n (exec_epsv_reply n) f
      | FTP_OP_PASV_SEND \<Rightarrow> Some (send_step n (ascii ''PASV'' @ crlf) FTP_OP_PASV_REPLY f)
      | FTP_OP_PASV_REPLY \<Rightarrow> reply_step n (exec_pasv_reply n) f
      | FTP_OP_DATA_CONNECT \<Rightarrow> Some
          (if data_error f then (FTP_RESULT_CONNECT, f)
           else if \<not> data_connected f then (pending_or n f, f)
           else send_step n (transfer_command f) FTP_OP_TRANSFER_REPLY (f\<lparr>operation := FTP_OP_TRANSFER_SEND\<rparr>))
      | FTP_OP_TRANSFER_SEND \<Rightarrow> Some (send_step n (transfer_command f) FTP_OP_TRANSFER_REPLY f)
      | FTP_OP_TRANSFER_REPLY \<Rightarrow> reply_step n (exec_transfer_reply n) f
      | _ \<Rightarrow> Some (FTP_RESULT_PARAM, f))"

subsection \<open>Moving file bytes\<close>

definition ftp_transfer_reply :: "lwip \<Rightarrow> ftp \<Rightarrow> (u8 \<times> ftp) option" where
  "ftp_transfer_reply n f =
     reply_step n (\<lambda>code f1. (FTP_RESULT_EOF, f1\<lparr>operation := FTP_OP_NONE, transfer := FTP_TRANSFER_NONE\<rparr>)) f"

text \<open>\<open>base\<close> is \<open>DISC_RAM_BASE\<close>. Bytes are stored one after the other from an address on.\<close>

fun jim_store :: "(u32 \<Rightarrow> u8) \<Rightarrow> u32 \<Rightarrow> bytes \<Rightarrow> (u32 \<Rightarrow> u8)" where
  "jim_store m a [] = m"
| "jim_store m a (v # vs) = jim_store (m(a := v)) (a + 1) vs"

fun jim_load :: "(u32 \<Rightarrow> u8) \<Rightarrow> u32 \<Rightarrow> nat \<Rightarrow> bytes" where
  "jim_load m a 0 = []"
| "jim_load m a (Suc n) = m a # jim_load m (a + 1) n"

definition read_amount :: "u32 \<Rightarrow> ftp \<Rightarrow> u8" where
  "read_amount cp f = (let maximum = jim_ram f (cp + 1) in
     if unat maximum < data_count f then maximum else of_nat (data_count f))"

definition ftp_read_poll :: "u32 \<Rightarrow> lwip \<Rightarrow> u32 \<Rightarrow> ftp \<Rightarrow> (u8 \<times> ftp) option" where
  "ftp_read_poll base n cp f = do {
     let count = read_amount cp f;
     if operation f \<noteq> FTP_OP_READ \<or> transfer f = FTP_TRANSFER_WRITE then Some (FTP_RESULT_PARAM, f)
     else do {
       (bs, f1) \<leftarrow> deq_n ring_fetch (unat count) f;
       let f2 = f1\<lparr>data_count := data_count f1 - unat count,
         jim_ram := (jim_store (jim_ram f1) (base + FTP_SCRATCH_OFFSET) bs)(cp + 1 := count)\<rparr>;
       if count \<noteq> 0 then Some (FTP_RESULT_OK, ftp_set_deadline n f2)
       else if data_error f2 then Some (FTP_RESULT_CONNECT, f2)
       else if \<not> data_eof f2 then Some (pending_or n f2, f2)
       else ftp_transfer_reply n (detach_data n False f2) } }"

definition ftp_write_poll :: "u32 \<Rightarrow> lwip \<Rightarrow> u32 \<Rightarrow> ftp \<Rightarrow> (u8 \<times> ftp) option" where
  "ftp_write_poll base n cp f =
     (let count = jim_ram f (cp + 1) in
      if operation f = FTP_OP_WRITE_FINISH then ftp_transfer_reply n f
      else case data f of None \<Rightarrow> Some (FTP_RESULT_PARAM, f)
      | Some pcb \<Rightarrow>
         if operation f \<noteq> FTP_OP_WRITE \<or> transfer f \<noteq> FTP_TRANSFER_WRITE then Some (FTP_RESULT_PARAM, f)
         else if count = 0 then
           (if \<not> close_ok n then Some (pending_or n f, f)
            else Some (FTP_RESULT_PENDING, ftp_set_deadline n (log_net (Net_Close pcb)
              (f\<lparr>data := None, operation := FTP_OP_WRITE_FINISH\<rparr>))))
         else if sndbuf n < unat count then Some (pending_or n f, f)
         else if \<not> write_ok n then Some (FTP_RESULT_PENDING, f)
         else Some (FTP_RESULT_OK, ftp_set_deadline n
           ((log_net (Net_Write pcb (jim_load (jim_ram f) (base + FTP_SCRATCH_OFFSET) (unat count))) f)
             \<lparr>jim_ram := (jim_ram f)(cp + 1 := count)\<rparr>)))"

definition ftp_response :: "u32 \<Rightarrow> ftp \<Rightarrow> ftp" where
  "ftp_response cp f =
     (let m = (jim_ram f)(cp + 1 := transfer f) in
      f\<lparr>jim_ram := jim_store m (cp + 2) (take FTP_TEXT_MAX (cstr (last_reply f)) @ [0])\<rparr>)"

subsection \<open>The request from the mailbox\<close>

fun request_length :: "(u32 \<Rightarrow> u8) \<Rightarrow> u32 \<Rightarrow> nat \<Rightarrow> nat" where
  "request_length m a 0 = 0"
| "request_length m a (Suc n) = (if m a = 0 then 0 else Suc (request_length m (a + 1) n))"

definition ftp_copy_request :: "u32 \<Rightarrow> ftp \<Rightarrow> (bool \<times> ftp) option" where
  "ftp_copy_request cp f =
     (let len = request_length (jim_ram f) (cp + 1) (FTP_TEXT_MAX + 1) in
      if FTP_TEXT_MAX < len then Some (False, f)
      else do {
        t \<leftarrow> store_text (FTP_TEXT_MAX + 1) (jim_load (jim_ram f) (cp + 1) len);
        Some (len \<noteq> 0, f\<lparr>req_text := t\<rparr>) })"

text \<open>The start of a request; the flag tells whether it goes on.\<close>

definition request_start :: "lwip \<Rightarrow> u32 \<Rightarrow> ftp \<Rightarrow> (bool \<times> ftp) option" where
  "request_start n cp f0 = do {
     let f = f0\<lparr>request_started := True\<rparr>;
     (ok, f1) \<leftarrow> (if request_command f = FTP_CMD_OPEN \<or> request_command f = FTP_CMD_EXEC
        then ftp_copy_request cp f else Some (True, f));
     if \<not> ok then Some (False, f1)
     else
       let f2 = (if request_command f1 = FTP_CMD_OPEN then (ftp_reset n True f1)\<lparr>req_text := req_text f1\<rparr> else f1);
           f3 = (if request_command f2 = FTP_CMD_EXEC then f2\<lparr>operation := FTP_OP_NONE\<rparr> else f2) in
       Some (True, ftp_set_deadline n f3) }"

definition ftp_close_command :: "lwip \<Rightarrow> ftp \<Rightarrow> u8 \<times> ftp" where
  "ftp_close_command n f =
     (let f1 = (if control f \<noteq> None \<and> state f = FTP_STATE_READY then snd (ftp_send n (ascii ''QUIT'' @ crlf) f) else f) in
      (FTP_RESULT_OK, (ftp_reset n False f1)\<lparr>last_reply := ascii ''221 Closed'' @ crlf\<rparr>))"

definition ftp_dispatch :: "u32 \<Rightarrow> lwip \<Rightarrow> u32 \<Rightarrow> ftp \<Rightarrow> (u8 \<times> ftp) option" where
  "ftp_dispatch base n cp f =
     (let c = request_command f in
      if c = FTP_CMD_OPEN then ftp_open_poll n f
      else if c = FTP_CMD_EXEC then ftp_exec_poll n f
      else if c = FTP_CMD_READ then ftp_read_poll base n cp f
      else if c = FTP_CMD_WRITE then ftp_write_poll base n cp f
      else if c = FTP_CMD_CLOSE then Some (ftp_close_command n f)
      else Some (FTP_RESULT_PARAM, f))"

definition ftp_process :: "u32 \<Rightarrow> lwip \<Rightarrow> u32 \<Rightarrow> ftp \<Rightarrow> (u8 \<times> ftp) option" where
  "ftp_process base n cp f = do {
     (go, f1) \<leftarrow> (if request_started f then Some (True, f) else request_start n cp f);
     if \<not> go then Some (FTP_RESULT_PARAM, f1)
     else do {
       (result, f2) \<leftarrow> ftp_dispatch base n cp f1;
       Some (result,
         if result \<noteq> FTP_RESULT_PENDING \<and>
            (request_command f2 \<noteq> FTP_CMD_READ \<and> request_command f2 \<noteq> FTP_CMD_WRITE \<or> result = FTP_RESULT_EOF)
         then ftp_response cp f2 else f2) } }"

definition memory_write :: "u32 \<Rightarrow> u8 \<Rightarrow> ftp \<Rightarrow> ftp" where
  "memory_write a v f = f\<lparr>mem_log := (a, v) # mem_log f\<rparr>"

definition ftp_service_poll :: "u32 \<Rightarrow> lwip \<Rightarrow> ftp \<Rightarrow> ftp option" where
  "ftp_service_poll base n f =
     (if request_cancel f then
        let f1 = (ftp_reset n True f)\<lparr>request_pending := False, request_cancel := False, request_started := False\<rparr> in
        Some (memory_write (request_status_address f1) FTP_RESULT_ABORT f1)
      else if \<not> request_pending f then Some f
      else do {
        (result, f1) \<leftarrow> ftp_process base n (request_pointer f) f;
        Some (if result = FTP_RESULT_PENDING then f1
          else memory_write (request_status_address f) result (f1\<lparr>request_pending := False, request_started := False\<rparr>)) })"

text \<open>The command handler runs in the mailbox's foreground service; \<open>n\<close> answers the closes of a reset.\<close>

definition ftp_service_command :: "u32 \<Rightarrow> lwip \<Rightarrow> u32 \<Rightarrow> u32 \<Rightarrow> ftp \<Rightarrow> ftp" where
  "ftp_service_command base n command_pointer addr f =
     (let cp = command_pointer - 0xFF0000 + base; cmd = jim_ram f cp in
      if cmd = FTP_CMD_CANCEL then
        (if \<not> request_pending f then memory_write addr FTP_RESULT_ABORT (ftp_reset n True f)
         else memory_write addr FTP_RESULT_PENDING (f\<lparr>request_cancel := True\<rparr>))
      else if request_pending f then memory_write addr FTP_RESULT_PENDING f
      else memory_write addr FTP_RESULT_PENDING
        (f\<lparr>request_pointer := cp, request_status_address := addr, request_command := cmd,
           request_started := False, request_pending := True\<rparr>))"

definition ftp_service_init :: "bool \<Rightarrow> ftp \<Rightarrow> ftp" where
  "ftp_service_init initialised f =
     (if initialised then f else ftp_zero f)\<lparr>request_pending := False, request_cancel := False, request_started := False\<rparr>"

end
