(* ===== verification/Ftp_Props.thy ===== *)
theory Ftp_Props
  imports Ftp_Service
begin

unbundle bit_operations_syntax

section \<open>Properties of the FTP client\<close>

text \<open>
  The invariant of the client (every text fits its array, the data ring is well-formed) over
  all events, and the data ring as a queue.
\<close>

declare control_copy.simps [simp del] data_copy.simps [simp del] reply_scan.simps [simp del]

subsection \<open>The invariant\<close>

text \<open>
  The data ring is well-formed and every text fits its array with its terminator.
\<close>

definition ring_ok :: "ftp \<Rightarrow> bool" where
  "ring_ok f \<longleftrightarrow> length (data_buffer f) = FTP_DATA_CAPACITY \<and> data_tail f < FTP_DATA_CAPACITY \<and>
     data_count f \<le> FTP_DATA_CAPACITY \<and> data_head f = (data_tail f + data_count f) mod FTP_DATA_CAPACITY"

definition texts_ok :: "ftp \<Rightarrow> bool" where
  "texts_ok f \<longleftrightarrow> length (control_text f) < FTP_CONTROL_CAPACITY \<and> length (last_reply f) \<le> FTP_TEXT_MAX \<and>
     length (req_text f) \<le> FTP_TEXT_MAX \<and> length (host f) < 192 \<and> length (transfer_command f) < FTP_TEXT_MAX + 8"

definition ftp_inv :: "ftp \<Rightarrow> bool" where
  "ftp_inv f \<longleftrightarrow> ring_ok f \<and> texts_ok f"

definition pbuf_bounded :: "(bytes \<Rightarrow> nat \<Rightarrow> nat \<Rightarrow> bytes) \<Rightarrow> bool" where
  "pbuf_bounded pcopy \<longleftrightarrow> (\<forall>p n off. length (pcopy p n off) \<le> n)"

definition pbuf_exact :: "(bytes \<Rightarrow> nat \<Rightarrow> nat \<Rightarrow> bytes) \<Rightarrow> bytes \<Rightarrow> bool" where
  "pbuf_exact pcopy p \<longleftrightarrow> (\<forall>n off. pcopy p n off = seg p off n)"

text \<open>The bytes waiting in the ring, oldest first.\<close>

definition waiting :: "ftp \<Rightarrow> bytes" where
  "waiting f = ring_contents (data_buffer f) (data_tail f) (data_count f)"

lemma inv_cong:
  "data_buffer f' = data_buffer f \<Longrightarrow> data_tail f' = data_tail f \<Longrightarrow> data_count f' = data_count f \<Longrightarrow> data_head f' = data_head f \<Longrightarrow>
   control_text f' = control_text f \<Longrightarrow> last_reply f' = last_reply f \<Longrightarrow> req_text f' = req_text f \<Longrightarrow>
   host f' = host f \<Longrightarrow> transfer_command f' = transfer_command f \<Longrightarrow> ftp_inv f' = ftp_inv f"
  by (simp add: ftp_inv_def ring_ok_def texts_ok_def)

lemma inv_updates [simp]:
  "ftp_inv (f\<lparr>state := a0\<rparr>) = ftp_inv f" "ftp_inv (f\<lparr>operation := a1\<rparr>) = ftp_inv f" "ftp_inv (f\<lparr>control := a2\<rparr>) = ftp_inv f"
  "ftp_inv (f\<lparr>data := a3\<rparr>) = ftp_inv f" "ftp_inv (f\<lparr>address := a4\<rparr>) = ftp_inv f" "ftp_inv (f\<lparr>dns_done := a5\<rparr>) = ftp_inv f"
  "ftp_inv (f\<lparr>dns_ok := a6\<rparr>) = ftp_inv f" "ftp_inv (f\<lparr>control_connected := a7\<rparr>) = ftp_inv f" "ftp_inv (f\<lparr>control_eof := a8\<rparr>) = ftp_inv f"
  "ftp_inv (f\<lparr>data_connected := a9\<rparr>) = ftp_inv f" "ftp_inv (f\<lparr>data_eof := b0\<rparr>) = ftp_inv f" "ftp_inv (f\<lparr>data_error := b1\<rparr>) = ftp_inv f"
  "ftp_inv (f\<lparr>data_port := b2\<rparr>) = ftp_inv f" "ftp_inv (f\<lparr>transfer := b3\<rparr>) = ftp_inv f"
  "ftp_inv (f\<lparr>deadline_ms := b6\<rparr>) = ftp_inv f" "ftp_inv (f\<lparr>control_port := b7\<rparr>) = ftp_inv f"
  "ftp_inv (f\<lparr>request_pending := b8\<rparr>) = ftp_inv f" "ftp_inv (f\<lparr>request_cancel := b9\<rparr>) = ftp_inv f" "ftp_inv (f\<lparr>request_pointer := c0\<rparr>) = ftp_inv f"
  "ftp_inv (f\<lparr>request_status_address := c1\<rparr>) = ftp_inv f" "ftp_inv (f\<lparr>request_started := c2\<rparr>) = ftp_inv f"
  "ftp_inv (f\<lparr>request_command := c3\<rparr>) = ftp_inv f" "ftp_inv (f\<lparr>jim_ram := c4\<rparr>) = ftp_inv f" "ftp_inv (f\<lparr>net_log := c5\<rparr>) = ftp_inv f"
  "ftp_inv (f\<lparr>mem_log := c6\<rparr>) = ftp_inv f"
  by (rule inv_cong; simp)+

lemma inv_stores [simp]:
  "ftp_inv f \<Longrightarrow> length h < 192 \<Longrightarrow> ftp_inv (f\<lparr>host := h\<rparr>)"
  "ftp_inv f \<Longrightarrow> length c < FTP_TEXT_MAX + 8 \<Longrightarrow> ftp_inv (f\<lparr>transfer_command := c\<rparr>)"
  by (simp_all add: ftp_inv_def ring_ok_def texts_ok_def)

lemma inv_helpers [simp]:
  "ftp_inv (log_net e f) = ftp_inv f" "ftp_inv (ftp_set_deadline n f) = ftp_inv f" "ftp_inv (memory_write a v f) = ftp_inv f"
  "ftp_inv (detach_data n b f) = ftp_inv f" "ftp_inv (detach_control n b f) = ftp_inv f"
  by (simp_all add: log_net_def ftp_set_deadline_def memory_write_def detach_data_def detach_control_def split: option.splits)

lemma ftp_zero_inv: "ftp_inv (ftp_zero f)"
  by (simp add: ftp_inv_def ring_ok_def texts_ok_def ftp_zero_def)

lemma ftp_reset_inv [simp]: "ftp_inv (ftp_reset n b f)"
  by (simp add: ftp_reset_def ftp_zero_inv)

subsection \<open>Receiving\<close>

lemma store_text_in [simp]: "length b < n \<Longrightarrow> store_text n b = Some b"
  by (simp add: store_text_def)

lemma control_copy_safe:
  assumes "pbuf_bounded pcopy"
  shows "length t + (length p - off) < FTP_CONTROL_CAPACITY \<Longrightarrow>
    \<exists>t'. control_copy pcopy p off t = Some t' \<and> length t' < FTP_CONTROL_CAPACITY"
proof (induction "length p - off" arbitrary: off t rule: less_induct)
  case less
  let ?c = "pcopy p (length p - off) off"
  have b: "length ?c \<le> length p - off" using assms by (simp add: pbuf_bounded_def)
  show ?case
  proof (cases "off < length p \<and> ?c \<noteq> []")
    case True
    then have "length p - (off + length ?c) < length p - off" by (simp add: shrink_less)
    moreover have "length (t @ ?c) + (length p - (off + length ?c)) < FTP_CONTROL_CAPACITY" using less.prems b by simp
    ultimately obtain t' where "control_copy pcopy p (off + length ?c) (t @ ?c) = Some t'" "length t' < FTP_CONTROL_CAPACITY"
      using less.hyps [of "off + length ?c" "t @ ?c"] by blast
    moreover have "length (t @ ?c) < FTP_CONTROL_CAPACITY" using less.prems b by simp
    ultimately show ?thesis using True b by (subst control_copy.simps) (simp add: Let_def)
  next
    case False
    then show ?thesis using less.prems by (subst control_copy.simps) (auto simp: Let_def)
  qed
qed

lemma control_receive_inv:
  assumes "pbuf_bounded pcopy" "ftp_inv f"
  shows "\<exists>f'. ftp_control_receive pcopy pkt err f = Some f' \<and> ftp_inv f'"
proof (cases "\<not> err \<and> (\<exists>p. pkt = Some p \<and> length (control_text f) + length p < FTP_CONTROL_CAPACITY)")
  case True
  then obtain p t where p: "pkt = Some p" "length (control_text f) + length p < FTP_CONTROL_CAPACITY"
    "control_copy pcopy p 0 (control_text f) = Some t" "length t < FTP_CONTROL_CAPACITY"
    using control_copy_safe [OF assms(1), of "control_text f" _ 0] by fastforce
  have "ftp_inv (f\<lparr>control_text := t\<rparr>)" using assms(2) p(4) by (simp add: ftp_inv_def ring_ok_def texts_ok_def)
  then show ?thesis using True p by (auto simp: ftp_control_receive_def)
next
  case False
  then show ?thesis using assms(2) by (auto simp: ftp_control_receive_def not_less split: option.splits)
qed

text \<open>Filling the ring with a whole block, before the count is brought up to date.\<close>

lemma ring_fill:
  "length b = FTP_DATA_CAPACITY \<Longrightarrow> h = (t + k) mod FTP_DATA_CAPACITY \<Longrightarrow> k + length vs \<le> FTP_DATA_CAPACITY \<Longrightarrow>
   data_buffer f = b \<Longrightarrow> data_head f = h \<Longrightarrow>
   \<exists>b'. enq_all ring_store vs f = Some (f\<lparr>data_buffer := b', data_head := (t + (k + length vs)) mod FTP_DATA_CAPACITY\<rparr>) \<and>
     length b' = FTP_DATA_CAPACITY \<and> ring_contents b' t (k + length vs) = ring_contents b t k @ vs"
proof (induction vs arbitrary: f b h k)
  case Nil
  then show ?case by (intro exI [of _ b]) simp
next
  case (Cons v vs)
  let ?b = "b[h := v]" and ?h = "(h + 1) mod FTP_DATA_CAPACITY"
  let ?f = "f\<lparr>data_buffer := ?b, data_head := ?h\<rparr>"
  have s: "ring_store f v = Some ?f" using Cons.prems by (simp add: ring_store_def)
  have h: "?h = (t + Suc k) mod FTP_DATA_CAPACITY" using Cons.prems(2) by (simp add: mod_simps)
  have c: "ring_contents ?b t (Suc k) = ring_contents b t k @ [v]"
    using ring_put [of k b t v] Cons.prems by simp
  obtain b' where "enq_all ring_store vs ?f = Some (?f\<lparr>data_buffer := b', data_head := (t + (Suc k + length vs)) mod FTP_DATA_CAPACITY\<rparr>)"
    "length b' = FTP_DATA_CAPACITY" "ring_contents b' t (Suc k + length vs) = ring_contents ?b t (Suc k) @ vs"
    using Cons.IH [of ?b ?h "Suc k" ?f] Cons.prems h by auto
  then show ?case using s c by auto
qed

lemma block_in:
  assumes "ring_ok f" "length vs \<le> FTP_DATA_CAPACITY - data_count f"
  shows "\<exists>b h. enq_all ring_store vs f = Some (f\<lparr>data_buffer := b, data_head := h\<rparr>) \<and>
    ring_ok (f\<lparr>data_buffer := b, data_head := h, data_count := data_count f + length vs\<rparr>) \<and>
    waiting (f\<lparr>data_buffer := b, data_head := h, data_count := data_count f + length vs\<rparr>) = waiting f @ vs"
proof -
  note r = assms(1) [unfolded ring_ok_def]
  then have n: "data_count f + length vs \<le> FTP_DATA_CAPACITY" using assms(2) by linarith
  obtain b where "enq_all ring_store vs f = Some (f\<lparr>data_buffer := b, data_head := (data_tail f + (data_count f + length vs)) mod FTP_DATA_CAPACITY\<rparr>)"
    "length b = FTP_DATA_CAPACITY" "ring_contents b (data_tail f) (data_count f + length vs) = ring_contents (data_buffer f) (data_tail f) (data_count f) @ vs"
    using ring_fill [of "data_buffer f" "data_head f" "data_tail f" "data_count f" vs f] r n by auto
  then show ?thesis using r n by (auto simp: ring_ok_def waiting_def)
qed

lemma data_copy_law:
  assumes "pbuf_bounded pcopy"
  shows "ring_ok f \<Longrightarrow> length p - off \<le> FTP_DATA_CAPACITY - data_count f \<Longrightarrow>
    \<exists>b h c vs. data_copy pcopy p off f = Some (f\<lparr>data_buffer := b, data_head := h, data_count := c\<rparr>) \<and>
      ring_ok (f\<lparr>data_buffer := b, data_head := h, data_count := c\<rparr>) \<and>
      waiting (f\<lparr>data_buffer := b, data_head := h, data_count := c\<rparr>) = waiting f @ vs \<and>
      (pbuf_exact pcopy p \<longrightarrow> vs = drop off p)"
proof (induction "length p - off" arbitrary: off f rule: less_induct)
  case less
  let ?w = "min 128 (length p - off)"
  let ?c = "pcopy p ?w off"
  have b: "length ?c \<le> ?w" using assms unfolding pbuf_bounded_def by blast
  show ?case
  proof (cases "off < length p \<and> ?c \<noteq> []")
    case True
    then have m: "length p - (off + length ?c) < length p - off" by (simp add: shrink_less)
    have "length ?c \<le> FTP_DATA_CAPACITY - data_count f" using b less.prems(2) by simp
    then obtain bb hh where e: "enq_all ring_store ?c f = Some (f\<lparr>data_buffer := bb, data_head := hh\<rparr>)"
      "ring_ok (f\<lparr>data_buffer := bb, data_head := hh, data_count := data_count f + length ?c\<rparr>)"
      "waiting (f\<lparr>data_buffer := bb, data_head := hh, data_count := data_count f + length ?c\<rparr>) = waiting f @ ?c"
      using block_in [OF less.prems(1), of ?c] by blast
    let ?f = "f\<lparr>data_buffer := bb, data_head := hh, data_count := data_count f + length ?c\<rparr>"
    have le: "length p - (off + length ?c) \<le> FTP_DATA_CAPACITY - data_count ?f" using b less.prems(2) by simp
    obtain b2 h2 c2 vs where r: "data_copy pcopy p (off + length ?c) ?f = Some (f\<lparr>data_buffer := b2, data_head := h2, data_count := c2\<rparr>)"
      "ring_ok (f\<lparr>data_buffer := b2, data_head := h2, data_count := c2\<rparr>)"
      "waiting (f\<lparr>data_buffer := b2, data_head := h2, data_count := c2\<rparr>) = waiting ?f @ vs"
      "pbuf_exact pcopy p \<longrightarrow> vs = drop (off + length ?c) p"
      using less.hyps [OF m e(2) le] by auto
    have "data_copy pcopy p off f = Some (f\<lparr>data_buffer := b2, data_head := h2, data_count := c2\<rparr>)"
      using True b e(1) r(1) by (subst data_copy.simps) (simp add: Let_def not_less)
    moreover have "?c @ vs = drop off p" if "pbuf_exact pcopy p"
    proof -
      have "?c = take (length ?c) (drop off p)" using that by (simp add: pbuf_exact_def seg_def)
      then show ?thesis using r(4) that by (metis append_take_drop_id drop_drop add.commute)
    qed
    ultimately show ?thesis using r(2, 3) e(3) by (intro exI [of _ b2] exI [of _ h2] exI [of _ c2] exI [of _ "?c @ vs"]) simp
  next
    case False
    have "drop off p = []" if "pbuf_exact pcopy p"
      using False that by (auto simp: pbuf_exact_def seg_def not_less)
    moreover have "data_copy pcopy p off f = Some f" using False by (subst data_copy.simps) (auto simp: Let_def)
    ultimately show ?thesis using less.prems(1)
      by (intro exI [of _ "data_buffer f"] exI [of _ "data_head f"] exI [of _ "data_count f"] exI [of _ "[]"]) simp
  qed
qed

lemma data_receive_inv:
  assumes "pbuf_bounded pcopy" "ftp_inv f"
  shows "\<exists>ok f'. ftp_data_receive pcopy pkt err f = Some (ok, f') \<and> ftp_inv f'"
proof (cases "\<not> err \<and> (\<exists>p. pkt = Some p \<and> length p \<le> FTP_DATA_CAPACITY - data_count f)")
  case True
  then obtain p where p: "pkt = Some p" "length p \<le> FTP_DATA_CAPACITY - data_count f" "\<not> err" by blast
  then obtain b h c where "data_copy pcopy p 0 f = Some (f\<lparr>data_buffer := b, data_head := h, data_count := c\<rparr>)"
    "ring_ok (f\<lparr>data_buffer := b, data_head := h, data_count := c\<rparr>)"
    using data_copy_law [OF assms(1), of f p 0] assms(2) by (auto simp: ftp_inv_def)
  then show ?thesis using p assms(2) by (auto simp: ftp_data_receive_def ftp_inv_def texts_ok_def)
next
  case False
  then show ?thesis using assms(2) by (auto simp: ftp_data_receive_def not_less split: option.splits)
qed

text \<open>Draining the ring.\<close>

lemma ring_drain:
  "length (data_buffer f) = FTP_DATA_CAPACITY \<Longrightarrow> data_tail f < FTP_DATA_CAPACITY \<Longrightarrow>
   deq_n ring_fetch k f = Some (ring_contents (data_buffer f) (data_tail f) k, f\<lparr>data_tail := (data_tail f + k) mod FTP_DATA_CAPACITY\<rparr>)"
proof (induction k arbitrary: f)
  case (Suc k)
  let ?f = "f\<lparr>data_tail := (data_tail f + 1) mod FTP_DATA_CAPACITY\<rparr>"
  have "ring_fetch f = Some (data_buffer f ! data_tail f, ?f)" using Suc.prems by (simp add: ring_fetch_def)
  moreover have "((data_tail f + 1) mod FTP_DATA_CAPACITY + k) mod FTP_DATA_CAPACITY = (data_tail f + Suc k) mod FTP_DATA_CAPACITY"
    by (simp add: mod_simps)
  ultimately show ?case using Suc.IH [of ?f] Suc.prems ring_get [of "data_buffer f" "data_tail f" k] by simp
qed (simp add: ring_contents_def)

lemma ring_contents_split:
  "k \<le> n \<Longrightarrow> ring_contents b t k = take k (ring_contents b t n) \<and>
     ring_contents b ((t + k) mod length b) (n - k) = drop k (ring_contents b t n)"
  by (auto simp: ring_contents_def take_map drop_map list_eq_iff_nth_eq mod_simps ac_simps)

lemma drain_ok:
  assumes "ring_ok f" "k \<le> data_count f"
  shows "\<exists>f1. deq_n ring_fetch k f = Some (take k (waiting f), f1) \<and> ring_ok (f1\<lparr>data_count := data_count f - k\<rparr>) \<and>
    waiting (f1\<lparr>data_count := data_count f - k\<rparr>) = drop k (waiting f) \<and> f1 = f\<lparr>data_tail := data_tail f1\<rparr>"
proof -
  note r = assms(1) [unfolded ring_ok_def]
  have "data_tail f + data_count f = (data_tail f + k) + (data_count f - k)" using assms(2) by simp
  then have "((data_tail f + k) mod FTP_DATA_CAPACITY + (data_count f - k)) mod FTP_DATA_CAPACITY = (data_tail f + data_count f) mod FTP_DATA_CAPACITY"
    by (simp only: mod_add_left_eq)
  then show ?thesis using ring_drain [of f k] r assms(2) ring_contents_split [OF assms(2), of "data_buffer f" "data_tail f"]
    by (auto simp: ring_ok_def waiting_def)
qed

subsection \<open>Every poll keeps the invariant\<close>

lemma ftp_reply_inv: "ftp_inv f \<Longrightarrow> \<exists>c f'. ftp_reply f = Some (c, f') \<and> ftp_inv f'"
  by (auto simp: ftp_reply_def Let_def ftp_inv_def texts_ok_def ring_ok_def split: option.splits)

lemma ftp_error_inv [simp]: "ftp_inv (snd (ftp_error r f)) = ftp_inv f"
  by (simp add: ftp_error_def)

lemma ftp_send_inv [simp]: "ftp_inv (snd (ftp_send n c f)) = ftp_inv f"
  by (simp add: ftp_send_def split: option.splits)

lemma wait_or_error_inv [simp]: "ftp_inv (snd (wait_or_error n f)) = ftp_inv f"
  by (simp add: wait_or_error_def)

lemma ftp_start_control_inv [simp]: "ftp_inv (snd (ftp_start_control n port f)) = ftp_inv f"
  by (simp add: ftp_start_control_def Let_def split: option.splits)

lemma open_dns_inv [simp]: "ftp_inv (snd (open_dns n f)) = ftp_inv f"
  by (simp add: open_dns_def)

lemma send_step_inv [simp]: "ftp_inv (snd (send_step n c nxt f)) = ftp_inv f"
  using ftp_send_inv [of n c f] by (auto simp: send_step_def Let_def simp del: ftp_send_inv split: prod.splits)

lemma ftp_start_data_inv [simp]: "ftp_inv f \<Longrightarrow> ftp_inv (snd (ftp_start_data n f))"
proof -
  assume "ftp_inv f"
  then have "ftp_inv (detach_data n True f)" by simp
  then have "ftp_inv ((detach_data n True f)\<lparr>data_head := 0, data_tail := 0, data_count := 0\<rparr>)"
    by (simp add: ftp_inv_def ring_ok_def texts_ok_def)
  then have "ftp_inv ((detach_data n True f)\<lparr>data_connected := False, data_eof := False, data_error := False, data_head := 0, data_tail := 0, data_count := 0\<rparr>)"
    by (simp add: ftp_inv_def ring_ok_def texts_ok_def)
  then show ?thesis by (simp add: ftp_start_data_def Let_def split: option.splits)
qed

text \<open>A poll that answers and keeps the invariant.\<close>

definition good_poll :: "(u8 \<times> ftp) option \<Rightarrow> bool" where
  "good_poll r \<longleftrightarrow> (\<exists>v f. r = Some (v, f) \<and> ftp_inv f)"

lemma good_poll_Some [simp]: "good_poll (Some r) \<longleftrightarrow> ftp_inv (snd r)"
  by (cases r) (auto simp: good_poll_def)

lemma reply_step_inv:
  assumes "ftp_inv f" "\<And>c f1. ftp_inv f1 \<Longrightarrow> ftp_inv (snd (k c f1))"
  shows "good_poll (reply_step n k f)"
proof -
  obtain c f1 where r: "ftp_reply f = Some (c, f1)" "ftp_inv f1" using ftp_reply_inv [OF assms(1)] by blast
  then show ?thesis using assms(2) [of f1]
    by (cases c) (auto simp: reply_step_def)
qed

lemma parsed_host_fits: "ftp_parse_url u n = Some (h, port) \<Longrightarrow> length h < n"
  by (auto simp: ftp_parse_url_def split: bind_splits if_splits)

lemma open_lookup_inv: "ftp_inv f \<Longrightarrow> (case open_lookup n f of Inl r \<Rightarrow> ftp_inv (snd r) | Inr f1 \<Rightarrow> ftp_inv f1)"
  by (simp add: open_lookup_def Let_def split: option.splits prod.splits dns_answer.splits sum.splits if_splits)
    (auto dest: parsed_host_fits)

lemma open_greeting_inv: "ftp_inv f \<Longrightarrow> good_poll (open_greeting n f)"
  using ftp_reply_inv [of f] by (auto simp: open_greeting_def split: option.splits)

lemma ftp_open_poll_inv: "ftp_inv f \<Longrightarrow> good_poll (ftp_open_poll n f)"
  using open_lookup_inv [of f n] open_greeting_inv [of f n]
  by (cases "state f") (auto simp: ftp_open_poll_def split: sum.splits)

lemma length_ftp_upper_word [simp]: "length (ftp_upper_word b) = length b"
  by (induction b) auto

lemma snprintf_fits [simp]: "0 < n \<Longrightarrow> length (fst (snprintf n b)) < n" "0 < n \<Longrightarrow> length (fst (ftp_make_command n b)) < n"
  by (auto simp: snprintf_def ftp_make_command_def)

lemma exec_new_inv: "ftp_inv f \<Longrightarrow> (case exec_new f of Inl r \<Rightarrow> ftp_inv (snd r) | Inr f1 \<Rightarrow> ftp_inv f1)"
proof -
  assume "ftp_inv f"
  then have "ftp_inv (f\<lparr>req_text := ftp_upper_word (req_text f)\<rparr>)" by (simp add: ftp_inv_def ring_ok_def texts_ok_def)
  then show ?thesis by (simp add: exec_new_def Let_def case_prod_beta split: option.splits sum.splits if_splits)
qed

lemma exec_replies_inv [simp]:
  "ftp_inv f \<Longrightarrow> ftp_inv (snd (exec_epsv_reply n c f))" "ftp_inv f \<Longrightarrow> ftp_inv (snd (exec_pasv_reply n c f))"
  "ftp_inv f \<Longrightarrow> ftp_inv (snd (exec_transfer_reply n c f))"
  by (simp_all add: exec_epsv_reply_def exec_pasv_reply_def exec_transfer_reply_def split: option.splits)

lemma ftp_exec_poll_inv: "ftp_inv f \<Longrightarrow> good_poll (ftp_exec_poll n f)"
  using exec_new_inv [of f]
  by (cases "operation f") (auto simp: ftp_exec_poll_def split: sum.splits intro!: reply_step_inv)

lemma ftp_transfer_reply_inv: "ftp_inv f \<Longrightarrow> good_poll (ftp_transfer_reply n f)"
  unfolding ftp_transfer_reply_def by (rule reply_step_inv) simp_all

text \<open>The bytes a READ request asks for and gets.\<close>

lemma read_count: "unat (read_amount cp f) = min (unat (jim_ram f (cp + 1))) (data_count f)"
  using unsigned_less [of "jim_ram f (cp + 1)", where ?'a = nat] by (auto simp: read_amount_def Let_def unat_of_nat min_def)

lemma ftp_read_poll_inv:
  assumes "ftp_inv f" shows "good_poll (ftp_read_poll base n cp f)"
proof -
  let ?c = "read_amount cp f"
  have "unat ?c \<le> data_count f" by (simp add: read_count)
  then obtain f1 where d: "deq_n ring_fetch (unat ?c) f = Some (take (unat ?c) (waiting f), f1)"
    "ring_ok (f1\<lparr>data_count := data_count f - unat ?c\<rparr>)" "f1 = f\<lparr>data_tail := data_tail f1\<rparr>"
    using drain_ok [of f "unat ?c"] assms unfolding ftp_inv_def by blast
  have e: "data_count f1 = data_count f" by (subst d(3)) simp
  have "texts_ok (f1\<lparr>data_count := data_count f - unat ?c\<rparr>)"
    by (subst d(3)) (use assms in \<open>simp add: ftp_inv_def texts_ok_def\<close>)
  then have i: "ftp_inv (f1\<lparr>data_count := data_count f - unat ?c\<rparr>)" using d(2) by (simp add: ftp_inv_def)
  let ?f2 = "f1\<lparr>data_count := data_count f - unat ?c,
    jim_ram := (jim_store (jim_ram f1) (base + FTP_SCRATCH_OFFSET) (take (unat ?c) (waiting f)))(cp + 1 := ?c)\<rparr>"
  have "ftp_inv ?f2" using i by simp
  then show ?thesis using assms d(1) e ftp_transfer_reply_inv [of "detach_data n False ?f2" n]
    by (cases "?c = 0") (simp_all add: ftp_read_poll_def Let_def)
qed

lemma ftp_write_poll_inv: "ftp_inv f \<Longrightarrow> good_poll (ftp_write_poll base n cp f)"
  using ftp_transfer_reply_inv [of f n] by (auto simp: ftp_write_poll_def Let_def split: option.splits)

lemma ftp_response_inv [simp]: "ftp_inv (ftp_response cp f) = ftp_inv f"
  by (simp add: ftp_response_def Let_def)

lemma length_jim_load [simp]: "length (jim_load m a n) = n"
  by (induction n arbitrary: a) auto

lemma ftp_copy_request_inv: "ftp_inv f \<Longrightarrow> \<exists>ok f'. ftp_copy_request cp f = Some (ok, f') \<and> ftp_inv f' \<and> request_command f' = request_command f"
  by (auto simp: ftp_copy_request_def Let_def ftp_inv_def ring_ok_def texts_ok_def)

lemma request_start_inv: "ftp_inv f \<Longrightarrow> \<exists>go f'. request_start n cp f = Some (go, f') \<and> ftp_inv f'"
proof -
  assume i: "ftp_inv f"
  have t: "ftp_inv ((ftp_reset n True g)\<lparr>req_text := req_text g\<rparr>)" if "ftp_inv g" for g
    using that ftp_reset_inv [of n True g] by (simp add: ftp_inv_def ring_ok_def texts_ok_def)
  show ?thesis using i ftp_copy_request_inv [of "f\<lparr>request_started := True\<rparr>" cp]
    by (auto simp: request_start_def Let_def t)
qed

lemma ftp_close_command_inv: "ftp_inv (snd (ftp_close_command n f))"
proof -
  have "ftp_inv (g\<lparr>last_reply := ascii ''221 Closed'' @ crlf\<rparr>)" if "ftp_inv g" for g
    using that by (simp add: ftp_inv_def ring_ok_def texts_ok_def ascii_def crlf_def)
  then show ?thesis by (simp add: ftp_close_command_def Let_def)
qed

lemma ftp_dispatch_inv: "ftp_inv f \<Longrightarrow> good_poll (ftp_dispatch base n cp f)"
  by (simp add: ftp_dispatch_def Let_def ftp_open_poll_inv ftp_exec_poll_inv ftp_read_poll_inv ftp_write_poll_inv ftp_close_command_inv)

lemma ftp_process_inv: "ftp_inv f \<Longrightarrow> good_poll (ftp_process base n cp f)"
proof -
  assume i: "ftp_inv f"
  obtain go f1 where s: "(if request_started f then Some (True, f) else request_start n cp f) = Some (go, f1)" "ftp_inv f1"
    using i request_start_inv [OF i, of n cp] by (cases "request_started f") auto
  obtain r f2 where "ftp_dispatch base n cp f1 = Some (r, f2)" "ftp_inv f2"
    using ftp_dispatch_inv [OF s(2), of base n cp] by (auto simp: good_poll_def)
  then show ?thesis using s by (simp add: ftp_process_def del: if_split)
qed

lemma ftp_service_poll_inv: "ftp_inv f \<Longrightarrow> \<exists>f'. ftp_service_poll base n f = Some f' \<and> ftp_inv f'"
  using ftp_process_inv [of f base n "request_pointer f"]
  by (auto simp: ftp_service_poll_def Let_def good_poll_def)

lemma ftp_service_command_inv: "ftp_inv f \<Longrightarrow> ftp_inv (ftp_service_command base n cp a f)"
  by (simp add: ftp_service_command_def Let_def)

subsection \<open>Driving the service\<close>

text \<open>The events of the service: callbacks of the network stack, polls, and commands of the mailbox.\<close>

datatype ftp_event = Control_Receive "bytes option" bool | Data_Receive "bytes option" bool | Control_Error | Data_Error
  | Control_Connected bool | Data_Connected bool | Dns_Found "u32 option" | Service_Poll lwip | Service_Command lwip u32 u32

fun ftp_step :: "(bytes \<Rightarrow> nat \<Rightarrow> nat \<Rightarrow> bytes) \<Rightarrow> u32 \<Rightarrow> ftp_event \<Rightarrow> ftp \<Rightarrow> ftp option" where
  "ftp_step pcopy base (Control_Receive p e) f = ftp_control_receive pcopy p e f"
| "ftp_step pcopy base (Data_Receive p e) f = map_option snd (ftp_data_receive pcopy p e f)"
| "ftp_step pcopy base Control_Error f = Some (ftp_control_error f)"
| "ftp_step pcopy base Data_Error f = Some (ftp_data_error f)"
| "ftp_step pcopy base (Control_Connected ok) f = Some (ftp_control_connected ok f)"
| "ftp_step pcopy base (Data_Connected ok) f = Some (ftp_data_connected ok f)"
| "ftp_step pcopy base (Dns_Found a) f = Some (ftp_dns_found a f)"
| "ftp_step pcopy base (Service_Poll n) f = ftp_service_poll base n f"
| "ftp_step pcopy base (Service_Command n cp a) f = Some (ftp_service_command base n cp a f)"

lemma ftp_step_safe:
  assumes "pbuf_bounded pcopy" "ftp_inv f" shows "\<exists>f'. ftp_step pcopy base ev f = Some f' \<and> ftp_inv f'"
proof (cases ev)
  case (Data_Receive p e)
  then show ?thesis using data_receive_inv [OF assms, of p e] by auto
qed (use assms in \<open>auto simp: control_receive_inv ftp_service_poll_inv ftp_service_command_inv ftp_control_error_def
    ftp_data_error_def ftp_control_connected_def ftp_data_connected_def ftp_dns_found_def split: option.splits\<close>)

interpretation fs: safe_component "ftp_step pcopy base" "\<lambda>_. True" "\<lambda>f. pbuf_bounded pcopy \<and> ftp_inv f" for pcopy base
  by unfold_locales (simp add: ftp_step_safe)

text \<open>C19: Whatever the network delivers, in packets of any contents and any order, and whatever the mailbox
  commands and the stack answers, the FTP service never writes past its host, request, command, reply, control
  or data buffers, and its ring indices stay consistent. All it needs of \<open>pbuf_copy_partial\<close> is that it
  copies no more bytes than it is asked for.\<close>

theorem ftp_events_safe:
  assumes "pbuf_bounded pcopy"
  shows "\<exists>f'. run_ops (ftp_step pcopy base) evs (ftp_service_init False f) = Some f' \<and> ftp_inv f'"
  using fs.run_safe [of pcopy "ftp_service_init False f" evs base] assms
  by (auto simp: list_all_iff ftp_service_init_def ftp_zero_inv)

definition demo_ftp :: ftp where
  "demo_ftp = \<lparr>state = FTP_STATE_CLOSED, operation = FTP_OP_NONE, control = None, data = None, address = 0, dns_done = False,
     dns_ok = False, control_connected = False, control_eof = False, data_connected = False, data_eof = False, data_error = False,
     data_port = 0, transfer = 0, host = [], req_text = [], transfer_command = [], control_text = [], last_reply = [],
     data_buffer = replicate FTP_DATA_CAPACITY 0, data_head = 0, data_tail = 0, data_count = 0, deadline_ms = 0, control_port = 0,
     request_pending = False, request_cancel = False, request_pointer = 0, request_status_address = 0, request_started = False,
     request_command = 0, jim_ram = (\<lambda>_. 0), net_log = [], mem_log = []\<rparr>"

lemma demo_inv: "ftp_inv demo_ftp"
  by (simp add: demo_ftp_def ftp_inv_def ring_ok_def texts_ok_def)

abbreviation demo_copy :: "bytes \<Rightarrow> nat \<Rightarrow> nat \<Rightarrow> bytes" where
  "demo_copy p n off \<equiv> seg p off n"

lemma demo_copy_ok: "pbuf_bounded demo_copy" "pbuf_exact demo_copy p"
  by (simp_all add: pbuf_bounded_def pbuf_exact_def seg_def)

theorem ftp_events_safe_witness:
  "\<exists>f'. run_ops (ftp_step demo_copy 0) [Control_Receive (Some (ascii ''220 hello'')) False, Data_Receive (Some [1, 2]) False, Control_Error]
     (ftp_service_init False demo_ftp) = Some f' \<and> ftp_inv f'"
  by (rule ftp_events_safe) (rule demo_copy_ok)

subsection \<open>The data ring is a queue\<close>

lemma jim_load_other: "\<forall>i < n. a + of_nat i \<noteq> b \<Longrightarrow> jim_load (m(b := v)) a n = jim_load m a n"
proof (induction n arbitrary: a)
  case (Suc n)
  have "a \<noteq> b" using Suc.prems [rule_format, of 0] by simp
  moreover have "\<forall>i < n. (a + 1) + of_nat i \<noteq> b"
  proof (intro allI impI)
    fix i assume "i < n"
    then show "(a + 1) + of_nat i \<noteq> b" using Suc.prems [rule_format, of "Suc i"] by (simp add: ac_simps)
  qed
  ultimately show ?case using Suc.IH [of "a + 1"] by simp
qed simp

lemma jim_store_other: "\<forall>i < length vs. a + of_nat i \<noteq> b \<Longrightarrow> jim_store m a vs b = m b"
proof (induction vs arbitrary: a m)
  case (Cons v vs)
  have "a \<noteq> b" using Cons.prems [rule_format, of 0] by simp
  moreover have "\<forall>i < length vs. (a + 1) + of_nat i \<noteq> b"
  proof (intro allI impI)
    fix i assume "i < length vs"
    then show "(a + 1) + of_nat i \<noteq> b" using Cons.prems [rule_format, of "Suc i"] by (simp add: ac_simps)
  qed
  ultimately show ?case by (simp add: Cons.IH)
qed simp

lemma jim_load_store: "length vs < 2 ^ 32 \<Longrightarrow> jim_load (jim_store m a vs) a (length vs) = vs"
proof (induction vs arbitrary: a m)
  case (Cons v vs)
  have "\<forall>i < length vs. (a + 1) + of_nat i \<noteq> a"
  proof (intro allI impI)
    fix i assume "i < length vs"
    then have "of_nat (Suc i) \<noteq> (0 :: u32)" using Cons.prems word_of_nat_eq_0_iff [of "Suc i", where ?'a = 32]
      by (auto dest!: dvd_imp_le)
    then show "(a + 1) + of_nat i \<noteq> a" by (simp add: ac_simps)
  qed
  then have "jim_store (m(a := v)) (a + 1) vs a = v" by (simp add: jim_store_other)
  then show ?case using Cons.prems by (simp add: Cons.IH)
qed simp

lemma receive_law:
  assumes "ftp_inv f" "pbuf_bounded pcopy" "pbuf_exact pcopy p"
  shows "\<exists>f1. ftp_data_receive pcopy (Some p) False f = Some (length (waiting f) + length p \<le> FTP_DATA_CAPACITY, f1) \<and> ftp_inv f1 \<and>
    waiting f1 = (if length (waiting f) + length p \<le> FTP_DATA_CAPACITY then waiting f @ p else waiting f) \<and>
    operation f1 = operation f \<and> transfer f1 = transfer f \<and> jim_ram f1 = jim_ram f"
proof (cases "length (waiting f) + length p \<le> FTP_DATA_CAPACITY")
  case True
  then have le: "length p \<le> FTP_DATA_CAPACITY - data_count f" by (simp add: waiting_def)
  then obtain b h c where d: "data_copy pcopy p 0 f = Some (f\<lparr>data_buffer := b, data_head := h, data_count := c\<rparr>)"
    "ring_ok (f\<lparr>data_buffer := b, data_head := h, data_count := c\<rparr>)"
    "waiting (f\<lparr>data_buffer := b, data_head := h, data_count := c\<rparr>) = waiting f @ p"
    using data_copy_law [OF assms(2), of f p 0] assms(1, 3) by (auto simp: ftp_inv_def)
  have "texts_ok (f\<lparr>data_buffer := b, data_head := h, data_count := c\<rparr>)" using assms(1) by (simp add: ftp_inv_def texts_ok_def)
  then show ?thesis using True le d by (simp add: ftp_data_receive_def not_less ftp_inv_def)
next
  case False
  then have "FTP_DATA_CAPACITY - data_count f < length p"
    using assms(1) by (auto simp: waiting_def ftp_inv_def ring_ok_def)
  then show ?thesis using False assms(1) by (simp add: ftp_data_receive_def)
qed

lemma waiting_frame [simp]: "waiting (f\<lparr>jim_ram := m\<rparr>) = waiting f" "waiting (f\<lparr>deadline_ms := d\<rparr>) = waiting f" "waiting (ftp_set_deadline n f) = waiting f"
  by (simp_all add: waiting_def ftp_set_deadline_def)

lemma read_law:
  assumes "ftp_inv f" "operation f = FTP_OP_READ" "transfer f \<noteq> FTP_TRANSFER_WRITE"
    "\<forall>i < 256. base + FTP_SCRATCH_OFFSET + of_nat i \<noteq> cp + 1" "jim_ram f (cp + 1) \<noteq> 0" "waiting f \<noteq> []"
  shows "\<exists>k f2. k = min (unat (jim_ram f (cp + 1))) (length (waiting f)) \<and> ftp_read_poll base n cp f = Some (FTP_RESULT_OK, f2) \<and>
    jim_load (jim_ram f2) (base + FTP_SCRATCH_OFFSET) k = take k (waiting f) \<and> unat (jim_ram f2 (cp + 1)) = k \<and>
    waiting f2 = drop k (waiting f)"
proof -
  let ?c = "read_amount cp f" and ?a = "base + FTP_SCRATCH_OFFSET"
  let ?bs = "take (unat ?c) (waiting f)"
  have k: "unat ?c = min (unat (jim_ram f (cp + 1))) (length (waiting f))" by (simp add: read_count waiting_def)
  then have le: "unat ?c \<le> data_count f" by (simp add: waiting_def)
  obtain f1 where d: "deq_n ring_fetch (unat ?c) f = Some (?bs, f1)"
    "waiting (f1\<lparr>data_count := data_count f - unat ?c\<rparr>) = drop (unat ?c) (waiting f)" "f1 = f\<lparr>data_tail := data_tail f1\<rparr>"
    using drain_ok [OF _ le] assms(1) unfolding ftp_inv_def by blast
  have e: "data_count f1 = data_count f" by (subst d(3)) simp
  have "0 < unat ?c" using assms(5, 6) by (simp add: k unat_gt_0)
  then have nz: "?c \<noteq> 0" by auto
  have lb: "length ?bs = unat ?c" "unat ?c < 256"
    using unsigned_less [of ?c, where ?'a = nat] by (simp_all add: k)
  have "\<forall>i < length ?bs. ?a + of_nat i \<noteq> cp + 1" using assms(4) lb by simp
  then have "jim_load ((jim_store (jim_ram f1) ?a ?bs)(cp + 1 := ?c)) ?a (length ?bs) = ?bs"
    using jim_load_store [of ?bs "jim_ram f1" ?a] lb by (simp add: jim_load_other)
  then show ?thesis using k d(1, 2) e nz assms(2, 3) lb(1)
    by (intro exI [of _ "unat ?c"]) (simp add: ftp_read_poll_def Let_def ftp_set_deadline_def)
qed

text \<open>C22: The data ring is a queue of the bytes of the transfer: a packet is taken whole, behind the bytes
  that wait, or refused when it does not fit; a READ request hands out the oldest waiting bytes, as
  many as it asked for or as there are, leaves the others waiting, and reports how many it gave.\<close>

theorem data_ring_refines_queue:
  assumes "ftp_inv f" "pbuf_bounded pcopy" "pbuf_exact pcopy p" "operation f = FTP_OP_READ" "transfer f \<noteq> FTP_TRANSFER_WRITE"
    "\<forall>i < 256. base + FTP_SCRATCH_OFFSET + of_nat i \<noteq> cp + 1" "jim_ram f (cp + 1) \<noteq> 0" "waiting f @ p \<noteq> []" "length p \<le> FTP_DATA_CAPACITY"
  shows "\<exists>f1. ftp_data_receive pcopy (Some p) False f = Some (length (waiting f) + length p \<le> FTP_DATA_CAPACITY, f1) \<and>
     waiting f1 = (if length (waiting f) + length p \<le> FTP_DATA_CAPACITY then waiting f @ p else waiting f) \<and>
     (\<exists>k f2. k = min (unat (jim_ram f (cp + 1))) (length (waiting f1)) \<and> ftp_read_poll base n cp f1 = Some (FTP_RESULT_OK, f2) \<and>
        jim_load (jim_ram f2) (base + FTP_SCRATCH_OFFSET) k = take k (waiting f1) \<and> unat (jim_ram f2 (cp + 1)) = k \<and>
        waiting f2 = drop k (waiting f1))"
proof -
  obtain f1 where f1: "ftp_data_receive pcopy (Some p) False f = Some (length (waiting f) + length p \<le> FTP_DATA_CAPACITY, f1)" "ftp_inv f1"
    "waiting f1 = (if length (waiting f) + length p \<le> FTP_DATA_CAPACITY then waiting f @ p else waiting f)"
    "operation f1 = operation f" "transfer f1 = transfer f" "jim_ram f1 = jim_ram f"
    using receive_law [OF assms(1-3)] by blast
  have "waiting f1 \<noteq> []" using f1(3) assms(8, 9) by (auto split: if_splits)
  then show ?thesis using read_law [OF f1(2), of base cp n] f1 assms(4-7) by auto
qed

theorem data_ring_refines_queue_witness:
  "\<exists>f1 f2. ftp_data_receive demo_copy (Some [0x41, 0x42, 0x43])  False
       (demo_ftp\<lparr>operation := FTP_OP_READ, transfer := FTP_TRANSFER_READ, jim_ram := (\<lambda>_. 2)\<rparr>) = Some (True, f1) \<and>
     ftp_read_poll 0 undefined 0 f1 = Some (FTP_RESULT_OK, f2) \<and> waiting f2 = [0x43]"
proof -
  let ?f = "demo_ftp\<lparr>operation := FTP_OP_READ, transfer := FTP_TRANSFER_READ, jim_ram := (\<lambda>_. 2)\<rparr>"
  have w: "waiting ?f = []" by (simp add: demo_ftp_def waiting_def ring_contents_def)
  have "\<forall>i < 256. 0 + FTP_SCRATCH_OFFSET + word_of_nat i \<noteq> (0 + 1 :: u32)"
  proof (intro allI impI)
    fix i :: nat assume "i < 256"
    then have "unat (FTP_SCRATCH_OFFSET + word_of_nat i) = 0xFFF100 + i" by (simp add: unat_word_ariths unat_of_nat)
    then have "unat (FTP_SCRATCH_OFFSET + word_of_nat i) \<noteq> unat (1 :: u32)" by simp
    then show "0 + FTP_SCRATCH_OFFSET + word_of_nat i \<noteq> (0 + 1 :: u32)" by (metis add_0)
  qed
  then show ?thesis
    using data_ring_refines_queue [of ?f demo_copy "[0x41, 0x42, 0x43]" 0 0 undefined] w demo_inv demo_copy_ok by auto
qed

end
