(* ===== verification/Ftp_Protocol.thy ===== *)
theory Ftp_Protocol
  imports Ftp_Props
begin

unbundle bit_operations_syntax

section \<open>The FTP protocol\<close>

text \<open>
  Reply framing, the passive-mode address parsers, timeouts, and the course of an EXEC request.
\<close>

subsection \<open>Decimal numbers\<close>

lemma parse_digits_append:
  "\<forall>c \<in> set ds. is_digit c \<Longrightarrow> digits_value v ds \<le> limit \<Longrightarrow> parse_digits limit v (ds @ rest) = parse_digits limit (digits_value v ds) rest"
proof (induction ds arbitrary: v)
  case (Cons d ds)
  have "v * 10 + (unat d - 48) \<le> limit"
    using digits_value_ge [of "v * 10 + (unat d - 48)" ds] Cons.prems(2) by (simp add: digits_value_def)
  then show ?case using Cons by (simp add: digits_value_def Let_def)
qed (simp add: digits_value_def)

lemma parse_dec:
  assumes "n \<le> limit" "rest = [] \<or> \<not> is_digit (hd rest)"
  shows "parse_digits limit 0 (dec n @ rest) = Some (n, rest)"
proof -
  have "parse_digits limit 0 (dec n @ rest) = parse_digits limit n rest"
    using parse_digits_append [OF dec_digits, of 0 n limit rest] assms(1) by (simp add: dec_value)
  then show ?thesis using assms(2) by (cases rest) auto
qed

subsection \<open>Passive mode\<close>

lemma from_chr_found:
  assumes "0 \<notin> set pre" "c \<notin> set pre" "c \<noteq> 0"
  shows "from_chr c (pre @ c # r) = Some (c # cstr r)"
proof -
  have "dropWhile (\<lambda>x. x \<noteq> c) (pre @ c # cstr r) = c # cstr r"
    using assms(2) by (subst dropWhile_append2) auto
  then show ?thesis using assms by (simp add: from_chr_def cstr_append) (simp add: cstr_def)
qed

lemma epsv_parsed:
  assumes "0 < port" "port \<le> 65535" "0 \<notin> set pre" "0x28 \<notin> set pre" "\<not> is_digit d" "d \<noteq> 0" "d \<noteq> 0x29"
  shows "ftp_parse_epsv (epsv_text pre d port post) = Some (of_nat port)"
proof -
  let ?in = "d # d # d # dec port @ [d]"
  have nz: "0 \<notin> set (dec port)" "0x29 \<notin> set (dec port)" by (rule dec_no; simp add: is_digit_def)+
  have "epsv_text pre d port post = pre @ 0x28 # (?in @ 0x29 # post)" by (simp add: epsv_text_def)
  then have op: "from_chr 0x28 (epsv_text pre d port post) = Some (0x28 # (?in @ 0x29 # cstr post))"
    using from_chr_found [of pre "0x28" "?in @ 0x29 # post"] assms nz cstr_append [of "?in @ [0x29]" post] by simp
  have close: "from_chr 0x29 (0x28 # (?in @ 0x29 # cstr post)) \<noteq> None"
    using from_chr_found [of "0x28 # ?in" "0x29" "cstr post"] assms nz by simp
  have inner: "takeWhile (\<lambda>c. c \<noteq> 0x29) (?in @ 0x29 # cstr post) = ?in"
    by (subst takeWhile_append2) (use assms(7) nz in auto)
  have l: "5 \<le> length ?in" using dec_nonempty(1) [of port] by (cases "dec port") auto
  have d3: "(dec port @ [d]) ! 0 = hd (dec port)" using dec_nonempty(1) [of port] by (simp add: nth_append hd_conv_nth)
  show ?thesis using op close inner l d3 dec_nonempty(2) [of port] parse_dec [OF assms(2), of "[d]"] assms
    by (auto simp: ftp_parse_epsv_def Let_def numeral_3_eq_3)
qed

lemma pasv_values_commas:
  "vs \<noteq> [] \<Longrightarrow> \<forall>v \<in> set vs. v \<le> 255 \<Longrightarrow> post = [] \<or> \<not> is_digit (hd post) \<Longrightarrow>
     pasv_values (length vs) (commas vs @ post) = Some vs"
proof (induction vs rule: commas.induct)
  case (2 v)
  then show ?case using parse_dec [of v 255 post] dec_nonempty [of v] by simp
next
  case (3 v w vs)
  have "parse_digits 255 0 (dec v @ 0x2C # commas (w # vs) @ post) = Some (v, 0x2C # commas (w # vs) @ post)"
    using 3 by (intro parse_dec) (auto simp: is_digit_def)
  then show ?case using 3 dec_nonempty [of v] by simp
qed simp

lemma commas_clean: "\<not> is_digit c \<Longrightarrow> c \<noteq> 0x2C \<Longrightarrow> c \<notin> set (commas vs)"
  by (induction vs rule: commas.induct) (auto dest: dec_no)

lemma pasv_parsed:
  assumes "length vs = 6" "\<forall>v \<in> set vs. v \<le> 255" "vs ! 4 * 256 + vs ! 5 \<noteq> 0" "0 \<notin> set pre" "0x28 \<notin> set pre"
  shows "ftp_parse_pasv (pasv_text pre vs post) = Some (of_nat (vs ! 4 * 256 + vs ! 5))"
proof -
  have nz: "0 \<notin> set (commas vs)" by (rule commas_clean) (simp_all add: is_digit_def)
  have op: "from_chr 0x28 (pasv_text pre vs post) = Some (0x28 # (commas vs @ 0x29 # cstr post))"
    using from_chr_found [of pre "0x28" "commas vs @ 0x29 # post"] assms nz cstr_append [of "commas vs @ [0x29]" post]
    by (simp add: pasv_text_def)
  have ne: "vs \<noteq> []" using assms(1) by auto
  have v: "pasv_values 6 (commas vs @ 0x29 # cstr post) = Some vs"
    using pasv_values_commas [of vs "0x29 # cstr post"] assms(1, 2) ne by (simp add: is_digit_def)
  have b: "vs ! 4 \<le> 255" "vs ! 5 \<le> 255" using assms(1, 2) by simp_all
  then have "unat (of_nat (vs ! 4 * 256 + vs ! 5) :: u16) = vs ! 4 * 256 + vs ! 5" by (simp only: unat_of_nat) simp
  then have "(of_nat (vs ! 4 * 256 + vs ! 5) :: u16) \<noteq> 0" using assms(3) by (metis unat_0)
  then show ?thesis using op v by (simp add: ftp_parse_pasv_def Let_def)
qed

text \<open>The passive-mode replies are understood: whatever text surrounds it, an EPSV reply with any delimiter
  yields exactly the port it names, for every port from 1 to 65535, and a PASV reply yields the port
  its last two numbers form.\<close>

theorem passive_port_parsed:
  assumes "0 < port" "port \<le> 65535" "0 \<notin> set pre" "0x28 \<notin> set pre" "\<not> is_digit d" "d \<noteq> 0" "d \<noteq> 0x29"
    "length vs = 4" "\<forall>v \<in> set vs. v \<le> 255"
  shows "ftp_parse_epsv (epsv_text pre d port post) = Some (of_nat port) \<and>
    ftp_parse_pasv (pasv_text pre (vs @ [port div 256, port mod 256]) post) = Some (of_nat port)"
proof -
  have "(vs @ [port div 256, port mod 256]) ! 4 = port div 256" "(vs @ [port div 256, port mod 256]) ! 5 = port mod 256"
    "port div 256 \<le> 255" "port mod 256 \<le> 255"
    using assms(2, 8) by (auto simp: nth_append)
  then show ?thesis using pasv_parsed [of "vs @ [port div 256, port mod 256]" pre post] epsv_parsed [OF assms(1-7), of post] assms
    by auto
qed

theorem passive_port_parsed_witness:
  "ftp_parse_epsv (epsv_text (ascii ''229 Extended Passive '') 0x7C 50000 [0x0D, 0x0A]) = Some 50000 \<and>
   ftp_parse_pasv (pasv_text (ascii ''229 Extended Passive '') [192, 168, 0, 9, 195, 80] [0x0D, 0x0A]) = Some 50000"
  using passive_port_parsed [of 50000 "ascii ''229 Extended Passive ''" "0x7C" "[192, 168, 0, 9]" "[0x0D, 0x0A]"]
  by (simp add: ascii_def is_digit_def)

subsection \<open>Reply framing\<close>

text \<open>A line has no CR LF inside it.\<close>

definition clean_line :: "bytes \<Rightarrow> bool" where
  "clean_line l \<longleftrightarrow> (\<forall>i. i + 1 < length l \<longrightarrow> \<not> (l ! i = CR \<and> l ! (i + 1) = LF))"

definition code_line :: "nat \<Rightarrow> u8 \<Rightarrow> bytes \<Rightarrow> bytes" where
  "code_line code sep rest = [of_nat (48 + code div 100), of_nat (48 + code div 10 mod 10), of_nat (48 + code mod 10), sep] @ rest"

text \<open>The code a line carries, if it carries one.\<close>

definition code_of :: "bytes \<Rightarrow> nat option" where
  "code_of l = line_code l 0 (length l)"

text \<open>A line that does not end the reply to a multi-line opening with \<open>code\<close>.\<close>

definition inner_line :: "nat \<Rightarrow> bytes \<Rightarrow> bool" where
  "inner_line code l \<longleftrightarrow> clean_line l \<and> (code_of l = Some code \<longrightarrow> l ! 3 \<noteq> 0x20)"

lemma scan_to_crlf:
  assumes "clean_line l" "k \<le> length l"
  shows "reply_scan (p @ l @ crlf @ r) (length p + k) s m = reply_scan (p @ l @ crlf @ r) (length p + length l) s m"
  using assms(2)
proof (induction "length l - k" arbitrary: k)
  case (Suc n)
  let ?t = "p @ l @ crlf @ r"
  have k: "k < length l" using Suc by simp
  have a: "?t ! (length p + k) = l ! k" using k by (simp add: nth_append)
  have b: "?t ! (length p + k + 1) = (if k + 1 < length l then l ! (k + 1) else CR)"
    using k by (auto simp: nth_append crlf_def)
  have "\<not> (?t ! (length p + k) = CR \<and> ?t ! (length p + k + 1) = LF)"
    using assms(1) unfolding a b by (auto simp: clean_line_def)
  moreover have "length p + k + 1 < length ?t" using k by (simp add: crlf_def)
  ultimately have "reply_scan ?t (length p + k) s m = reply_scan ?t (length p + (k + 1)) s m"
    by (subst reply_scan.simps) (auto simp: add.assoc)
  then show ?case using Suc.hyps(1) [of "k + 1"] Suc.hyps(2) k by simp
qed simp

lemma line_code_shift: "line_code (p @ l @ r) (length p) (length p + length l) = code_of l"
proof (cases "4 \<le> length l")
  case True
  have "(p @ l @ r) ! (length p + i) = l ! i" if "i < 4" for i using that True by (simp add: nth_append)
  from this [of 0] this [of 1] this [of 2] show ?thesis using True by (simp add: line_code_def code_of_def numeral_2_eq_2)
qed (simp add: line_code_def code_of_def)

text \<open>One line of the scan.\<close>

lemma scan_line:
  assumes "clean_line l"
  shows "reply_scan (p @ l @ crlf @ r) (length p) (length p) m =
    (case code_of l of
       None \<Rightarrow> reply_scan (p @ l @ crlf @ r) (length (p @ l @ crlf)) (length (p @ l @ crlf)) m
     | Some code \<Rightarrow>
        let m' = (if p = [] \<and> l ! 3 = 0x2D then code else m) in
        if l ! 3 \<noteq> 0x20 \<or> (m' \<noteq> 0 \<and> code \<noteq> m')
        then reply_scan (p @ l @ crlf @ r) (length (p @ l @ crlf)) (length (p @ l @ crlf)) m'
        else Some (code, length (p @ l @ crlf)))"
proof -
  let ?t = "p @ l @ crlf @ r" and ?i = "length p + length l"
  have c: "?t ! ?i = CR" "?t ! (?i + 1) = LF" "?i + 1 < length ?t"
    using nth_append_length_plus [of "p @ l" "crlf @ r" 0] nth_append_length_plus [of "p @ l" "crlf @ r" 1]
    by (simp_all add: crlf_def)
  have n3: "?t ! (length p + 3) = l ! 3" if "code_of l = Some code" for code
    using that by (auto simp: code_of_def line_code_def nth_append split: if_splits)
  have "reply_scan ?t (length p) (length p) m = reply_scan ?t ?i (length p) m"
    using scan_to_crlf [OF assms, of 0 p r "length p" m] by simp
  also have "\<dots> = (case code_of l of None \<Rightarrow> reply_scan ?t (?i + 2) (?i + 2) m
     | Some code \<Rightarrow> let m' = (if length p = 0 \<and> ?t ! (length p + 3) = 0x2D then code else m) in
        if ?t ! (length p + 3) \<noteq> 0x20 \<or> (m' \<noteq> 0 \<and> code \<noteq> m') then reply_scan ?t (?i + 2) (?i + 2) m' else Some (code, ?i + 2))"
    using c by (subst reply_scan.simps) (simp add: line_code_shift)
  finally show ?thesis using n3 by (cases "code_of l") (simp_all add: crlf_def)
qed

definition lines_text :: "bytes list \<Rightarrow> bytes" where
  "lines_text ls = concat (map (\<lambda>l. l @ crlf) ls)"

lemma scan_inner:
  assumes "\<forall>l \<in> set ls. inner_line code l" "code \<noteq> 0" "p \<noteq> []" "clean_line z" "code_of z = Some code" "z ! 3 = 0x20"
  shows "reply_scan (p @ lines_text ls @ z @ crlf @ r) (length p) (length p) code = Some (code, length (p @ lines_text ls @ z @ crlf))"
  using assms(1, 3)
proof (induction ls arbitrary: p)
  case Nil
  then show ?case using scan_line [OF assms(4), of p r code] assms(2, 5, 6) by (simp add: lines_text_def Let_def)
next
  case (Cons l ls)
  let ?r = "lines_text ls @ z @ crlf @ r"
  have t: "lines_text (l # ls) = l @ crlf @ lines_text ls" by (simp add: lines_text_def)
  have i: "clean_line l" "code_of l = Some code \<longrightarrow> l ! 3 \<noteq> 0x20" using Cons.prems(1) by (auto simp: inner_line_def)
  have "reply_scan (p @ l @ crlf @ ?r) (length p) (length p) code = reply_scan (p @ l @ crlf @ ?r) (length (p @ l @ crlf)) (length (p @ l @ crlf)) code"
    using scan_line [OF i(1), of p ?r code] i(2) assms(2) Cons.prems(2) by (auto simp: Let_def split: option.splits)
  also have "\<dots> = Some (code, length ((p @ l @ crlf) @ lines_text ls @ z @ crlf))"
    using Cons.IH [of "p @ l @ crlf"] Cons.prems by (simp add: crlf_def)
  finally show ?case by (simp add: t)
qed

text \<open>C20: Replies are framed as RFC 959 asks: a single line with a code and a space, or an opening line with a
  code and a hyphen up to the first line that starts with the same code and a space. The client then
  has the code, the first 237 bytes of the text, and everything behind the reply still waiting,
  whatever follows and whatever the inner lines contain.\<close>

theorem reply_framed:
  assumes "control_text f = lines_text (os @ [z]) @ rest" "clean_line z" "code_of z = Some code" "z ! 3 = 0x20"
    "os = [] \<or> (\<exists>a ls. os = a # ls \<and> clean_line a \<and> code_of a = Some code \<and> a ! 3 = 0x2D \<and> (\<forall>l \<in> set ls. inner_line code l))"
  shows "\<exists>f'. ftp_reply f = Some (Some code, f') \<and> control_text f' = rest \<and>
    last_reply f' = take FTP_TEXT_MAX (lines_text (os @ [z]))"
proof -
  have nz: "code \<noteq> 0" using assms(3) by (auto simp: code_of_def line_code_def word_le_nat_alt split: if_splits)
  have "reply_scan (control_text f) 0 0 0 = Some (code, length (lines_text (os @ [z])))"
  proof (cases os)
    case Nil
    then show ?thesis using scan_line [OF assms(2), of "[]" rest 0] assms(1, 3, 4) by (simp add: lines_text_def Let_def)
  next
    case (Cons a ls)
    then have a: "clean_line a" "code_of a = Some code" "a ! 3 = 0x2D" "\<forall>l \<in> set ls. inner_line code l" using assms(5) by auto
    have t: "control_text f = a @ crlf @ lines_text ls @ z @ crlf @ rest" using assms(1) Cons by (simp add: lines_text_def)
    have "reply_scan (control_text f) 0 0 0 = reply_scan ((a @ crlf) @ lines_text ls @ z @ crlf @ rest) (length (a @ crlf)) (length (a @ crlf)) code"
      using scan_line [OF a(1), of "[]" "lines_text ls @ z @ crlf @ rest" 0] a(2, 3) by (simp add: t Let_def)
    also have "\<dots> = Some (code, length ((a @ crlf) @ lines_text ls @ z @ crlf))"
      using a(4) nz assms(2-4) by (intro scan_inner) (simp_all add: crlf_def)
    finally show ?thesis using Cons by (simp add: lines_text_def)
  qed
  then show ?thesis using assms(1) by (simp add: ftp_reply_def Let_def min_def)
qed

lemma clean_lineI: "LF \<notin> set l \<Longrightarrow> clean_line l"
  by (auto simp: clean_line_def dest!: nth_mem)

theorem reply_framed_witness:
  "\<exists>f'. ftp_reply (demo_ftp\<lparr>control_text := lines_text [ascii ''230-Welcome'', ascii ''226 not yet'', ascii ''230 Ready''] @ ascii ''150''\<rparr>) =
     Some (Some 230, f') \<and> control_text f' = ascii ''150''"
proof -
  have c: "code_of (ascii ''230-Welcome'') = Some 230" "code_of (ascii ''230 Ready'') = Some 230"
    "code_of (ascii ''226 not yet'') = Some 226"
    by (simp_all add: code_of_def line_code_def ascii_def is_digit_def)
  have l: "clean_line (ascii ''230-Welcome'')" "clean_line (ascii ''230 Ready'')" "clean_line (ascii ''226 not yet'')"
    by (simp_all add: clean_lineI ascii_def)
  have s: "ascii ''230-Welcome'' ! 3 = 0x2D" "ascii ''230 Ready'' ! 3 = 0x20" by (simp_all add: ascii_def)
  show ?thesis
    using reply_framed [of "demo_ftp\<lparr>control_text := lines_text [ascii ''230-Welcome'', ascii ''226 not yet'', ascii ''230 Ready''] @ ascii ''150''\<rparr>"
        "[ascii ''230-Welcome'', ascii ''226 not yet'']" "ascii ''230 Ready''" "ascii ''150''" 230] c l s
    by (auto simp: inner_line_def)
qed

subsection \<open>Timeouts\<close>

text \<open>The timeout survives the wrap-around of the 32-bit millisecond clock: whatever the clock reads when a
  deadline is set, the operation is expired exactly from 30 seconds after that moment on, for the
  next 24 days.\<close>

theorem deadline_wraps:
  assumes "now_ms n1 = now_ms n0 + of_nat d" "d < 2 ^ 32"
  shows "ftp_expired n1 (ftp_set_deadline n0 f) \<longleftrightarrow> 30000 \<le> d \<and> d < 30000 + 2 ^ 31"
proof -
  have e: "now_ms n1 - deadline_ms (ftp_set_deadline n0 f) = of_int (int d - 30000)"
    using assms(1) by (simp add: ftp_set_deadline_def)
  have "sint (of_int (int d - 30000) :: u32) = signed_take_bit 31 (int d - 30000)" unfolding signed_of_int by simp
  also have "\<dots> = (int d - 30000 + 2 ^ 31) mod 2 ^ 32 - 2 ^ 31" by (simp add: signed_take_bit_eq_take_bit_shift take_bit_eq_mod)
  finally have s: "sint (of_int (int d - 30000) :: u32) = (int d - 30000 + 2 ^ 31) mod 2 ^ 32 - 2 ^ 31" .
  have m: "(int d - 30000 + 2 ^ 31) mod 2 ^ 32 = (if d < 30000 + 2 ^ 31 then int d - 30000 + 2 ^ 31 else int d - 30000 + 2 ^ 31 - 2 ^ 32)"
  proof (cases "d < 30000 + 2 ^ 31")
    case True
    then have "0 \<le> int d - 30000 + 2 ^ 31" "int d - 30000 + 2 ^ 31 < (2 :: int) ^ 32" by simp_all
    then show ?thesis using True by (simp only: mod_pos_pos_trivial) simp
  next
    case False
    then have "0 \<le> int d - 30000 + 2 ^ 31 - 2 ^ 32" "int d - 30000 + 2 ^ 31 - 2 ^ 32 < (2 :: int) ^ 32" using assms(2) by simp_all
    then have "(int d - 30000 + 2 ^ 31 - 2 ^ 32) mod 2 ^ 32 = int d - 30000 + 2 ^ 31 - 2 ^ 32" by (rule mod_pos_pos_trivial)
    then show ?thesis using False by (metis minus_mod_self2)
  qed
  show ?thesis unfolding ftp_expired_def e s m using assms(2) by auto
qed

definition demo_net :: lwip where
  "demo_net = \<lparr>now_ms = 0xFFFFFFFF, address_ready = True, dns_query = Dns_Error, new_pcb = Some 1, connect_ok = True,
     sndbuf = 4096, write_ok = True, close_ok = True\<rparr>"

theorem deadline_wraps_witness:
  "ftp_expired (demo_net\<lparr>now_ms := 29999\<rparr>) (ftp_set_deadline demo_net demo_ftp)"
  using deadline_wraps [of "demo_net\<lparr>now_ms := 29999\<rparr>" demo_net 30000 demo_ftp] by (simp add: demo_net_def)

subsection \<open>The course of a transfer request\<close>

text \<open>What can happen to a request while it is pending: polls that leave it pending, and callbacks.\<close>

fun is_callback :: "ftp_event \<Rightarrow> bool" where
  "is_callback (Service_Poll _) = False"
| "is_callback (Service_Command _ _ _) = False"
| "is_callback _ = True"

inductive pending_run :: "(bytes \<Rightarrow> nat \<Rightarrow> nat \<Rightarrow> bytes) \<Rightarrow> ftp \<Rightarrow> ftp \<Rightarrow> bool" for pcopy where
  start: "pending_run pcopy f f"
| poll: "pending_run pcopy f g \<Longrightarrow> ftp_exec_poll n g = Some (FTP_RESULT_PENDING, h) \<Longrightarrow> pending_run pcopy f h"
| callback: "pending_run pcopy f g \<Longrightarrow> is_callback ev \<Longrightarrow> ftp_step pcopy base ev g = Some h \<Longrightarrow> pending_run pcopy f h"

inductive_cases pending_runE: "pending_run pcopy f g"

lemma enq_ring_keeps: "enq_all ring_store vs g = Some h \<Longrightarrow> operation h = operation g \<and> net_log h = net_log g"
  by (induction vs arbitrary: g) (auto simp: ring_store_def split: bind_splits)

lemma data_copy_keeps: "data_copy pcopy p off g = Some h \<Longrightarrow> operation h = operation g \<and> net_log h = net_log g"
proof (induction pcopy p off g rule: data_copy.induct)
  case (1 pcopy p off f)
  show ?case using 1(2) 1(1) [OF _ refl refl]
    by (subst (asm) data_copy.simps) (auto simp: Let_def split: if_splits bind_splits dest!: enq_ring_keeps)
qed

lemma callback_keeps:
  assumes "is_callback ev" "ftp_step pcopy base ev g = Some h"
  shows "operation h = operation g \<and> net_log h = net_log g"
proof (cases ev)
  case (Data_Receive p e)
  then show ?thesis using assms(2) by (auto simp: ftp_data_receive_def split: if_splits option.splits bind_splits dest!: data_copy_keeps)
qed (use assms in \<open>auto simp: ftp_control_receive_def ftp_control_error_def ftp_data_error_def ftp_control_connected_def
    ftp_data_connected_def ftp_dns_found_def split: if_splits option.splits bind_splits\<close>)

lemma ftp_reply_keeps: "ftp_reply g = Some (c, h) \<Longrightarrow> operation h = operation g \<and> net_log h = net_log g"
  by (auto simp: ftp_reply_def Let_def split: option.splits bind_splits prod.splits if_splits)

lemma simple_reply_poll:
  assumes "operation g = FTP_OP_SIMPLE_REPLY" "ftp_exec_poll n g = Some (r, h)"
  shows "net_log h = net_log g \<and> (if r = FTP_RESULT_OK then operation h = FTP_OP_NONE else operation h = FTP_OP_SIMPLE_REPLY)"
  using assms
  by (auto simp: ftp_exec_poll_def reply_step_def pending_or_def split: if_splits bind_splits option.splits dest!: ftp_reply_keeps)

lemma pending_run_simple:
  "pending_run pcopy f g \<Longrightarrow> operation f = FTP_OP_SIMPLE_REPLY \<Longrightarrow> operation g = FTP_OP_SIMPLE_REPLY \<and> net_log g = net_log f"
proof (induction rule: pending_run.induct)
  case (poll f g n h)
  then show ?case using simple_reply_poll [of g n FTP_RESULT_PENDING h] by auto
next
  case (callback f g ev base h)
  then show ?case using callback_keeps [of ev pcopy base g h] by auto
qed simp

lemma argument_le: "length (argument cmd) \<le> length cmd"
proof -
  have "length (dropWhile P (cstr cmd)) \<le> length cmd" for P
    using length_dropWhile_le [of P "cstr cmd"] length_takeWhile_le [of _ cmd] unfolding cstr_def by (meson le_trans)
  then show ?thesis by (auto simp: argument_def from_chr_def split: list.splits option.splits) (metis length_Cons)
qed

lemma exec_new_transfer:
  assumes "ftp_is_transfer (ftp_upper_word (req_text f)) = Some (tr, verb)" "length (req_text f) \<le> FTP_TEXT_MAX"
    "tr = FTP_TRANSFER_LIST \<or> 1 < length (argument (ftp_upper_word (req_text f)))"
  shows "exec_new f = Inr (f\<lparr>req_text := ftp_upper_word (req_text f), transfer := tr,
    transfer_command := verb @ argument (ftp_upper_word (req_text f)) @ crlf, operation := FTP_OP_EPSV_SEND\<rparr>)"
proof -
  let ?a = "argument (ftp_upper_word (req_text f))"
  have v: "length verb = 4" "tr \<in> {FTP_TRANSFER_READ, FTP_TRANSFER_WRITE, FTP_TRANSFER_LIST}"
    using assms(1) by (auto simp: ftp_is_transfer_def ascii_def split: if_splits)
  have "length (verb @ ?a @ crlf) < FTP_TEXT_MAX + 8"
    using argument_le [of "ftp_upper_word (req_text f)"] assms(2) v(1) by (simp add: crlf_def)
  then have "snprintf (FTP_TEXT_MAX + 8) (verb @ ?a @ crlf) = (verb @ ?a @ crlf, True)"
    unfolding snprintf_def by (intro prod_eqI) simp_all
  then show ?thesis using assms(1, 3) by (auto simp: exec_new_def Let_def)
qed

text \<open>C21: What the first poll of a transfer command (GET, PUT, DIR or LS) does with the line decides whether a data connection is
  negotiated. When the control connection takes the line at once, the transfer command itself is sent, without EPSV
  or PASV; from then on, whatever arrives, nothing else is sent or connected while the request is pending, and
  when it is answered the client is not in a transfer, so a READ request is refused. Only when the line could not be
  sent does the next poll that can send negotiate with EPSV.\<close>

theorem transfer_skips_passive:
  assumes "ftp_inv f" "state f = FTP_STATE_READY" "operation f = FTP_OP_NONE" "control f = Some pcb"
    "ftp_is_transfer (ftp_upper_word (req_text f)) = Some (tr, verb)"
    "tr = FTP_TRANSFER_LIST \<or> 1 < length (argument (ftp_upper_word (req_text f)))"
  defines "cmd \<equiv> verb @ argument (ftp_upper_word (req_text f)) @ crlf"
  shows "\<exists>r f1. ftp_exec_poll n f = Some (r, f1) \<and>
    (if length cmd \<le> sndbuf n \<and> write_ok n
     then r = FTP_RESULT_PENDING \<and> net_log f1 = Net_Write pcb cmd # net_log f \<and>
       (\<forall>g. pending_run pcopy f1 g \<longrightarrow> net_log g = net_log f1 \<and>
         (\<forall>m h. ftp_exec_poll m g = Some (FTP_RESULT_OK, h) \<longrightarrow> net_log h = net_log f1 \<and>
            ftp_read_poll base m cp h = Some (FTP_RESULT_PARAM, h)))
     else r = pending_or n f \<and> net_log f1 = net_log f \<and>
       (\<forall>m. 6 \<le> sndbuf m \<and> write_ok m \<longrightarrow> (\<exists>f2. ftp_exec_poll m f1 = Some (FTP_RESULT_PENDING, f2) \<and>
          net_log f2 = Net_Write pcb (ascii ''EPSV'' @ crlf) # net_log f \<and> operation f2 = FTP_OP_EPSV_REPLY)))"
proof -
  let ?u = "ftp_upper_word (req_text f)"
  have t: "length (req_text f) \<le> FTP_TEXT_MAX" using assms(1) by (simp add: ftp_inv_def texts_ok_def)
  let ?e = "f\<lparr>req_text := ?u, transfer := tr, transfer_command := cmd, operation := FTP_OP_EPSV_SEND\<rparr>"
  let ?f1 = "(ftp_set_deadline n (log_net (Net_Write pcb cmd) ?e))\<lparr>operation := FTP_OP_SIMPLE_REPLY\<rparr>"
  have "length verb = 4" using assms(5) by (auto simp: ftp_is_transfer_def ascii_def split: if_splits)
  then have len: "length cmd \<le> 243" using argument_le [of ?u] t by (simp add: crlf_def cmd_def)
  have new: "exec_new f = Inr ?e" unfolding cmd_def by (rule exec_new_transfer [OF assms(5) t assms(6)])
  show ?thesis
  proof (cases "length cmd \<le> sndbuf n \<and> write_ok n")
    case True
    then have "ftp_exec_poll n f = Some (FTP_RESULT_PENDING, ?f1)"
      using assms(2-4) len new by (simp add: ftp_exec_poll_def send_step_def ftp_send_def)
    moreover have "net_log ?f1 = Net_Write pcb cmd # net_log f" by (simp add: ftp_set_deadline_def log_net_def)
    moreover have "net_log g = net_log ?f1 \<and> (\<forall>m h. ftp_exec_poll m g = Some (FTP_RESULT_OK, h) \<longrightarrow> net_log h = net_log ?f1 \<and>
        ftp_read_poll base m cp h = Some (FTP_RESULT_PARAM, h))" if "pending_run pcopy ?f1 g" for g
    proof -
      have g: "operation g = FTP_OP_SIMPLE_REPLY" "net_log g = net_log ?f1" using pending_run_simple [OF that] by simp_all
      have "net_log h = net_log ?f1 \<and> ftp_read_poll base m cp h = Some (FTP_RESULT_PARAM, h)"
        if "ftp_exec_poll m g = Some (FTP_RESULT_OK, h)" for m h
        using simple_reply_poll [OF g(1) that] g(2) by (simp add: ftp_read_poll_def Let_def)
      then show ?thesis using g(2) by blast
    qed
    ultimately show ?thesis unfolding if_P [OF True] by blast
  next
    case False
    then have "ftp_exec_poll n f = Some (pending_or n f, ?e)"
      using assms(2-4) len new by (auto simp: ftp_exec_poll_def send_step_def ftp_send_def pending_or_def ftp_expired_def)
    moreover have "\<exists>f2. ftp_exec_poll m ?e = Some (FTP_RESULT_PENDING, f2) \<and>
        net_log f2 = Net_Write pcb (ascii ''EPSV'' @ crlf) # net_log f \<and> operation f2 = FTP_OP_EPSV_REPLY"
      if "6 \<le> sndbuf m \<and> write_ok m" for m
      using that assms(2, 4) by (simp add: ftp_exec_poll_def send_step_def ftp_send_def ftp_set_deadline_def log_net_def ascii_def crlf_def)
    ultimately show ?thesis using False by auto
  qed
qed

definition demo_session :: ftp where
  "demo_session = demo_ftp\<lparr>state := FTP_STATE_READY, control := Some 1, req_text := ascii ''get elite''\<rparr>"

theorem transfer_skips_passive_witness:
  "\<exists>f1. ftp_exec_poll demo_net demo_session = Some (FTP_RESULT_PENDING, f1) \<and>
     net_log f1 = [Net_Write 1 (ascii ''RETR elite'' @ crlf)]"
proof -
  have u: "ftp_upper_word (req_text demo_session) = ascii ''GET elite''" by (simp add: demo_session_def ascii_def)
  have t: "ftp_is_transfer (ascii ''GET elite'') = Some (FTP_TRANSFER_READ, ascii ''RETR'')"
    by (simp add: ftp_is_transfer_def starts_with_def ascii_def)
  have a: "argument (ascii ''GET elite'') = ascii '' elite''" by (simp add: argument_def from_chr_def cstr_def ascii_def)
  have "ftp_inv demo_session" using demo_inv by (simp add: demo_session_def ftp_inv_def ring_ok_def texts_ok_def ascii_def)
  moreover have "state demo_session = FTP_STATE_READY" "operation demo_session = FTP_OP_NONE" "control demo_session = Some 1" "net_log demo_session = []"
    by (simp_all add: demo_session_def demo_ftp_def)
  moreover have "length (ascii ''RETR'' @ ascii '' elite'' @ crlf) \<le> sndbuf demo_net \<and> write_ok demo_net" "1 < length (ascii '' elite'')"
    by (simp_all add: demo_net_def ascii_def crlf_def)
  ultimately show ?thesis
    using transfer_skips_passive [of demo_session 1 FTP_TRANSFER_READ "ascii ''RETR''" demo_net demo_copy 0 0, unfolded u a] t
    by (auto simp: ascii_def)
qed

end
