(* ===== verification/Service_Memory.thy ===== *)
theory Service_Memory
  imports C_Text
begin

section \<open>The service memory\<close>

text \<open>
  The memory the mailbox and the services share is a function from addresses to bytes together with
  its size; so are other arrays of several megabytes. Reading and writing a range outside the size
  is a fault (\<open>None\<close>), as is text with no terminator inside it.
\<close>

type_synonym mem = "nat \<Rightarrow> u8"

definition mem_get :: "mem \<Rightarrow> nat \<Rightarrow> nat \<Rightarrow> nat \<Rightarrow> bytes option" where
  "mem_get m lim off n = (if off + n \<le> lim then Some (map m [off..<off + n]) else None)"

definition mem_put :: "mem \<Rightarrow> nat \<Rightarrow> nat \<Rightarrow> bytes \<Rightarrow> mem option" where
  "mem_put m lim off bs = (if off + length bs \<le> lim
     then Some (\<lambda>i. if off \<le> i \<and> i < off + length bs then bs ! (i - off) else m i) else None)"

definition mem_rd :: "mem \<Rightarrow> nat \<Rightarrow> nat \<Rightarrow> u8 option" where
  "mem_rd m lim i = (if i < lim then Some (m i) else None)"

text \<open>The C string at an offset: it must end inside the memory.\<close>

function c_string :: "mem \<Rightarrow> nat \<Rightarrow> nat \<Rightarrow> bytes option" where
  "c_string m lim p = (if p < lim then
     if m p = 0 then Some [] else map_option ((#) (m p)) (c_string m lim (p + 1)) else None)"
  by pat_completeness auto
termination
  by (relation "measure (\<lambda>(_, lim, p). lim - p)") auto

declare c_string.simps [simp del]

definition store :: "mem \<Rightarrow> nat \<Rightarrow> bytes \<Rightarrow> mem" where
  "store m off bs = (\<lambda>i. if off \<le> i \<and> i < off + length bs then bs ! (i - off) else m i)"

interpretation mem_buf: byte_source "mem_rd m lim" lim for m lim
  by unfold_locales (simp add: mem_rd_def)

lemma mem_rd_in [simp, buf_simps]: "i < lim \<Longrightarrow> mem_rd m lim i = Some (m i)"
  by (simp add: mem_rd_def)

lemma mem_rd_words [simp, buf_simps]:
  "i + 1 < lim \<Longrightarrow> rd16 (mem_rd m lim) i = Some (le16 (m i) (m (i + 1)))"
  "i + 3 < lim \<Longrightarrow> rd32 (mem_rd m lim) i = Some (le32 (m i) (m (i + 1)) (m (i + 2)) (m (i + 3)))"
  by (simp_all add: rd16_def rd32_def)

lemma mem_put_in: "off + length bs \<le> lim \<Longrightarrow> \<exists>m'. mem_put m lim off bs = Some m'"
  by (simp add: mem_put_def)

lemma mem_get_in: "off + k \<le> lim \<Longrightarrow> \<exists>bs. mem_get m lim off k = Some bs \<and> length bs = k"
  by (simp add: mem_get_def)

lemma c_string_text:
  assumes "\<And>i. i < length bs \<Longrightarrow> m (p + i) = bs ! i" "m (p + length bs) = 0" "0 \<notin> set bs" "p + length bs < lim"
  shows "c_string m lim p = Some bs"
  using assms
proof (induction bs arbitrary: p)
  case Nil
  then show ?case by (subst c_string.simps) simp
next
  case (Cons b bs)
  have "c_string m lim (p + 1) = Some bs"
    using Cons.prems Cons.prems(1) [of "Suc i" for i] by (intro Cons.IH) (auto simp: ac_simps)
  then show ?case using Cons.prems Cons.prems(1) [of 0] by (subst c_string.simps) simp
qed

lemma store_read: "k < length bs \<Longrightarrow> store m off bs (off + k) = bs ! k" "store m off (b # bs) off = b"
  by (auto simp: store_def)

lemma mem_put_store: "off + length bs \<le> lim \<Longrightarrow> mem_put m lim off bs = Some (store m off bs)"
  by (simp add: mem_put_def store_def)

lemma store_other: "i < off \<or> off + length bs \<le> i \<Longrightarrow> store m off bs i = m i"
  by (auto simp: store_def)

lemma map_store_self: "map (store m off bs) [off..<off + length bs] = bs"
  by (rule nth_equalityI) (simp_all add: store_def)

end
