(* ===== verification/Ftp_Backend.thy ===== *)
theory Ftp_Backend
  imports Service_Memory
begin

section \<open>The emulator's FTP backend (pi1mhz\_ftp.c)\<close>

text \<open>
  The record is \<open>struct pi1mhz_ftp\<close>. The reply is the raw array of 238 bytes, because the parser of
  passive replies walks over it by pointer; the fixture file is the raw array of 4096 bytes. The
  command page and the scratch area are two regions of the same service memory, which is passed in
  and out, so that commands issued through a page that overlaps the scratch area are covered.
  Accesses outside an array or outside the service memory, and command text with no terminator
  inside it, are faults (\<open>None\<close>).

  The BSD socket calls are outside the repository; the record \<open>sockets\<close> holds what they will answer,
  in order. A descriptor has a queue of arrived segments: \<open>recv\<close> hands out at most as many bytes as
  asked for from the first one and leaves the rest, an empty segment is the orderly end of the
  peer, and a queue that has run dry makes the call time out (\<open>EAGAIN\<close>), since every socket is
  given a 30 s receive and send timeout. \<open>send\<close> accepts what its answer says, at most what it is
  offered. \<open>sent\<close>, \<open>dialled\<close> and \<open>closed\<close> record what the backend did, oldest first, and
  \<open>errno_again\<close> tells whether \<open>errno\<close> is \<open>EAGAIN\<close> or \<open>EWOULDBLOCK\<close>; only socket calls are taken
  to change it.
\<close>

abbreviation BE_OPEN :: u8 where "BE_OPEN \<equiv> 128"
abbreviation BE_EXEC :: u8 where "BE_EXEC \<equiv> 129"
abbreviation BE_READ :: u8 where "BE_READ \<equiv> 130"
abbreviation BE_WRITE :: u8 where "BE_WRITE \<equiv> 131"
abbreviation BE_CLOSE :: u8 where "BE_CLOSE \<equiv> 132"
abbreviation BE_CANCEL :: u8 where "BE_CANCEL \<equiv> 133"
abbreviation BE_OK :: u8 where "BE_OK \<equiv> 0"
abbreviation BE_EOF :: u8 where "BE_EOF \<equiv> 0x20"
abbreviation BE_PARAM :: u8 where "BE_PARAM \<equiv> 0x23"
abbreviation BE_DNS :: u8 where "BE_DNS \<equiv> 0x24"
abbreviation BE_CONNECT :: u8 where "BE_CONNECT \<equiv> 0x25"
abbreviation BE_TIMEOUT :: u8 where "BE_TIMEOUT \<equiv> 0x2B"
abbreviation BE_ABORT :: u8 where "BE_ABORT \<equiv> 0x2D"
abbreviation BE_SCRATCH :: nat where "BE_SCRATCH \<equiv> 0xFFF100"
abbreviation BE_TEXT :: nat where "BE_TEXT \<equiv> 237"

datatype rx = Seg bytes | Rx_Intr | Rx_Err bool
datatype rx_result = Got bytes | Interrupted | Failed bool
datatype tx = Tx nat | Tx_Intr | Tx_Err bool
datatype conn = Dns_Fails bool | Addresses "(int \<times> bool) list" bool

record sockets =
  inq :: "int \<Rightarrow> rx list"
  connects :: "conn list"
  sends :: "tx list"
  shutdown_fails :: bool
  errno_again :: bool
  sent :: "(int \<times> bytes) list"
  dialled :: "(bytes \<times> u16) list"
  closed :: "int list"

record ftp_backend =
  be_live :: bool
  be_control :: int
  be_data :: int
  be_transfer :: nat
  be_host :: bytes
  be_reply :: bytes
  fixture_file :: bytes
  fixture_size :: nat
  fixture_pos :: nat

subsection \<open>Sockets\<close>

fun recv :: "rx list \<Rightarrow> nat \<Rightarrow> rx_result \<times> rx list" where
  "recv [] n = (Failed True, [])"
| "recv (Seg bs # q) n = (if length bs \<le> n then (Got bs, q) else (Got (take n bs), Seg (drop n bs) # q))"
| "recv (Rx_Intr # q) n = (Interrupted, q)"
| "recv (Rx_Err a # q) n = (Failed a, q)"

definition set_inq :: "int \<Rightarrow> rx list \<Rightarrow> bool \<Rightarrow> sockets \<Rightarrow> sockets" where
  "set_inq fd q e n = n\<lparr>inq := (inq n)(fd := q), errno_again := e\<rparr>"

definition close_fd :: "int \<Rightarrow> sockets \<Rightarrow> sockets" where
  "close_fd fd n = (if 0 \<le> fd then n\<lparr>closed := closed n @ [fd]\<rparr> else n)"

definition close_session :: "ftp_backend \<Rightarrow> sockets \<Rightarrow> ftp_backend \<times> sockets" where
  "close_session f n =
     (f\<lparr>be_data := -1, be_control := -1, be_transfer := 0\<rparr>, close_fd (be_control f) (close_fd (be_data f) n))"

text \<open>The addresses in turn: what \<open>socket\<close> gives, and whether \<open>connect\<close> succeeds on it.\<close>

fun try_addresses :: "int \<Rightarrow> (int \<times> bool) list \<Rightarrow> sockets \<Rightarrow> int \<times> sockets" where
  "try_addresses fd [] n = (fd, n)"
| "try_addresses _ ((fd, ok) # as) n =
     (if fd < 0 then try_addresses fd as n
      else if ok then (fd, n)
      else try_addresses (-1) as (close_fd fd n))"

definition socket_connect :: "bytes \<Rightarrow> u16 \<Rightarrow> sockets \<Rightarrow> int \<times> sockets" where
  "socket_connect host port n =
     (let n1 = n\<lparr>dialled := dialled n @ [(host, port)], connects := drop 1 (connects n)\<rparr> in
      case connects n of [] \<Rightarrow> (-1, n1)
      | Dns_Fails e # _ \<Rightarrow> (-2, n1\<lparr>errno_again := e\<rparr>)
      | Addresses as e # _ \<Rightarrow> try_addresses (-1) as (n1\<lparr>errno_again := e\<rparr>))"

text \<open>Whether everything was sent, the answers left, \<open>errno\<close>, and the bytes that went out.\<close>

fun send_loop :: "tx list \<Rightarrow> bool \<Rightarrow> bytes \<Rightarrow> bytes \<Rightarrow> bool \<times> tx list \<times> bool \<times> bytes" where
  "send_loop ts e [] out = (True, ts, e, out)"
| "send_loop [] e (b # bs) out = (False, [], True, out)"
| "send_loop (Tx k # ts) e (b # bs) out =
     (let m = min k (length (b # bs)) in
      if m = 0 then (False, ts, e, out)
      else send_loop ts e (drop m (b # bs)) (out @ take m (b # bs)))"
| "send_loop (Tx_Intr # ts) e (b # bs) out = send_loop ts False (b # bs) out"
| "send_loop (Tx_Err a # ts) e (b # bs) out = (False, ts, a, out)"

definition send_all :: "int \<Rightarrow> bytes \<Rightarrow> sockets \<Rightarrow> bool \<times> sockets" where
  "send_all fd bs n =
     (let (ok, ts, e, out) = send_loop (sends n) (errno_again n) bs [] in
      (ok, n\<lparr>sends := ts, errno_again := e, sent := sent n @ [(fd, out)]\<rparr>))"

subsection \<open>Replies\<close>

definition be_line_code :: "bytes \<Rightarrow> nat option" where
  "be_line_code l =
     (if 4 \<le> length l \<and> is_digit (l ! 0) \<and> is_digit (l ! 1) \<and> is_digit (l ! 2)
      then Some ((unat (l ! 0) - 48) * 100 + (unat (l ! 1) - 48) * 10 + (unat (l ! 2) - 48)) else None)"

definition keep_char :: "u8 \<Rightarrow> bytes \<Rightarrow> nat \<Rightarrow> (bytes \<times> nat) option" where
  "keep_char c rep cnt =
     (if cnt < BE_TEXT then do { r \<leftarrow> wr8 rep cnt c; Some (r, cnt + 1) } else Some (rep, cnt))"

text \<open>
  \<open>line[256]\<close> is kept as its first \<open>used\<close> bytes; \<open>line_put\<close> is a store at
  \<open>line[used]\<close>, undefined outside the array, and \<open>line_end\<close> the terminator stored there.
\<close>

definition LINE_SIZE :: nat where
  "LINE_SIZE = 256"

definition line_put :: "bytes \<Rightarrow> u8 \<Rightarrow> bytes option" where
  "line_put line c = (if length line < LINE_SIZE then Some (line @ [c]) else None)"

definition line_end :: "bytes \<Rightarrow> bytes option" where
  "line_end line = map_option (\<lambda>l. line) (line_put line 0)"

definition keep_line :: "u8 \<Rightarrow> bytes \<Rightarrow> bytes option" where
  "keep_line c line = (if length line + 1 < LINE_SIZE then line_put line c else Some line)"

definition rx_size :: "rx list \<Rightarrow> nat" where
  "rx_size q = sum_list (map (\<lambda>r. case r of Seg bs \<Rightarrow> length bs + 1 | _ \<Rightarrow> 1) q)"

lemma recv_shrinks:
  "(Interrupted, q') = recv q (Suc 0) \<Longrightarrow> rx_size q' < rx_size q"
  "(Got (c # cs), q') = recv q (Suc 0) \<Longrightarrow> rx_size q' < rx_size q"
  by (cases "(q, Suc 0)" rule: recv.cases; auto simp: rx_size_def split: if_splits)+

text \<open>
  What a complete line does: \<open>Inl\<close> goes on with this multi-line code, \<open>Inr\<close> is the final code.
\<close>

definition end_line :: "bytes \<Rightarrow> nat \<Rightarrow> nat + nat" where
  "end_line line multiline =
     (case be_line_code line of None \<Rightarrow> Inl multiline
      | Some code \<Rightarrow>
          if multiline = 0 \<and> line ! 3 = 0x2D then Inl code
          else if line ! 3 = 0x20 \<and> (multiline = 0 \<or> code = multiline) then Inr code
          else Inl multiline)"

function reply_loop :: "rx list \<Rightarrow> bool \<Rightarrow> bytes \<Rightarrow> nat \<Rightarrow> bytes \<Rightarrow> nat \<Rightarrow> (int \<times> bytes \<times> rx list \<times> bool) option" where
  "reply_loop q e rep cnt line multiline =
     (case recv q 1 of
        (Interrupted, q') \<Rightarrow> reply_loop q' False rep cnt line multiline
      | (Failed a, q') \<Rightarrow> Some (-1, rep, q', a)
      | (Got [], q') \<Rightarrow> Some (-1, rep, q', e)
      | (Got (c # cs), q') \<Rightarrow>
          (case keep_char c rep cnt of None \<Rightarrow> None
           | Some (rep', cnt') \<Rightarrow>
               (case keep_line c line of None \<Rightarrow> None
                | Some line1 \<Rightarrow>
                    if c \<noteq> LF then reply_loop q' e rep' cnt' line1 multiline
                    else case line_end line1 of None \<Rightarrow> None
                    | Some line2 \<Rightarrow>
                        (case end_line line2 multiline of
                           Inl ml \<Rightarrow> reply_loop q' e rep' cnt' [] ml
                         | Inr code \<Rightarrow> do { r \<leftarrow> wr8 rep' cnt' 0; Some (int code, r, q', e) }))))"
  by pat_completeness auto
termination
  by (relation "measure (\<lambda>(q, _). rx_size q)") (auto dest: recv_shrinks)

declare reply_loop.simps [simp del]

definition read_reply :: "ftp_backend \<Rightarrow> sockets \<Rightarrow> (int \<times> ftp_backend \<times> sockets) option" where
  "read_reply f n = do {
     rep \<leftarrow> wr8 (be_reply f) 0 0;
     (code, r, q, e) \<leftarrow> reply_loop (inq n (be_control f)) (errno_again n) rep 0 [] 0;
     Some (code, f\<lparr>be_reply := r\<rparr>, set_inq (be_control f) q e n) }"

definition control_command :: "ftp_backend \<Rightarrow> bytes \<Rightarrow> sockets \<Rightarrow> (int \<times> ftp_backend \<times> sockets) option" where
  "control_command f cmd n =
     (case send_all (be_control f) cmd n of (ok, n1) \<Rightarrow> if ok then read_reply f n1 else Some (-1, f, n1))"

subsection \<open>Parsers\<close>

text \<open>The scan of the authority: where it ends and where its last colon is.\<close>

fun target_scan :: "bytes \<Rightarrow> nat \<Rightarrow> nat option \<Rightarrow> (nat \<times> nat option) option" where
  "target_scan [] i colon = Some (i, colon)"
| "target_scan (c # cs) i colon =
     (if c = 0x2F then Some (i, colon)
      else if c < 0x21 \<or> c = 0x40 then None
      else target_scan cs (i + 1) (if c = 0x3A then Some i else colon))"

definition target_port :: "bytes \<Rightarrow> nat \<Rightarrow> nat \<Rightarrow> u16 option" where
  "target_port p colon end_pos =
     (let (v, erange, rest) = strtoul 10 (drop (colon + 1) p) in
      if erange \<or> length p - length rest \<noteq> end_pos \<or> v = 0 \<or> 65535 < v then None else Some (word_of_int v))"

definition parse_target :: "bytes \<Rightarrow> nat \<Rightarrow> (bytes \<times> u16) option" where
  "parse_target url capacity = do {
     let p = (if starts_nocase (ascii ''ftp://'') url then drop 6 url else url);
     (end_pos, colon) \<leftarrow> target_scan p 0 None;
     (port, stop) \<leftarrow> (case colon of None \<Rightarrow> Some (21, end_pos)
        | Some k \<Rightarrow> do { v \<leftarrow> target_port p k end_pos; Some (v, k) });
     if stop = 0 \<or> capacity \<le> stop then None else Some (take stop p, port) }"

text \<open>
  A run of digits at an index of an array: the value and the index behind it, \<open>Some None\<close> when the
  value exceeds the limit, \<open>None\<close> when the run leaves the array.
\<close>

function digit_run :: "bytes \<Rightarrow> nat \<Rightarrow> nat \<Rightarrow> nat \<Rightarrow> (nat \<times> nat) option option" where
  "digit_run r limit p v =
     (case rd8 r p of None \<Rightarrow> None
      | Some c \<Rightarrow>
          if is_digit c then
            let v' = v * 10 + (unat c - 48) in if limit < v' then Some None else digit_run r limit (p + 1) v'
          else Some (Some (v, p)))"
  by pat_completeness auto
termination
  by (relation "measure (\<lambda>(r, _, p, _). length r - p)") (auto simp: rd8_eq_Some)

declare digit_run.simps [simp del]

definition epsv_port :: "bytes \<Rightarrow> nat \<Rightarrow> u16 option option" where
  "epsv_port r p = do {
     delimiter \<leftarrow> rd8 r p;
     a \<leftarrow> rd8 r (p + 1);
     if a \<noteq> delimiter then Some None else do {
       b \<leftarrow> rd8 r (p + 2);
       if b \<noteq> delimiter then Some None else do {
         run \<leftarrow> digit_run r 65535 (p + 3) 0;
         (case run of None \<Rightarrow> Some None
          | Some (v, p') \<Rightarrow> do {
              c \<leftarrow> rd8 r p';
              Some (if c \<noteq> delimiter \<or> v = 0 then None else Some (word_of_nat v)) }) } } }"

text \<open>The fields from the \<open>i\<close>-th of six on.\<close>

fun pasv_fields :: "bytes \<Rightarrow> nat \<Rightarrow> nat \<Rightarrow> nat list option option" where
  "pasv_fields r p 0 = Some (Some [])"
| "pasv_fields r p (Suc k) = do {
     c \<leftarrow> rd8 r p;
     if \<not> is_digit c then Some None else do {
       run \<leftarrow> digit_run r 255 p 0;
       (case run of None \<Rightarrow> Some None
        | Some (v, p') \<Rightarrow>
            if k = 0 then Some (Some [v]) else do {
              s \<leftarrow> rd8 r p';
              if s \<noteq> 0x2C then Some None else do {
                rest \<leftarrow> pasv_fields r (p' + 1) k;
                Some (map_option ((#) v) rest) } }) } }"

definition pasv_port :: "bytes \<Rightarrow> nat \<Rightarrow> u16 option option" where
  "pasv_port r p = do {
     values \<leftarrow> pasv_fields r p 6;
     Some (case values of None \<Rightarrow> None
       | Some vs \<Rightarrow> let port = word_of_nat (vs ! 4 * 256 + vs ! 5) in if port = 0 then None else Some port) }"

definition passive_port :: "bytes \<Rightarrow> u16 option option" where
  "passive_port r =
     (let t = takeWhile (\<lambda>c. c \<noteq> 0x28) (cstr r) in
      if length t = length (cstr r) then Some None
      else if contains (ascii ''229 '') (cstr r) then epsv_port r (length t + 1)
      else pasv_port r (length t + 1))"

subsection \<open>Commands\<close>

definition passive_phase :: "ftp_backend \<Rightarrow> sockets \<Rightarrow> (u16 option \<times> ftp_backend \<times> sockets) option" where
  "passive_phase f n = do {
     (code, f1, n1) \<leftarrow> control_command f (ascii ''EPSV'' @ [CR, LF]) n;
     p1 \<leftarrow> (if code \<noteq> 229 then Some None else passive_port (be_reply f1));
     (case p1 of Some port \<Rightarrow> Some (Some port, f1, n1)
      | None \<Rightarrow> do {
          (code2, f2, n2) \<leftarrow> control_command f1 (ascii ''PASV'' @ [CR, LF]) n1;
          p2 \<leftarrow> (if code2 \<noteq> 227 then Some None else passive_port (be_reply f2));
          Some (p2, f2, n2) }) }"

definition begin_transfer :: "ftp_backend \<Rightarrow> bytes \<Rightarrow> nat \<Rightarrow> sockets \<Rightarrow> (int \<times> ftp_backend \<times> sockets) option" where
  "begin_transfer f cmd transfer n = do {
     (found, f1, n1) \<leftarrow> passive_phase f n;
     (case found of None \<Rightarrow> Some (-1, f1, n1)
      | Some port \<Rightarrow>
          let (fd, n2) = socket_connect (be_host f1) port n1; f2 = f1\<lparr>be_data := fd\<rparr> in
          if fd < 0 then Some (-1, f2, n2)
          else do {
            (code, f3, n3) \<leftarrow> control_command f2 cmd n2;
            if code \<noteq> 125 \<and> code \<noteq> 150
            then Some (if 0 < code then 1 else -1, f3\<lparr>be_data := -1, be_transfer := 0\<rparr>, close_fd (be_data f3) n3)
            else Some (0, f3\<lparr>be_transfer := transfer\<rparr>, n3) }) }"

text \<open>The verb (\<open>None\<close>: the input as it is), the argument with its space, and the transfer kind.\<close>

definition command_verb :: "bytes \<Rightarrow> (bytes \<times> bytes option \<times> nat) option" where
  "command_verb input =
     (let arg = from_chr 0x20 input; w = map lower (takeWhile (\<lambda>c. c \<noteq> 0x20) input) in
      if w = ascii ''get'' then Some (ascii ''RETR'', arg, 1)
      else if w = ascii ''put'' then Some (ascii ''STOR'', arg, 2)
      else if w = ascii ''dir'' then Some (ascii ''LIST'', arg, 3)
      else if w = ascii ''ls'' then Some (ascii ''NLST'', arg, 3)
      else if w = ascii ''cd'' then Some (ascii ''CWD'', arg, 0)
      else if w = ascii ''delete'' then Some (ascii ''DELE'', arg, 0)
      else if w = ascii ''mkdir'' then Some (ascii ''MKD'', arg, 0)
      else if w = ascii ''rmdir'' then Some (ascii ''RMD'', arg, 0)
      else if w = ascii ''binary'' then Some (ascii ''TYPE'', Some (ascii '' I''), 0)
      else if w = ascii ''ascii'' then Some (ascii ''TYPE'', Some (ascii '' A''), 0)
      else None)"

definition make_command :: "bytes \<Rightarrow> nat \<Rightarrow> (bytes \<times> nat) option" where
  "make_command input capacity =
     (let (line, transfer, missing) =
        (case command_verb input of None \<Rightarrow> (input @ [CR, LF], 0, False)
         | Some (verb, arg, t) \<Rightarrow>
             (verb @ (case arg of None \<Rightarrow> [] | Some a \<Rightarrow> a) @ [CR, LF], t,
              (t = 1 \<or> t = 2) \<and> (case arg of None \<Rightarrow> True | Some a \<Rightarrow> length a < 2))) in
      if missing \<or> capacity \<le> length line then None else Some (line, transfer))"

definition be_publish :: "ftp_backend \<Rightarrow> nat \<Rightarrow> nat \<Rightarrow> mem \<Rightarrow> mem option" where
  "be_publish f lim cmd m = do {
     let reply = takeWhile (\<lambda>c. c \<noteq> 0) (take BE_TEXT (be_reply f));
     m1 \<leftarrow> mem_put m lim (cmd + 1) [word_of_nat (be_transfer f)];
     m2 \<leftarrow> mem_put m1 lim (cmd + 2) reply;
     mem_put m2 lim (cmd + 2 + length reply) [0] }"

text \<open>\<open>strcpy\<close> into the reply.\<close>

definition set_reply :: "bytes \<Rightarrow> ftp_backend \<Rightarrow> ftp_backend option" where
  "set_reply s f = do { r \<leftarrow> wr_range (be_reply f) 0 (s @ [0]); Some (f\<lparr>be_reply := r\<rparr>) }"

definition answer :: "u8 \<Rightarrow> bytes \<Rightarrow> ftp_backend \<Rightarrow> sockets \<Rightarrow> nat \<Rightarrow> nat \<Rightarrow> mem \<Rightarrow>
    (u8 \<times> ftp_backend \<times> sockets \<times> mem) option" where
  "answer status s f n lim cmd m = do {
     f1 \<leftarrow> set_reply s f; m1 \<leftarrow> be_publish f1 lim cmd m; Some (status, f1, n, m1) }"

subsection \<open>The fixture\<close>

definition default_file :: bytes where
  "default_file = ascii ''Pi1MHz FTP fixture'' @ [CR, LF]"

definition listing :: bytes where
  "listing = ascii ''fixture  21  fixture.txt'' @ [CR, LF]"

definition fixture_begin :: "nat \<Rightarrow> ftp_backend \<Rightarrow> ftp_backend option" where
  "fixture_begin transfer f0 = do {
     let f = f0\<lparr>fixture_pos := 0\<rparr>;
     f1 \<leftarrow> (if transfer = 1 \<and> fixture_size f = 0
        then do { b \<leftarrow> wr_range (fixture_file f) 0 default_file;
                  Some (f\<lparr>fixture_file := b, fixture_size := length default_file\<rparr>) } else Some f);
     f2 \<leftarrow> (if transfer = 3
        then do { b \<leftarrow> wr_range (fixture_file f1) 0 listing;
                  Some (f1\<lparr>fixture_file := b, fixture_size := length listing\<rparr>) } else Some f1);
     Some (if transfer = 2 then f2\<lparr>fixture_size := 0\<rparr> else f2) }"

definition fixture_exec :: "ftp_backend \<Rightarrow> sockets \<Rightarrow> nat \<Rightarrow> nat \<Rightarrow> mem \<Rightarrow>
    (u8 \<times> ftp_backend \<times> sockets \<times> mem) option" where
  "fixture_exec f n lim cmd m = do {
     input \<leftarrow> c_string m lim (cmd + 1);
     (case make_command input 256 of None \<Rightarrow> Some (BE_PARAM, f, n, m)
      | Some (wire, transfer) \<Rightarrow>
          let f1 = f\<lparr>be_transfer := transfer\<rparr> in
          if transfer \<noteq> 0 then do {
            f2 \<leftarrow> fixture_begin transfer f1;
            answer BE_OK (ascii ''150 Opening data connection'' @ [CR, LF]) f2 n lim cmd m }
          else answer BE_OK
            ((if starts_nocase (ascii ''user '') wire then ascii ''331 Password required''
              else if starts_nocase (ascii ''pass '') wire then ascii ''230 Logged in''
              else if starts_nocase (ascii ''pwd'') wire then ascii ''257 '' @ [0x22] @ ascii ''/'' @ [0x22]
              else ascii ''200 OK'') @ [CR, LF]) f1 n lim cmd m) }"

definition fixture_read :: "ftp_backend \<Rightarrow> sockets \<Rightarrow> nat \<Rightarrow> nat \<Rightarrow> mem \<Rightarrow>
    (u8 \<times> ftp_backend \<times> sockets \<times> mem) option" where
  "fixture_read f n lim cmd m = do {
     let count = min (unat (m (cmd + 1))) (fixture_size f - fixture_pos f);
     bs \<leftarrow> rd_range (fixture_file f) (fixture_pos f) count;
     m1 \<leftarrow> mem_put m lim BE_SCRATCH bs;
     m2 \<leftarrow> mem_put m1 lim (cmd + 1) [word_of_nat count];
     let f1 = f\<lparr>fixture_pos := fixture_pos f + count\<rparr>;
     if count \<noteq> 0 then Some (BE_OK, f1, n, m2)
     else answer BE_EOF (ascii ''226 Transfer complete'' @ [CR, LF]) (f1\<lparr>be_transfer := 0\<rparr>) n lim cmd m2 }"

definition fixture_write :: "ftp_backend \<Rightarrow> sockets \<Rightarrow> nat \<Rightarrow> nat \<Rightarrow> mem \<Rightarrow>
    (u8 \<times> ftp_backend \<times> sockets \<times> mem) option" where
  "fixture_write f n lim cmd m =
     (let count = unat (m (cmd + 1)) in
      if count = 0
      then answer BE_EOF (ascii ''226 Transfer complete'' @ [CR, LF]) (f\<lparr>be_transfer := 0\<rparr>) n lim cmd m
      else if 4096 < fixture_size f + count then Some (BE_PARAM, f, n, m)
      else do {
        bs \<leftarrow> mem_get m lim BE_SCRATCH count;
        b \<leftarrow> wr_range (fixture_file f) (fixture_size f) bs;
        Some (BE_OK, f\<lparr>fixture_file := b, fixture_size := fixture_size f + count\<rparr>, n, m) })"

definition session_closed :: "ftp_backend \<Rightarrow> sockets \<Rightarrow> nat \<Rightarrow> nat \<Rightarrow> mem \<Rightarrow>
    (u8 \<times> ftp_backend \<times> sockets \<times> mem) option" where
  "session_closed f n lim cmd m =
     (case close_session f n of (f1, n1) \<Rightarrow> answer BE_OK (ascii ''221 Closed'' @ [CR, LF]) f1 n1 lim cmd m)"

definition session_cancelled :: "ftp_backend \<Rightarrow> sockets \<Rightarrow> mem \<Rightarrow> (u8 \<times> ftp_backend \<times> sockets \<times> mem) option" where
  "session_cancelled f n m = (case close_session f n of (f1, n1) \<Rightarrow> Some (BE_ABORT, f1, n1, m))"

definition fixture_dispatch :: "ftp_backend \<Rightarrow> sockets \<Rightarrow> nat \<Rightarrow> nat \<Rightarrow> mem \<Rightarrow>
    (u8 \<times> ftp_backend \<times> sockets \<times> mem) option" where
  "fixture_dispatch f n lim cmd m =
     (if m cmd = BE_OPEN then answer BE_OK (ascii ''220 Pi1MHz FTP fixture ready'' @ [CR, LF]) f n lim cmd m
      else if m cmd = BE_EXEC then fixture_exec f n lim cmd m
      else if m cmd = BE_READ then fixture_read f n lim cmd m
      else if m cmd = BE_WRITE then fixture_write f n lim cmd m
      else if m cmd = BE_CLOSE then session_closed f n lim cmd m
      else if m cmd = BE_CANCEL then session_cancelled f n m
      else Some (BE_PARAM, f, n, m))"

subsection \<open>The live client\<close>

definition ftp_create :: "bool \<Rightarrow> ftp_backend" where
  "ftp_create live = \<lparr>be_live = live, be_control = -1, be_data = -1, be_transfer = 0, be_host = [],
     be_reply = replicate 238 0, fixture_file = replicate 4096 0, fixture_size = 0, fixture_pos = 0\<rparr>"

definition ftp_destroy :: "ftp_backend \<Rightarrow> sockets \<Rightarrow> sockets" where
  "ftp_destroy f n = snd (close_session f n)"

definition live_open :: "ftp_backend \<Rightarrow> sockets \<Rightarrow> nat \<Rightarrow> nat \<Rightarrow> mem \<Rightarrow>
    (u8 \<times> ftp_backend \<times> sockets \<times> mem) option" where
  "live_open f n lim cmd m = do {
     let (f1, n1) = close_session f n;
     url \<leftarrow> c_string m lim (cmd + 1);
     (case parse_target url 192 of None \<Rightarrow> Some (BE_PARAM, f1, n1, m)
      | Some (host, port) \<Rightarrow>
          let (fd, n2) = socket_connect host port n1; f2 = f1\<lparr>be_host := host, be_control := fd\<rparr> in
          if fd = -2 then Some (BE_DNS, f2, n2, m)
          else if fd < 0 then Some (BE_CONNECT, f2, n2, m)
          else do {
            (code, f3, n3) \<leftarrow> read_reply f2 n2;
            if code \<noteq> 220 then case close_session f3 n3 of (f4, n4) \<Rightarrow> Some (BE_CONNECT, f4, n4, m)
            else do { m1 \<leftarrow> be_publish f3 lim cmd m; Some (BE_OK, f3, n3, m1) } }) }"

definition live_exec :: "ftp_backend \<Rightarrow> sockets \<Rightarrow> nat \<Rightarrow> nat \<Rightarrow> mem \<Rightarrow>
    (u8 \<times> ftp_backend \<times> sockets \<times> mem) option" where
  "live_exec f n lim cmd m =
     (if be_control f < 0 then Some (BE_PARAM, f, n, m)
      else do {
        input \<leftarrow> c_string m lim (cmd + 1);
        (case make_command input 256 of None \<Rightarrow> Some (BE_PARAM, f, n, m)
         | Some (wire, transfer) \<Rightarrow>
             if transfer \<noteq> 0 then do {
               (code, f1, n1) \<leftarrow> begin_transfer f wire transfer n;
               if code < 0 then Some (BE_CONNECT, f1, n1, m)
               else do { m1 \<leftarrow> be_publish f1 lim cmd m; Some (BE_OK, f1, n1, m1) } }
             else do {
               (code, f1, n1) \<leftarrow> control_command f wire n;
               if code < 0 then Some (if errno_again n1 then BE_TIMEOUT else BE_CONNECT, f1, n1, m)
               else do { m1 \<leftarrow> be_publish f1 lim cmd m; Some (BE_OK, f1, n1, m1) } }) })"

fun recv_retry :: "rx list \<Rightarrow> bool \<Rightarrow> nat \<Rightarrow> rx_result \<times> rx list \<times> bool" where
  "recv_retry (Rx_Intr # q) e k = recv_retry q False k"
| "recv_retry q e k = (case recv q k of (Failed a, q') \<Rightarrow> (Failed a, q', a) | (r, q') \<Rightarrow> (r, q', e))"

text \<open>The data connection is done: close it and read the final reply.\<close>

definition finish_transfer :: "ftp_backend \<Rightarrow> sockets \<Rightarrow> nat \<Rightarrow> nat \<Rightarrow> mem \<Rightarrow>
    (u8 \<times> ftp_backend \<times> sockets \<times> mem) option" where
  "finish_transfer f n lim cmd m = do {
     (code, f1, n1) \<leftarrow> read_reply (f\<lparr>be_data := -1, be_transfer := 0\<rparr>) (close_fd (be_data f) n);
     if code < 0 then Some (BE_CONNECT, f1, n1, m)
     else do { m1 \<leftarrow> be_publish f1 lim cmd m; Some (BE_EOF, f1, n1, m1) } }"

definition live_read :: "ftp_backend \<Rightarrow> sockets \<Rightarrow> nat \<Rightarrow> nat \<Rightarrow> mem \<Rightarrow>
    (u8 \<times> ftp_backend \<times> sockets \<times> mem) option" where
  "live_read f n lim cmd m =
     (if be_data f < 0 \<or> be_transfer f = 2 then Some (BE_PARAM, f, n, m)
      else case recv_retry (inq n (be_data f)) (errno_again n) (unat (m (cmd + 1))) of (r, q, e) \<Rightarrow>
        let n1 = set_inq (be_data f) q e n in
        case r of Interrupted \<Rightarrow> Some (BE_CONNECT, f, n1, m)
        | Failed a \<Rightarrow> Some (if a then BE_TIMEOUT else BE_CONNECT, f, n1, m)
        | Got bs \<Rightarrow> do {
            m1 \<leftarrow> mem_put m lim BE_SCRATCH bs;
            m2 \<leftarrow> mem_put m1 lim (cmd + 1) [word_of_nat (length bs)];
            if bs \<noteq> [] then Some (BE_OK, f, n1, m2) else finish_transfer f n1 lim cmd m2 })"

definition live_write :: "ftp_backend \<Rightarrow> sockets \<Rightarrow> nat \<Rightarrow> nat \<Rightarrow> mem \<Rightarrow>
    (u8 \<times> ftp_backend \<times> sockets \<times> mem) option" where
  "live_write f n lim cmd m =
     (let count = unat (m (cmd + 1)) in
      if be_data f < 0 \<or> be_transfer f \<noteq> 2 then Some (BE_PARAM, f, n, m)
      else if count \<noteq> 0 then do {
        bs \<leftarrow> mem_get m lim BE_SCRATCH count;
        (case send_all (be_data f) bs n of (ok, n1) \<Rightarrow> Some (if ok then BE_OK else BE_CONNECT, f, n1, m)) }
      else if shutdown_fails n then Some (BE_CONNECT, f, n, m)
      else finish_transfer f n lim cmd m)"

definition live_close :: "ftp_backend \<Rightarrow> sockets \<Rightarrow> nat \<Rightarrow> nat \<Rightarrow> mem \<Rightarrow>
    (u8 \<times> ftp_backend \<times> sockets \<times> mem) option" where
  "live_close f n lim cmd m = do {
     (f1, n1) \<leftarrow> (if 0 \<le> be_control f
        then do { (code, f', n') \<leftarrow> control_command f (ascii ''QUIT'' @ [CR, LF]) n; Some (f', n') }
        else Some (f, n));
     session_closed f1 n1 lim cmd m }"

definition pi1mhz_ftp_dispatch :: "ftp_backend \<Rightarrow> sockets \<Rightarrow> nat \<Rightarrow> nat \<Rightarrow> mem \<Rightarrow>
    (u8 \<times> ftp_backend \<times> sockets \<times> mem) option" where
  "pi1mhz_ftp_dispatch f n lim cmd m =
     (if lim \<le> BE_SCRATCH + 240 then Some (BE_PARAM, f, n, m)
      else if lim < cmd + 2 then None
      else if \<not> be_live f then fixture_dispatch f n lim cmd m
      else if m cmd = BE_OPEN then live_open f n lim cmd m
      else if m cmd = BE_EXEC then live_exec f n lim cmd m
      else if m cmd = BE_READ then live_read f n lim cmd m
      else if m cmd = BE_WRITE then live_write f n lim cmd m
      else if m cmd = BE_CLOSE then live_close f n lim cmd m
      else if m cmd = BE_CANCEL then session_cancelled f n m
      else Some (BE_PARAM, f, n, m))"

end
