(* ===== verification/Ftp_Backend_Props.thy ===== *)
theory Ftp_Backend_Props
  imports Ftp_Backend
begin

section \<open>Properties of the emulator's FTP backend\<close>

text \<open>
  The invariant of the backend, that every command keeps it, and that the reply reader implements a
  reader of the byte stream behind the sockets.
\<close>

subsection \<open>The invariant\<close>

definition reply_ok :: "bytes \<Rightarrow> bool" where
  "reply_ok r \<longleftrightarrow> length r = 238 \<and> r ! 237 = 0"

definition be_inv :: "ftp_backend \<Rightarrow> bool" where
  "be_inv f \<longleftrightarrow> reply_ok (be_reply f) \<and> length (fixture_file f) = 4096 \<and> fixture_pos f \<le> fixture_size f \<and>
     fixture_size f \<le> 4096 \<and> length (be_host f) < 192 \<and> be_transfer f \<le> 3 \<and> (0 \<le> be_data f \<longrightarrow> 0 \<le> be_control f)"

definition good :: "bool \<Rightarrow> (u8 \<times> ftp_backend \<times> 'b) option \<Rightarrow> bool" where
  "good live r \<longleftrightarrow> (\<exists>st f x. r = Some (st, f, x) \<and> be_inv f \<and> be_live f = live)"

lemma good_Some [simp]: "good live (Some (st, f, x)) \<longleftrightarrow> be_inv f \<and> be_live f = live"
  by (simp add: good_def)

text \<open>A result of the reply reader: the array stays terminated, nothing else changes.\<close>

definition replied :: "ftp_backend \<Rightarrow> (int \<times> ftp_backend \<times> sockets) option \<Rightarrow> bool" where
  "replied f r \<longleftrightarrow> (\<exists>code rep n. r = Some (code, f\<lparr>be_reply := rep\<rparr>, n) \<and> reply_ok rep)"

lemma keep_char_ok:
  "reply_ok rep \<Longrightarrow> cnt \<le> 237 \<Longrightarrow> \<exists>rep' cnt'. keep_char c rep cnt = Some (rep', cnt') \<and> reply_ok rep' \<and> cnt' \<le> 237"
  by (auto simp: keep_char_def reply_ok_def)

text \<open>Below its bound the line array takes the next byte if it still has room for the terminator.\<close>

lemma keep_line_take: "length line \<le> 255 \<Longrightarrow> keep_line c line = Some (take 255 (line @ [c]))"
  by (auto simp: keep_line_def line_put_def LINE_SIZE_def)

lemma line_end_take: "line_end (take 255 l) = Some (take 255 l)"
  by (simp add: line_end_def line_put_def LINE_SIZE_def)

lemma reply_loop_steps:
  "recv q (Suc 0) = (Interrupted, q') \<Longrightarrow> reply_loop q e rep cnt line ml = reply_loop q' False rep cnt line ml"
  "recv q (Suc 0) = (Failed a, q') \<Longrightarrow> reply_loop q e rep cnt line ml = Some (-1, rep, q', a)"
  "recv q (Suc 0) = (Got [], q') \<Longrightarrow> reply_loop q e rep cnt line ml = Some (-1, rep, q', e)"
  "recv q (Suc 0) = (Got (c # cs), q') \<Longrightarrow> keep_char c rep cnt = Some (rep', cnt') \<Longrightarrow> length line \<le> 255 \<Longrightarrow> c \<noteq> LF \<Longrightarrow>
     reply_loop q e rep cnt line ml = reply_loop q' e rep' cnt' (take 255 (line @ [c])) ml"
  "recv q (Suc 0) = (Got (LF # cs), q') \<Longrightarrow> keep_char LF rep cnt = Some (rep', cnt') \<Longrightarrow> length line \<le> 255 \<Longrightarrow>
     end_line (take 255 (line @ [LF])) ml = Inl ml' \<Longrightarrow>
     reply_loop q e rep cnt line ml = reply_loop q' e rep' cnt' [] ml'"
  "recv q (Suc 0) = (Got (LF # cs), q') \<Longrightarrow> keep_char LF rep cnt = Some (rep', cnt') \<Longrightarrow> length line \<le> 255 \<Longrightarrow>
     end_line (take 255 (line @ [LF])) ml = Inr code \<Longrightarrow>
     reply_loop q e rep cnt line ml = do { r \<leftarrow> wr8 rep' cnt' 0; Some (int code, r, q', e) }"
  by (simp_all only: reply_loop.simps [of q] One_nat_def keep_line_take line_end_take option.case prod.case rx_result.case list.case sum.case simp_thms if_True if_False)

lemma reply_loop_ok:
  "reply_ok rep \<Longrightarrow> cnt \<le> 237 \<Longrightarrow> length line \<le> 255 \<Longrightarrow>
     \<exists>code r q' e'. reply_loop q e rep cnt line ml = Some (code, r, q', e') \<and> reply_ok r"
proof (induction "rx_size q" arbitrary: q e rep cnt line ml rule: less_induct)
  case less
  obtain r q' where rq: "recv q (Suc 0) = (r, q')" by fastforce
  show ?case
  proof (cases r)
    case (Got bs)
    show ?thesis
    proof (cases bs)
      case (Cons c cs)
      obtain rep' cnt' where k: "keep_char c rep cnt = Some (rep', cnt')" "reply_ok rep'" "cnt' \<le> 237"
        using keep_char_ok less.prems by blast
      have t: "wr8 rep' cnt' 0 = Some (rep'[cnt' := 0])" "reply_ok (rep'[cnt' := 0])"
        using k(2, 3) by (auto simp: reply_ok_def nth_list_update)
      have rc: "recv q (Suc 0) = (Got (c # cs), q')" using rq Got Cons by simp
      note IH = less.hyps [OF recv_shrinks(2) [OF rc [symmetric]] k(2, 3)]
      show ?thesis
      proof (cases "c = LF")
        case True
        then show ?thesis
          using IH reply_loop_steps(5, 6) [OF rc [unfolded True] k(1) [unfolded True] less.prems(3)] t
          by (cases "end_line (take 255 (line @ [LF])) ml") auto
      qed (use IH reply_loop_steps(4) [OF rc k(1) less.prems(3)] in auto)
    qed (use rq Got reply_loop_steps(3) less.prems in auto)
  next
    case Interrupted
    then show ?thesis
      using less.hyps [OF recv_shrinks(1) less.prems] rq reply_loop_steps(1) by metis
  qed (use rq reply_loop_steps(2) less.prems in auto)
qed

lemma read_reply_ok: "be_inv f \<Longrightarrow> replied f (read_reply f n)"
  using reply_loop_ok [of "(be_reply f)[0 := 0]" 0 "[]" "inq n (be_control f)" "errno_again n" 0]
  by (auto simp: read_reply_def replied_def be_inv_def reply_ok_def)

lemma replied_inv: "be_inv f \<Longrightarrow> replied f r \<Longrightarrow> \<exists>code f' n'. r = Some (code, f', n') \<and> be_inv f' \<and> be_live f' = be_live f
    \<and> be_control f' = be_control f \<and> be_data f' = be_data f"
  by (auto simp: replied_def be_inv_def)

lemma control_command_ok: "be_inv f \<Longrightarrow> replied f (control_command f cmd n)"
  using read_reply_ok by (auto simp: control_command_def replied_def be_inv_def split: prod.split intro!: exI [of _ "be_reply f"])

lemma be_publish_in: "cmd + 240 \<le> lim \<Longrightarrow> \<exists>m'. be_publish f lim cmd m = Some m'"
proof -
  have "length (takeWhile (\<lambda>c. c \<noteq> 0) (take 237 (be_reply f))) \<le> 237"
    using length_takeWhile_le [of "\<lambda>c. c \<noteq> 0" "take 237 (be_reply f)"] by simp
  then show "cmd + 240 \<le> lim \<Longrightarrow> ?thesis" by (auto simp: be_publish_def mem_put_def Let_def)
qed

lemma set_reply_ok:
  "be_inv f \<Longrightarrow> length s < 237 \<Longrightarrow> \<exists>r. set_reply s f = Some (f\<lparr>be_reply := r\<rparr>) \<and> reply_ok r"
  by (auto simp: set_reply_def be_inv_def reply_ok_def splice_def nth_append)

lemma answer_good: "be_inv f \<Longrightarrow> length s < 237 \<Longrightarrow> cmd + 240 \<le> lim \<Longrightarrow> good (be_live f) (answer st s f n lim cmd m)"
proof -
  assume "be_inv f" "length s < 237" "cmd + 240 \<le> lim"
  then obtain r m' where "set_reply s f = Some (f\<lparr>be_reply := r\<rparr>)" "reply_ok r"
    "be_publish (f\<lparr>be_reply := r\<rparr>) lim cmd m = Some m'"
    using set_reply_ok be_publish_in by metis
  then show ?thesis using \<open>be_inv f\<close> by (simp add: answer_def good_def be_inv_def)
qed

lemma close_session_inv [simp]: "be_inv f \<Longrightarrow> be_inv (fst (close_session f n))" "be_live (fst (close_session f n)) = be_live f"
  by (simp_all add: close_session_def be_inv_def)

lemma session_closed_good: "be_inv f \<Longrightarrow> cmd + 240 \<le> lim \<Longrightarrow> good (be_live f) (session_closed f n lim cmd m)"
  using answer_good [of "fst (close_session f n)"] by (simp add: session_closed_def case_prod_beta)

lemma session_cancelled_good: "be_inv f \<Longrightarrow> good (be_live f) (session_cancelled f n m)"
  by (simp add: session_cancelled_def good_def case_prod_beta)

subsection \<open>The fixture keeps the invariant\<close>

lemma answer_good_upd:
  "be_inv f \<Longrightarrow> be_live f = live \<Longrightarrow> length s < 237 \<Longrightarrow> cmd + 240 \<le> lim \<Longrightarrow> good live (answer st s f n lim cmd m)"
  using answer_good by blast

lemma fixture_texts: "length default_file = 20" "length listing = 26"
  by (simp_all add: default_file_def listing_def)

lemma fixture_begin_ok:
  "be_inv f \<Longrightarrow> \<exists>f'. fixture_begin t f = Some f' \<and> be_inv f' \<and> be_live f' = be_live f"
  by (auto simp: fixture_begin_def be_inv_def Let_def fixture_texts)

lemma make_command_transfer: "make_command input cap = Some (wire, t) \<Longrightarrow> t \<le> 3"
  by (auto simp: make_command_def command_verb_def Let_def split: option.splits if_splits)

lemma fixture_exec_good:
  assumes "be_inv f" "cmd + 240 \<le> lim" "c_string m lim (cmd + 1) = Some input"
  shows "good (be_live f) (fixture_exec f n lim cmd m)"
proof (cases "make_command input 256")
  case None
  then show ?thesis using assms by (simp add: fixture_exec_def good_def)
next
  case (Some r)
  obtain wire t where r: "r = (wire, t)" by fastforce
  have t: "be_inv (f\<lparr>be_transfer := t\<rparr>)" using assms(1) make_command_transfer Some r by (simp add: be_inv_def)
  then obtain f' where f': "fixture_begin t (f\<lparr>be_transfer := t\<rparr>) = Some f'" "be_inv f'" "be_live f' = be_live f"
    using fixture_begin_ok by fastforce
  show ?thesis using assms Some r t f'
    by (auto simp: fixture_exec_def Let_def intro!: answer_good_upd)
qed

lemma fixture_read_good:
  assumes "be_inv f" "cmd + 240 \<le> lim" "BE_SCRATCH + 255 \<le> lim"
  shows "good (be_live f) (fixture_read f n lim cmd m)"
proof -
  let ?k = "min (unat (m (cmd + 1))) (fixture_size f - fixture_pos f)"
  have k: "?k \<le> 255" "fixture_pos f + ?k \<le> fixture_size f" "fixture_pos f + ?k \<le> length (fixture_file f)"
    using assms(1) unat_byte_less [of 8 "m (cmd + 1)"] by (auto simp: be_inv_def)
  then obtain m1 where m1: "mem_put m lim BE_SCRATCH (seg (fixture_file f) (fixture_pos f) ?k) = Some m1"
    using mem_put_in [of BE_SCRATCH _ lim m] assms(3) by fastforce
  obtain m2 where m2: "mem_put m1 lim (cmd + 1) [word_of_nat ?k] = Some m2"
    using mem_put_in [of "cmd + 1" "[word_of_nat ?k]" lim m1] assms(2) by auto
  have i: "be_inv (f\<lparr>fixture_pos := fixture_pos f + ?k\<rparr>)" "be_inv (f\<lparr>fixture_pos := fixture_pos f + ?k, be_transfer := 0\<rparr>)"
    using assms(1) k by (simp_all add: be_inv_def)
  show ?thesis
    unfolding fixture_read_def Let_def rd_range_in [OF k(3)] bind.bind_lunit m1 m2
    using assms(2) i by (simp add: answer_good_upd del: min_def)
qed

lemma fixture_write_good:
  assumes "be_inv f" "cmd + 240 \<le> lim" "BE_SCRATCH + 255 \<le> lim"
  shows "good (be_live f) (fixture_write f n lim cmd m)"
proof -
  have "unat (m (cmd + 1)) \<le> 255" using unat_byte_less [of 8 "m (cmd + 1)"] by simp
  then obtain bs where bs: "mem_get m lim BE_SCRATCH (unat (m (cmd + 1))) = Some bs" "length bs = unat (m (cmd + 1))"
    using mem_get_in [of BE_SCRATCH "unat (m (cmd + 1))" lim m] assms(3) by auto
  have i: "be_inv (f\<lparr>be_transfer := 0\<rparr>)" "length (fixture_file f) = 4096"
    using assms(1) by (simp_all add: be_inv_def)
  have w: "be_inv (f\<lparr>fixture_file := splice (fixture_file f) (fixture_size f) bs, fixture_size := fixture_size f + length bs\<rparr>)"
    if "fixture_size f + length bs \<le> 4096" using that assms(1) by (simp add: be_inv_def)
  show ?thesis using assms bs i w
    by (auto simp: fixture_write_def Let_def answer_good_upd)
qed

lemma fixture_dispatch_good:
  assumes "be_inv f" "cmd + 240 \<le> lim" "BE_SCRATCH + 255 \<le> lim" "c_string m lim (cmd + 1) = Some input"
  shows "good (be_live f) (fixture_dispatch f n lim cmd m)"
  using assms fixture_exec_good fixture_read_good fixture_write_good session_closed_good session_cancelled_good
  by (simp add: fixture_dispatch_def answer_good_upd)

subsection \<open>The live client keeps the invariant\<close>

lemma publish_good:
  "be_inv f \<Longrightarrow> be_live f = live \<Longrightarrow> cmd + 240 \<le> lim \<Longrightarrow>
     good live (do { m1 \<leftarrow> be_publish f lim cmd m; Some (st, f, n, m1) })"
  using be_publish_in [of cmd lim f m] by auto

lemma replied_good:
  assumes "replied f r" "be_inv f"
    and "\<And>code f' n'. be_inv f' \<Longrightarrow> be_live f' = be_live f \<Longrightarrow> good (be_live f) (k code f' n')"
  shows "good (be_live f) (do { (code, f', n') \<leftarrow> r; k code f' n' })"
  using replied_inv [OF assms(2, 1)] assms(3) by auto

lemma parse_target_host: "parse_target url cap = Some (h, p) \<Longrightarrow> length h < cap"
  by (auto simp: parse_target_def bind_eq_Some_conv Let_def split: if_splits option.splits)

lemma live_open_good:
  assumes "be_inv f" "cmd + 240 \<le> lim" "c_string m lim (cmd + 1) = Some url"
  shows "good (be_live f) (live_open f n lim cmd m)"
proof (cases "parse_target url 192")
  case None
  then show ?thesis using assms by (simp add: live_open_def case_prod_beta Let_def)
next
  case (Some hp)
  obtain h p where hp: "hp = (h, p)" by fastforce
  obtain fd n2 where fd: "socket_connect h p (snd (close_session f n)) = (fd, n2)" by fastforce
  let ?f = "fst (close_session f n)\<lparr>be_host := h, be_control := fd\<rparr>"
  have i: "be_inv ?f" "be_live ?f = be_live f"
    using assms(1) parse_target_host Some hp by (auto simp: close_session_def be_inv_def)
  have "good (be_live ?f) (do { (code, f3, n3) \<leftarrow> read_reply ?f n2;
      if code \<noteq> 220 then case close_session f3 n3 of (f4, n4) \<Rightarrow> Some (BE_CONNECT, f4, n4, m)
      else do { m1 \<leftarrow> be_publish f3 lim cmd m; Some (BE_OK, f3, n3, m1) } })"
    by (rule replied_good [OF read_reply_ok [OF i(1)] i(1)])
      (use assms(2) in \<open>auto simp: case_prod_beta publish_good\<close>)
  then show ?thesis using assms(3) Some hp fd i
    by (auto simp: live_open_def case_prod_beta Let_def)
qed

lemma live_exec_good:
  assumes "be_inv f" "cmd + 240 \<le> lim" "c_string m lim (cmd + 1) = Some input"
    and "\<And>wire t. make_command input 256 = Some (wire, t) \<Longrightarrow> t = 0"
  shows "good (be_live f) (live_exec f n lim cmd m)"
proof (cases "make_command input 256")
  case (Some r)
  obtain wire where r: "r = (wire, 0)" using assms(4) Some by (metis surj_pair)
  have "good (be_live f) (do { (code, f1, n1) \<leftarrow> control_command f wire n;
      if code < 0 then Some (if errno_again n1 then BE_TIMEOUT else BE_CONNECT, f1, n1, m)
      else do { m1 \<leftarrow> be_publish f1 lim cmd m; Some (BE_OK, f1, n1, m1) } })"
    by (rule replied_good [OF control_command_ok [OF assms(1)] assms(1)]) (use assms(2) in \<open>auto simp: publish_good\<close>)
  then show ?thesis using assms(1, 3) Some r by (simp add: live_exec_def)
qed (use assms in \<open>simp add: live_exec_def\<close>)

lemma finish_transfer_good:
  assumes "be_inv f" "cmd + 240 \<le> lim"
  shows "good (be_live f) (finish_transfer f n lim cmd m)"
proof -
  have i: "be_inv (f\<lparr>be_data := -1, be_transfer := 0\<rparr>)" using assms(1) by (simp add: be_inv_def)
  show ?thesis unfolding finish_transfer_def
    using replied_good [OF read_reply_ok [OF i] i, where k = "\<lambda>code f1 n1. if code < 0 then Some (BE_CONNECT, f1, n1, m)
      else do { m1 \<leftarrow> be_publish f1 lim cmd m; Some (BE_EOF, f1, n1, m1) }"] assms(2)
    by (simp add: publish_good)
qed

lemma recv_length: "recv q k = (Got bs, q') \<Longrightarrow> length bs \<le> k"
  by (cases "(q, k)" rule: recv.cases) (auto split: if_splits)

lemma recv_retry_length: "recv_retry q e k = (Got bs, q', e') \<Longrightarrow> length bs \<le> k"
  by (induction q e k rule: recv_retry.induct) (auto split: if_splits)

lemma live_read_good:
  assumes "be_inv f" "cmd + 240 \<le> lim" "BE_SCRATCH + 255 \<le> lim"
  shows "good (be_live f) (live_read f n lim cmd m)"
proof -
  obtain r q e where r: "recv_retry (inq n (be_data f)) (errno_again n) (unat (m (cmd + 1))) = (r, q, e)"
    using prod_cases3 by blast
  show ?thesis
  proof (cases r)
    case (Got bs)
    have "length bs \<le> 255" using recv_retry_length r Got unat_byte_less [of 8 "m (cmd + 1)"] by fastforce
    then obtain m1 where m1: "mem_put m lim BE_SCRATCH bs = Some m1"
      using mem_put_in [of BE_SCRATCH bs lim m] assms(3) by auto
    obtain m2 where m2: "mem_put m1 lim (cmd + 1) [word_of_nat (length bs)] = Some m2"
      using mem_put_in [of "cmd + 1" "[word_of_nat (length bs)]" lim m1] assms(2) by auto
    show ?thesis using assms(1, 2) r Got m1 m2
      by (simp add: live_read_def Let_def finish_transfer_good)
  qed (use assms r in \<open>simp_all add: live_read_def Let_def\<close>)
qed

lemma live_write_good:
  assumes "be_inv f" "cmd + 240 \<le> lim" "BE_SCRATCH + 255 \<le> lim"
  shows "good (be_live f) (live_write f n lim cmd m)"
proof -
  have "unat (m (cmd + 1)) \<le> 255" using unat_byte_less [of 8 "m (cmd + 1)"] by simp
  then obtain bs where "mem_get m lim BE_SCRATCH (unat (m (cmd + 1))) = Some bs"
    using mem_get_in [of BE_SCRATCH "unat (m (cmd + 1))" lim m] assms(3) by auto
  then show ?thesis using assms
    by (simp add: live_write_def Let_def finish_transfer_good case_prod_beta)
qed

lemma live_close_good:
  assumes "be_inv f" "cmd + 240 \<le> lim"
  shows "good (be_live f) (live_close f n lim cmd m)"
proof -
  obtain code f' n' where "control_command f (ascii ''QUIT'' @ [CR, LF]) n = Some (code, f', n')" "be_inv f'" "be_live f' = be_live f"
    using replied_inv [OF assms(1) control_command_ok [OF assms(1)]] by blast
  then show ?thesis using assms session_closed_good [of f'] session_closed_good [of f]
    by (simp add: live_close_def)
qed

lemma ftp_dispatch_good:
  assumes "be_inv f" "cmd + 240 \<le> lim" "BE_SCRATCH + 255 \<le> lim" "c_string m lim (cmd + 1) = Some input"
    and "be_live f \<Longrightarrow> m cmd = BE_EXEC \<Longrightarrow> (\<And>wire t. make_command input 256 = Some (wire, t) \<Longrightarrow> t = 0)"
  shows "good (be_live f) (pi1mhz_ftp_dispatch f n lim cmd m)"
proof (cases "be_live f")
  case True
  note live = live_open_good [OF assms(1, 2, 4)] live_exec_good [OF assms(1, 2, 4)] live_read_good [OF assms(1-3)]
    live_write_good [OF assms(1-3)] live_close_good [OF assms(1, 2)] session_cancelled_good [OF assms(1)]
  show ?thesis using live assms(1-3) assms(5) [OF True] True by (simp add: pi1mhz_ftp_dispatch_def)
next
  case False
  then show ?thesis using fixture_dispatch_good [OF assms(1-4)] assms(2, 3) by (simp add: pi1mhz_ftp_dispatch_def)
qed

text \<open>A command as the backend meets it: where its page is, what the memory holds, what the sockets will answer.\<close>

type_synonym be_op = "nat \<times> mem \<times> sockets"

definition be_exec :: "nat \<Rightarrow> be_op \<Rightarrow> ftp_backend \<Rightarrow> ftp_backend option" where
  "be_exec lim = (\<lambda>(cmd, m, n) f. map_option (\<lambda>(st, f', n', m'). f') (pi1mhz_ftp_dispatch f n lim cmd m))"

definition no_transfer :: "bytes \<Rightarrow> bool" where
  "no_transfer input = (case make_command input 256 of None \<Rightarrow> True | Some (wire, t) \<Rightarrow> t = 0)"

definition be_op_ok :: "nat \<Rightarrow> bool \<Rightarrow> be_op \<Rightarrow> bool" where
  "be_op_ok lim live = (\<lambda>(cmd, m, n). BE_SCRATCH + 255 \<le> lim \<and> cmd + 240 \<le> lim \<and>
     (case c_string m lim (cmd + 1) of None \<Rightarrow> False
      | Some input \<Rightarrow> live \<and> m cmd = BE_EXEC \<longrightarrow> no_transfer input))"

lemma be_exec_safe:
  assumes "be_inv f \<and> be_live f = live" "be_op_ok lim live op"
  shows "\<exists>f'. be_exec lim op f = Some f' \<and> be_inv f' \<and> be_live f' = live"
proof -
  obtain cmd m n where op: "op = (cmd, m, n)" using prod_cases3 by blast
  obtain input where c: "c_string m lim (cmd + 1) = Some input" "live \<and> m cmd = BE_EXEC \<longrightarrow> no_transfer input"
    and b: "cmd + 240 \<le> lim" "BE_SCRATCH + 255 \<le> lim"
    using assms(2) op by (auto simp: be_op_ok_def split: option.splits)
  have "good (be_live f) (pi1mhz_ftp_dispatch f n lim cmd m)"
    using c(2) assms(1) by (intro ftp_dispatch_good [OF _ b c(1)]) (auto simp: no_transfer_def)
  then show ?thesis using assms(1) op by (auto simp: good_def be_exec_def)
qed

interpretation be: safe_component "be_exec lim" "be_op_ok lim live" "\<lambda>f. be_inv f \<and> be_live f = live" for lim live
  by unfold_locales (use be_exec_safe in blast)

lemma ftp_create_inv: "be_inv (ftp_create live)" "be_live (ftp_create live) = live"
  by (simp_all add: ftp_create_def be_inv_def reply_ok_def)

text \<open>C23: From its creation on, no sequence of commands makes the backend leave one of its arrays
  (the 256-byte line and the 238-byte reply of the reply reader, the host and the fixture file)
  or the service memory, whatever the sockets answer and however long the lines of the server are,
  and its invariant holds after each command. The commands covered (\<open>be_op_ok\<close>) are those
  whose page has 240 bytes inside the service memory and whose text is terminated somewhere before
  the end of that memory; a live \<open>EXEC\<close> of a transfer is left out, because the EPSV
  parser over-reads there.\<close>

theorem ftp_backend_safe:
  assumes "list_all (be_op_ok lim live) ops"
  shows "\<exists>f. run_ops (be_exec lim) ops (ftp_create live) = Some f \<and> be_inv f \<and> be_live f = live"
  using be.run_safe [OF _ assms] ftp_create_inv by blast

text \<open>Sockets that answer nothing, and a memory that holds one command page.\<close>

definition quiet :: sockets where
  "quiet = \<lparr>inq = (\<lambda>fd. []), connects = [], sends = [], shutdown_fails = False, errno_again = False, sent = [], dialled = [], closed = []\<rparr>"

definition one_page :: "nat \<Rightarrow> bytes \<Rightarrow> mem" where
  "one_page cmd bs = (\<lambda>i. if cmd \<le> i \<and> i < cmd + length bs then bs ! (i - cmd) else 0)"

lemma one_page_text:
  assumes "0 \<notin> set bs" "cmd + 1 + length bs < lim"
  shows "c_string (one_page cmd (b # bs)) lim (cmd + 1) = Some bs"
  using assms by (intro c_string_text) (auto simp: one_page_def)

theorem ftp_backend_safe_witness:
  "\<exists>f. run_ops (be_exec 0x2000000) [(0xFFF000, one_page 0xFFF000 (BE_EXEC # ascii ''DIR''), quiet),
       (0xFFF000, one_page 0xFFF000 (BE_READ # [200]), quiet)] (ftp_create False) = Some f \<and> be_inv f \<and> be_live f = False"
proof (rule ftp_backend_safe)
  have "c_string (one_page 0xFFF000 (BE_EXEC # ascii ''DIR'')) 0x2000000 (0xFFF000 + 1) = Some (ascii ''DIR'')"
    "c_string (one_page 0xFFF000 (BE_READ # [200])) 0x2000000 (0xFFF000 + 1) = Some [200]"
    by (rule one_page_text; simp add: ascii_def)+
  then show "list_all (be_op_ok 0x2000000 False) [(0xFFF000, one_page 0xFFF000 (BE_EXEC # ascii ''DIR''), quiet),
       (0xFFF000, one_page 0xFFF000 (BE_READ # [200]), quiet)]"
    by (simp add: be_op_ok_def)
qed

subsection \<open>Reading a reply from the stream\<close>

definition kept :: "bytes \<Rightarrow> nat \<Rightarrow> bytes \<Rightarrow> bytes" where
  "kept rep cnt bs = splice rep cnt (take (237 - cnt) bs)"

lemma kept_ok [simp]: "reply_ok rep \<Longrightarrow> cnt \<le> 237 \<Longrightarrow> reply_ok (kept rep cnt bs)"
  by (auto simp: reply_ok_def kept_def splice_def nth_append min_def)

lemma keep_char_kept: "reply_ok rep \<Longrightarrow> cnt \<le> 237 \<Longrightarrow> keep_char c rep cnt = Some (kept rep cnt [c], min 237 (cnt + 1))"
  by (auto simp: keep_char_def reply_ok_def kept_def splice_def upd_conv_take_nth_drop)

lemma kept_Cons:
  assumes "reply_ok rep" "cnt \<le> 237"
  shows "kept (kept rep cnt [b]) (min 237 (cnt + 1)) bs = kept rep cnt (b # bs)"
proof (cases "cnt = 237")
  case True
  then show ?thesis by (simp add: kept_def splice_def)
next
  case False
  then have "take (237 - cnt) (b # bs) = [b] @ take (237 - (cnt + 1)) bs" "take (237 - cnt) [b] = [b]"
    using assms(2) by (simp_all add: take_Cons')
  then show ?thesis using splice_append [of cnt "[b]" "take (237 - (cnt + 1)) bs" rep] assms False
    by (simp add: kept_def reply_ok_def)
qed

lemma reply_loop_text:
  assumes "reply_ok rep" "cnt \<le> 237" "length line \<le> 255" "LF \<notin> set bs"
  shows "reply_loop (Seg (bs @ c # rest) # q) e rep cnt line ml =
     reply_loop (Seg (c # rest) # q) e (kept rep cnt bs) (min 237 (cnt + length bs)) (take 255 (line @ bs)) ml"
  using assms
proof (induction bs arbitrary: rep cnt line)
  case Nil
  then show ?case by (simp add: kept_def splice_def min_def)
next
  case (Cons b bs)
  have r: "recv (Seg ((b # bs) @ c # rest) # q) (Suc 0) = (Got [b], Seg (bs @ c # rest) # q)" by simp
  have "reply_loop (Seg ((b # bs) @ c # rest) # q) e rep cnt line ml =
     reply_loop (Seg (bs @ c # rest) # q) e (kept rep cnt [b]) (min 237 (cnt + 1)) (take 255 (line @ [b])) ml"
    using reply_loop_steps(4) [OF r keep_char_kept] Cons.prems by simp
  also have "\<dots> = reply_loop (Seg (c # rest) # q) e (kept (kept rep cnt [b]) (min 237 (cnt + 1)) bs)
      (min 237 (min 237 (cnt + 1) + length bs)) (take 255 (take 255 (line @ [b]) @ bs)) ml"
    using Cons.prems by (intro Cons.IH) simp_all
  also have "take 255 (take 255 (line @ [b]) @ bs) = take 255 (line @ b # bs)"
    by (simp add: take_Cons' min_def)
  also have "min 237 (min 237 (cnt + 1) + length bs) = min 237 (cnt + length (b # bs))" by simp
  finally show ?case using kept_Cons Cons.prems by simp
qed

definition unread :: "bytes \<Rightarrow> rx list \<Rightarrow> rx list" where
  "unread rest q = (if rest = [] then q else Seg rest # q)"

lemma recv_LF: "recv (Seg (LF # rest) # q) (Suc 0) = (Got [LF], unread rest q)"
  by (simp add: unread_def)

lemma reply_loop_line:
  assumes "reply_ok rep" "LF \<notin> set bs" "end_line (take 255 (bs @ [LF])) 0 = Inr code"
  shows "reply_loop (Seg (bs @ LF # rest) # q) e rep 0 [] 0 =
     Some (int code, (kept rep 0 (bs @ [LF]))[min 237 (length bs + 1) := 0], unread rest q, e)"
proof -
  let ?r = "kept rep 0 bs" and ?c = "min 237 (length bs)"
  have k: "keep_char LF ?r ?c = Some (kept ?r ?c [LF], min 237 (?c + 1))" "reply_ok (kept ?r ?c [LF])"
    using assms(1) by (simp_all add: keep_char_kept)
  have ka: "kept ?r ?c [LF] = kept rep 0 (bs @ [LF])"
  proof (cases "length bs < 237")
    case True
    then show ?thesis using splice_append [of 0 bs "[LF]" rep] assms(1)
      by (simp add: kept_def reply_ok_def)
  qed (simp add: kept_def splice_def)
  have "take 255 (take 255 bs @ [LF]) = take 255 (bs @ [LF])" by (cases "length bs \<le> 255") simp_all
  then have el: "end_line (take 255 (take 255 bs @ [LF])) 0 = Inr code" using assms(3) by simp
  have "reply_loop (Seg (bs @ LF # rest) # q) e rep 0 [] 0 = reply_loop (Seg (LF # rest) # q) e ?r ?c (take 255 bs) 0"
    using reply_loop_text [of rep 0 "[]" bs LF rest q e 0] assms by simp
  also have "\<dots> = do { r \<leftarrow> wr8 (kept ?r ?c [LF]) (min 237 (?c + 1)) 0; Some (int code, r, unread rest q, e) }"
    by (rule reply_loop_steps(6) [OF recv_LF k(1) _ el]) simp
  also have "min 237 (?c + 1) = min 237 (length bs + 1)" by (simp add: min_def)
  finally show ?thesis using k(2) ka by (simp add: reply_ok_def)
qed

subsection \<open>The reader depends on the byte stream only\<close>

text \<open>A queue with no error in it, and the bytes it will deliver.\<close>

definition calm :: "rx list \<Rightarrow> bool" where
  "calm q = list_all (\<lambda>r. case r of Seg bs \<Rightarrow> bs \<noteq> [] | Rx_Intr \<Rightarrow> True | Rx_Err a \<Rightarrow> False) q"

definition stream_of :: "rx list \<Rightarrow> bytes" where
  "stream_of q = concat (map (\<lambda>r. case r of Seg bs \<Rightarrow> bs | _ \<Rightarrow> []) q)"

fun stream_reply :: "bytes \<Rightarrow> bytes \<Rightarrow> nat \<Rightarrow> bytes \<Rightarrow> nat \<Rightarrow> (int \<times> bytes \<times> bytes) option" where
  "stream_reply [] rep cnt line ml = Some (-1, rep, [])"
| "stream_reply (c # cs) rep cnt line ml =
     (case keep_char c rep cnt of None \<Rightarrow> None
      | Some (rep', cnt') \<Rightarrow>
          if c \<noteq> LF then stream_reply cs rep' cnt' (take 255 (line @ [c])) ml
          else case end_line (take 255 (line @ [c])) ml of
            Inl ml' \<Rightarrow> stream_reply cs rep' cnt' [] ml'
          | Inr code \<Rightarrow> do { r \<leftarrow> wr8 rep' cnt' 0; Some (int code, r, cs) })"

lemma recv_calm:
  assumes "calm q"
  shows "q = [] \<and> recv q (Suc 0) = (Failed True, []) \<or>
     (\<exists>q'. recv q (Suc 0) = (Interrupted, q') \<and> calm q' \<and> stream_of q' = stream_of q) \<or>
     (\<exists>c q'. recv q (Suc 0) = (Got [c], q') \<and> calm q' \<and> stream_of q = c # stream_of q')"
proof (cases q)
  case (Cons r q')
  show ?thesis
  proof (cases r)
    case (Seg bs)
    then obtain b bs' where "bs = b # bs'" using assms Cons by (cases bs) (auto simp: calm_def)
    then show ?thesis using assms Cons Seg by (cases bs') (auto simp: calm_def stream_of_def)
  qed (use assms Cons in \<open>auto simp: calm_def stream_of_def\<close>)
qed simp

lemma reply_loop_stream:
  "calm q \<Longrightarrow> reply_ok rep \<Longrightarrow> cnt \<le> 237 \<Longrightarrow> length line \<le> 255 \<Longrightarrow>
     \<exists>code r q' e'. reply_loop q e rep cnt line ml = Some (code, r, q', e') \<and> reply_ok r \<and> calm q' \<and>
       stream_reply (stream_of q) rep cnt line ml = Some (code, r, stream_of q')"
proof (induction "rx_size q" arbitrary: q e rep cnt line ml rule: less_induct)
  case less
  consider (dry) "q = []" "recv q (Suc 0) = (Failed True, [])"
    | (intr) q' where "recv q (Suc 0) = (Interrupted, q')" "calm q'" "stream_of q' = stream_of q"
    | (byte) c q' where "recv q (Suc 0) = (Got [c], q')" "calm q'" "stream_of q = c # stream_of q'"
    using recv_calm [OF less.prems(1)] by blast
  then show ?case
  proof cases
    case dry
    then show ?thesis using reply_loop_steps(2) [OF dry(2)] less.prems by (auto simp: stream_of_def calm_def)
  next
    case intr
    then show ?thesis
      using less.hyps [OF recv_shrinks(1) intr(2) less.prems(2-4)] reply_loop_steps(1) by metis
  next
    case byte
    let ?r = "kept rep cnt [c]" and ?n = "min 237 (cnt + 1)"
    have k: "keep_char c rep cnt = Some (?r, ?n)" "reply_ok ?r" "?n \<le> 237"
      using less.prems by (simp_all add: keep_char_kept)
    have w: "wr8 ?r ?n 0 = Some (?r[?n := 0])" "reply_ok (?r[?n := 0])"
      using k(2, 3) by (auto simp: reply_ok_def nth_list_update)
    note IH = less.hyps [OF recv_shrinks(2) [OF byte(1) [symmetric]] byte(2) k(2, 3)]
    show ?thesis
    proof (cases "c = LF")
      case True
      show ?thesis
        using IH reply_loop_steps(5, 6) [OF byte(1) [unfolded True] k(1) [unfolded True] less.prems(4)]
          w byte(2, 3) k(1) True
        by (cases "end_line (take 255 (line @ [LF])) ml") auto
    qed (use IH reply_loop_steps(4) [OF byte(1) k(1) less.prems(4)] byte(3) k(1) in auto)
  qed
qed

text \<open>C25: How TCP cuts the control stream into segments, and where signals interrupt the calls,
  does not matter: two arrivals of the same bytes give the same reply code and the same stored
  reply, and leave the same bytes for the next reply.\<close>

theorem reply_segmentation:
  assumes "be_inv f" "calm (inq n1 (be_control f))" "calm (inq n2 (be_control f))"
    and "stream_of (inq n1 (be_control f)) = stream_of (inq n2 (be_control f))"
  shows "\<exists>code f' n1' n2'. read_reply f n1 = Some (code, f', n1') \<and> read_reply f n2 = Some (code, f', n2') \<and>
     stream_of (inq n1' (be_control f)) = stream_of (inq n2' (be_control f)) \<and>
     calm (inq n1' (be_control f)) \<and> calm (inq n2' (be_control f))"
proof -
  let ?r = "(be_reply f)[0 := 0]"
  have r: "wr8 (be_reply f) 0 0 = Some ?r" "reply_ok ?r" using assms(1) by (auto simp: be_inv_def reply_ok_def)
  from reply_loop_stream [OF assms(2) r(2), of 0 "[]" "errno_again n1" 0]
    reply_loop_stream [OF assms(3) r(2), of 0 "[]" "errno_again n2" 0] assms(4)
  obtain code r1 q1 q2 e1 e2 where "reply_loop (inq n1 (be_control f)) (errno_again n1) ?r 0 [] 0 = Some (code, r1, q1, e1)"
    "reply_loop (inq n2 (be_control f)) (errno_again n2) ?r 0 [] 0 = Some (code, r1, q2, e2)"
    "calm q1" "calm q2" "stream_of q1 = stream_of q2" by auto
  then show ?thesis using r(1) by (simp add: read_reply_def set_inq_def)
qed

theorem reply_segmentation_witness:
  "let f = (ftp_create True)\<lparr>be_control := 3\<rparr>;
       n1 = quiet\<lparr>inq := (\<lambda>fd. [Seg (ascii ''220 hi'' @ [CR, LF])])\<rparr>;
       n2 = quiet\<lparr>inq := (\<lambda>fd. [Seg (ascii ''2''), Rx_Intr, Seg (ascii ''20 hi'' @ [CR]), Seg [LF]])\<rparr> in
   \<exists>code f' n1' n2'. read_reply f n1 = Some (code, f', n1') \<and> read_reply f n2 = Some (code, f', n2') \<and>
     stream_of (inq n1' 3) = stream_of (inq n2' 3) \<and> calm (inq n1' 3) \<and> calm (inq n2' 3)"
  unfolding Let_def
  using reply_segmentation [of "(ftp_create True)\<lparr>be_control := 3\<rparr>" "quiet\<lparr>inq := (\<lambda>fd. [Seg (ascii ''220 hi'' @ [CR, LF])])\<rparr>"
    "quiet\<lparr>inq := (\<lambda>fd. [Seg (ascii ''2''), Rx_Intr, Seg (ascii ''20 hi'' @ [CR]), Seg [LF]])\<rparr>"]
  by (simp add: ftp_create_def be_inv_def reply_ok_def calm_def stream_of_def ascii_def)

end
