(* ===== verification/Ftp_Backend_Sessions.thy ===== *)
theory Ftp_Backend_Sessions
  imports Ftp_Backend_Props
begin

section \<open>Sessions of the emulator's FTP backend\<close>

text \<open>
  Whole sessions through \<open>pi1mhz_ftp_dispatch\<close>: an upload to the fixture and its download, a live
  transfer, and the reply that makes the passive parser leave its array.
\<close>

subsection \<open>Passive replies\<close>

lemma line_code_229: "end_line (take 255 (ascii ''229 '' @ t @ [LF])) 0 = Inr 229"
  by (simp add: end_line_def be_line_code_def ascii_def is_digit_def)

lemma kept_all: "reply_ok rep \<Longrightarrow> length bs \<le> 236 \<Longrightarrow> kept rep 0 bs = bs @ drop (length bs) rep"
  by (simp add: kept_def splice_def)

lemma stored_long:
  assumes "reply_ok rep" "237 \<le> length bs"
  shows "(kept rep 0 (bs @ [LF]))[237 := 0] = take 237 bs @ [0]"
proof -
  have "drop 237 rep = [rep ! 237]" using assms(1) by (simp add: reply_ok_def Cons_nth_drop_Suc [symmetric])
  then show ?thesis using assms by (simp add: kept_def splice_def list_update_append)
qed

text \<open>An opening bracket in the last place of the array makes the parser run past its end.\<close>

lemma passive_overread:
  assumes "length t = 232" "0 \<notin> set t" "0x28 \<notin> set t"
  shows "passive_port (ascii ''229 '' @ t @ [0x28, 0]) = None"
proof -
  let ?r = "ascii ''229 '' @ t @ [0x28, 0]"
  have c: "cstr ?r = ascii ''229 '' @ t @ [0x28]"
    using cstr_append [of "ascii ''229 '' @ t @ [0x28]" "[0]"] assms(2) by (simp add: cstr_def ascii_def)
  have tw: "takeWhile (\<lambda>c. c \<noteq> 0x28) (ascii ''229 '' @ t @ [0x28]) = ascii ''229 '' @ t"
    using takeWhile_stop [of "0x28" "ascii ''229 '' @ t" "[]"] assms(3) by (auto simp: ascii_def)
  have "contains (ascii ''229 '') (ascii ''229 '' @ t @ [0x28])" by (simp add: ascii_def starts_with_def)
  moreover have "epsv_port ?r (Suc (4 + length t)) = None"
    using assms(1) by (simp add: epsv_port_def rd8_def)
  ultimately show ?thesis using assms(1) by (simp add: passive_port_def c tw Let_def)
qed

lemma send_all_at_once:
  assumes "sends n = Tx k # ts" "length bs \<le> k" "bs \<noteq> []"
  shows "send_all fd bs n = (True, n\<lparr>sends := ts, sent := sent n @ [(fd, bs)]\<rparr>)"
proof (cases bs)
  case (Cons b bs')
  then show ?thesis using assms by (simp add: send_all_def Let_def)
qed (use assms in simp)

text \<open>C27: A server whose EPSV answer is long enough to put the opening bracket into the last
  place of the stored reply makes the backend read past the reply array.\<close>

theorem epsv_reply_overread:
  assumes "be_inv f" "be_live f" "0 \<le> be_control f" "BE_SCRATCH + 240 < lim" "cmd + 2 \<le> lim"
    and "m cmd = BE_EXEC" "c_string m lim (cmd + 1) = Some input" "make_command input 256 = Some (wire, tr)" "tr \<noteq> 0"
    and "sends n = Tx k # ts" "6 \<le> k"
    and "inq n (be_control f) = Seg (ascii ''229 '' @ t @ 0x28 # tail @ [LF]) # q"
    and "length t = 232" "0 \<notin> set t" "0x28 \<notin> set t" "LF \<notin> set t" "LF \<notin> set tail"
  shows "pi1mhz_ftp_dispatch f n lim cmd m = None"
proof -
  let ?c = "be_control f" and ?bs = "ascii ''229 '' @ t @ 0x28 # tail" and ?rep = "(be_reply f)[0 := 0]"
  let ?n = "n\<lparr>sends := ts, sent := sent n @ [(?c, ascii ''EPSV'' @ [CR, LF])]\<rparr>"
  have rep: "reply_ok ?rep" "wr8 (be_reply f) 0 0 = Some ?rep"
    using assms(1) by (auto simp: be_inv_def reply_ok_def)
  have stored: "(kept ?rep 0 (?bs @ [LF]))[237 := 0] = ascii ''229 '' @ t @ [0x28, 0]"
    using stored_long [OF rep(1), of ?bs] assms(13) by (simp add: ascii_def)
  have "reply_loop (inq n ?c) (errno_again n) ?rep 0 [] 0 = Some (229, ascii ''229 '' @ t @ [0x28, 0], unread [] q, errno_again n)"
    using reply_loop_line [OF rep(1), of ?bs 229 "[]" q] line_code_229 [of "t @ 0x28 # tail"] assms(12, 13, 16, 17) stored
    by (simp add: ascii_def)
  then have "read_reply f ?n = Some (229, f\<lparr>be_reply := ascii ''229 '' @ t @ [0x28, 0]\<rparr>, set_inq ?c (unread [] q) (errno_again n) ?n)"
    using rep(2) by (simp add: read_reply_def)
  then have "passive_phase f n = None"
    using passive_overread [OF assms(13-15)] send_all_at_once [OF assms(10), of "ascii ''EPSV'' @ [CR, LF]" ?c] assms(11)
    by (simp add: passive_phase_def control_command_def)
  then show ?thesis using assms(2-9)
    by (simp add: pi1mhz_ftp_dispatch_def live_exec_def begin_transfer_def)
qed

theorem epsv_reply_overread_witness:
  "pi1mhz_ftp_dispatch ((ftp_create True)\<lparr>be_control := 3\<rparr>)
     (quiet\<lparr>sends := [Tx 6], inq := (\<lambda>fd. [Seg (ascii ''229 '' @ replicate 232 0x61 @ 0x28 # ascii ''|||2121|)'' @ [LF])])\<rparr>)
     0x2000000 0xFFF000 (one_page 0xFFF000 (BE_EXEC # ascii ''DIR'')) = None"
proof (rule epsv_reply_overread [where input = "ascii ''DIR''" and wire = "ascii ''LIST'' @ [CR, LF]" and tr = 3
      and t = "replicate 232 0x61" and tail = "ascii ''|||2121|)''" and k = 6 and ts = "[]" and q = "[]"])
  show "c_string (one_page 0xFFF000 (BE_EXEC # ascii ''DIR'')) 0x2000000 (0xFFF000 + 1) = Some (ascii ''DIR'')"
    by (rule one_page_text) (simp_all add: ascii_def)
  show "make_command (ascii ''DIR'') 256 = Some (ascii ''LIST'' @ [CR, LF], 3)"
    by (simp add: make_command_def command_verb_def from_chr_def cstr_def ascii_def lower_def)
qed (simp_all add: ftp_create_def be_inv_def reply_ok_def quiet_def one_page_def ascii_def)

subsection \<open>Uploading to the fixture and downloading again\<close>

text \<open>The host's side of a session: what it stores into the service memory, and what it does with the answers.\<close>

definition exec_text :: "nat \<Rightarrow> nat \<Rightarrow> sockets \<Rightarrow> bytes \<Rightarrow> ftp_backend \<times> mem \<Rightarrow> (ftp_backend \<times> mem) option" where
  "exec_text lim cmd n line = (\<lambda>(f, m). do {
     (st, f', n', m') \<leftarrow> pi1mhz_ftp_dispatch f n lim cmd (store m cmd (BE_EXEC # line @ [0]));
     if st = BE_OK then Some (f', m') else None })"

fun upload_chunks :: "nat \<Rightarrow> nat \<Rightarrow> sockets \<Rightarrow> bytes list \<Rightarrow> ftp_backend \<times> mem \<Rightarrow> (ftp_backend \<times> mem) option" where
  "upload_chunks lim cmd n [] (f, m) = do {
     (st, f', n', m') \<leftarrow> pi1mhz_ftp_dispatch f n lim cmd (store m cmd [BE_WRITE, 0]);
     if st = BE_EOF then Some (f', m') else None }"
| "upload_chunks lim cmd n (bs # css) (f, m) = do {
     (st, f', n', m') \<leftarrow> pi1mhz_ftp_dispatch f n lim cmd
        (store (store m BE_SCRATCH bs) cmd [BE_WRITE, word_of_nat (length bs)]);
     if st = BE_OK then upload_chunks lim cmd n css (f', m') else None }"

fun download :: "nat \<Rightarrow> nat \<Rightarrow> sockets \<Rightarrow> nat \<Rightarrow> u8 \<Rightarrow> ftp_backend \<times> mem \<Rightarrow> bytes option" where
  "download lim cmd n 0 c s = None"
| "download lim cmd n (Suc k) c (f, m) = do {
     (st, f', n', m') \<leftarrow> pi1mhz_ftp_dispatch f n lim cmd (store m cmd [BE_READ, c]);
     if st = BE_EOF then Some []
     else if st = BE_OK then do {
       rest \<leftarrow> download lim cmd n k c (f', m');
       Some (map m' [BE_SCRATCH..<BE_SCRATCH + unat (m' (cmd + 1))] @ rest) }
     else None }"

definition apart :: "nat \<Rightarrow> nat \<Rightarrow> bool" where
  "apart lim cmd \<longleftrightarrow> BE_SCRATCH + 255 \<le> lim \<and> cmd + 240 \<le> lim \<and> (cmd + 256 \<le> BE_SCRATCH \<or> BE_SCRATCH + 256 \<le> cmd)"

lemma mem_get_store_other:
  "BE_SCRATCH + k \<le> lim \<Longrightarrow> cmd + length bs \<le> BE_SCRATCH \<or> BE_SCRATCH + k \<le> cmd \<Longrightarrow>
     mem_get (store m cmd bs) lim BE_SCRATCH k = mem_get m lim BE_SCRATCH k"
  by (auto simp: mem_get_def store_def)

definition stored_file :: "ftp_backend \<Rightarrow> bytes" where
  "stored_file f = take (fixture_size f) (fixture_file f)"

text \<open>What an EXEC of an upload or a download does to the fixture.\<close>

lemma exec_line_page:
  assumes "0 \<notin> set line" "length line \<le> 237" "cmd + 240 \<le> lim"
  shows "c_string (store m cmd (BE_EXEC # line @ [0])) lim (cmd + 1) = Some line"
proof (rule c_string_text)
  show "store m cmd (BE_EXEC # line @ [0]) (cmd + 1 + i) = line ! i" if "i < length line" for i
    using that by (simp add: store_def nth_append)
  show "store m cmd (BE_EXEC # line @ [0]) (cmd + 1 + length line) = 0"
    by (simp add: store_def nth_append)
qed (use assms in auto)

lemma make_transfer:
  assumes "name \<noteq> []" "0 \<notin> set name" "length name \<le> 200"
  shows "make_command (ascii ''PUT '' @ name) 256 = Some (ascii ''STOR '' @ name @ [CR, LF], 2)"
    "make_command (ascii ''GET '' @ name) 256 = Some (ascii ''RETR '' @ name @ [CR, LF], 1)"
proof -
  obtain a as where n: "name = a # as" using assms(1) by (cases name) auto
  have tw: "length (takeWhile (\<lambda>c. c \<noteq> 0) as) \<le> length as" by (rule length_takeWhile_le)
  show "make_command (ascii ''PUT '' @ name) 256 = Some (ascii ''STOR '' @ name @ [CR, LF], 2)"
    "make_command (ascii ''GET '' @ name) 256 = Some (ascii ''RETR '' @ name @ [CR, LF], 1)"
    using assms n tw by (auto simp: make_command_def command_verb_def from_chr_def cstr_def ascii_def lower_def)
qed

lemma answer_some:
  assumes "be_inv f" "length s < 237" "cmd + 240 \<le> lim"
  shows "\<exists>r m'. answer st s f n lim cmd m = Some (st, f\<lparr>be_reply := r\<rparr>, n, m') \<and> reply_ok r"
proof -
  obtain r where r: "set_reply s f = Some (f\<lparr>be_reply := r\<rparr>)" "reply_ok r" using set_reply_ok assms(1, 2) by blast
  obtain m' where "be_publish (f\<lparr>be_reply := r\<rparr>) lim cmd m = Some m'" using be_publish_in assms(3) by blast
  then show ?thesis using r by (intro exI [of _ r] exI [of _ m']) (simp add: answer_def)
qed

definition fixture_state :: "nat \<Rightarrow> bytes \<Rightarrow> ftp_backend \<Rightarrow> bool" where
  "fixture_state pos fb f \<longleftrightarrow> be_inv f \<and> \<not> be_live f \<and> fixture_pos f = pos \<and> stored_file f = fb"

lemma exec_transfer:
  assumes "be_inv f" "\<not> be_live f" "apart lim cmd" "0 \<notin> set line" "length line \<le> 237"
    and "make_command line 256 = Some (wire, t)" "t \<noteq> 0" "fixture_begin t (f\<lparr>be_transfer := t\<rparr>) = Some f1"
  shows "\<exists>r m'. exec_text lim cmd n line (f, m) = Some (f1\<lparr>be_reply := r\<rparr>, m') \<and> be_inv (f1\<lparr>be_reply := r\<rparr>)"
proof -
  have "be_inv (f\<lparr>be_transfer := t\<rparr>)" using assms(1, 6) make_command_transfer by (simp add: be_inv_def)
  then have i: "be_inv f1" using fixture_begin_ok [of "f\<lparr>be_transfer := t\<rparr>" t] assms(8) by auto
  obtain r m' where "answer BE_OK (ascii ''150 Opening data connection'' @ [CR, LF]) f1 n lim cmd
      (store m cmd (BE_EXEC # line @ [0])) = Some (BE_OK, f1\<lparr>be_reply := r\<rparr>, n, m')" "reply_ok r"
    using answer_some [OF i, of "ascii ''150 Opening data connection'' @ [CR, LF]" cmd lim BE_OK n
      "store m cmd (BE_EXEC # line @ [0])"] assms(3)
    by (auto simp: apart_def)
  then show ?thesis using exec_line_page [OF assms(4, 5), of cmd lim m] assms i
    by (intro exI [of _ r] exI [of _ m']) (simp add: exec_text_def pi1mhz_ftp_dispatch_def fixture_dispatch_def fixture_exec_def store_read apart_def be_inv_def)
qed

lemma fixture_begin_cases:
  "fixture_begin 2 f = Some (f\<lparr>fixture_pos := 0, fixture_size := 0\<rparr>)"
  "fixture_size f \<noteq> 0 \<Longrightarrow> fixture_begin 1 f = Some (f\<lparr>fixture_pos := 0\<rparr>)"
  by (simp_all add: fixture_begin_def Let_def)

lemma line_clean: "0 \<notin> set name \<Longrightarrow> 0 \<notin> set (ascii ''PUT '' @ name) \<and> 0 \<notin> set (ascii ''GET '' @ name)"
  by (simp add: ascii_def)

lemma exec_put:
  assumes "be_inv f" "\<not> be_live f" "apart lim cmd" "name \<noteq> []" "0 \<notin> set name" "length name \<le> 200"
  shows "\<exists>f' m'. exec_text lim cmd n (ascii ''PUT '' @ name) (f, m) = Some (f', m') \<and> fixture_state 0 [] f'"
proof -
  obtain r m' where "exec_text lim cmd n (ascii ''PUT '' @ name) (f, m) =
      Some (f\<lparr>be_transfer := 2, fixture_pos := 0, fixture_size := 0, be_reply := r\<rparr>, m')"
    "be_inv (f\<lparr>be_transfer := 2, fixture_pos := 0, fixture_size := 0, be_reply := r\<rparr>)"
    using exec_transfer [OF assms(1-3) _ _ make_transfer(1) [OF assms(4-6)] _ fixture_begin_cases(1), of n m]
      line_clean [OF assms(5)] assms(6) by auto
  then show ?thesis using assms(2) by (simp add: fixture_state_def stored_file_def)
qed

lemma exec_get:
  assumes "fixture_state pos fb f" "fb \<noteq> []" "apart lim cmd" "name \<noteq> []" "0 \<notin> set name" "length name \<le> 200"
  shows "\<exists>f' m'. exec_text lim cmd n (ascii ''GET '' @ name) (f, m) = Some (f', m') \<and> fixture_state 0 fb f'"
proof -
  have f: "be_inv f" "\<not> be_live f" "fixture_size f \<noteq> 0" "stored_file f = fb"
    using assms(1, 2) by (auto simp: fixture_state_def stored_file_def)
  obtain r m' where "exec_text lim cmd n (ascii ''GET '' @ name) (f, m) =
      Some (f\<lparr>be_transfer := 1, fixture_pos := 0, be_reply := r\<rparr>, m')"
    "be_inv (f\<lparr>be_transfer := 1, fixture_pos := 0, be_reply := r\<rparr>)"
    using exec_transfer [OF f(1, 2) assms(3) _ _ make_transfer(2) [OF assms(4-6)] _ fixture_begin_cases(2), of n m]
      line_clean [OF assms(5)] assms(6) f(3) by auto
  then show ?thesis using f(2, 4) by (simp add: fixture_state_def stored_file_def)
qed

subsubsection \<open>Chunks\<close>

lemma splice_take:
  "k + length bs \<le> length w \<Longrightarrow> take (k + length bs) (splice w k bs) = take k w @ bs"
  by (simp add: splice_def)

lemma write_chunk:
  assumes "fixture_state pos fb f" "apart lim cmd" "bs \<noteq> []" "length bs \<le> 255" "length fb + length bs \<le> 4096"
  shows "\<exists>f'. pi1mhz_ftp_dispatch f n lim cmd (store (store m BE_SCRATCH bs) cmd [BE_WRITE, word_of_nat (length bs)]) =
       Some (BE_OK, f', n, store (store m BE_SCRATCH bs) cmd [BE_WRITE, word_of_nat (length bs)]) \<and>
     fixture_state pos (fb @ bs) f'"
proof -
  let ?m = "store (store m BE_SCRATCH bs) cmd [BE_WRITE, word_of_nat (length bs)]"
  have f: "be_inv f" "\<not> be_live f" "fixture_pos f = pos" "stored_file f = fb" "length (fixture_file f) = 4096"
      "fixture_size f \<le> 4096"
    using assms(1) by (auto simp: fixture_state_def be_inv_def)
  have s: "fixture_size f = length fb" using f(4-6) by (auto simp: stored_file_def)
  have c: "unat (word_of_nat (length bs) :: u8) = length bs" using assms(4) by (simp add: unat_of_nat)
  have m: "?m cmd = BE_WRITE" "?m (cmd + 1) = word_of_nat (length bs)" by (simp_all add: store_def)
  have g: "mem_get ?m lim BE_SCRATCH (length bs) = Some bs"
    using mem_get_store_other [of "length bs" lim cmd "[BE_WRITE, word_of_nat (length bs)]" "store m BE_SCRATCH bs"]
      assms(2, 4) map_store_self [of m BE_SCRATCH bs] by (auto simp: apart_def mem_get_def)
  let ?f = "f\<lparr>fixture_file := splice (fixture_file f) (fixture_size f) bs, fixture_size := fixture_size f + length bs\<rparr>"
  have "fixture_state pos (fb @ bs) ?f"
    using f s assms(5) splice_take [of "fixture_size f" bs "fixture_file f"]
    by (simp add: fixture_state_def be_inv_def stored_file_def)
  then show ?thesis using assms f s c m g
    by (simp add: pi1mhz_ftp_dispatch_def fixture_dispatch_def fixture_write_def Let_def apart_def)
qed

lemma write_end:
  assumes "fixture_state pos fb f" "apart lim cmd"
  shows "\<exists>f' m'. pi1mhz_ftp_dispatch f n lim cmd (store m cmd [BE_WRITE, 0]) = Some (BE_EOF, f', n, m') \<and>
     fixture_state pos fb f'"
proof -
  have i: "be_inv (f\<lparr>be_transfer := 0\<rparr>)" "\<not> be_live f" using assms(1) by (auto simp: fixture_state_def be_inv_def)
  obtain r m' where "answer BE_EOF (ascii ''226 Transfer complete'' @ [CR, LF]) (f\<lparr>be_transfer := 0\<rparr>) n lim cmd
      (store m cmd [BE_WRITE, 0]) = Some (BE_EOF, f\<lparr>be_transfer := 0, be_reply := r\<rparr>, n, m')" "reply_ok r"
    using answer_some [OF i(1), of "ascii ''226 Transfer complete'' @ [CR, LF]" cmd lim BE_EOF n
      "store m cmd [BE_WRITE, 0]"] assms(2) by (auto simp: apart_def)
  moreover have "store m cmd [BE_WRITE, 0] cmd = BE_WRITE" "store m cmd [BE_WRITE, 0] (cmd + 1) = 0"
    by (simp_all add: store_def)
  ultimately show ?thesis using assms i
    by (simp add: pi1mhz_ftp_dispatch_def fixture_dispatch_def fixture_write_def apart_def fixture_state_def
        stored_file_def be_inv_def)
qed

lemma upload_stores:
  "fixture_state pos fb f \<Longrightarrow> apart lim cmd \<Longrightarrow> \<forall>bs \<in> set css. bs \<noteq> [] \<and> length bs \<le> 255 \<Longrightarrow>
     length fb + length (concat css) \<le> 4096 \<Longrightarrow>
     \<exists>f' m'. upload_chunks lim cmd n css (f, m) = Some (f', m') \<and> fixture_state pos (fb @ concat css) f'"
proof (induction css arbitrary: fb f m)
  case Nil
  then show ?case using write_end [of pos fb f lim cmd n m] by auto
next
  case (Cons bs css)
  then obtain f' where "pi1mhz_ftp_dispatch f n lim cmd (store (store m BE_SCRATCH bs) cmd [BE_WRITE, word_of_nat (length bs)]) =
       Some (BE_OK, f', n, store (store m BE_SCRATCH bs) cmd [BE_WRITE, word_of_nat (length bs)])"
     "fixture_state pos (fb @ bs) f'"
    using write_chunk [of pos fb f lim cmd bs n m] by auto
  then show ?case using Cons.IH [of "fb @ bs" f'] Cons.prems by simp
qed

lemma read_block:
  assumes "fixture_state pos fb f" "apart lim cmd" "c \<noteq> 0" "pos < length fb"
  defines "k \<equiv> min (unat c) (length fb - pos)"
  shows "\<exists>f' m'. pi1mhz_ftp_dispatch f n lim cmd (store m cmd [BE_READ, c]) = Some (BE_OK, f', n, m') \<and>
     fixture_state (pos + k) fb f' \<and> map m' [BE_SCRATCH..<BE_SCRATCH + unat (m' (cmd + 1))] = seg fb pos k"
proof -
  have f: "be_inv f" "\<not> be_live f" "fixture_pos f = pos" "stored_file f = fb" "length (fixture_file f) = 4096"
      "fixture_size f \<le> 4096"
    using assms(1) by (auto simp: fixture_state_def be_inv_def)
  have s: "fixture_size f = length fb" using f(4-6) by (auto simp: stored_file_def)
  have k: "k \<noteq> 0" "k \<le> 255" "pos + k \<le> length fb"
    using assms(3, 4) unat_byte_less [of 8 c] unat_eq_zero [of c] by (auto simp: k_def)
  let ?m = "store m cmd [BE_READ, c]" and ?bs = "seg (fixture_file f) pos k"
  let ?m' = "store (store ?m BE_SCRATCH ?bs) (cmd + 1) [word_of_nat k]"
  have m: "?m cmd = BE_READ" "?m (cmd + 1) = c" by (simp_all add: store_def)
  have bs: "rd_range (fixture_file f) pos k = Some ?bs" "length ?bs = k" using k(3) s f(5, 6) by simp_all
  have seg: "?bs = seg fb pos k"
  proof -
    have "take (pos + k) fb = take (pos + k) (fixture_file f)"
      using f(4) s k(3) by (metis stored_file_def take_take min.absorb1)
    then show ?thesis by (simp add: seg_def take_drop add.commute)
  qed
  have p: "mem_put ?m lim BE_SCRATCH ?bs = Some (store ?m BE_SCRATCH ?bs)"
    "mem_put (store ?m BE_SCRATCH ?bs) lim (cmd + 1) [word_of_nat k] = Some ?m'"
    using bs(2) k(2) assms(2) by (simp_all add: mem_put_store apart_def)
  have "unat (?m' (cmd + 1)) = k" using k(2) by (simp add: store_def unat_of_nat)
  moreover have "map ?m' [BE_SCRATCH..<BE_SCRATCH + k] = map (store ?m BE_SCRATCH ?bs) [BE_SCRATCH..<BE_SCRATCH + k]"
    using assms(2) k(2) by (auto simp: apart_def store_def)
  ultimately have got: "map ?m' [BE_SCRATCH..<BE_SCRATCH + unat (?m' (cmd + 1))] = seg fb pos k"
    using map_store_self [of ?m BE_SCRATCH ?bs] bs(2) seg by metis
  have "pi1mhz_ftp_dispatch f n lim cmd ?m = Some (BE_OK, f\<lparr>fixture_pos := pos + k\<rparr>, n, ?m')"
    using assms(2) f(2) m bs p k(1) f(3) s
    by (simp add: pi1mhz_ftp_dispatch_def fixture_dispatch_def fixture_read_def Let_def apart_def k_def del: min_def)
  moreover have "fixture_state (pos + k) fb (f\<lparr>fixture_pos := pos + k\<rparr>)"
    using f k(3) s by (simp add: fixture_state_def be_inv_def stored_file_def)
  ultimately show ?thesis using got by blast
qed

lemma read_end:
  assumes "fixture_state (length fb) fb f" "apart lim cmd"
  shows "\<exists>f' m'. pi1mhz_ftp_dispatch f n lim cmd (store m cmd [BE_READ, c]) = Some (BE_EOF, f', n, m')"
proof -
  have f: "be_inv f" "\<not> be_live f" "fixture_pos f = length fb" "fixture_size f = length fb"
    using assms(1) by (auto simp: fixture_state_def be_inv_def stored_file_def)
  have i: "be_inv (f\<lparr>fixture_pos := length fb, be_transfer := 0\<rparr>)" using f by (simp add: be_inv_def)
  let ?m = "store (store (store m cmd [BE_READ, c]) BE_SCRATCH []) (cmd + 1) [0]"
  obtain f' m' where "answer BE_EOF (ascii ''226 Transfer complete'' @ [CR, LF])
      (f\<lparr>fixture_pos := length fb, be_transfer := 0\<rparr>) n lim cmd ?m = Some (BE_EOF, f', n, m')"
    using answer_some [OF i, of "ascii ''226 Transfer complete'' @ [CR, LF]" cmd lim BE_EOF n ?m] assms(2)
    by (auto simp: apart_def)
  moreover have "store m cmd [BE_READ, c] cmd = BE_READ" by (simp add: store_def)
  moreover have "rd_range (fixture_file f) (length fb) 0 = Some []"
    using f(1, 4) by (simp add: be_inv_def)
  ultimately show ?thesis using assms(2) f
    by (simp add: pi1mhz_ftp_dispatch_def fixture_dispatch_def fixture_read_def Let_def apart_def mem_put_store)
qed

lemma download_reads:
  "fixture_state pos fb f \<Longrightarrow> apart lim cmd \<Longrightarrow> c \<noteq> 0 \<Longrightarrow> pos \<le> length fb \<Longrightarrow> length fb - pos < fuel \<Longrightarrow>
     download lim cmd n fuel c (f, m) = Some (drop pos fb)"
proof (induction fuel arbitrary: pos f m)
  case (Suc fuel)
  show ?case
  proof (cases "pos = length fb")
    case True
    then show ?thesis using read_end [of fb f lim cmd n m c] Suc.prems by auto
  next
    case False
    let ?k = "min (unat c) (length fb - pos)"
    have lt: "pos < length fb" using False Suc.prems by simp
    have k: "?k \<noteq> 0" using lt Suc.prems(3) unat_eq_zero [of c] by auto
    obtain f' m' where r: "pi1mhz_ftp_dispatch f n lim cmd (store m cmd [BE_READ, c]) = Some (BE_OK, f', n, m')"
      "fixture_state (pos + ?k) fb f'" "map m' [BE_SCRATCH..<BE_SCRATCH + unat (m' (cmd + 1))] = seg fb pos ?k"
      using read_block [OF Suc.prems(1-3) lt, of n m] by blast
    have "download lim cmd n fuel c (f', m') = Some (drop (pos + ?k) fb)"
      by (rule Suc.IH [OF r(2) Suc.prems(2, 3)]) (use lt k Suc.prems(5) in linarith)+
    moreover have "seg fb pos ?k @ drop (pos + ?k) fb = drop pos fb"
      unfolding seg_def by (metis append_take_drop_id drop_drop add.commute)
    ultimately show ?thesis using r(1, 3) by simp
  qed
qed simp

text \<open>C24: What a host uploads to the fixture with PUT, in chunks of any size, is exactly what it
  downloads again with GET, in blocks of any size, for every file of one byte up to the fixture's
  4096; the command page must not overlap the scratch area.\<close>

theorem fixture_roundtrip:
  assumes "be_inv f" "\<not> be_live f" "apart lim cmd" "name \<noteq> []" "0 \<notin> set name" "length name \<le> 200"
    and "\<forall>bs \<in> set css. bs \<noteq> [] \<and> length bs \<le> 255" "css \<noteq> []" "length (concat css) \<le> 4096"
    and "c \<noteq> 0" "length (concat css) < fuel"
  shows "do { s1 \<leftarrow> exec_text lim cmd n (ascii ''PUT '' @ name) (f, m);
     s2 \<leftarrow> upload_chunks lim cmd n css s1;
     s3 \<leftarrow> exec_text lim cmd n (ascii ''GET '' @ name) s2;
     download lim cmd n fuel c s3 } = Some (concat css)"
proof -
  obtain f1 m1 where s1: "exec_text lim cmd n (ascii ''PUT '' @ name) (f, m) = Some (f1, m1)" "fixture_state 0 [] f1"
    using exec_put [OF assms(1-6), of n m] by blast
  obtain f2 m2 where s2: "upload_chunks lim cmd n css (f1, m1) = Some (f2, m2)" "fixture_state 0 (concat css) f2"
    using upload_stores [OF s1(2) assms(3, 7), of n m1] assms(9) by auto
  have "concat css \<noteq> []" using assms(7, 8) by (cases css) auto
  then obtain f3 m3 where s3: "exec_text lim cmd n (ascii ''GET '' @ name) (f2, m2) = Some (f3, m3)" "fixture_state 0 (concat css) f3"
    using exec_get [OF s2(2) _ assms(3-6), of n m2] by blast
  show ?thesis using s1(1) s2(1) s3(1) download_reads [OF s3(2) assms(3, 10), of fuel n m3] assms(11) by simp
qed

theorem fixture_roundtrip_witness:
  "do { s1 \<leftarrow> exec_text 0x2000000 0xFFF000 quiet (ascii ''PUT '' @ ascii ''F'') (ftp_create False, \<lambda>i. 0);
     s2 \<leftarrow> upload_chunks 0x2000000 0xFFF000 quiet [[1, 2, 3], [4]] s1;
     s3 \<leftarrow> exec_text 0x2000000 0xFFF000 quiet (ascii ''GET '' @ ascii ''F'') s2;
     download 0x2000000 0xFFF000 quiet 5 3 s3 } = Some [1, 2, 3, 4]"
  using fixture_roundtrip [of "ftp_create False" "0x2000000" "0xFFF000" "ascii ''F''" "[[1, 2, 3], [4]]" 3 5 quiet "\<lambda>i. 0"]
    ftp_create_inv [of False] by (simp add: apart_def ascii_def)

subsection \<open>A live transfer\<close>

lemma digit_run_digits:
  "\<forall>c \<in> set ds. is_digit c \<Longrightarrow> digits_value v ds \<le> limit \<Longrightarrow> \<not> is_digit c0 \<Longrightarrow>
     digit_run (pre @ ds @ c0 # post) limit (length pre) v = Some (Some (digits_value v ds, length pre + length ds))"
proof (induction ds arbitrary: v pre)
  case Nil
  then show ?case by (subst digit_run.simps) (simp add: digits_value_def)
next
  case (Cons d ds)
  have "v * 10 + (unat d - 48) \<le> limit"
    using digits_value_ge [of "v * 10 + (unat d - 48)" ds] Cons.prems(2) by (simp add: digits_value_def)
  moreover have "digit_run ((pre @ [d]) @ ds @ c0 # post) limit (length (pre @ [d])) (v * 10 + (unat d - 48)) =
      Some (Some (digits_value (v * 10 + (unat d - 48)) ds, length (pre @ [d]) + length ds))"
    using Cons.prems by (intro Cons.IH) (simp_all add: digits_value_def)
  ultimately show ?case using Cons.prems by (subst digit_run.simps) (simp add: digits_value_def Let_def)
qed

lemma epsv_port_parsed:
  assumes "0 < port" "port \<le> 65535" "\<not> is_digit d"
  shows "epsv_port (epsv_text pre d port post) (length pre + 1) = Some (Some (of_nat port))"
proof -
  let ?r = "epsv_text pre d port post" and ?p = "pre @ [0x28, d, d, d]"
  have r: "?r = ?p @ dec port @ d # 0x29 # post" by (simp add: epsv_text_def)
  obtain p where p: "p = length pre + 1" by simp
  have "digit_run (?p @ dec port @ d # 0x29 # post) 65535 (length ?p) 0 = Some (Some (port, length ?p + length (dec port)))"
    using digit_run_digits [of "dec port" 0 65535 d ?p "0x29 # post"] dec_digits dec_value [of port] assms(2, 3) by simp
  moreover have "length ?p = p + 3" by (simp add: p)
  ultimately have dr: "digit_run ?r 65535 (p + 3) 0 = Some (Some (port, p + 3 + length (dec port)))"
    by (simp only: r)
  have "rd8 ?r p = Some d" "rd8 ?r (p + 1) = Some d" "rd8 ?r (p + 2) = Some d" "rd8 ?r (p + 3 + length (dec port)) = Some d"
    by (simp_all add: r p rd8_def nth_append)
  then show ?thesis using dr assms(1) unfolding p [symmetric] by (simp add: epsv_port_def)
qed

lemma contains_pre: "contains p (p @ t)"
proof -
  have "starts_with p (p @ t)" by (simp add: starts_with_def)
  then show ?thesis by (cases "p @ t") auto
qed

lemma passive_port_epsv:
  assumes "0 < port" "port \<le> 65535" "\<not> is_digit d" "0 \<notin> set t" "0x28 \<notin> set t"
  shows "passive_port (epsv_text (ascii ''229 '' @ t) d port post) = Some (Some (of_nat port))"
proof -
  let ?pre = "ascii ''229 '' @ t"
  have "0 \<notin> set ?pre" "0x28 \<notin> set ?pre" using assms(4, 5) by (simp_all add: ascii_def)
  moreover obtain u where "cstr (epsv_text ?pre d port post) = ?pre @ 0x28 # u"
    using cstr_append [OF \<open>0 \<notin> set ?pre\<close>, of "0x28 # d # d # d # dec port @ d # 0x29 # post"]
    by (simp add: epsv_text_def cstr_def)
  moreover have "contains (ascii ''229 '') (?pre @ 0x28 # u)" using contains_pre [of "ascii ''229 ''" "t @ 0x28 # u"] by simp
  ultimately show ?thesis
    using takeWhile_stop [of "0x28" ?pre u] epsv_port_parsed [OF assms(1-3), of ?pre post]
    by (simp add: passive_port_def Let_def)
qed

lemma dec_length: "n < 10 ^ Suc k \<Longrightarrow> length (dec n) \<le> Suc k"
proof (induction k arbitrary: n)
  case 0
  then show ?case by (subst dec.simps) simp
next
  case (Suc k)
  then have "n div 10 < 10 ^ Suc k" by (simp add: less_mult_imp_div_less mult.commute)
  then show ?case using Suc.IH [of "n div 10"] by (subst dec.simps) simp
qed

lemma make_command_nonempty: "make_command input cap = Some (wire, t) \<Longrightarrow> wire \<noteq> []"
  by (auto simp: make_command_def Let_def split: option.splits if_splits)

lemma be_publish_kind: "be_publish f lim cmd m = Some m' \<Longrightarrow> m' (cmd + 1) = of_nat (be_transfer f)"
  by (auto simp: be_publish_def mem_put_def Let_def bind_eq_Some_conv split: if_splits)

lemma line_code_150: "end_line (take 255 (ascii ''150 '' @ t @ [LF])) 0 = Inr 150"
  by (simp add: end_line_def be_line_code_def ascii_def is_digit_def)

lemma read_line:
  assumes "be_inv f" "inq n (be_control f) = Seg (bs @ [LF]) # q" "LF \<notin> set bs" "length bs \<le> 235"
    "end_line (take 255 (bs @ [LF])) 0 = Inr code"
  shows "\<exists>junk. read_reply f n = Some (int code, f\<lparr>be_reply := bs @ LF # 0 # junk\<rparr>, set_inq (be_control f) q (errno_again n) n)
     \<and> reply_ok (bs @ LF # 0 # junk)"
proof -
  let ?rep = "(be_reply f)[0 := 0]"
  have rep: "reply_ok ?rep" "wr8 (be_reply f) 0 0 = Some ?rep" using assms(1) by (auto simp: be_inv_def reply_ok_def)
  let ?l = "length bs + 1"
  obtain x junk where d: "drop ?l ?rep = x # junk"
    using assms(4) rep(1) by (cases "drop ?l ?rep") (auto simp: reply_ok_def)
  have "kept ?rep 0 (bs @ [LF]) = (bs @ [LF]) @ x # junk" using kept_all [OF rep(1), of "bs @ [LF]"] assms(4) d by simp
  then have st: "(kept ?rep 0 (bs @ [LF]))[min 237 ?l := 0] = bs @ LF # 0 # junk" using assms(4)
    by (simp add: list_update_append)
  have "reply_loop (inq n (be_control f)) (errno_again n) ?rep 0 [] 0 = Some (int code, bs @ LF # 0 # junk, q, errno_again n)"
    using reply_loop_line [OF rep(1) assms(3, 5), of "[]" q "errno_again n"] assms(2) st by (simp add: unread_def)
  then show ?thesis using rep(2) reply_loop_ok [OF rep(1), of 0 "[]" "inq n (be_control f)" "errno_again n" 0]
    by (auto simp: read_reply_def)
qed

text \<open>C26: A live transfer command makes the backend negotiate an extended passive connection, dial
  exactly the port the server announced on the host of the control connection, and only then send
  the transfer command; on a preliminary reply the transfer is open and its kind and the reply are
  published.\<close>

theorem live_transfer_opens:
  assumes "be_inv f" "be_live f" "0 \<le> be_control f" "BE_SCRATCH + 255 \<le> lim" "cmd + 240 \<le> lim"
    and "m cmd = BE_EXEC" "c_string m lim (cmd + 1) = Some input" "make_command input 256 = Some (wire, tr)" "tr \<noteq> 0"
    and "sends n = [Tx a, Tx b]" "6 \<le> a" "length wire \<le> b" "connects n = [Addresses [(fd, True)] e]" "0 \<le> fd"
    and "inq n (be_control f) = [Seg (epsv_text (ascii ''229 '' @ t) d port [CR] @ [LF]), Seg (ascii ''150 '' @ u @ [LF])]"
    and "0 < port" "port \<le> 65535" "\<not> is_digit d" "d \<noteq> LF" "length t \<le> 200" "length u \<le> 200"
    and "0 \<notin> set t" "0x28 \<notin> set t" "LF \<notin> set t" "0 \<notin> set u" "LF \<notin> set u"
  shows "\<exists>f' n' m'. pi1mhz_ftp_dispatch f n lim cmd m = Some (BE_OK, f', n', m') \<and>
     be_data f' = fd \<and> be_transfer f' = tr \<and> be_inv f' \<and>
     dialled n' = dialled n @ [(be_host f, of_nat port)] \<and>
     sent n' = sent n @ [(be_control f, ascii ''EPSV'' @ [CR, LF]), (be_control f, wire)] \<and>
     m' (cmd + 1) = of_nat tr"
proof -
  let ?c = "be_control f" and ?E = "ascii ''EPSV'' @ [CR, LF]" and ?l1 = "epsv_text (ascii ''229 '' @ t) d port [CR]"
  let ?l2 = "ascii ''150 '' @ u"
  define n1 where "n1 = n\<lparr>sends := [Tx b], sent := sent n @ [(?c, ?E)]\<rparr>"
  have s1: "send_all ?c ?E n = (True, n1)" using send_all_at_once [OF assms(10)] assms(11) by (simp add: n1_def)
  have dl: "length (dec port) \<le> 5" using dec_length [of port 4] assms(17) by simp
  have l1: "LF \<notin> set ?l1" "length ?l1 \<le> 235" "?l1 = ascii ''229 '' @ (t @ [0x28, d, d, d] @ dec port @ [d, 0x29, CR])"
    using assms(19, 20, 24) dec_no [of LF port] dl by (auto simp: epsv_text_def ascii_def is_digit_def)
  obtain j1 where r1: "read_reply f n1 = Some (229, f\<lparr>be_reply := ?l1 @ LF # 0 # j1\<rparr>,
      set_inq ?c [Seg (?l2 @ [LF])] (errno_again n1) n1)" "reply_ok (?l1 @ LF # 0 # j1)"
    using read_line [of f n1 ?l1 _ 229] line_code_229 [of "t @ [0x28, d, d, d] @ dec port @ [d, 0x29, CR]"] assms(1, 15) l1
    by (auto simp: n1_def)
  define f1 where "f1 = f\<lparr>be_reply := ?l1 @ LF # 0 # j1\<rparr>"
  define n2 where "n2 = set_inq ?c [Seg (?l2 @ [LF])] (errno_again n1) n1"
  have "passive_port (?l1 @ LF # 0 # j1) = Some (Some (of_nat port))"
    using passive_port_epsv [OF assms(16-18, 22, 23), of "[CR] @ LF # 0 # j1"] by (simp add: epsv_text_def)
  then have pp: "passive_phase f n = Some (Some (of_nat port), f1, n2)"
    using r1(1) s1 by (simp add: passive_phase_def control_command_def f1_def n2_def)
  define n3 where "n3 = n2\<lparr>dialled := dialled n2 @ [(be_host f, of_nat port)], connects := [], errno_again := e\<rparr>"
  have sc: "socket_connect (be_host f1) (of_nat port) n2 = (fd, n3)"
    using assms(13, 14) by (simp add: socket_connect_def n3_def n2_def n1_def f1_def set_inq_def)
  define f2 where "f2 = f1\<lparr>be_data := fd\<rparr>"
  have i2: "be_inv f2" using assms(1, 3) r1(2) by (simp add: f2_def f1_def be_inv_def)
  define n4 where "n4 = n3\<lparr>sends := [], sent := sent n3 @ [(?c, wire)]\<rparr>"
  have s2: "send_all ?c wire n3 = (True, n4)"
    using send_all_at_once [of n3 b "[]" wire ?c] assms(12) make_command_nonempty [OF assms(8)] by (simp add: n4_def n3_def n2_def n1_def set_inq_def)
  obtain j2 where r2: "read_reply f2 n4 = Some (150, f2\<lparr>be_reply := ?l2 @ LF # 0 # j2\<rparr>, set_inq ?c [] (errno_again n4) n4)"
      "reply_ok (?l2 @ LF # 0 # j2)"
    using read_line [OF i2, of n4 ?l2 "[]" 150] line_code_150 [of u] assms(21, 26)
    by (auto simp: n4_def n3_def n2_def set_inq_def f2_def f1_def ascii_def)
  define f3 where "f3 = f2\<lparr>be_reply := ?l2 @ LF # 0 # j2, be_transfer := tr\<rparr>"
  have bt: "begin_transfer f wire tr n = Some (0, f3, set_inq ?c [] (errno_again n4) n4)"
    using pp sc s2 r2(1) assms(14) by (simp add: begin_transfer_def control_command_def f3_def f2_def f1_def)
  have i3: "be_inv f3" using i2 r2(2) make_command_transfer [OF assms(8)] by (simp add: f3_def be_inv_def)
  obtain m' where pub: "be_publish f3 lim cmd m = Some m'" using be_publish_in [OF assms(5)] by blast
  have m': "m' (cmd + 1) = of_nat tr" using be_publish_kind [OF pub] by (simp add: f3_def)
  show ?thesis using assms(2-9) bt pub m' i3
    by (simp add: pi1mhz_ftp_dispatch_def live_exec_def f3_def f2_def f1_def n4_def n3_def n2_def n1_def set_inq_def)
qed

theorem live_transfer_opens_witness:
  "\<exists>f' n' m'. pi1mhz_ftp_dispatch ((ftp_create True)\<lparr>be_control := 3, be_host := ascii ''bbc''\<rparr>)
     (quiet\<lparr>sends := [Tx 6, Tx 6], connects := [Addresses [(4, True)] False],
        inq := (\<lambda>fd. [Seg (epsv_text (ascii ''229 '' @ ascii ''ok '') 0x7C 2121 [CR] @ [LF]), Seg (ascii ''150 '' @ ascii ''go'' @ [LF])])\<rparr>)
     0x2000000 0xFFF000 (one_page 0xFFF000 (BE_EXEC # ascii ''DIR'')) = Some (BE_OK, f', n', m') \<and>
     be_data f' = 4 \<and> be_transfer f' = 3 \<and> be_inv f' \<and> dialled n' = [(ascii ''bbc'', 2121)] \<and>
     sent n' = [(3, ascii ''EPSV'' @ [CR, LF]), (3, ascii ''LIST'' @ [CR, LF])] \<and> m' 0xFFF001 = 3"
proof -
  let ?f = "(ftp_create True)\<lparr>be_control := 3, be_host := ascii ''bbc''\<rparr>"
  let ?n = "quiet\<lparr>sends := [Tx 6, Tx 6], connects := [Addresses [(4, True)] False],
        inq := (\<lambda>fd. [Seg (epsv_text (ascii ''229 '' @ ascii ''ok '') 0x7C 2121 [CR] @ [LF]), Seg (ascii ''150 '' @ ascii ''go'' @ [LF])])\<rparr>"
  have c: "c_string (one_page 0xFFF000 (BE_EXEC # ascii ''DIR'')) 0x2000000 (0xFFF000 + 1) = Some (ascii ''DIR'')"
    by (rule one_page_text) (simp_all add: ascii_def)
  have mk: "make_command (ascii ''DIR'') 256 = Some (ascii ''LIST'' @ [CR, LF], 3)"
    by (simp add: make_command_def command_verb_def from_chr_def cstr_def ascii_def lower_def)
  show ?thesis
    using live_transfer_opens [of ?f "0x2000000" "0xFFF000" "one_page 0xFFF000 (BE_EXEC # ascii ''DIR'')", OF _ _ _ _ _ _ c mk,
      of ?n 6 6 4 False "ascii ''ok ''" "0x7C" 2121 "ascii ''go''"]
    by (simp add: ftp_create_def be_inv_def reply_ok_def quiet_def one_page_def ascii_def is_digit_def)
qed

end
