(* ===== verification/Emulator_Glue.thy ===== *)
theory Emulator_Glue
  imports C_Text Mailbox
begin

unbundle bit_operations_syntax

section \<open>The emulator integrations (pi1mhz\_elkulator.c, pi1mhz\_bem.c)\<close>

text \<open>
  Both integrations own one mailbox, configure it from the environment on first use, and forward
  the emulator's bus cycles and clock to it. The environment, the files, the allocator and the
  network backend are outside these files and are the record \<open>world\<close>: \<open>getenv\<close>, what opening and
  reading a file gives, whether \<open>calloc\<close> succeeds, and the constructor and dispatcher of the
  backend. The trace file is a list of entries, newest first; the columns \<open>pc\<close> and \<open>rb\<close> come from
  the emulator's variables \<open>oldpc2\<close> and \<open>rombank\<close>. Messages on standard error are not modelled.
\<close>

text \<open>
  \<open>File bs k ok\<close> is a file that was opened and sized and holds the bytes \<open>bs\<close>, of which
  \<open>fread\<close> delivers the first \<open>k\<close>; \<open>ok\<close> tells that it was closed without an error.
\<close>

datatype file_answer = Not_Opened | Not_Sized | File bytes nat bool

record 'o world =
  getenv :: "string \<Rightarrow> bytes option"
  open_file :: "bytes \<Rightarrow> file_answer"
  trace_opens :: bool
  calloc_ok :: bool
  net_backend_create :: "bytes \<Rightarrow> bytes option \<Rightarrow> bool \<Rightarrow> 'o option"
  net_backend_dispatch :: "'o dispatch_fn"

record trace_entry =
  te_cycle :: "64 word"
  te_operation :: char
  te_address :: u16
  te_value :: "u8 option"
  te_page :: u32
  te_jim :: "u32 option"
  te_pc :: u16
  te_rb :: int

record 'o elkulator =
  el_initialised :: bool
  el_enabled :: bool
  el_clock :: host_clock
  el_mailbox :: "'o mailbox"
  el_backend :: bool
  el_profile :: bus_profile
  el_noe :: bool
  el_trace :: "trace_entry list option"
  el_cycles :: "64 word"
  el_trace_events :: u32
  oldpc2 :: u16
  rombank :: int

subsection \<open>Settings\<close>

text \<open>A variable that is set to a text that is not empty.\<close>

definition setting :: "'o world \<Rightarrow> string \<Rightarrow> bytes option" where
  "setting w name = (case getenv w name of Some [] \<Rightarrow> None | s \<Rightarrow> s)"

text \<open>A number that fills its text and stays within the limit.\<close>

definition whole_number :: "bytes \<Rightarrow> int \<Rightarrow> nat option" where
  "whole_number s limit = (let (v, _, rest) = strtoul 0 s in if rest \<noteq> [] \<or> limit < v then None else Some (nat v))"

definition service_delay :: "nat \<Rightarrow> 'o world \<Rightarrow> nat option" where
  "service_delay preset w = (case setting w ''PI1MHZ_SERVICE_DELAY_CYCLES'' of None \<Rightarrow> Some preset
     | Some s \<Rightarrow> whole_number s 10000000)"

definition apply_timing :: "nat \<Rightarrow> nat \<Rightarrow> nat \<Rightarrow> nat \<Rightarrow> nat \<Rightarrow> 'o mailbox \<Rightarrow> 'o mailbox option" where
  "apply_timing capture simple service callback page m = do {
     m1 \<leftarrow> set_timing m capture simple service; Some (set_callback_timing m1 callback page 0) }"

text \<open>The flag tells that the settings are valid. The two integrations differ in the preset only.\<close>

definition configure_fiq_timing :: "nat \<Rightarrow> 'o world \<Rightarrow> 'o mailbox \<Rightarrow> ('o mailbox \<times> bool) option" where
  "configure_fiq_timing preset w m =
     (case service_delay preset w of None \<Rightarrow> Some (m, False)
      | Some service \<Rightarrow> do {
          m1 \<leftarrow> apply_timing 2 4 service 4 14 m;
          (case setting w ''PI1MHZ_FIQ_DELAY_ACCESSES'' of None \<Rightarrow> Some (m1, True)
           | Some s \<Rightarrow>
               (case whole_number s 255 of None \<Rightarrow> Some (m1, False)
                | Some delay \<Rightarrow> do {
                    m2 \<leftarrow> (if delay = 0 then apply_timing 0 0 0 0 0 m1 else apply_timing delay 4 service 4 14 m1);
                    Some (m2, True) })) })"

text \<open>
  The local array \<open>bytes[160]\<close> as its first \<open>count\<close> bytes, with the store at \<open>bytes[count]\<close>, and
  the loop that fills it. The outer \<open>None\<close> is a store outside the array, the inner one a pair that
  is not a number.
\<close>

definition pair_put :: "bytes \<Rightarrow> u8 \<Rightarrow> bytes option" where
  "pair_put out v = (if length out < 160 then Some (out @ [v]) else None)"

definition PAIRS_MAX :: nat where
  "PAIRS_MAX = 160"

fun hex_pairs :: "bytes \<Rightarrow> bytes \<Rightarrow> bytes option option" where
  "hex_pairs out (a # b # cs) =
     (if length out < PAIRS_MAX then
        (let (v, _, rest) = strtoul 16 [a, b] in
         case pair_put out (word_of_int v) of None \<Rightarrow> None
         | Some out' \<Rightarrow> if rest \<noteq> [] then Some None else hex_pairs out' cs)
      else Some (Some out))"
| "hex_pairs out _ = Some (Some out)"

definition preload_mirror :: "'o world \<Rightarrow> 'o mailbox \<Rightarrow> ('o mailbox \<times> bool) option" where
  "preload_mirror w m =
     (case setting w ''PI1MHZ_JIM_MIRROR'' of None \<Rightarrow> Some (m, True)
      | Some s \<Rightarrow>
          let (offset, _, rest) = strtoul 16 s in
          if \<not> starts_with [0x3A] rest \<or> 0xFF < offset then Some (m, False)
          else case hex_pairs [] (drop 1 rest) of None \<Rightarrow> None
          | Some None \<Rightarrow> Some (m, False)
          | Some (Some bs) \<Rightarrow>
              if bs = [] then Some (m, False)
              else do { m1 \<leftarrow> set_mirror m (word_of_int offset) (Some bs) (word_of_nat (length bs)); Some (m1, True) })"

text \<open>The bytes \<open>fread\<close> stores at \<open>mailbox.jim + a\<close>; outside the allocation this is undefined.\<close>

definition jim_load :: "nat \<Rightarrow> bytes \<Rightarrow> 'o mailbox \<Rightarrow> 'o mailbox option" where
  "jim_load a bs m =
     (if a + length bs \<le> jim_size m
      then Some (m\<lparr>jim := (\<lambda>i. if a \<le> i \<and> i < a + length bs then bs ! (i - a) else jim m i)\<rparr>) else None)"

definition image_address :: "'o world \<Rightarrow> 'o mailbox \<Rightarrow> nat option" where
  "image_address w m = (case setting w ''PI1MHZ_JIM_IMAGE_ADDRESS'' of None \<Rightarrow> Some 0
     | Some s \<Rightarrow> whole_number s (int (jim_size m) - 1))"

text \<open>The room left from the address on, a difference of type \<open>size_t\<close>.\<close>

definition image_room :: "'o mailbox \<Rightarrow> nat \<Rightarrow> nat" where
  "image_room m a = nat ((int (jim_size m) - int a) mod 2 ^ 64)"

definition preload_jim :: "'o world \<Rightarrow> 'o mailbox \<Rightarrow> ('o mailbox \<times> bool) option" where
  "preload_jim w m =
     (case setting w ''PI1MHZ_JIM_IMAGE'' of None \<Rightarrow> Some (m, True)
      | Some path \<Rightarrow>
          (case image_address w m of None \<Rightarrow> Some (m, False)
           | Some a \<Rightarrow>
               (case open_file w path of Not_Opened \<Rightarrow> Some (m, False) | Not_Sized \<Rightarrow> Some (m, False)
                | File bs k closed \<Rightarrow>
                    if image_room m a < length bs then Some (m, False)
                    else do {
                      m1 \<leftarrow> jim_load a (take k bs) m;
                      Some (m1, length (take k bs) = length bs \<and> closed) })))"

subsection \<open>Opening the device\<close>

text \<open>The outcome of the shared part of both initialisers: the mailbox, and whether it is usable.\<close>

definition open_mailbox :: "('o mailbox \<Rightarrow> ('o mailbox \<times> bool) option) \<Rightarrow> 'o world \<Rightarrow> bytes \<Rightarrow> 'o mailbox \<Rightarrow>
    ('o mailbox \<times> bool) option" where
  "open_mailbox configure w mode m =
     (case net_backend_create w mode (getenv w ''PI1MHZ_TRACE'')
             (case getenv w ''PI1MHZ_EXIT_ON_CLOSE'' of None \<Rightarrow> False | Some s \<Rightarrow> s \<noteq> ascii ''0'') of
        None \<Rightarrow> Some (m, False)
      | Some b \<Rightarrow> do {
          (m1, rc) \<leftarrow> mailbox_init (calloc_ok w) m (Some (net_backend_dispatch w)) b;
          if rc \<noteq> 0 then Some (m1, False)
          else do {
            (m2, ok) \<leftarrow> configure m1;
            Some (if ok then (m2, True) else (mailbox_destroy m2, False)) } })"

definition off_mode :: "bytes \<Rightarrow> bool" where
  "off_mode mode \<longleftrightarrow> mode = ascii ''0'' \<or> mode = ascii ''off''"

definition noe_setting :: "'o world \<Rightarrow> bool \<Rightarrow> bool option" where
  "noe_setting w old = (case getenv w ''PI1MHZ_NOE'' of None \<Rightarrow> Some old
     | Some s \<Rightarrow> if s = ascii ''0'' then Some False else if s = ascii ''1'' then Some True else None)"

definition profile_setting :: "'o world \<Rightarrow> bus_profile \<Rightarrow> bus_profile option" where
  "profile_setting w old = (case getenv w ''PI1MHZ_AP5_PROFILE'' of
       Some s \<Rightarrow> if s = ascii ''full'' then Some BUS_AP5_FULL_FRED
         else if s = ascii ''expanded-snoop'' then Some BUS_AP5_EXPANDED_SNOOP
         else if s \<noteq> ascii ''original'' then None else Some old
     | None \<Rightarrow> (case getenv w ''PI1MHZ_AP5_FULL_FRED'' of None \<Rightarrow> Some old
         | Some s \<Rightarrow> if s \<noteq> ascii ''0'' then Some BUS_AP5_FULL_FRED else Some old))"

definition elk_configure :: "'o world \<Rightarrow> 'o mailbox \<Rightarrow> ('o mailbox \<times> bool) option" where
  "elk_configure w m = do {
     (m1, ok1) \<leftarrow> configure_fiq_timing 4 w m;
     if \<not> ok1 then Some (m1, False)
     else do {
       (m2, ok2) \<leftarrow> preload_jim w m1;
       if \<not> ok2 then Some (m2, False) else preload_mirror w m2 } }"

definition shutdown_device :: "'o elkulator \<Rightarrow> 'o elkulator" where
  "shutdown_device e = e\<lparr>el_trace := None, el_mailbox := mailbox_destroy (el_mailbox e), el_backend := False\<rparr>"

definition open_trace :: "'o world \<Rightarrow> 'o elkulator \<Rightarrow> 'o elkulator" where
  "open_trace w e =
     (case setting w ''PI1MHZ_BUS_TRACE'' of None \<Rightarrow> e\<lparr>el_enabled := True\<rparr>
      | Some path \<Rightarrow> if trace_opens w then e\<lparr>el_trace := Some [], el_enabled := True\<rparr> else shutdown_device e)"

definition initialise_device :: "'o world \<Rightarrow> 'o elkulator \<Rightarrow> 'o elkulator option" where
  "initialise_device w e0 =
     (if el_initialised e0 then Some e0
      else let e = e0\<lparr>el_initialised := True\<rparr> in
        case getenv w ''PI1MHZ_MAILBOX'' of None \<Rightarrow> Some e
        | Some mode \<Rightarrow>
            if off_mode mode then Some e
            else case noe_setting w (el_noe e) of None \<Rightarrow> Some e
            | Some noe \<Rightarrow>
                let e1 = e\<lparr>el_noe := noe\<rparr> in
                case profile_setting w (el_profile e1) of None \<Rightarrow> Some e1
                | Some profile \<Rightarrow> do {
                    let e2 = e1\<lparr>el_profile := profile\<rparr>;
                    (m, ok) \<leftarrow> open_mailbox (elk_configure w) w mode (el_mailbox e2);
                    Some (if ok then open_trace w (e2\<lparr>el_mailbox := m, el_backend := True\<rparr>)
                          else e2\<lparr>el_mailbox := m, el_backend := False\<rparr>) })"

subsection \<open>The trace\<close>

definition trace_address :: "u16 \<Rightarrow> bool" where
  "trace_address a \<longleftrightarrow> 0xFCA6 \<le> a \<and> a \<le> 0xFCAA \<or> 0xFCFD \<le> a \<and> a \<le> 0xFDFF \<or> 0xFEE0 \<le> a \<and> a \<le> 0xFEFF"

definition trace_bus :: "char \<Rightarrow> u16 \<Rightarrow> u8 option \<Rightarrow> 'o elkulator \<Rightarrow> 'o elkulator" where
  "trace_bus operation a v e =
     (case el_trace e of None \<Rightarrow> e
      | Some log \<Rightarrow>
          if \<not> trace_address a then e
          else let page = mb_page (el_mailbox e) AND 0xFFFFFF;
                   entry = \<lparr>te_cycle = el_cycles e, te_operation = operation, te_address = a, te_value = v, te_page = page,
                     te_jim = (if 0xFD00 \<le> a \<and> a \<le> 0xFDFF then Some (push_bit 8 page OR ucast (a AND 0xFF)) else None),
                     te_pc = oldpc2 e, te_rb = rombank e mod 16\<rparr> in
               e\<lparr>el_trace := Some (entry # log), el_trace_events := el_trace_events e + 1\<rparr>)"

subsection \<open>The hooks of Elkulator\<close>

definition elkulator_enabled :: "'o world \<Rightarrow> 'o elkulator \<Rightarrow> (bool \<times> 'o elkulator) option" where
  "elkulator_enabled w e = do { e1 \<leftarrow> initialise_device w e; Some (el_enabled e1, e1) }"

definition elkulator_handles_read :: "'o world \<Rightarrow> u16 \<Rightarrow> 'o elkulator \<Rightarrow> (bool \<times> 'o elkulator) option" where
  "elkulator_handles_read w a e = do {
     (on, e1) \<leftarrow> elkulator_enabled w e;
     Some (on \<and> profile_read_driven (el_mailbox e1) (el_profile e1) a (el_noe e1), e1) }"

definition elkulator_handles_write :: "'o world \<Rightarrow> u16 \<Rightarrow> 'o elkulator \<Rightarrow> (bool \<times> 'o elkulator) option" where
  "elkulator_handles_write w a e = do {
     (on, e1) \<leftarrow> elkulator_enabled w e;
     Some (on \<and> profile_handles_mode (el_profile e1) a True (el_noe e1), e1) }"

definition mailbox_cycle :: "u16 \<Rightarrow> u8 \<Rightarrow> bool \<Rightarrow> 'o elkulator \<Rightarrow> (u8 \<times> 'o elkulator) option" where
  "mailbox_cycle a v write e = do {
     (x, m) \<leftarrow> bus_access (el_mailbox e) a v write; Some (x, e\<lparr>el_mailbox := m\<rparr>) }"

definition elkulator_snoop_read :: "'o world \<Rightarrow> u16 \<Rightarrow> 'o elkulator \<Rightarrow> 'o elkulator option" where
  "elkulator_snoop_read w a e = do {
     (on, e1) \<leftarrow> elkulator_enabled w e;
     if on \<and> profile_snoops (el_profile e1) a False then do {
       (x, e2) \<leftarrow> mailbox_cycle a 0xFF False e1;
       Some (trace_bus (CHR ''R'') a (Some x) e2) }
     else if 0xFEE0 \<le> a \<and> a \<le> 0xFEFF then Some (trace_bus (CHR ''R'') a None e1)
     else Some e1 }"

definition elkulator_snoop_write :: "'o world \<Rightarrow> u16 \<Rightarrow> u8 \<Rightarrow> 'o elkulator \<Rightarrow> 'o elkulator option" where
  "elkulator_snoop_write w a v e = do {
     (on, e1) \<leftarrow> elkulator_enabled w e;
     let e2 = (if on then trace_bus (CHR ''W'') a (Some v) e1 else e1);
     (on2, e3) \<leftarrow> elkulator_enabled w e2;
     if on2 \<and> profile_snoops (el_profile e3) a True then do {
       (x, e4) \<leftarrow> mailbox_cycle a v True e3;
       Some e4 }
     else Some e3 }"

definition elkulator_read :: "u16 \<Rightarrow> 'o elkulator \<Rightarrow> (u8 \<times> 'o elkulator) option" where
  "elkulator_read a e = do {
     (x, e1) \<leftarrow> mailbox_cycle a 0xFF False e;
     Some (x, trace_bus (CHR ''R'') a (Some x) e1) }"

definition elkulator_write :: "u16 \<Rightarrow> u8 \<Rightarrow> 'o elkulator \<Rightarrow> 'o elkulator option" where
  "elkulator_write a v e = do {
     (x, e1) \<leftarrow> mailbox_cycle a v True (trace_bus (CHR ''W'') a (Some v) e);
     Some e1 }"

definition elkulator_sync_host_clock :: "int \<Rightarrow> 'o elkulator \<Rightarrow> 'o elkulator option" where
  "elkulator_sync_host_clock counter e =
     (if \<not> el_enabled e then Some e
      else let (c, elapsed) = host_clock_sync (el_clock e) counter;
               e1 = e\<lparr>el_clock := c, el_cycles := el_cycles e + word_of_nat elapsed\<rparr> in
        if 0 < elapsed then do { m \<leftarrow> tick_fiq (el_mailbox e1) elapsed; Some (e1\<lparr>el_mailbox := m\<rparr>) }
        else Some e1)"

definition elkulator_rebase_host_clock :: "int \<Rightarrow> 'o elkulator \<Rightarrow> 'o elkulator" where
  "elkulator_rebase_host_clock counter e = e\<lparr>el_clock := host_clock_rebase (el_clock e) counter\<rparr>"

definition elkulator_selected_page :: "'o elkulator \<Rightarrow> u32" where
  "elkulator_selected_page e = mb_page (el_mailbox e) AND 0xFFFFFF"

subsection \<open>The hooks of b-em\<close>

record 'o bem =
  bm_initialised :: bool
  bm_enabled :: bool
  bm_mailbox :: "'o mailbox"
  bm_backend :: bool
  bm_noe :: bool

text \<open>The two routines are the ones of the other integration, with a preset of one cycle.\<close>

definition bem_configure_fiq_timing :: "'o world \<Rightarrow> 'o mailbox \<Rightarrow> ('o mailbox \<times> bool) option" where
  "bem_configure_fiq_timing w m = configure_fiq_timing 1 w m"

definition bem_preload_jim :: "'o world \<Rightarrow> 'o mailbox \<Rightarrow> ('o mailbox \<times> bool) option" where
  "bem_preload_jim w m = preload_jim w m"

definition bem_configure :: "'o world \<Rightarrow> 'o mailbox \<Rightarrow> ('o mailbox \<times> bool) option" where
  "bem_configure w m = do {
     (m1, ok1) \<leftarrow> bem_configure_fiq_timing w m;
     if \<not> ok1 then Some (m1, False) else bem_preload_jim w m1 }"

definition bem_shutdown_device :: "'o bem \<Rightarrow> 'o bem" where
  "bem_shutdown_device b = b\<lparr>bm_mailbox := mailbox_destroy (bm_mailbox b), bm_backend := False\<rparr>"

definition bem_initialise_device :: "'o world \<Rightarrow> 'o bem \<Rightarrow> 'o bem option" where
  "bem_initialise_device w b0 =
     (if bm_initialised b0 then Some b0
      else let b = b0\<lparr>bm_initialised := True\<rparr> in
        case getenv w ''PI1MHZ_MAILBOX'' of None \<Rightarrow> Some b
        | Some mode \<Rightarrow>
            if off_mode mode then Some b
            else case noe_setting w (bm_noe b) of None \<Rightarrow> Some b
            | Some noe \<Rightarrow> do {
                let b1 = b\<lparr>bm_noe := noe\<rparr>;
                (m, ok) \<leftarrow> open_mailbox (bem_configure w) w mode (bm_mailbox b1);
                Some (b1\<lparr>bm_mailbox := m, bm_backend := ok, bm_enabled := ok\<rparr>) })"

definition bem_enabled :: "'o world \<Rightarrow> 'o bem \<Rightarrow> (bool \<times> 'o bem) option" where
  "bem_enabled w b = do { b1 \<leftarrow> bem_initialise_device w b; Some (bm_enabled b1, b1) }"

definition bem_handles_read :: "'o world \<Rightarrow> u16 \<Rightarrow> 'o bem \<Rightarrow> (bool \<times> 'o bem) option" where
  "bem_handles_read w a b = do {
     (on, b1) \<leftarrow> bem_enabled w b;
     Some (on \<and> profile_read_driven (bm_mailbox b1) BUS_DIRECT a (bm_noe b1), b1) }"

definition bem_handles_write :: "'o world \<Rightarrow> u16 \<Rightarrow> 'o bem \<Rightarrow> (bool \<times> 'o bem) option" where
  "bem_handles_write w a b = do { (on, b1) \<leftarrow> bem_enabled w b; Some (on \<and> profile_handles BUS_DIRECT a True, b1) }"

definition bem_cycle :: "u16 \<Rightarrow> u8 \<Rightarrow> bool \<Rightarrow> 'o bem \<Rightarrow> (u8 \<times> 'o bem) option" where
  "bem_cycle a v write b = do {
     (x, m) \<leftarrow> bus_access (bm_mailbox b) a v write; Some (x, b\<lparr>bm_mailbox := m\<rparr>) }"

definition bem_snoop :: "'o world \<Rightarrow> u16 \<Rightarrow> u8 \<Rightarrow> bool \<Rightarrow> 'o bem \<Rightarrow> 'o bem option" where
  "bem_snoop w a v write b = do {
     (on, b1) \<leftarrow> bem_enabled w b;
     if on \<and> profile_snoops BUS_DIRECT a write then map_option snd (bem_cycle a v write b1) else Some b1 }"

definition bem_snoop_read :: "'o world \<Rightarrow> u16 \<Rightarrow> 'o bem \<Rightarrow> 'o bem option" where
  "bem_snoop_read w a b = bem_snoop w a 0xFF False b"

definition bem_snoop_write :: "'o world \<Rightarrow> u16 \<Rightarrow> u8 \<Rightarrow> 'o bem \<Rightarrow> 'o bem option" where
  "bem_snoop_write w a v b = bem_snoop w a v True b"

definition bem_read :: "u16 \<Rightarrow> 'o bem \<Rightarrow> (u8 \<times> 'o bem) option" where
  "bem_read a b = bem_cycle a 0xFF False b"

definition bem_write :: "u16 \<Rightarrow> u8 \<Rightarrow> 'o bem \<Rightarrow> 'o bem option" where
  "bem_write a v b = map_option snd (bem_cycle a v True b)"

definition bem_run_host_cycles :: "int \<Rightarrow> 'o bem \<Rightarrow> 'o bem option" where
  "bem_run_host_cycles cycles b =
     (if bm_enabled b \<and> 0 < cycles
      then do { m \<leftarrow> tick_fiq (bm_mailbox b) (nat cycles); Some (b\<lparr>bm_mailbox := m\<rparr>) } else Some b)"

end
