(* ===== verification/Emulator_Props.thy ===== *)
theory Emulator_Props
  imports Emulator_Glue Mailbox_Props
begin

section \<open>Properties of the emulator integrations\<close>

text \<open>
  The integrations never break the contract of the mailbox they own, whatever the environment says
  and in whatever order the emulator calls their hooks.
\<close>

subsection \<open>Configuration keeps the mailbox invariant\<close>

definition ready :: "'o mailbox \<Rightarrow> bool" where
  "ready m \<longleftrightarrow> mb_inv m \<and> settled m"

lemma callback_timing_ready: "ready m \<Longrightarrow> ready (set_callback_timing m a b c)"
  by (simp add: ready_def set_callback_timing_def mb_inv_defs settled_def)

lemma apply_timing_ready: "ready m \<Longrightarrow> \<exists>m'. apply_timing c b s cb p m = Some m' \<and> ready m'"
proof -
  assume "ready m"
  then obtain m' where "set_timing m c b s = Some m'" "ready m'" using set_timing_inv [of m c b s] by (auto simp: ready_def)
  then show ?thesis using callback_timing_ready by (simp add: apply_timing_def)
qed

text \<open>A mailbox as \<open>pi1mhz_mailbox_init\<close> leaves it: ready, with all of its memory.\<close>

definition sized :: "'o mailbox \<Rightarrow> bool" where
  "sized m \<longleftrightarrow> ready m \<and> jim_size m = JIM_SIZE"

lemma publish_cursor_frame:
  "publish_service_cursor m d = Some m' \<Longrightarrow>
     jim_size m' = jim_size m \<and> mb_page m' = mb_page m \<and> jim m' = jim m \<and> page_window m' = page_window m \<and> mirror_length m' = mirror_length m"
  by (cases d) (auto simp: publish_service_cursor_def Let_def bind_eq_Some_conv)

lemma publish_window_fields [simp]:
  "jim (publish_page_window m) = jim m" "jim_size (publish_page_window m) = jim_size m"
  "mb_page (publish_page_window m) = mb_page m" "mirror_length (publish_page_window m) = mirror_length m"
  by (simp_all add: publish_page_window_def Let_def)

lemma apply_timing_sized:
  assumes "sized m" shows "\<exists>m'. apply_timing c b s cb p m = Some m' \<and> sized m'"
proof -
  obtain m' where m': "apply_timing c b s cb p m = Some m'" "ready m'"
    using apply_timing_ready [of m c b s cb p] assms by (auto simp: sized_def)
  then have "jim_size m' = jim_size m"
    by (auto simp: apply_timing_def set_timing_def set_callback_timing_def bind_eq_Some_conv dest!: publish_cursor_frame)
  then show ?thesis using m' assms by (simp add: sized_def)
qed

lemma mailbox_init_sized: "\<exists>m'. mailbox_init True m (Some f) b = Some (m', 0) \<and> sized m'"
proof -
  obtain m' where m': "mailbox_init True m (Some f) b = Some (m', 0)" "ready m'"
    using mailbox_init_inv [of m f b] by (auto simp: ready_def)
  then have "jim_size m' = JIM_SIZE"
    by (auto simp: mailbox_init_def Let_def bind_eq_Some_conv dest!: publish_cursor_frame)
  then show ?thesis using m' by (simp add: sized_def)
qed

subsection \<open>What each part of the configuration refuses\<close>

text \<open>
  The conditions under which the initialisers give up, stated on the settings, the files and the
  allocator alone, one for each part of the configuration.
\<close>

definition timing_refused :: "'o world \<Rightarrow> bool" where
  "timing_refused w \<longleftrightarrow>
     (\<exists>s. setting w ''PI1MHZ_SERVICE_DELAY_CYCLES'' = Some s \<and> whole_number s 10000000 = None) \<or>
     (\<exists>s. setting w ''PI1MHZ_FIQ_DELAY_ACCESSES'' = Some s \<and> whole_number s 255 = None)"

definition file_refused :: "'o world \<Rightarrow> bytes \<Rightarrow> nat \<Rightarrow> bool" where
  "file_refused w path a \<longleftrightarrow> (case open_file w path of Not_Opened \<Rightarrow> True | Not_Sized \<Rightarrow> True
     | File bs k closed \<Rightarrow> JIM_SIZE < a + length bs \<or> k < length bs \<or> \<not> closed)"

definition image_refused :: "'o world \<Rightarrow> bool" where
  "image_refused w \<longleftrightarrow> (\<exists>path. setting w ''PI1MHZ_JIM_IMAGE'' = Some path \<and>
     (case setting w ''PI1MHZ_JIM_IMAGE_ADDRESS'' of None \<Rightarrow> file_refused w path 0
      | Some s \<Rightarrow> (case whole_number s (int JIM_SIZE - 1) of None \<Rightarrow> True | Some a \<Rightarrow> file_refused w path a)))"

definition bad_pair :: "bytes \<Rightarrow> nat \<Rightarrow> bool" where
  "bad_pair t i \<longleftrightarrow> 2 * i + 1 < length t \<and> snd (snd (strtoul 16 [t ! (2 * i), t ! (2 * i + 1)])) \<noteq> []"

definition mirror_refused :: "'o world \<Rightarrow> bool" where
  "mirror_refused w \<longleftrightarrow> (\<exists>s v e rest. setting w ''PI1MHZ_JIM_MIRROR'' = Some s \<and> strtoul 16 s = (v, e, rest) \<and>
     (\<not> starts_with [0x3A] rest \<or> 0xFF < v \<or> length (drop 1 rest) < 2 \<or> (\<exists>i < 160. bad_pair (drop 1 rest) i)))"

text \<open>A configuration step that ends, with this flag, in a mailbox of this kind.\<close>

definition conf_is :: "('o mailbox \<Rightarrow> bool) \<Rightarrow> bool \<Rightarrow> ('o mailbox \<times> bool) option \<Rightarrow> bool" where
  "conf_is P ok r \<longleftrightarrow> (\<exists>m. r = Some (m, ok) \<and> P m)"

lemma conf_is_Some [simp]: "conf_is P ok (Some (m, ok')) \<longleftrightarrow> ok' = ok \<and> P m"
  by (auto simp: conf_is_def)

lemma configure_fiq_timing_is:
  assumes "P m" "\<And>m c b s cb p. P m \<Longrightarrow> \<exists>m'. apply_timing c b s cb p m = Some m' \<and> P m'"
  shows "conf_is P (\<not> timing_refused w) (configure_fiq_timing k w m)"
proof (cases "service_delay k w")
  case None
  then show ?thesis using assms(1)
    by (auto simp: configure_fiq_timing_def service_delay_def timing_refused_def split: option.splits)
next
  case (Some service)
  obtain m1 where m1: "apply_timing 2 4 service 4 14 m = Some m1" "P m1" using assms by blast
  obtain f where f: "apply_timing c b s cb p m1 = Some (f c b s cb p)" "P (f c b s cb p)" for c b s cb p
    using assms(2) [OF m1(2)] by metis
  have "\<not> timing_refused w \<longleftrightarrow>
      (case setting w ''PI1MHZ_FIQ_DELAY_ACCESSES'' of None \<Rightarrow> True | Some s \<Rightarrow> whole_number s 255 \<noteq> None)"
    using Some by (auto simp: service_delay_def timing_refused_def split: option.splits)
  then show ?thesis by (simp add: configure_fiq_timing_def Some m1 f split: option.split)
qed

lemma jim_update_ready [simp]: "ready (m\<lparr>jim := f\<rparr>) = ready m"
  by (simp add: ready_def mb_inv_defs settled_def)

lemma jim_load_sized: "sized m \<Longrightarrow> a + length bs \<le> JIM_SIZE \<Longrightarrow> \<exists>m'. jim_load a bs m = Some m' \<and> sized m'"
  by (simp add: sized_def jim_load_def)

lemma jim_load_Some:
  "jim_load a bs m = Some m' \<Longrightarrow> m' = m\<lparr>jim := (\<lambda>i. if a \<le> i \<and> i < a + length bs then bs ! (i - a) else jim m i)\<rparr>"
  by (auto simp: jim_load_def split: if_splits)

lemma whole_number_bound: "whole_number s limit = Some a \<Longrightarrow> int a \<le> limit \<or> a = 0"
  by (auto simp: whole_number_def split: if_splits prod.splits)

lemma image_room_eq: "sized m \<Longrightarrow> a \<le> JIM_SIZE \<Longrightarrow> image_room m a = JIM_SIZE - a"
  by (simp add: image_room_def sized_def)

lemma preload_jim_file:
  assumes "sized m" "a \<le> JIM_SIZE" "setting w ''PI1MHZ_JIM_IMAGE'' = Some path" "image_address w m = Some a"
  shows "conf_is sized (\<not> file_refused w path a) (preload_jim w m)"
proof (cases "open_file w path")
  case (File bs k closed)
  show ?thesis
  proof (cases "JIM_SIZE < a + length bs")
    case False
    then obtain m' where "jim_load a (take k bs) m = Some m'" "sized m'"
      using jim_load_sized [OF assms(1), of a "take k bs"] by fastforce
    then show ?thesis using assms File False
      by (auto simp: preload_jim_def image_room_eq file_refused_def)
  qed (use assms File in \<open>auto simp: preload_jim_def image_room_eq file_refused_def\<close>)
qed (use assms in \<open>auto simp: preload_jim_def file_refused_def\<close>)

lemma preload_jim_is:
  assumes "sized m" shows "conf_is sized (\<not> image_refused w) (preload_jim w m)"
proof (cases "setting w ''PI1MHZ_JIM_IMAGE''")
  case (Some path)
  show ?thesis
  proof (cases "image_address w m")
    case None
    then show ?thesis using assms Some
      by (auto simp: preload_jim_def image_refused_def image_address_def sized_def split: option.splits)
  next
    case a: (Some a)
    then have "a \<le> JIM_SIZE" using assms
      by (auto simp: image_address_def sized_def split: option.splits dest!: whole_number_bound)
    then have "conf_is sized (\<not> file_refused w path a) (preload_jim w m)" using preload_jim_file assms Some a by blast
    moreover have "image_refused w = file_refused w path a" using a assms Some
      by (auto simp: image_refused_def image_address_def sized_def split: option.splits)
    ultimately show ?thesis by simp
  qed
qed (use assms in \<open>simp add: preload_jim_def image_refused_def\<close>)

text \<open>The pairs are read into the array in order; the first bad pair among the first 160 is fatal.\<close>

lemma bad_pair_Cons: "bad_pair (a # b # t) (Suc i) = bad_pair t i"
    "bad_pair (a # b # t) 0 \<longleftrightarrow> snd (snd (strtoul 16 [a, b])) \<noteq> []"
  by (simp_all add: bad_pair_def)

lemma hex_pairs_safe:
  "length out \<le> 160 \<Longrightarrow>
     (if \<exists>i. length out + i < 160 \<and> bad_pair t i then hex_pairs out t = Some None
      else \<exists>bs. hex_pairs out t = Some (Some (out @ bs)) \<and> length (out @ bs) \<le> 160 \<and> (length out < 160 \<longrightarrow> (bs = [] \<longleftrightarrow> length t < 2)))"
proof (induction out t rule: hex_pairs.induct)
  case (1 out a b cs)
  show ?case
  proof (cases "length out < 160")
    case True
    obtain v e rest where st: "strtoul 16 [a, b] = (v, e, rest)" by (cases "strtoul 16 [a, b]") auto
    have split: "(\<exists>i. length out + i < 160 \<and> bad_pair (a # b # cs) i) \<longleftrightarrow>
        rest \<noteq> [] \<or> (\<exists>i. length (out @ [word_of_int v]) + i < 160 \<and> bad_pair cs i)"
    proof -
      have "(\<exists>i. length out + i < 160 \<and> bad_pair (a # b # cs) i) \<longleftrightarrow>
          bad_pair (a # b # cs) 0 \<or> (\<exists>i. length out + Suc i < 160 \<and> bad_pair (a # b # cs) (Suc i))"
        using True by (metis add.right_neutral not0_implies_Suc)
      then show ?thesis by (simp add: bad_pair_Cons st)
    qed
    show ?thesis
    proof (cases "rest = []")
      case good: True
      have IH: "if \<exists>i. length (out @ [word_of_int v]) + i < 160 \<and> bad_pair cs i then hex_pairs (out @ [word_of_int v]) cs = Some None
         else \<exists>bs. hex_pairs (out @ [word_of_int v]) cs = Some (Some ((out @ [word_of_int v]) @ bs)) \<and> length ((out @ [word_of_int v]) @ bs) \<le> 160 \<and>
            (length (out @ [word_of_int v]) < 160 \<longrightarrow> (bs = [] \<longleftrightarrow> length cs < 2))"
        using 1(1) [of "(v, e, rest)" v "(e, rest)" e rest "out @ [word_of_int v]"] True good st
        by (simp add: PAIRS_MAX_def pair_put_def)
      have step: "hex_pairs out (a # b # cs) = hex_pairs (out @ [word_of_int v]) cs"
        using True st good by (simp add: PAIRS_MAX_def pair_put_def)
      show ?thesis unfolding split using IH good step by (auto split: if_splits)
    next
      case False
      then show ?thesis unfolding split using True st by (simp add: PAIRS_MAX_def pair_put_def)
    qed
  qed (use 1(2) in \<open>simp add: PAIRS_MAX_def\<close>)
qed (simp_all add: bad_pair_def)

lemma preload_mirror_is:
  assumes "sized m" shows "conf_is sized (\<not> mirror_refused w) (preload_mirror w m)"
proof (cases "setting w ''PI1MHZ_JIM_MIRROR''")
  case (Some s)
  obtain v e rest where st: "strtoul 16 s = (v, e, rest)" by (cases "strtoul 16 s") auto
  show ?thesis
  proof (cases "\<not> starts_with [0x3A] rest \<or> 0xFF < v \<or> (\<exists>i < 160. bad_pair (drop 1 rest) i)")
    case True
    then show ?thesis using assms Some st hex_pairs_safe [of "[]" "drop 1 rest"]
      by (auto simp: preload_mirror_def mirror_refused_def split: if_splits)
  next
    case False
    then obtain bs where bs: "hex_pairs [] (drop 1 rest) = Some (Some bs)" "length bs \<le> 160" "bs = [] \<longleftrightarrow> length (drop 1 rest) < 2"
      using hex_pairs_safe [of "[]" "drop 1 rest"] by (auto split: if_splits)
    obtain m' where m': "set_mirror m (word_of_int v) (Some bs) (word_of_nat (length bs)) = Some m'" "ready m'"
      using set_mirror_inv [of m "word_of_int v" "Some bs" "word_of_nat (length bs)"] assms bs(2)
      by (auto simp: sized_def ready_def unat_of_nat)
    then have "jim_size m' = jim_size m"
      by (auto simp: set_mirror_def bind_eq_Some_conv split: if_splits)
    moreover have "mirror_refused w \<longleftrightarrow> bs = []" using False Some st bs(3) by (auto simp: mirror_refused_def)
    ultimately show ?thesis using assms Some st False bs m' by (auto simp: preload_mirror_def sized_def)
  qed
qed (use assms in \<open>simp add: preload_mirror_def mirror_refused_def\<close>)

lemma elk_configure_is:
  assumes "sized m"
  shows "conf_is sized (\<not> timing_refused w \<and> \<not> image_refused w \<and> \<not> mirror_refused w) (elk_configure w m)"
proof -
  obtain m1 where m1: "configure_fiq_timing 4 w m = Some (m1, \<not> timing_refused w)" "sized m1"
    using configure_fiq_timing_is [OF assms apply_timing_sized, of w 4] by (auto simp: conf_is_def)
  obtain m2 where m2: "preload_jim w m1 = Some (m2, \<not> image_refused w)" "sized m2"
    using preload_jim_is [OF m1(2), of w] by (auto simp: conf_is_def)
  show ?thesis using m1 m2 preload_mirror_is [OF m2(2), of w] by (auto simp: elk_configure_def)
qed

lemma bem_configure_is:
  assumes "sized m" shows "conf_is sized (\<not> timing_refused w \<and> \<not> image_refused w) (bem_configure w m)"
proof -
  obtain m1 where m1: "configure_fiq_timing 1 w m = Some (m1, \<not> timing_refused w)" "sized m1"
    using configure_fiq_timing_is [OF assms apply_timing_sized, of w 1] by (auto simp: conf_is_def)
  then show ?thesis using preload_jim_is [OF m1(2), of w]
    by (auto simp: bem_configure_def bem_configure_fiq_timing_def bem_preload_jim_def)
qed

text \<open>A mailbox that was never opened, or was closed again, has no memory and ignores bus cycles.\<close>

definition mailbox_ok :: "bool \<Rightarrow> 'o mailbox \<Rightarrow> bool" where
  "mailbox_ok on m \<longleftrightarrow> (if on then ready m else jim_size m = 0)"

lemma mailbox_ok_simps [simp]: "mailbox_ok True m = ready m"
  by (simp add: mailbox_ok_def)

lemma mailbox_destroy_off [simp]: "mailbox_ok False (mailbox_destroy m)" "mailbox_ok False (mailbox_zero opq)"
  by (simp_all add: mailbox_ok_def mailbox_destroy_def mailbox_zero_def)

text \<open>The device is switched on and its backend can be created.\<close>

definition backend_made :: "'o world \<Rightarrow> bytes \<Rightarrow> bool" where
  "backend_made w mode \<longleftrightarrow> net_backend_create w mode (getenv w ''PI1MHZ_TRACE'')
     (case getenv w ''PI1MHZ_EXIT_ON_CLOSE'' of None \<Rightarrow> False | Some s \<Rightarrow> s \<noteq> ascii ''0'') \<noteq> None"

lemma open_mailbox_is:
  assumes "mailbox_ok False m" "\<And>m. sized m \<Longrightarrow> conf_is sized v (conf m)"
  shows "\<exists>m'. open_mailbox conf w mode m = Some (m', backend_made w mode \<and> calloc_ok w \<and> v) \<and>
     mailbox_ok (backend_made w mode \<and> calloc_ok w \<and> v) m'"
proof (cases "net_backend_create w mode (getenv w ''PI1MHZ_TRACE'')
             (case getenv w ''PI1MHZ_EXIT_ON_CLOSE'' of None \<Rightarrow> False | Some s \<Rightarrow> s \<noteq> ascii ''0'')")
  case None
  then show ?thesis using assms(1) by (simp add: open_mailbox_def backend_made_def)
next
  case (Some b)
  show ?thesis
  proof (cases "calloc_ok w")
    case True
    obtain m1 where m1: "mailbox_init True m (Some (net_backend_dispatch w)) b = Some (m1, 0)" "sized m1"
      using mailbox_init_sized [of m "net_backend_dispatch w" b] by auto
    obtain m2 where c: "conf m1 = Some (m2, v)" "sized m2" using assms(2) [OF m1(2)] by (auto simp: conf_is_def)
    then show ?thesis using m1(1) Some True by (cases v) (auto simp: open_mailbox_def backend_made_def sized_def)
  qed (use Some in \<open>simp add: open_mailbox_def mailbox_init_def\<close>)
qed

subsection \<open>The configurations that are accepted\<close>

definition switched_on :: "'o world \<Rightarrow> bool" where
  "switched_on w \<longleftrightarrow> (\<exists>mode. getenv w ''PI1MHZ_MAILBOX'' = Some mode \<and>
     mode \<noteq> ascii ''0'' \<and> mode \<noteq> ascii ''off'' \<and> backend_made w mode) \<and> calloc_ok w"

definition noe_refused :: "'o world \<Rightarrow> bool" where
  "noe_refused w \<longleftrightarrow> (\<exists>s. getenv w ''PI1MHZ_NOE'' = Some s \<and> s \<noteq> ascii ''0'' \<and> s \<noteq> ascii ''1'')"

definition profile_refused :: "'o world \<Rightarrow> bool" where
  "profile_refused w \<longleftrightarrow> (\<exists>s. getenv w ''PI1MHZ_AP5_PROFILE'' = Some s \<and>
     s \<noteq> ascii ''full'' \<and> s \<noteq> ascii ''expanded-snoop'' \<and> s \<noteq> ascii ''original'')"

definition trace_refused :: "'o world \<Rightarrow> bool" where
  "trace_refused w \<longleftrightarrow> setting w ''PI1MHZ_BUS_TRACE'' \<noteq> None \<and> \<not> trace_opens w"

definition bem_configured :: "'o world \<Rightarrow> bool" where
  "bem_configured w \<longleftrightarrow> switched_on w \<and> \<not> noe_refused w \<and> \<not> timing_refused w \<and> \<not> image_refused w"

definition elk_configured :: "'o world \<Rightarrow> bool" where
  "elk_configured w \<longleftrightarrow> bem_configured w \<and> \<not> profile_refused w \<and> \<not> mirror_refused w \<and> \<not> trace_refused w"

lemma noe_setting_refused: "noe_setting w old = None \<longleftrightarrow> noe_refused w"
  by (auto simp: noe_setting_def noe_refused_def split: option.splits)

lemma profile_setting_refused: "profile_setting w old = None \<longleftrightarrow> profile_refused w"
  by (auto simp: profile_setting_def profile_refused_def split: option.splits)

lemma bus_access_ok:
  "mailbox_ok on m \<Longrightarrow> \<exists>x m'. bus_access m a v wr = Some (x, m') \<and> mailbox_ok on m'"
  using bus_access_inv [of m a v wr]
  by (cases on) (auto simp: mailbox_ok_def ready_def bus_access_def)

lemma tick_fiq_ok: "mailbox_ok True m \<Longrightarrow> \<exists>m'. tick_fiq m k = Some m' \<and> mailbox_ok True m'"
  using tick_fiq_inv [of m k] by (auto simp: mailbox_ok_def ready_def)

subsection \<open>Elkulator\<close>

definition el_inv :: "'o elkulator \<Rightarrow> bool" where
  "el_inv e \<longleftrightarrow> mailbox_ok (el_enabled e) (el_mailbox e) \<and> el_backend e = el_enabled e \<and> (el_enabled e \<longrightarrow> el_initialised e)"

definition elk_start :: "'o \<Rightarrow> 'o elkulator" where
  "elk_start opq = \<lparr>el_initialised = False, el_enabled = False, el_clock = \<lparr>hc_valid = False, last_cycle = 0\<rparr>,
     el_mailbox = mailbox_zero opq, el_backend = False, el_profile = BUS_AP5, el_noe = True, el_trace = None,
     el_cycles = 0, el_trace_events = 0, oldpc2 = 0, rombank = 0\<rparr>"

datatype emu_op = Enabled | Handles_Read u16 | Handles_Write u16 | Snoop_Read u16 | Snoop_Write u16 u8
  | Emu_Read u16 | Emu_Write u16 u8 | Sync_Clock int | Rebase_Clock int

fun elk_exec :: "'o world \<Rightarrow> emu_op \<Rightarrow> 'o elkulator \<Rightarrow> 'o elkulator option" where
  "elk_exec w Enabled e = map_option snd (elkulator_enabled w e)"
| "elk_exec w (Handles_Read a) e = map_option snd (elkulator_handles_read w a e)"
| "elk_exec w (Handles_Write a) e = map_option snd (elkulator_handles_write w a e)"
| "elk_exec w (Snoop_Read a) e = elkulator_snoop_read w a e"
| "elk_exec w (Snoop_Write a v) e = elkulator_snoop_write w a v e"
| "elk_exec w (Emu_Read a) e = map_option snd (elkulator_read a e)"
| "elk_exec w (Emu_Write a v) e = elkulator_write a v e"
| "elk_exec w (Sync_Clock c) e = elkulator_sync_host_clock c e"
| "elk_exec w (Rebase_Clock c) e = Some (elkulator_rebase_host_clock c e)"

lemma trace_bus_fields [simp]:
  "el_mailbox (trace_bus c a v e) = el_mailbox e" "el_enabled (trace_bus c a v e) = el_enabled e"
  "el_initialised (trace_bus c a v e) = el_initialised e" "el_profile (trace_bus c a v e) = el_profile e"
  "el_noe (trace_bus c a v e) = el_noe e" "el_backend (trace_bus c a v e) = el_backend e"
  by (simp_all add: trace_bus_def Let_def split: option.split)

lemma trace_bus_inv [simp]: "el_inv (trace_bus c a v e) = el_inv e"
  by (simp add: el_inv_def)

lemma open_trace_inv:
  "ready (el_mailbox e) \<Longrightarrow> el_initialised e \<Longrightarrow> el_backend e \<Longrightarrow> \<not> el_enabled e \<Longrightarrow>
     el_inv (open_trace w e) \<and> el_initialised (open_trace w e) \<and> el_enabled (open_trace w e) = (\<not> trace_refused w)"
  by (auto simp: open_trace_def el_inv_def shutdown_device_def trace_refused_def split: option.split)

text \<open>
  The state of the device in this world: its invariant, and once the initialiser has run it is
  enabled exactly when the configuration is acceptable.
\<close>

definition el_state :: "'o world \<Rightarrow> 'o elkulator \<Rightarrow> bool" where
  "el_state w e \<longleftrightarrow> el_inv e \<and> (el_initialised e \<longrightarrow> el_enabled e = elk_configured w)"

definition el_good :: "'o world \<Rightarrow> 'o elkulator option \<Rightarrow> bool" where
  "el_good w r \<longleftrightarrow> (\<exists>e. r = Some e \<and> el_state w e \<and> el_initialised e)"

lemma el_good_Some [simp]: "el_good w (Some e) \<longleftrightarrow> el_state w e \<and> el_initialised e"
  by (simp add: el_good_def)

lemma initialise_fresh:
  assumes "el_inv e" "\<not> el_initialised e" shows "el_good w (initialise_device w e)"
proof -
  have off: "\<not> el_enabled e" "\<not> el_backend e" "mailbox_ok False (el_mailbox e)" using assms by (auto simp: el_inv_def)
  have no: "el_state w e'" if "el_initialised e'" "\<not> el_enabled e'" "\<not> el_backend e'" "mailbox_ok False (el_mailbox e')"
      "\<not> elk_configured w" for e'
    using that by (simp add: el_state_def el_inv_def)
  let ?c = "\<not> timing_refused w \<and> \<not> image_refused w \<and> \<not> mirror_refused w"
  show ?thesis
  proof (cases "getenv w ''PI1MHZ_MAILBOX''")
    case None
    then have "\<not> elk_configured w" by (simp add: elk_configured_def bem_configured_def switched_on_def)
    then show ?thesis using None assms(2) off by (simp add: initialise_device_def Let_def no)
  next
    case mode: (Some mode)
    let ?ok = "backend_made w mode \<and> calloc_ok w \<and> ?c"
    obtain m where m: "open_mailbox (elk_configure w) w mode (el_mailbox e) = Some (m, ?ok)" "mailbox_ok ?ok m"
      using open_mailbox_is [OF off(3), of ?c "elk_configure w" w mode] elk_configure_is by blast
    have conf: "elk_configured w \<longleftrightarrow> \<not> off_mode mode \<and> \<not> noe_refused w \<and> \<not> profile_refused w \<and> ?ok \<and> \<not> trace_refused w"
      using mode by (auto simp: elk_configured_def bem_configured_def switched_on_def off_mode_def)
    have fin: "el_state w (if ?ok then open_trace w (e'\<lparr>el_mailbox := m, el_backend := True\<rparr>) else e'\<lparr>el_mailbox := m, el_backend := False\<rparr>)
        \<and> el_initialised (if ?ok then open_trace w (e'\<lparr>el_mailbox := m, el_backend := True\<rparr>) else e'\<lparr>el_mailbox := m, el_backend := False\<rparr>)"
      if "el_initialised e'" "\<not> el_enabled e'" "\<not> off_mode mode" "\<not> noe_refused w" "\<not> profile_refused w" for e'
    proof (cases ?ok)
      case True
      then have "elk_configured w = (\<not> trace_refused w)" using conf that by simp
      then show ?thesis using True m(2) that open_trace_inv [of "e'\<lparr>el_mailbox := m, el_backend := True\<rparr>" w]
        by (auto simp: el_state_def)
    next
      case False
      then have "\<not> elk_configured w" "mailbox_ok False m" using conf m(2) by (auto simp: mailbox_ok_def)
      then show ?thesis using that no unfolding if_not_P [OF False] by simp
    qed
    show ?thesis
    proof (cases "off_mode mode \<or> noe_refused w \<or> profile_refused w")
      case True
      then have "\<not> elk_configured w" using conf by auto
      then show ?thesis using True mode assms(2) off noe_setting_refused [of w "el_noe e"] profile_setting_refused [of w "el_profile e"]
        by (auto simp: initialise_device_def Let_def no split: option.splits)
    next
      case False
      then obtain noe profile where "noe_setting w (el_noe e) = Some noe" "profile_setting w (el_profile e) = Some profile"
        using noe_setting_refused [of w "el_noe e"] profile_setting_refused [of w "el_profile e"] by auto
      then show ?thesis using False mode assms(2) m(1) off fin
        by (simp add: initialise_device_def Let_def split del: if_split)
    qed
  qed
qed

lemma initialise_device_inv: "el_state w e \<Longrightarrow> el_good w (initialise_device w e)"
  using initialise_fresh [of e w] by (cases "el_initialised e") (simp_all add: el_state_def initialise_device_def)


lemma elkulator_enabled_inv:
  assumes "el_state w e" shows "\<exists>e'. elkulator_enabled w e = Some (el_enabled e', e') \<and> el_state w e' \<and> el_initialised e'"
  using initialise_device_inv [OF assms] by (auto simp: el_good_def elkulator_enabled_def)

lemma trace_bus_state [simp]: "el_state w (trace_bus c a v e) = el_state w e"
  by (simp add: el_state_def)

lemma mailbox_cycle_inv:
  "el_state w e \<Longrightarrow> \<exists>x e'. mailbox_cycle a v wr e = Some (x, e') \<and> el_state w e' \<and> el_initialised e' = el_initialised e"
  using bus_access_ok [of "el_enabled e" "el_mailbox e" a v wr] by (auto simp: mailbox_cycle_def el_state_def el_inv_def)

lemma elkulator_sync_inv:
  "el_state w e \<Longrightarrow> \<exists>e'. elkulator_sync_host_clock c e = Some e' \<and> el_state w e' \<and> el_initialised e' = el_initialised e"
proof (cases "el_enabled e")
  case True
  assume "el_state w e"
  moreover obtain clk k where "host_clock_sync (el_clock e) c = (clk, k)" by fastforce
  ultimately show ?thesis using True tick_fiq_ok [of "el_mailbox e" k]
    by (auto simp: elkulator_sync_host_clock_def el_state_def el_inv_def Let_def)
qed (simp add: elkulator_sync_host_clock_def)

lemma elkulator_snoop_write_inv:
  assumes "el_state w e" shows "\<exists>e'. elkulator_snoop_write w a v e = Some e' \<and> el_state w e' \<and> el_initialised e'"
proof -
  obtain e1 where e1: "elkulator_enabled w e = Some (el_enabled e1, e1)" "el_state w e1"
    using elkulator_enabled_inv [OF assms] by blast
  let ?e2 = "if el_enabled e1 then trace_bus CHR ''W'' a (Some v) e1 else e1"
  obtain e3 where e3: "elkulator_enabled w ?e2 = Some (el_enabled e3, e3)" "el_state w e3" "el_initialised e3"
    using elkulator_enabled_inv [of w ?e2] e1(2) by (metis trace_bus_state)
  show ?thesis using e1(1) e3 mailbox_cycle_inv [OF e3(2), of a v True] by (auto simp: elkulator_snoop_write_def Let_def)
qed

text \<open>The hooks that run the initialiser.\<close>

fun initialises :: "emu_op \<Rightarrow> bool" where
  "initialises (Emu_Read a) = False"
| "initialises (Emu_Write a v) = False"
| "initialises (Sync_Clock c) = False"
| "initialises (Rebase_Clock c) = False"
| "initialises _ = True"

lemma elk_exec_safe:
  assumes "el_state w e"
  shows "\<exists>e'. elk_exec w op e = Some e' \<and> el_state w e' \<and> el_initialised e' = (el_initialised e \<or> initialises op)"
proof -
  obtain e1 where e1: "elkulator_enabled w e = Some (el_enabled e1, e1)" "el_state w e1" "el_initialised e1"
    using elkulator_enabled_inv [OF assms] by blast
  show ?thesis
  proof (cases op)
    case (Snoop_Read a)
    then show ?thesis using e1 mailbox_cycle_inv [OF e1(2), of a "0xFF" False]
      by (auto simp: elkulator_snoop_read_def)
  next
    case (Snoop_Write a v)
    then show ?thesis using elkulator_snoop_write_inv [OF assms] by simp
  next
    case (Emu_Read a)
    then show ?thesis using mailbox_cycle_inv [OF assms, of a "0xFF" False] by (auto simp: elkulator_read_def)
  next
    case (Emu_Write a v)
    then show ?thesis using mailbox_cycle_inv [of w "trace_bus CHR ''W'' a (Some v) e" a v True] assms
      by (auto simp: elkulator_write_def)
  next
    case (Rebase_Clock c)
    then show ?thesis using assms by (simp add: elkulator_rebase_host_clock_def el_state_def el_inv_def)
  qed (use e1 elkulator_sync_inv [OF assms] in \<open>auto simp: elkulator_handles_read_def elkulator_handles_write_def\<close>)
qed

subsection \<open>b-em\<close>

definition bm_inv :: "'o bem \<Rightarrow> bool" where
  "bm_inv b \<longleftrightarrow> mailbox_ok (bm_enabled b) (bm_mailbox b) \<and> bm_backend b = bm_enabled b \<and> (bm_enabled b \<longrightarrow> bm_initialised b)"

definition bm_state :: "'o world \<Rightarrow> 'o bem \<Rightarrow> bool" where
  "bm_state w b \<longleftrightarrow> bm_inv b \<and> (bm_initialised b \<longrightarrow> bm_enabled b = bem_configured w)"

definition bem_start :: "'o \<Rightarrow> 'o bem" where
  "bem_start opq = \<lparr>bm_initialised = False, bm_enabled = False, bm_mailbox = mailbox_zero opq, bm_backend = False, bm_noe = True\<rparr>"

text \<open>The clock of b-em is driven in whole cycles; \<open>Sync_Clock\<close> stands for that hook, and there is no rebase.\<close>

fun bem_exec :: "'o world \<Rightarrow> emu_op \<Rightarrow> 'o bem \<Rightarrow> 'o bem option" where
  "bem_exec w Enabled b = map_option snd (bem_enabled w b)"
| "bem_exec w (Handles_Read a) b = map_option snd (bem_handles_read w a b)"
| "bem_exec w (Handles_Write a) b = map_option snd (bem_handles_write w a b)"
| "bem_exec w (Snoop_Read a) b = bem_snoop_read w a b"
| "bem_exec w (Snoop_Write a v) b = bem_snoop_write w a v b"
| "bem_exec w (Emu_Read a) b = map_option snd (bem_read a b)"
| "bem_exec w (Emu_Write a v) b = bem_write a v b"
| "bem_exec w (Sync_Clock c) b = bem_run_host_cycles c b"
| "bem_exec w (Rebase_Clock c) b = Some b"

lemma bem_enabled_inv:
  assumes "bm_state w b" shows "\<exists>b'. bem_enabled w b = Some (bm_enabled b', b') \<and> bm_state w b' \<and> bm_initialised b'"
proof (cases "bm_initialised b")
  case True
  then show ?thesis using assms by (simp add: bem_enabled_def bem_initialise_device_def)
next
  case False
  then have off: "\<not> bm_enabled b" "\<not> bm_backend b" "mailbox_ok False (bm_mailbox b)" using assms by (auto simp: bm_state_def bm_inv_def)
  have "\<exists>b'. bem_initialise_device w b = Some b' \<and> bm_state w b' \<and> bm_initialised b'"
  proof (cases "getenv w ''PI1MHZ_MAILBOX''")
    case None
    then show ?thesis using False off
      by (simp add: bem_initialise_device_def Let_def bm_state_def bm_inv_def bem_configured_def switched_on_def)
  next
    case (Some mode)
    let ?ok = "backend_made w mode \<and> calloc_ok w \<and> \<not> timing_refused w \<and> \<not> image_refused w"
    obtain m where m: "open_mailbox (bem_configure w) w mode (bm_mailbox b) = Some (m, ?ok)" "mailbox_ok ?ok m"
      using open_mailbox_is [OF off(3), of "\<not> timing_refused w \<and> \<not> image_refused w" "bem_configure w" w mode] bem_configure_is by blast
    have conf: "bem_configured w \<longleftrightarrow> \<not> off_mode mode \<and> \<not> noe_refused w \<and> ?ok"
      using Some by (auto simp: bem_configured_def switched_on_def off_mode_def)
    show ?thesis
    proof (cases "off_mode mode \<or> noe_refused w")
      case True
      then show ?thesis using conf False off Some noe_setting_refused [of w "bm_noe b"]
        by (auto simp: bem_initialise_device_def Let_def bm_state_def bm_inv_def)
    next
      case on: False
      then obtain noe where "noe_setting w (bm_noe b) = Some noe" using noe_setting_refused [of w "bm_noe b"] by auto
      moreover have "bem_configured w = ?ok" using conf on by simp
      ultimately show ?thesis using on False Some m by (simp add: bem_initialise_device_def Let_def bm_state_def bm_inv_def)
    qed
  qed
  then show ?thesis by (auto simp: bem_enabled_def)
qed

lemma bem_cycle_inv:
  "bm_state w b \<Longrightarrow> \<exists>x b'. bem_cycle a v wr b = Some (x, b') \<and> bm_state w b' \<and> bm_initialised b' = bm_initialised b"
  using bus_access_ok [of "bm_enabled b" "bm_mailbox b" a v wr] by (auto simp: bem_cycle_def bm_state_def bm_inv_def)

lemma bem_snoop_inv: "bm_state w b \<Longrightarrow> \<exists>b'. bem_snoop w a v wr b = Some b' \<and> bm_state w b' \<and> bm_initialised b'"
proof -
  assume "bm_state w b"
  then obtain b1 where b1: "bem_enabled w b = Some (bm_enabled b1, b1)" "bm_state w b1" "bm_initialised b1"
    using bem_enabled_inv by blast
  then show ?thesis using bem_cycle_inv [OF b1(2), of a v wr] by (auto simp: bem_snoop_def)
qed

lemma bem_exec_safe:
  assumes "bm_state w b"
  shows "\<exists>b'. bem_exec w op b = Some b' \<and> bm_state w b' \<and> bm_initialised b' = (bm_initialised b \<or> initialises op)"
proof -
  obtain b1 where b1: "bem_enabled w b = Some (bm_enabled b1, b1)" "bm_state w b1" "bm_initialised b1"
    using bem_enabled_inv [OF assms] by blast
  show ?thesis
  proof (cases op)
    case (Sync_Clock c)
    then show ?thesis using assms tick_fiq_ok [of "bm_mailbox b" "nat c"]
      by (auto simp: bem_run_host_cycles_def bm_state_def bm_inv_def)
  next
    case (Emu_Read a)
    then show ?thesis using bem_cycle_inv [OF assms, of a "0xFF" False] by (auto simp: bem_read_def)
  next
    case (Emu_Write a v)
    then show ?thesis using bem_cycle_inv [OF assms, of a v True] by (auto simp: bem_write_def)
  qed (use assms b1 bem_snoop_inv [OF assms] in
      \<open>auto simp: bem_handles_read_def bem_handles_write_def bem_snoop_read_def bem_snoop_write_def\<close>)
qed

subsection \<open>Both integrations\<close>

text \<open>
  The interface the two share: an operation never faults, keeps the state predicate, and the
  initialiser has run as soon as one of the hooks that call it was called.
\<close>

locale lazy_device =
  fixes exec :: "emu_op \<Rightarrow> 's \<Rightarrow> 's option" and state :: "'s \<Rightarrow> bool" and initialised :: "'s \<Rightarrow> bool" and start :: 's
  assumes exec_state: "state s \<Longrightarrow> \<exists>s'. exec op s = Some s' \<and> state s' \<and> initialised s' = (initialised s \<or> initialises op)"
    and start_state: "state start" "\<not> initialised start"
begin

lemma run_state: "state s \<Longrightarrow> \<exists>s'. run_ops exec ops s = Some s' \<and> state s' \<and> initialised s' = (initialised s \<or> list_ex initialises ops)"
proof (induction ops arbitrary: s)
  case (Cons op ops)
  then obtain s' where s': "exec op s = Some s'" "state s'" "initialised s' = (initialised s \<or> initialises op)"
    using exec_state [of s op] by auto
  then show ?case using Cons.IH [OF s'(2)] by auto
qed simp

lemma run_start: "\<exists>s. run_ops exec ops start = Some s \<and> state s \<and> initialised s = list_ex initialises ops"
  using run_state [of start ops] start_state by simp

end

interpretation elk: lazy_device "elk_exec w" "el_state w" el_initialised "elk_start opq" for w opq
  by unfold_locales (simp_all add: elk_exec_safe, simp_all add: el_state_def el_inv_def elk_start_def)

interpretation bem: lazy_device "bem_exec w" "bm_state w" bm_initialised "bem_start opq" for w opq
  by unfold_locales (simp_all add: bem_exec_safe, simp_all add: bm_state_def bm_inv_def bem_start_def)

text \<open>C28: Whatever the environment, the files and the backend are, no sequence of calls of their hooks
  makes one of the two integrations fault: the image is never loaded past the end of JIM, the mirror
  text never past its 160-byte array, and the mailbox never leaves its memory. The mailbox they own
  keeps its invariant; until the device is enabled, and after a configuration that failed, there is
  no backend and the mailbox has no memory.\<close>

theorem emulator_hooks_safe:
  "(\<exists>e. run_ops (elk_exec w) ops (elk_start opq) = Some e \<and> el_inv e) \<and>
   (\<exists>b. run_ops (bem_exec w) ops (bem_start opq) = Some b \<and> bm_inv b)"
  using elk.run_start [of w ops opq] bem.run_start [of w ops opq] by (auto simp: el_state_def bm_state_def)

subsection \<open>Faulty configurations\<close>

lemma el_state_enabled: "el_state w e \<Longrightarrow> el_enabled e \<longleftrightarrow> elk_configured w \<and> el_initialised e"
  unfolding el_state_def el_inv_def by blast

lemma bm_state_enabled: "bm_state w b \<Longrightarrow> bm_enabled b \<longleftrightarrow> bem_configured w \<and> bm_initialised b"
  unfolding bm_state_def bm_inv_def by blast

text \<open>A device that is not enabled: what its hooks answer.\<close>

lemma elk_off_inert:
  assumes "el_state w e" "\<not> el_enabled e" "\<not> elk_configured w"
  shows "\<not> el_backend e \<and> jim_size (el_mailbox e) = 0 \<and> map_option fst (elkulator_handles_read w a e) = Some False \<and>
     map_option fst (elkulator_handles_write w a e) = Some False \<and> map_option fst (elkulator_read a e) = Some 0xFF"
proof -
  obtain e1 where e1: "elkulator_enabled w e = Some (el_enabled e1, e1)" "el_state w e1" "el_initialised e1"
    using elkulator_enabled_inv [OF assms(1)] by blast
  moreover have "\<not> el_enabled e1" using e1(2, 3) assms(3) by (simp add: el_state_def)
  moreover have "\<not> el_backend e" "jim_size (el_mailbox e) = 0" using assms(1, 2) by (simp_all add: el_state_def el_inv_def mailbox_ok_def)
  ultimately show ?thesis
    by (simp add: elkulator_handles_read_def elkulator_handles_write_def elkulator_read_def mailbox_cycle_def bus_access_def)
qed

lemma bem_off_inert:
  assumes "bm_state w b" "\<not> bm_enabled b" "\<not> bem_configured w"
  shows "\<not> bm_backend b \<and> jim_size (bm_mailbox b) = 0 \<and> map_option fst (bem_handles_read w a b) = Some False \<and>
     map_option fst (bem_handles_write w a b) = Some False \<and> map_option fst (bem_read a b) = Some 0xFF"
proof -
  obtain b1 where b1: "bem_enabled w b = Some (bm_enabled b1, b1)" "bm_state w b1" "bm_initialised b1"
    using bem_enabled_inv [OF assms(1)] by blast
  moreover have "\<not> bm_enabled b1" using b1(2, 3) assms(3) by (simp add: bm_state_def)
  moreover have "\<not> bm_backend b" "jim_size (bm_mailbox b) = 0" using assms(1, 2) by (simp_all add: bm_state_def bm_inv_def mailbox_ok_def)
  ultimately show ?thesis by (simp add: bem_handles_read_def bem_handles_write_def bem_read_def bem_cycle_def bus_access_def)
qed

definition demo_world :: "(string \<Rightarrow> bytes option) \<Rightarrow> bytes \<Rightarrow> unit world" where
  "demo_world env img = \<lparr>getenv = env, open_file = (\<lambda>path. File img (length img) True), trace_opens = True, calloc_ok = True,
     net_backend_create = (\<lambda>mode trace ex. Some ()), net_backend_dispatch = (\<lambda>opq s p j k. (0, j, opq))\<rparr>"

text \<open>C29: After any sequence of hook calls a device is enabled exactly when one of the calls ran the
  initialiser and the configuration is acceptable: the mailbox is switched on, its backend and its
  memory could be had, NOE, profile and timing settings are valid, the image (if any) can be opened,
  sized, fits JIM from its valid address on and was read and closed without an error, the mirror
  text (if any) has a valid offset and only valid pairs, and the trace file (if any) opened. With
  any other configuration the device stays inert for good: no backend, no memory, no address claimed,
  and a read gives the idle bus value. b-em has no profile, mirror and trace settings.\<close>

theorem faulty_configuration_inert:
  "(\<exists>e. run_ops (elk_exec w) ops (elk_start opq) = Some e \<and>
      (el_enabled e \<longleftrightarrow> elk_configured w \<and> list_ex initialises ops) \<and>
      (\<not> elk_configured w \<longrightarrow> \<not> el_backend e \<and> jim_size (el_mailbox e) = 0 \<and>
         map_option fst (elkulator_handles_read w a e) = Some False \<and>
         map_option fst (elkulator_handles_write w a e) = Some False \<and> map_option fst (elkulator_read a e) = Some 0xFF)) \<and>
   (\<exists>b. run_ops (bem_exec w) ops (bem_start opq) = Some b \<and>
      (bm_enabled b \<longleftrightarrow> bem_configured w \<and> list_ex initialises ops) \<and>
      (\<not> bem_configured w \<longrightarrow> \<not> bm_backend b \<and> jim_size (bm_mailbox b) = 0 \<and>
         map_option fst (bem_handles_read w a b) = Some False \<and>
         map_option fst (bem_handles_write w a b) = Some False \<and> map_option fst (bem_read a b) = Some 0xFF))"
proof -
  obtain e where e: "run_ops (elk_exec w) ops (elk_start opq) = Some e" "el_state w e" "el_initialised e = list_ex initialises ops"
    using elk.run_start [of w ops opq] by blast
  obtain b where b: "run_ops (bem_exec w) ops (bem_start opq) = Some b" "bm_state w b" "bm_initialised b = list_ex initialises ops"
    using bem.run_start [of w ops opq] by blast
  have en: "el_enabled e \<longleftrightarrow> elk_configured w \<and> list_ex initialises ops" "bm_enabled b \<longleftrightarrow> bem_configured w \<and> list_ex initialises ops"
    using el_state_enabled [OF e(2)] bm_state_enabled [OF b(2)] e(3) b(3) by simp_all
  have "\<not> elk_configured w \<Longrightarrow> \<not> el_enabled e" "\<not> bem_configured w \<Longrightarrow> \<not> bm_enabled b" using en by simp_all
  note inert = elk_off_inert [OF e(2) this(1), of a] bem_off_inert [OF b(2) this(2), of a]
  show ?thesis
    by (intro conjI exI [of _ e] exI [of _ b] impI e(1) b(1) en) (use inert in blast)+
qed

text \<open>An image one byte too long for its address, which is the last byte of JIM.\<close>

definition oversize_world :: "unit world" where
  "oversize_world = demo_world [''PI1MHZ_MAILBOX'' \<mapsto> ascii ''fixture'', ''PI1MHZ_JIM_IMAGE'' \<mapsto> ascii ''f'',
     ''PI1MHZ_JIM_IMAGE_ADDRESS'' \<mapsto> ascii ''0x2FFFFFF''] [7, 8]"

theorem faulty_configuration_inert_witness:
  "\<exists>e. run_ops (elk_exec oversize_world) [Enabled, Emu_Write 0xFCAA 0xF0] (elk_start ()) = Some e \<and> \<not> el_enabled e \<and>
     \<not> el_backend e \<and> jim_size (el_mailbox e) = 0 \<and> map_option fst (elkulator_read 0xFCAA e) = Some 0xFF"
proof -
  have n: "whole_number (ascii ''0x2FFFFFF'') (int JIM_SIZE - 1) = Some 0x2FFFFFF"
    by (simp add: whole_number_def strtoul_def base_prefix_def digit_in_def digit_value_def ascii_def starts_with_def lower_def is_space_def is_digit_def Let_def)
  have "image_refused oversize_world"
    unfolding image_refused_def using n
    by (simp add: oversize_world_def demo_world_def setting_def file_refused_def ascii_def)
  then have "\<not> elk_configured oversize_world" by (simp add: elk_configured_def bem_configured_def)
  then show ?thesis using faulty_configuration_inert [of oversize_world "[Enabled, Emu_Write 0xFCAA 0xF0]" "()" "0xFCAA"] by blast
qed


subsection \<open>A preloaded image and the page window\<close>

text \<open>Memory and window are still blank, and page 0 is selected.\<close>

definition blank :: "'o mailbox \<Rightarrow> bool" where
  "blank m \<longleftrightarrow> ready m \<and> jim_size m = JIM_SIZE \<and> mb_page m = 0 \<and> (\<forall>i. jim m i = 0) \<and> (\<forall>i. page_window m i = 0) \<and> mirror_length m = 0"

lemma publish_window_blank:
  "mb_page m = 0 \<Longrightarrow> jim_size m = JIM_SIZE \<Longrightarrow> page_window (publish_page_window m) i = jim m i"
  by (simp add: publish_page_window_def page_base_address_def Let_def)

lemma mailbox_init_blank: "mailbox_init True m (Some f) b = Some (m', 0) \<Longrightarrow> blank m'"
proof -
  assume i: "mailbox_init True m (Some f) b = Some (m', 0)"
  then have "ready m'" using mailbox_init_inv [of m f b] by (auto simp: ready_def)
  then show ?thesis using i
    by (auto simp: mailbox_init_def Let_def bind_eq_Some_conv blank_def publish_window_blank mailbox_zero_def dest!: publish_cursor_frame)
qed

lemma apply_timing_blank:
  assumes "blank m" shows "\<exists>m'. apply_timing c b s cb p m = Some m' \<and> blank m'"
proof -
  obtain m' where m': "apply_timing c b s cb p m = Some m'" "ready m'" using apply_timing_ready [of m c b s cb p] assms by (auto simp: blank_def)
  then have "blank m'" using assms
    by (auto simp: apply_timing_def set_timing_def set_callback_timing_def bind_eq_Some_conv blank_def publish_window_blank
        dest!: publish_cursor_frame)
  then show ?thesis using m'(1) by blast
qed

lemma elk_configure_image:
  assumes "elk_configure w m = Some (m', True)" "blank m" "setting w ''PI1MHZ_JIM_IMAGE'' = Some path"
    "setting w ''PI1MHZ_JIM_IMAGE_ADDRESS'' = None" "open_file w path = File bs k closed" "setting w ''PI1MHZ_JIM_MIRROR'' = None"
  shows "\<exists>m1. blank m1 \<and> jim_load 0 bs m1 = Some m'"
proof -
  obtain m1 where c: "configure_fiq_timing 4 w m = Some (m1, \<not> timing_refused w)" "blank m1"
    using configure_fiq_timing_is [of blank, OF assms(2) apply_timing_blank, of w 4] by (auto simp: conf_is_def)
  have "preload_jim w m1 = Some (m', True)"
    using assms(1, 6) c(1) by (auto simp: elk_configure_def preload_mirror_def bind_eq_Some_conv split: if_splits)
  then have "jim_load 0 (take k bs) m1 = Some m'" "take k bs = bs"
    using assms(3-5) by (auto simp: preload_jim_def image_address_def bind_eq_Some_conv split: if_splits)
  then show ?thesis using c(2) by auto
qed

lemma open_mailbox_usable:
  assumes "open_mailbox conf w mode m = Some (m', True)"
  shows "\<exists>b m1. mailbox_init True m (Some (net_backend_dispatch w)) b = Some (m1, 0) \<and> conf m1 = Some (m', True)"
proof (cases "calloc_ok w")
  case True
  then show ?thesis using assms
    by (auto simp: open_mailbox_def bind_eq_Some_conv split: option.splits if_splits)
next
  case False
  then show ?thesis using assms by (simp add: open_mailbox_def mailbox_init_def split: option.splits)
qed

lemma enabled_mailbox:
  assumes "initialise_device w (elk_start opq) = Some e" "el_enabled e"
  shows "\<exists>m b m1. mailbox_init True m (Some (net_backend_dispatch w)) b = Some (m1, 0) \<and>
     elk_configure w m1 = Some (el_mailbox e, True)"
proof -
  obtain mode m where "open_mailbox (elk_configure w) w mode m = Some (el_mailbox e, True)"
    using assms
    by (auto simp: initialise_device_def elk_start_def Let_def open_trace_def shutdown_device_def bind_eq_Some_conv
        split: option.splits if_splits)
  then show ?thesis using open_mailbox_usable by blast
qed

text \<open>An image that is preloaded at the bottom of JIM is in memory, but the page window was published
  before it was loaded: until a page is selected, the host reads zeros at &FD00 although page 0 is
  selected and holds the image.\<close>

theorem preloaded_image_not_shown:
  assumes "initialise_device w (elk_start opq) = Some e" "el_enabled e" "setting w ''PI1MHZ_JIM_IMAGE'' = Some path"
    and "setting w ''PI1MHZ_JIM_IMAGE_ADDRESS'' = None" "open_file w path = File bs k closed" "setting w ''PI1MHZ_JIM_MIRROR'' = None"
    and "i < length bs" "i < 256"
  shows "jim (el_mailbox e) i = bs ! i \<and> elkulator_selected_page e = 0 \<and>
     map_option fst (elkulator_read (PAGE_BASE + word_of_nat i) e) = Some 0"
proof -
  obtain m b m1 where i: "mailbox_init True m (Some (net_backend_dispatch w)) b = Some (m1, 0)"
      "elk_configure w m1 = Some (el_mailbox e, True)"
    using enabled_mailbox [OF assms(1, 2)] by blast
  obtain m2 where m2: "blank m2" "jim_load 0 bs m2 = Some (el_mailbox e)"
    using elk_configure_image [OF i(2) mailbox_init_blank [OF i(1)] assms(3-6)] by blast
  have em: "el_mailbox e = m2\<lparr>jim := (\<lambda>i. if 0 \<le> i \<and> i < 0 + length bs then bs ! (i - 0) else jim m2 i)\<rparr>"
    by (rule jim_load_Some [OF m2(2)])
  have m: "jim_size (el_mailbox e) = JIM_SIZE" "mirror_length (el_mailbox e) = 0" "page_window (el_mailbox e) i = 0"
      "mb_page (el_mailbox e) = 0"
    using m2(1) by (simp_all add: em blank_def)
  have rdy: "ready (el_mailbox e)" using m2(1) by (simp add: em blank_def)
  have a: "PAGE_BASE \<le> PAGE_BASE + (word_of_nat i :: u16)" "PAGE_BASE + (word_of_nat i :: u16) \<le> PAGE_END"
      "unat ((PAGE_BASE + word_of_nat i :: u16) AND 0xFF) = i"
    using page_address [OF assms(8)] page_low_byte [of "PAGE_BASE + word_of_nat i"] assms(8)
    by (auto simp: word_le_nat_alt unat_of_nat)
  have "read_value (el_mailbox e) (PAGE_BASE + word_of_nat i) 0xFF = Some 0"
    using a m(2, 3) by (simp add: read_value_def Let_def)
  moreover obtain x m3 where "bus_access (el_mailbox e) (PAGE_BASE + word_of_nat i) 0xFF False = Some (x, m3)"
    using bus_access_ok [of True "el_mailbox e"] rdy by (metis mailbox_ok_simps)
  ultimately have "map_option fst (elkulator_read (PAGE_BASE + word_of_nat i) e) = Some 0"
    using m(1) by (auto simp: elkulator_read_def mailbox_cycle_def bus_access_def)
  moreover have "jim (el_mailbox e) i = bs ! i" using assms(7) by (simp add: em)
  ultimately show ?thesis using m(4) by (simp add: elkulator_selected_page_def)
qed

theorem preloaded_image_not_shown_witness:
  "\<exists>e. initialise_device (demo_world [''PI1MHZ_MAILBOX'' \<mapsto> ascii ''fixture'', ''PI1MHZ_JIM_IMAGE'' \<mapsto> ascii ''f''] [7, 8]) (elk_start ()) = Some e \<and>
     jim (el_mailbox e) 1 = 8 \<and> elkulator_selected_page e = 0 \<and> map_option fst (elkulator_read 0xFD01 e) = Some 0"
proof -
  let ?w = "demo_world [''PI1MHZ_MAILBOX'' \<mapsto> ascii ''fixture'', ''PI1MHZ_JIM_IMAGE'' \<mapsto> ascii ''f''] [7, 8]"
  have s: "setting ?w ''PI1MHZ_JIM_IMAGE'' = Some (ascii ''f'')" "setting ?w ''PI1MHZ_JIM_IMAGE_ADDRESS'' = None"
    "setting ?w ''PI1MHZ_JIM_MIRROR'' = None" "setting ?w ''PI1MHZ_SERVICE_DELAY_CYCLES'' = None"
    "setting ?w ''PI1MHZ_FIQ_DELAY_ACCESSES'' = None" "setting ?w ''PI1MHZ_BUS_TRACE'' = None"
    by (simp_all add: setting_def demo_world_def ascii_def)
  have "elk_configured ?w"
    using s by (simp add: elk_configured_def bem_configured_def switched_on_def backend_made_def noe_refused_def profile_refused_def
        timing_refused_def image_refused_def mirror_refused_def trace_refused_def file_refused_def)
      (simp add: demo_world_def ascii_def)
  moreover obtain e where e: "initialise_device ?w (elk_start ()) = Some e" "el_state ?w e" "el_initialised e"
    using initialise_device_inv [OF elk.start_state(1), of ?w "()"] by (auto simp: el_good_def)
  ultimately have en: "el_enabled e" using el_state_enabled by blast
  show ?thesis
    using e(1) preloaded_image_not_shown [OF e(1) en s(1, 2) _ s(3), of "[7, 8]" 2 True 1] by (simp add: demo_world_def)
qed

end
