(* ===== verification/Uef_Stream.thy ===== *)
theory Uef_Stream
  imports Service_Memory Uef_Repair
begin

section \<open>The incremental UEF stream (pi1mhz\_net\_backend.c)\<close>

text \<open>
  A cassette image reaches the emulated Pi in one of two ways: the host uploads it in pieces and
  asks for it to be finalised (\<open>incremental_uef_control\<close>), or a complete image lies in the JIM
  window and is normalised in place (\<open>normalize_uef_control\<close>). Either way the image is unpacked if
  it is a GZIP or a ZIP file, repaired (\<open>uef_repair.c\<close>), kept as a stream of up to 16 megabytes and
  shown to the host window by window in the JIM pages. A host may publish a guard image that
  occupies the top of every page; the stream is then laid out in shorter runs.

  \<open>uef_backend\<close> has the stream's fields of \<open>struct pi1mhz_net_backend\<close> and the two file-scope
  variables of the guard. The stream buffer is an array of \<open>UEF_STREAM_CAPACITY\<close> bytes; accesses
  outside it, outside JIM or outside a copy are faults (\<open>None\<close>). The scratch buffer has the
  capacity of the stream buffer and is only a copy of it, a byte list here. Differences of
  \<open>size_t\<close> wrap at 64 bits (\<open>size_sub\<close>).

  zlib and \<open>malloc\<close> are outside the repository: \<open>z_inflate\<close> is a call of \<open>inflateInit2\<close> and
  \<open>inflate(..., Z_FINISH)\<close> with the window bits, the space there is and the source, and gives
  \<open>None\<close> when the initialisation fails and otherwise the result code and the bytes written.
  Trace output is not modelled.
\<close>

abbreviation NET_OK :: u8 where "NET_OK \<equiv> 0"
abbreviation NET_ERR_PARAM :: u8 where "NET_ERR_PARAM \<equiv> 0x23"
abbreviation NET_ERR_CONN :: u8 where "NET_ERR_CONN \<equiv> 0x25"
abbreviation UEF_STREAM_VERSION :: u8 where "UEF_STREAM_VERSION \<equiv> 1"
abbreviation UEF_OP_PROBE :: u8 where "UEF_OP_PROBE \<equiv> 0"
abbreviation UEF_OP_BEGIN :: u8 where "UEF_OP_BEGIN \<equiv> 1"
abbreviation UEF_OP_APPEND :: u8 where "UEF_OP_APPEND \<equiv> 2"
abbreviation UEF_OP_FINALIZE :: u8 where "UEF_OP_FINALIZE \<equiv> 3"
abbreviation UEF_OP_REWIND :: u8 where "UEF_OP_REWIND \<equiv> 4"
abbreviation UEF_OP_REFILL :: u8 where "UEF_OP_REFILL \<equiv> 5"
abbreviation UEF_OP_CLOSE :: u8 where "UEF_OP_CLOSE \<equiv> 6"
abbreviation UEF_OP_REPUBLISH :: u8 where "UEF_OP_REPUBLISH \<equiv> 7"
abbreviation UEF_CAPACITY :: nat where "UEF_CAPACITY \<equiv> 0xFFFE"
abbreviation (input) UEF_FIRST_PAGE :: nat where "UEF_FIRST_PAGE \<equiv> 1"
abbreviation UEF_FLAT_WINDOW :: nat where "UEF_FLAT_WINDOW \<equiv> 254 * 256"
abbreviation UEF_GUARD_OFFSET :: nat where "UEF_GUARD_OFFSET \<equiv> 0x97"
abbreviation UEF_GUARD_LENGTH :: nat where "UEF_GUARD_LENGTH \<equiv> 105"
abbreviation UEF_GUARD_WINDOW :: nat where "UEF_GUARD_WINDOW \<equiv> 254 * 0x97"
abbreviation UEF_UPLOAD_MAX :: nat where "UEF_UPLOAD_MAX \<equiv> 0xFF00"
abbreviation UEF_STREAM_CAPACITY :: nat where "UEF_STREAM_CAPACITY \<equiv> 0x1000000"
abbreviation Z_STREAM_END :: int where "Z_STREAM_END \<equiv> 1"
abbreviation Z_BUF_ERROR :: int where "Z_BUF_ERROR \<equiv> -5"
abbreviation MAX_WBITS :: int where "MAX_WBITS \<equiv> 15"

record uef_env =
  z_inflate :: "int \<Rightarrow> nat \<Rightarrow> bytes \<Rightarrow> (int \<times> bytes) option"
  z_crc32 :: "bytes \<Rightarrow> u32"
  heap_has :: "nat \<Rightarrow> bool"

record uef_backend =
  uef_trim_tail :: bool
  uef_filev_repair :: bool
  uef_stream :: mem
  uef_stream_length :: nat
  uef_stream_cursor :: nat
  uef_published_offset :: nat
  uef_published_length :: u16
  uef_stream_token :: u32
  uef_window_generation :: u32
  uef_last_append_sequence :: u32
  uef_last_append_crc :: u32
  uef_last_append_length :: u16
  uef_published_final :: bool
  uef_stream_ready :: bool
  uef_upload_active :: bool
  uef_stream_format :: u8
  guard_image :: bytes
  guard_image_valid :: bool

type_synonym uef_result = "(u8 \<times> uef_backend \<times> mem) option"

definition size_sub :: "nat \<Rightarrow> nat \<Rightarrow> nat" where
  "size_sub a b = (if b \<le> a then a - b else 2 ^ 64 + a - b)"

subsection \<open>Recognising images\<close>

definition is_raw_uef :: "bytes \<Rightarrow> bool" where
  "is_raw_uef d \<longleftrightarrow> 10 \<le> length d \<and> take 10 d = ascii ''UEF File!'' @ [0]"

function wicfs_loop :: "bytes \<Rightarrow> nat \<Rightarrow> nat \<Rightarrow> bool \<Rightarrow> nat option" where
  "wicfs_loop w position effective saw_data =
     (if position < length w then
        if length w - position < 6 then Some (length w)
        else do {
          chunk_type \<leftarrow> rd16 (rd8 w) position;
          chunk_length \<leftarrow> rd32 (rd8 w) (position + 2);
          let position' = position + 6;
          if length w - position' < unat chunk_length then Some (length w)
          else let position'' = position' + unat chunk_length in
            if chunk_type = 0x0100 then wicfs_loop w position'' position'' True
            else wicfs_loop w position'' effective saw_data }
      else Some (if saw_data then effective else length w))"
  by pat_completeness auto
termination
  by (relation "measure (\<lambda>(w, p, _). length w - p)") auto

declare wicfs_loop.simps [simp del]

definition wicfs_stream_length :: "bytes \<Rightarrow> nat option" where
  "wicfs_stream_length w =
     (if \<not> is_raw_uef w \<or> length w < 12 then Some (length w) else wicfs_loop w 12 (length w) False)"

definition zip_end_at :: "bytes \<Rightarrow> nat \<Rightarrow> bool option" where
  "zip_end_at s pos = do {
     magic \<leftarrow> rd32 (rd8 s) pos; disk \<leftarrow> rd16 (rd8 s) (pos + 4); cd_disk \<leftarrow> rd16 (rd8 s) (pos + 6);
     here \<leftarrow> rd16 (rd8 s) (pos + 8); entries \<leftarrow> rd16 (rd8 s) (pos + 10); comment \<leftarrow> rd16 (rd8 s) (pos + 20);
     Some (magic = 0x06054B50 \<and> disk = 0 \<and> cd_disk = 0 \<and> here = 1 \<and> entries = 1 \<and>
       unat comment = length s - pos - 22) }"

fun zip_scan :: "bytes \<Rightarrow> nat \<Rightarrow> bool option" where
  "zip_scan s 0 = zip_end_at s 0"
| "zip_scan s (Suc pos) = do { found \<leftarrow> zip_end_at s (Suc pos); if found then Some True else zip_scan s pos }"

definition zip_has_one_entry :: "bytes \<Rightarrow> bool option" where
  "zip_has_one_entry s = (if length s < 22 then Some False else zip_scan s (length s - 22))"

text \<open>The destination is an array of \<open>lim\<close> bytes, of which \<open>capacity\<close> are offered to zlib.\<close>

definition inflate_bytes :: "uef_env \<Rightarrow> mem \<Rightarrow> nat \<Rightarrow> nat \<Rightarrow> bytes \<Rightarrow> int \<Rightarrow> nat \<Rightarrow> (int \<times> mem \<times> nat) option" where
  "inflate_bytes e dst lim capacity src window_bits output_length =
     (case z_inflate e window_bits capacity src of
        None \<Rightarrow> Some (-1, dst, output_length)
      | Some (result, out) \<Rightarrow> do {
          dst' \<leftarrow> mem_put dst lim 0 out;
          Some (if result = Z_BUF_ERROR \<and> length out = capacity then 1
                else if result = Z_STREAM_END then 0 else -1, dst', length out) })"

text \<open>The fields of the local header of a ZIP member, and where its data starts.\<close>

record zip_header =
  zh_flags :: u16
  zh_method :: u16
  zh_crc :: u32
  zh_compressed :: u32
  zh_expected :: u32
  zh_data :: nat

definition zip_local_header :: "bytes \<Rightarrow> zip_header option" where
  "zip_local_header s = do {
     flags \<leftarrow> rd16 (rd8 s) 6; method \<leftarrow> rd16 (rd8 s) 8; crc \<leftarrow> rd32 (rd8 s) 14;
     compressed \<leftarrow> rd32 (rd8 s) 18; expected \<leftarrow> rd32 (rd8 s) 22;
     n \<leftarrow> rd16 (rd8 s) 26; x \<leftarrow> rd16 (rd8 s) 28;
     Some \<lparr>zh_flags = flags, zh_method = method, zh_crc = crc, zh_compressed = compressed,
       zh_expected = expected, zh_data = 30 + unat n + unat x\<rparr> }"

definition zip_refused :: "zip_header \<Rightarrow> nat \<Rightarrow> bool" where
  "zip_refused z len \<longleftrightarrow> zh_flags z AND 9 \<noteq> 0 \<or> zh_method z \<noteq> 0 \<and> zh_method z \<noteq> 8 \<or>
     len < zh_data z \<or> len - zh_data z < unat (zh_compressed z)"

definition is_gzip :: "bytes \<Rightarrow> bool" where
  "is_gzip s \<longleftrightarrow> 2 \<le> length s \<and> s ! 0 = 0x1F \<and> s ! 1 = 0x8B"

definition is_zip :: "bytes \<Rightarrow> bool option" where
  "is_zip s = (if length s < 30 then Some False else do {
     magic \<leftarrow> rd32 (rd8 s) 0;
     if magic \<noteq> 0x04034B50 then Some False else zip_has_one_entry s })"

text \<open>
  The member of a ZIP file, copied or inflated to the front of the destination. The result is that
  of \<open>inflate_bytes\<close>.
\<close>

definition zip_member :: "uef_env \<Rightarrow> mem \<Rightarrow> nat \<Rightarrow> nat \<Rightarrow> bytes \<Rightarrow> zip_header \<Rightarrow> (int \<times> mem \<times> nat) option" where
  "zip_member e dst lim capacity s z = do {
     src \<leftarrow> rd_range s (zh_data z) (unat (zh_compressed z));
     if zh_method z = 0 then do {
       dst' \<leftarrow> mem_put dst lim 0 src;
       Some (if zh_compressed z = zh_expected z then 0 else -1, dst', unat (zh_compressed z)) }
     else inflate_bytes e dst lim capacity src (- MAX_WBITS) 0 }"

subsection \<open>Normalising a complete image in the window\<close>

definition RAW :: bytes where "RAW = ascii ''RAW'' @ [CR, LF]"
definition GZIP :: bytes where "GZIP = ascii ''GZIP'' @ [CR, LF]"
definition ZIP :: bytes where "ZIP = ascii ''ZIP'' @ [CR, LF]"
definition INVALID :: bytes where "INVALID = ascii ''INVALID'' @ [CR, LF]"
definition TOO_LARGE :: bytes where "TOO_LARGE = ascii ''TOO LARGE'' @ [CR, LF]"

text \<open>
  The reply text and the length of the image now at the front of the window; \<open>None\<close> inside stands
  for a failed \<open>malloc\<close>.
\<close>

definition normalize_gzip :: "uef_env \<Rightarrow> nat \<Rightarrow> mem \<Rightarrow> bytes \<Rightarrow> bytes \<Rightarrow> nat \<Rightarrow> ((bytes \<times> nat) option \<times> mem) option" where
  "normalize_gzip e lim m s format output_length = do {
     (result, m1, out) \<leftarrow> inflate_bytes e m lim UEF_CAPACITY s (MAX_WBITS + 16) output_length;
     w \<leftarrow> mem_get m1 lim 0 out;
     Some (Some (if result = 1 then TOO_LARGE
                 else if result \<noteq> 0 \<or> \<not> is_raw_uef w then INVALID else format, out), m1) }"

definition normalize_zip :: "uef_env \<Rightarrow> nat \<Rightarrow> mem \<Rightarrow> bytes \<Rightarrow> ((bytes \<times> nat) option \<times> mem) option" where
  "normalize_zip e lim m s = do {
     z \<leftarrow> zip_local_header s;
     if zip_refused z (length s) then Some (Some (INVALID, 0), m)
     else if UEF_CAPACITY < unat (zh_expected z) then Some (Some (TOO_LARGE, 0), m)
     else do {
       (result, m1, out) \<leftarrow> zip_member e m lim UEF_CAPACITY s z;
       w \<leftarrow> mem_get m1 lim 0 out;
       if result = 1 then Some (Some (TOO_LARGE, out), m1)
       else if result \<noteq> 0 \<or> out \<noteq> unat (zh_expected z) \<or> z_crc32 e w \<noteq> zh_crc z
       then Some (Some (INVALID, out), m1)
       else if is_raw_uef w then Some (Some (ZIP, out), m1)
       else if is_gzip w then
         (if heap_has e out then normalize_gzip e lim m1 w ZIP out else Some (None, m1))
       else Some (Some (INVALID, out), m1) } }"

definition normalize_window :: "uef_env \<Rightarrow> nat \<Rightarrow> mem \<Rightarrow> bytes \<Rightarrow> ((bytes \<times> nat) option \<times> mem) option" where
  "normalize_window e lim m s =
     (if is_raw_uef s then Some (Some (RAW, length s), m)
      else if \<not> heap_has e (length s) then Some (None, m)
      else if is_gzip s then normalize_gzip e lim m s GZIP 0
      else do { zip \<leftarrow> is_zip s; if zip then normalize_zip e lim m s else Some (Some (INVALID, 0), m) })"

definition next_token :: "u32 \<Rightarrow> u32" where
  "next_token t = (if t + 1 = 0 then t + 1 + 1 else t + 1)"

text \<open>The FILEV repair of the whole stream, which \<open>uef_repair.c\<close> makes in place.\<close>

definition repair_stream_in_place :: "uef_backend \<Rightarrow> uef_backend option" where
  "repair_stream_in_place b =
     (if uef_filev_repair b then do {
        w \<leftarrow> mem_get (uef_stream b) UEF_STREAM_CAPACITY 0 (uef_stream_length b);
        (w', repaired) \<leftarrow> uef_repair_filev_stamp (Some w) (uef_stream_length b);
        s \<leftarrow> mem_put (uef_stream b) UEF_STREAM_CAPACITY 0 w';
        Some (b\<lparr>uef_stream := s\<rparr>) }
      else Some b)"

definition put_length :: "nat \<Rightarrow> nat \<Rightarrow> mem \<Rightarrow> mem option" where
  "put_length lim n m = mem_put m lim UEF_CAPACITY [word_of_nat n, word_of_nat (n div 256)]"

definition normalized_stream :: "uef_backend \<Rightarrow> nat \<Rightarrow> nat \<Rightarrow> mem \<Rightarrow> bytes \<Rightarrow> nat \<Rightarrow> uef_result" where
  "normalized_stream b lim cmd m format out = do {
     w \<leftarrow> mem_get m lim 0 out;
     len \<leftarrow> if uef_trim_tail b then wicfs_stream_length w else Some out;
     s \<leftarrow> mem_put (uef_stream b) UEF_STREAM_CAPACITY 0 (take len w);
     b1 \<leftarrow> repair_stream_in_place (b\<lparr>uef_stream := s, uef_stream_length := len\<rparr>);
     m1 \<leftarrow> put_length lim len m;
     m2 \<leftarrow> mem_put m1 lim (cmd + 1) (format @ [0]);
     m3 \<leftarrow> mem_put m2 lim (cmd + 17) [0x31];
     Some (NET_OK, b1\<lparr>uef_stream_cursor := 0, uef_stream_ready := True, uef_upload_active := False,
       uef_stream_token := next_token (uef_stream_token b1), uef_stream_format := hd format\<rparr>, m3) }"

definition normalize_uef_control :: "uef_env \<Rightarrow> uef_backend \<Rightarrow> nat \<Rightarrow> nat \<Rightarrow> mem \<Rightarrow> uef_result" where
  "normalize_uef_control e b lim cmd m =
     (if lim < 0x10000 then Some (NET_ERR_PARAM, b, m)
      else let len = unat (le16 (m UEF_CAPACITY) (m (UEF_CAPACITY + 1))) in
      if len = 0 \<or> UEF_CAPACITY < len
      then do { m1 \<leftarrow> mem_put m lim (cmd + 1) (INVALID @ [0]); Some (NET_OK, b, m1) }
      else do {
        s \<leftarrow> mem_get m lim 0 len;
        (r, m1) \<leftarrow> normalize_window e lim m s;
        case r of None \<Rightarrow> Some (NET_ERR_CONN, b, m1)
        | Some (format, out) \<Rightarrow>
            if format = TOO_LARGE \<or> format = INVALID
            then do { m2 \<leftarrow> mem_put m1 lim (cmd + 1) (format @ [0]); Some (NET_OK, b, m2) }
            else normalized_stream b lim cmd m1 format out })"

subsection \<open>The published window\<close>

definition uef_reply_bytes :: "uef_backend \<Rightarrow> bytes" where
  "uef_reply_bytes b =
     (let t = uef_stream_token b; g = uef_window_generation b; n = uef_published_length b in
      ascii ''IUEF'' @ [UEF_STREAM_VERSION,
        byte_of t 0, byte_of t 1, byte_of t 2, byte_of t 3,
        byte_of g 0, byte_of g 1, byte_of g 2, byte_of g 3,
        byte_of n 0, byte_of n 1, if uef_published_final b then 1 else 0, uef_stream_format b, 0])"

definition uef_stream_reply :: "uef_backend \<Rightarrow> nat \<Rightarrow> nat \<Rightarrow> mem \<Rightarrow> mem option" where
  "uef_stream_reply b lim cmd m = mem_put m lim (cmd + 1) (uef_reply_bytes b)"

fun put_all :: "nat \<Rightarrow> (nat \<times> bytes) list \<Rightarrow> mem \<Rightarrow> mem option" where
  "put_all lim [] m = Some m"
| "put_all lim ((off, bs) # ps) m = do { m' \<leftarrow> mem_put m lim off bs; put_all lim ps m' }"

definition guard_stamp :: "uef_backend \<Rightarrow> nat \<Rightarrow> mem \<Rightarrow> mem option" where
  "guard_stamp b lim m =
     (if guard_image_valid b
      then put_all lim (map (\<lambda>page. (256 * page + UEF_GUARD_OFFSET, guard_image b)) [UEF_FIRST_PAGE..<256]) m
      else Some m)"

function scatter_loop :: "nat \<Rightarrow> nat \<Rightarrow> bytes \<Rightarrow> mem \<Rightarrow> mem option" where
  "scatter_loop lim page source m =
     (if source = [] then Some m
      else do {
        m' \<leftarrow> mem_put m lim (256 * (page + UEF_FIRST_PAGE)) (take UEF_GUARD_OFFSET source);
        scatter_loop lim (page + 1) (drop UEF_GUARD_OFFSET source) m' })"
  by pat_completeness auto
termination
  by (relation "measure (\<lambda>(_, _, source, _). length source)") auto

declare scatter_loop.simps [simp del]

definition uef_window_scatter :: "uef_backend \<Rightarrow> nat \<Rightarrow> bytes \<Rightarrow> mem \<Rightarrow> mem option" where
  "uef_window_scatter b lim source m = do { m1 \<leftarrow> scatter_loop lim 0 source m; guard_stamp b lim m1 }"

text \<open>The bytes from \<open>offset\<close> on, laid out in the shape the guard asks for.\<close>

definition show_window :: "uef_backend \<Rightarrow> nat \<Rightarrow> nat \<Rightarrow> nat \<Rightarrow> mem \<Rightarrow> mem option" where
  "show_window b lim offset count m = do {
     source \<leftarrow> mem_get (uef_stream b) UEF_STREAM_CAPACITY offset count;
     if guard_image_valid b then uef_window_scatter b lim source m
     else mem_put m lim (256 * UEF_FIRST_PAGE) source }"

definition window_limit :: "uef_backend \<Rightarrow> nat" where
  "window_limit b = (if guard_image_valid b then UEF_GUARD_WINDOW else UEF_FLAT_WINDOW)"

definition uef_stream_publish :: "uef_backend \<Rightarrow> nat \<Rightarrow> mem \<Rightarrow> (uef_backend \<times> mem) option" where
  "uef_stream_publish b lim m =
     (let available = size_sub (uef_stream_length b) (uef_stream_cursor b);
          count = (if available < window_limit b then available else window_limit b);
          cursor = uef_stream_cursor b + count in do {
      m1 \<leftarrow> if count = 0 then Some m else show_window b lim (uef_stream_cursor b) count m;
      m2 \<leftarrow> put_length lim count m1;
      Some (b\<lparr>uef_published_offset := uef_stream_cursor b, uef_stream_cursor := cursor,
        uef_published_length := word_of_nat count, uef_published_final := cursor = uef_stream_length b\<rparr>, m2) })"

definition uef_stream_republish :: "uef_backend \<Rightarrow> nat \<Rightarrow> mem \<Rightarrow> mem option" where
  "uef_stream_republish b lim m =
     (if uef_published_length b = 0 then Some m
      else do {
        m1 \<leftarrow> show_window b lim (uef_published_offset b) (unat (uef_published_length b)) m;
        put_length lim (unat (uef_published_length b)) m1 })"

definition uef_window_relayout :: "uef_backend \<Rightarrow> nat \<Rightarrow> mem \<Rightarrow> (uef_backend \<times> mem) option" where
  "uef_window_relayout b lim m =
     (if uef_stream_ready b then uef_stream_publish (b\<lparr>uef_stream_cursor := uef_published_offset b\<rparr>) lim m
      else Some (b, m))"

definition uef_stream_clear :: "uef_backend \<Rightarrow> nat \<Rightarrow> mem \<Rightarrow> (uef_backend \<times> mem) option" where
  "uef_stream_clear b lim m = do {
     m1 \<leftarrow> put_length lim 0 m;
     Some (b\<lparr>uef_stream_length := 0, uef_stream_cursor := 0, uef_published_offset := 0, uef_published_length := 0,
       uef_window_generation := 0, uef_last_append_sequence := 0xFFFFFFFF, uef_last_append_crc := 0,
       uef_last_append_length := 0, uef_published_final := False, uef_stream_ready := False,
       uef_upload_active := False, uef_stream_format := 0\<rparr>, m1) }"

subsection \<open>The incremental protocol\<close>

text \<open>
  The operations of \<open>incremental_uef_control\<close>. Each gives \<open>None\<close> when control goes on to the common
  reply, and \<open>Some st\<close> when the operation returns \<open>st\<close> itself.
\<close>

type_synonym uef_op_result = "(u8 option \<times> uef_backend \<times> mem) option"

definition uef_begin :: "uef_backend \<Rightarrow> nat \<Rightarrow> mem \<Rightarrow> uef_op_result" where
  "uef_begin b lim m = do {
     (b1, m1) \<leftarrow> uef_stream_clear b lim m;
     Some (None, b1\<lparr>uef_upload_active := True, uef_stream_token := next_token (uef_stream_token b1)\<rparr>, m1) }"

definition append_bytes :: "uef_backend \<Rightarrow> nat \<Rightarrow> mem \<Rightarrow> u32 \<Rightarrow> u16 \<Rightarrow> u32 \<Rightarrow> bytes \<Rightarrow> u32 \<Rightarrow> uef_op_result" where
  "append_bytes b lim m value len crc bs actual_crc =
     (if value = uef_window_generation b then
        if size_sub UEF_STREAM_CAPACITY (uef_stream_length b) < unat len then Some (Some NET_ERR_PARAM, b, m)
        else if crc \<noteq> 0 \<and> crc \<noteq> actual_crc then Some (Some NET_ERR_PARAM, b, m)
        else do {
          s \<leftarrow> mem_put (uef_stream b) UEF_STREAM_CAPACITY (uef_stream_length b) bs;
          Some (None, b\<lparr>uef_stream := s, uef_stream_length := uef_stream_length b + unat len,
            uef_last_append_sequence := value, uef_last_append_length := len, uef_last_append_crc := actual_crc,
            uef_window_generation := uef_window_generation b + 1\<rparr>, m) }
      else if value + 1 \<noteq> uef_window_generation b \<or> value \<noteq> uef_last_append_sequence b \<or>
          len \<noteq> uef_last_append_length b \<or> actual_crc \<noteq> uef_last_append_crc b \<or> crc \<noteq> 0 \<and> crc \<noteq> actual_crc
      then Some (Some NET_ERR_PARAM, b, m)
      else Some (None, b, m))"

definition uef_append :: "uef_env \<Rightarrow> uef_backend \<Rightarrow> nat \<Rightarrow> mem \<Rightarrow> u32 \<Rightarrow> u32 \<Rightarrow> u16 \<Rightarrow> u32 \<Rightarrow> uef_op_result" where
  "uef_append e b lim m token value length16 crc = do {
     let token' = (if token = 0 then uef_stream_token b else token);
     len \<leftarrow> if length16 = 0 then rd16 (mem_rd m lim) UEF_CAPACITY else Some length16;
     if \<not> uef_upload_active b \<or> token' \<noteq> uef_stream_token b \<or> len = 0 \<or> UEF_UPLOAD_MAX < unat len
     then Some (Some NET_ERR_PARAM, b, m)
     else do {
       bs \<leftarrow> mem_get m lim 0 (unat len);
       append_bytes b lim m value len crc bs (z_crc32 e bs) } }"

text \<open>
  Unpacking at FINALIZE: the reply text that ends the operation, or the length and the format of
  the image now at the front of the stream buffer. The results of \<open>inflate_bytes\<close> are compared
  with \<open>Z_BUF_ERROR\<close>, as the source does.
\<close>

definition finalize_gzip :: "uef_env \<Rightarrow> mem \<Rightarrow> bytes \<Rightarrow> ((bytes + nat) \<times> mem) option" where
  "finalize_gzip e st s = do {
     (result, st1, out) \<leftarrow> inflate_bytes e st UEF_STREAM_CAPACITY UEF_STREAM_CAPACITY s (MAX_WBITS + 16) 0;
     w \<leftarrow> mem_get st1 UEF_STREAM_CAPACITY 0 out;
     Some (if result = Z_BUF_ERROR then Inl TOO_LARGE
           else if result \<noteq> 0 \<or> \<not> is_raw_uef w then Inl INVALID else Inr out, st1) }"

definition finalize_zip :: "uef_env \<Rightarrow> mem \<Rightarrow> bytes \<Rightarrow> ((bytes + nat) \<times> mem) option" where
  "finalize_zip e st s = do {
     z \<leftarrow> zip_local_header s;
     if UEF_STREAM_CAPACITY < unat (zh_expected z) then Some (Inl TOO_LARGE, st)
     else if zip_refused z (length s) then Some (Inl INVALID, st)
     else do {
       (result, st1, out) \<leftarrow> zip_member e st UEF_STREAM_CAPACITY UEF_STREAM_CAPACITY s z;
       w \<leftarrow> mem_get st1 UEF_STREAM_CAPACITY 0 out;
       if result = Z_BUF_ERROR then Some (Inl TOO_LARGE, st1)
       else if result \<noteq> 0 \<or> out \<noteq> unat (zh_expected z) \<or> z_crc32 e w \<noteq> zh_crc z then Some (Inl INVALID, st1)
       else if is_raw_uef w then Some (Inr out, st1)
       else if is_gzip w then finalize_gzip e st1 w
       else Some (Inl INVALID, st1) } }"

definition finalize_unpack :: "uef_env \<Rightarrow> mem \<Rightarrow> bytes \<Rightarrow> ((bytes + nat \<times> u8) \<times> mem) option" where
  "finalize_unpack e st s =
     (if is_raw_uef s then Some (Inr (length s, 0x52), st)
      else if is_gzip s then do {
        (r, st1) \<leftarrow> finalize_gzip e st s; Some (map_sum id (\<lambda>n. (n, 0x47)) r, st1) }
      else do {
        zip \<leftarrow> is_zip s;
        if zip then do { (r, st1) \<leftarrow> finalize_zip e st s; Some (map_sum id (\<lambda>n. (n, 0x5A)) r, st1) }
        else Some (Inl INVALID, st) })"

definition uef_finalize :: "uef_env \<Rightarrow> uef_backend \<Rightarrow> nat \<Rightarrow> nat \<Rightarrow> mem \<Rightarrow> u32 \<Rightarrow> uef_op_result" where
  "uef_finalize e b lim cmd m token =
     (let token' = (if token = 0 then uef_stream_token b else token) in
      if \<not> uef_upload_active b \<or> token' \<noteq> uef_stream_token b \<or> uef_stream_length b = 0
      then Some (Some NET_ERR_PARAM, b, m)
      else do {
        s \<leftarrow> mem_get (uef_stream b) UEF_STREAM_CAPACITY 0 (uef_stream_length b);
        (r, st) \<leftarrow> finalize_unpack e (uef_stream b) s;
        case r of
          Inl message \<Rightarrow> do {
            m1 \<leftarrow> mem_put m lim (cmd + 1) (message @ [0]);
            Some (Some NET_OK, b\<lparr>uef_stream := st\<rparr>, m1) }
        | Inr (normalized, format) \<Rightarrow> do {
            b1 \<leftarrow> repair_stream_in_place (b\<lparr>uef_stream := st, uef_stream_format := format, uef_stream_length := normalized\<rparr>);
            (b2, m1) \<leftarrow> uef_stream_publish (b1\<lparr>uef_stream_cursor := 0, uef_stream_ready := True,
              uef_upload_active := False, uef_window_generation := uef_window_generation b1 + 1\<rparr>) lim m;
            Some (None, b2, m1) } })"

definition stream_refused :: "uef_backend \<Rightarrow> u32 \<Rightarrow> bool" where
  "stream_refused b token \<longleftrightarrow> \<not> uef_stream_ready b \<or> token \<noteq> 0 \<and> token \<noteq> uef_stream_token b"

definition uef_rewind :: "uef_backend \<Rightarrow> nat \<Rightarrow> mem \<Rightarrow> u32 \<Rightarrow> uef_op_result" where
  "uef_rewind b lim m token =
     (if stream_refused b token then Some (Some NET_ERR_PARAM, b, m)
      else do {
        (b1, m1) \<leftarrow> uef_stream_publish (b\<lparr>uef_stream_cursor := 0,
          uef_window_generation := uef_window_generation b + 1\<rparr>) lim m;
        Some (None, b1, m1) })"

definition uef_refill :: "uef_backend \<Rightarrow> nat \<Rightarrow> mem \<Rightarrow> u32 \<Rightarrow> u32 \<Rightarrow> uef_op_result" where
  "uef_refill b lim m token value =
     (if stream_refused b token then Some (Some NET_ERR_PARAM, b, m)
      else if token = 0 \<and> value = 0 \<or> value = 0xFFFFFFFF \<or> value = uef_window_generation b then do {
        (b1, m1) \<leftarrow> uef_stream_publish (b\<lparr>uef_window_generation := uef_window_generation b + 1\<rparr>) lim m;
        Some (None, b1, m1) }
      else if value + 1 = uef_window_generation b then do { m1 \<leftarrow> uef_stream_republish b lim m; Some (None, b, m1) }
      else Some (Some NET_ERR_PARAM, b, m))"

definition uef_republish :: "uef_backend \<Rightarrow> nat \<Rightarrow> mem \<Rightarrow> u32 \<Rightarrow> uef_op_result" where
  "uef_republish b lim m token =
     (if stream_refused b token then Some (Some NET_ERR_PARAM, b, m)
      else do { m1 \<leftarrow> uef_stream_republish b lim m; Some (None, b, m1) })"

definition uef_close :: "uef_backend \<Rightarrow> nat \<Rightarrow> mem \<Rightarrow> u32 \<Rightarrow> uef_op_result" where
  "uef_close b lim m token =
     (if token \<noteq> 0 \<and> token \<noteq> uef_stream_token b then Some (Some NET_ERR_PARAM, b, m)
      else do { (b1, m1) \<leftarrow> uef_stream_clear b lim m; Some (None, b1, m1) })"

text \<open>The operation a command page asks for, and the whole command.\<close>

definition uef_operate :: "uef_env \<Rightarrow> uef_backend \<Rightarrow> nat \<Rightarrow> nat \<Rightarrow> mem \<Rightarrow> u8 \<Rightarrow> u32 \<Rightarrow> u32 \<Rightarrow> u16 \<Rightarrow> u32 \<Rightarrow> uef_op_result" where
  "uef_operate e b lim cmd m operation token value len crc =
     (if operation = UEF_OP_PROBE then Some (None, b, m)
      else if operation = UEF_OP_BEGIN then uef_begin b lim m
      else if operation = UEF_OP_APPEND then uef_append e b lim m token value len crc
      else if operation = UEF_OP_FINALIZE then uef_finalize e b lim cmd m token
      else if operation = UEF_OP_REWIND then uef_rewind b lim m token
      else if operation = UEF_OP_REFILL then uef_refill b lim m token value
      else if operation = UEF_OP_REPUBLISH then uef_republish b lim m token
      else if operation = UEF_OP_CLOSE then uef_close b lim m token
      else Some (Some NET_ERR_PARAM, b, m))"

definition incremental_uef_control :: "uef_env \<Rightarrow> uef_backend \<Rightarrow> nat \<Rightarrow> nat \<Rightarrow> mem \<Rightarrow> uef_result" where
  "incremental_uef_control e b lim cmd m = do {
     operation \<leftarrow> mem_rd m lim (cmd + 6);
     token \<leftarrow> rd32 (mem_rd m lim) (cmd + 7);
     value \<leftarrow> rd32 (mem_rd m lim) (cmd + 11);
     len \<leftarrow> rd16 (mem_rd m lim) (cmd + 15);
     crc \<leftarrow> rd32 (mem_rd m lim) (cmd + 17);
     (st, b1, m1) \<leftarrow> uef_operate e b lim cmd m operation token value len crc;
     case st of Some status \<Rightarrow> Some (status, b1, m1)
     | None \<Rightarrow> do { m2 \<leftarrow> uef_stream_reply b1 lim cmd m1; Some (NET_OK, b1, m2) } }"

definition elkwifi_response :: "nat \<Rightarrow> nat \<Rightarrow> bytes \<Rightarrow> mem \<Rightarrow> mem option" where
  "elkwifi_response lim cmd response m = mem_put m lim (cmd + 1) (take 220 response @ [0])"

text \<open>The guard command of the dispatcher.\<close>

definition guard_command :: "uef_backend \<Rightarrow> nat \<Rightarrow> nat \<Rightarrow> mem \<Rightarrow> uef_result" where
  "guard_command b lim cmd m = do {
     len \<leftarrow> mem_rd m lim (cmd + 1);
     if len = 0 then do {
       (b1, m1) \<leftarrow> uef_window_relayout (b\<lparr>guard_image := replicate UEF_GUARD_LENGTH 0, guard_image_valid := False\<rparr>) lim m;
       m2 \<leftarrow> elkwifi_response lim cmd (ascii ''OFF'' @ [CR, LF]) m1;
       Some (NET_OK, b1, m2) }
     else if unat len \<noteq> UEF_GUARD_LENGTH then Some (NET_ERR_PARAM, b, m)
     else do {
       image \<leftarrow> mem_get m lim (cmd + 2) UEF_GUARD_LENGTH;
       let b1 = b\<lparr>guard_image := image, guard_image_valid := True\<rparr>;
       m1 \<leftarrow> guard_stamp b1 lim m;
       (b2, m2) \<leftarrow> uef_window_relayout b1 lim m1;
       m3 \<leftarrow> elkwifi_response lim cmd (ascii ''OK'' @ [CR, LF]) m2;
       Some (NET_OK, b2, m3) } }"

subsection \<open>Creation\<close>

text \<open>
  The stream's part of \<open>pi1mhz_net_backend_create\<close>: the texts are the values of
  \<open>PI1MHZ_UEF_TRIM_TAIL\<close> and \<open>PI1MHZ_UEF_FILEV_REPAIR\<close>, the rest is cleared by \<open>calloc\<close>, and
  the stream buffer is what \<open>malloc\<close> gives.
\<close>

definition env_is :: "bytes option \<Rightarrow> bytes \<Rightarrow> bytes list \<Rightarrow> bool" where
  "env_is v exact words = (case v of None \<Rightarrow> False | Some t \<Rightarrow> t = exact \<or> map lower t \<in> set words)"

definition uef_create :: "bytes option \<Rightarrow> bytes option \<Rightarrow> mem \<Rightarrow> uef_backend" where
  "uef_create trim repair junk =
     \<lparr>uef_trim_tail = env_is trim (ascii ''1'') [ascii ''yes'', ascii ''true'', ascii ''on''],
      uef_filev_repair = (\<not> env_is repair (ascii ''0'') [ascii ''no'', ascii ''false'', ascii ''off'']),
      uef_stream = junk, uef_stream_length = 0, uef_stream_cursor = 0, uef_published_offset = 0,
      uef_published_length = 0, uef_stream_token = 0, uef_window_generation = 0, uef_last_append_sequence = 0,
      uef_last_append_crc = 0, uef_last_append_length = 0, uef_published_final = False,
      uef_stream_ready = False, uef_upload_active = False, uef_stream_format = 0,
      guard_image = replicate UEF_GUARD_LENGTH 0, guard_image_valid = False\<rparr>"

end
