(* ===== verification/Net_Handles.thy ===== *)
theory Net_Handles
  imports Uef_Stream
begin

section \<open>Network handles (pi1mhz\_net\_backend.c)\<close>

text \<open>
  A handle is \<open>struct net_handle\<close>. Its character arrays are the C strings they hold, \<open>response\<close> is the
  filled part of its array (8192 bytes, one of them for a terminator), and \<open>fixture_data\<close> is the
  data the pointer of that name points to. In fixture mode a handle delivers canned
  data in small pieces; in live mode it drives a non-blocking socket and strips the header of an
  HTTP reply.

  The operating system is outside the repository. \<open>net_env\<close> holds what it answers during one
  command: the addresses a name resolves to with what \<open>socket\<close> and \<open>connect\<close> say for each, the state
  of a pending connection, what \<open>send\<close> accepts, what the first and the second \<open>recv\<close> of the
  command deliver, the IPv4 addresses of a raw lookup, and the reads from \<open>/dev/urandom\<close>. Trace output is not modelled.
\<close>

abbreviation NET_PENDING :: u8 where "NET_PENDING \<equiv> 1"
abbreviation NET_EOF :: u8 where "NET_EOF \<equiv> 0x20"
abbreviation NET_ERR_INUSE :: u8 where "NET_ERR_INUSE \<equiv> 0x21"
abbreviation NET_ERR_NOTOPEN :: u8 where "NET_ERR_NOTOPEN \<equiv> 0x22"
abbreviation NET_ERR_DNS :: u8 where "NET_ERR_DNS \<equiv> 0x24"
abbreviation NET_UNSUPPORTED :: u8 where "NET_UNSUPPORTED \<equiv> 0x27"
abbreviation NET_ERR_TCP_CLOSED :: u8 where "NET_ERR_TCP_CLOSED \<equiv> 0x2B"

datatype connecting = Connected | In_Progress | Refused
datatype socket_state = Still_Connecting | Socket_Ready | Socket_Error
datatype sending = Accepted nat | Send_Again | Send_Error
datatype receiving = Arrived bytes | Recv_Again | Recv_Error

record net_env =
  resolved :: "(int \<times> connecting) list option"
  socket_state :: socket_state
  sending :: sending
  recv_first :: receiving
  recv_second :: receiving
  lookup :: "bytes option list option"
  urandom :: "bytes list option"

record net_handle =
  fd :: int
  is_opening :: bool
  opened :: bool
  open_polls :: u32
  read_index :: u32
  url :: bytes
  fixture_data :: bytes
  fixture_length :: nat
  fixture_at :: nat
  http :: bool
  raw_allocated :: bool
  raw_type :: u8
  request :: bytes
  request_sent :: nat
  response :: bytes
  response_pos :: nat
  headers_done :: bool
  http_has_length :: bool
  http_content_length :: nat
  http_body_read :: nat

definition handle_new :: net_handle where
  "handle_new = \<lparr>fd = -1, is_opening = False, opened = False, open_polls = 0, read_index = 0, url = [], fixture_data = [],
     fixture_length = 0, fixture_at = 0, http = False, raw_allocated = False, raw_type = 0, request = [], request_sent = 0,
     response = [], response_pos = 0, headers_done = False, http_has_length = False, http_content_length = 0, http_body_read = 0\<rparr>"

text \<open>A handle command: its status, the handle and the memory.\<close>

type_synonym handle_result = "(u8 \<times> net_handle \<times> mem) option"

subsection \<open>URLs\<close>

text \<open>\<open>colon\<close> of the source: the text behind the last colon, and what is in front of that colon.\<close>

fun split_last_colon :: "bytes \<Rightarrow> (bytes \<times> bytes) option" where
  "split_last_colon [] = None"
| "split_last_colon (c # cs) = (case split_last_colon cs of
     Some (a, p) \<Rightarrow> Some (c # a, p)
   | None \<Rightarrow> if c = 0x3A then Some ([], cs) else None)"

definition url_scheme :: "bytes \<Rightarrow> (bytes \<times> bytes \<times> bool) option" where
  "url_scheme u =
     (if starts_nocase (ascii ''http://'') u then Some (drop 7 u, ascii ''80'', True)
      else if starts_nocase (ascii ''tcp://'') u \<or> starts_nocase (ascii ''udp://'') u then Some (drop 6 u, ascii ''22'', False)
      else if starts_nocase (ascii ''telnet://'') u then Some (drop 9 u, ascii ''23'', False)
      else None)"

record url_parts =
  up_host :: bytes
  up_port :: bytes
  up_path :: bytes
  up_http :: bool

text \<open>
  The arrays have room for 192, 16 and 224 characters with their terminators; the outer \<open>None\<close> is a
  store outside one of them, the inner one the error return.
\<close>

definition parse_url :: "bytes \<Rightarrow> url_parts option option" where
  "parse_url u = (case url_scheme u of None \<Rightarrow> Some None
     | Some (rest, default_port, is_http) \<Rightarrow>
         let authority = takeWhile (\<lambda>c. c \<noteq> 0x2F) rest;
             tail = dropWhile (\<lambda>c. c \<noteq> 0x2F) rest;
             path = (if is_http \<and> tail \<noteq> [] then tail else [0x2F]) in
         if is_http \<and> 224 \<le> length path then Some None
         else do {
           p \<leftarrow> fitting 224 path;
           case split_last_colon authority of
             Some (host, port) \<Rightarrow>
               if host = [] \<or> 192 \<le> length host \<or> 16 \<le> length port then Some None
               else do {
                 h \<leftarrow> fitting 192 host;
                 q \<leftarrow> fitting 16 port;
                 Some (Some \<lparr>up_host = h, up_port = q, up_path = p, up_http = is_http\<rparr>) }
           | None \<Rightarrow>
               if authority = [] \<or> 192 \<le> length authority then Some None
               else do {
                 h \<leftarrow> fitting 192 authority;
                 Some (Some \<lparr>up_host = h, up_port = default_port, up_path = p, up_http = is_http\<rparr>) } })"

subsection \<open>Opening a live connection\<close>

definition http_request :: "bytes \<Rightarrow> bytes \<Rightarrow> bytes" where
  "http_request path host = ascii ''GET '' @ path @ ascii '' HTTP/1.0'' @ [CR, LF] @ ascii ''Host: '' @ host @ [CR, LF] @
     ascii ''User-Agent: Pi1MHz-Elkulator'' @ [CR, LF] @ ascii ''Connection: close'' @ [CR, LF, CR, LF]"

definition send_request :: "net_env \<Rightarrow> net_handle \<Rightarrow> u8 \<times> net_handle" where
  "send_request e h = (case sending e of
     Send_Again \<Rightarrow> (NET_PENDING, h)
   | Send_Error \<Rightarrow> (NET_ERR_CONN, h)
   | Accepted k \<Rightarrow>
       let n = min k (length (request h) - request_sent h); h1 = h\<lparr>request_sent := request_sent h + n\<rparr> in
       if n = 0 then (NET_ERR_CONN, h)
       else if request_sent h1 \<noteq> length (request h1) then (NET_PENDING, h1)
       else (NET_OK, h1\<lparr>opened := True\<rparr>))"

definition live_finish_open :: "net_env \<Rightarrow> url_parts \<Rightarrow> net_handle \<Rightarrow> u8 \<times> net_handle" where
  "live_finish_open e u h =
     (if \<not> http h then (NET_OK, h\<lparr>opened := True\<rparr>)
      else let h1 = (if request h = [] then h\<lparr>request := http_request (up_path u) (up_host u)\<rparr> else h) in
        if request h = [] \<and> 512 \<le> length (request h1) then (NET_ERR_PARAM, h)
        else send_request e h1)"

fun dial :: "net_env \<Rightarrow> url_parts \<Rightarrow> (int \<times> connecting) list \<Rightarrow> net_handle \<Rightarrow> u8 \<times> net_handle" where
  "dial e u [] h = (NET_ERR_CONN, h)"
| "dial e u ((s, r) # as) h =
     (if s < 0 then dial e u as (h\<lparr>fd := s\<rparr>)
      else case r of
        Connected \<Rightarrow> live_finish_open e u (h\<lparr>fd := s\<rparr>)
      | In_Progress \<Rightarrow> (NET_PENDING, h\<lparr>fd := s, is_opening := True\<rparr>)
      | Refused \<Rightarrow> dial e u as (h\<lparr>fd := -1\<rparr>))"

definition live_open_handle :: "net_env \<Rightarrow> net_handle \<Rightarrow> (u8 \<times> net_handle) option" where
  "live_open_handle e h = map_option (\<lambda>p. case p of None \<Rightarrow> (NET_ERR_PARAM, h)
     | Some u \<Rightarrow>
         let h1 = h\<lparr>http := up_http u\<rparr> in
         if is_opening h1 then (case socket_state e of
             Still_Connecting \<Rightarrow> (NET_PENDING, h1)
           | Socket_Error \<Rightarrow> (NET_ERR_CONN, h1\<lparr>fd := -1, is_opening := False\<rparr>)
           | Socket_Ready \<Rightarrow> live_finish_open e u (h1\<lparr>is_opening := False\<rparr>))
         else if 0 \<le> fd h1 then live_finish_open e u h1
         else case resolved e of None \<Rightarrow> (NET_ERR_DNS, h1) | Some as \<Rightarrow> dial e u as h1) (parse_url (url h))"

subsection \<open>The commands of a handle\<close>

text \<open>Memory addresses are those of the service memory, which has \<open>lim\<close> bytes.\<close>

definition wr24 :: "nat \<Rightarrow> nat \<Rightarrow> u32 \<Rightarrow> mem \<Rightarrow> mem option" where
  "wr24 lim p v m = mem_put m lim p [byte_of v 0, byte_of v 1, byte_of v 2]"

definition handle_count :: "u8 \<Rightarrow> net_handle \<Rightarrow> nat \<Rightarrow> nat \<Rightarrow> nat \<Rightarrow> mem \<Rightarrow> handle_result" where
  "handle_count st h lim cmd n m = do { m' \<leftarrow> wr24 lim (cmd + 1) (word_of_nat n) m; Some (st, h, m') }"

definition fixture_telnet :: bytes where
  "fixture_telnet = [27] @ ascii ''[2J'' @ [27] @ ascii ''[2;3HPi1MHz mailbox OK'' @ [CR, LF]"

definition fixture_ssh_identification :: bytes where
  "fixture_ssh_identification = ascii ''Emulated Pi1MHz service'' @ [CR, LF] @ ascii ''SSH-2.0-Pi1MHzFixture_1.0'' @ [CR, LF]"

definition fixture_ssh_shell :: bytes where
  "fixture_ssh_shell = ascii ''discarded'' @ [27] @ ascii ''[2J'' @ [27] @ ascii ''[2;3HPi1MHz SSH shell OK'' @ [CR, LF]"

definition fixture_chunks :: "nat list" where
  "fixture_chunks = [1, 2, 7, 3, 31]"

definition wr32be :: "u32 \<Rightarrow> bytes" where
  "wr32be v = [byte_of v 3, byte_of v 2, byte_of v 1, byte_of v 0]"

definition ssh_string :: "bytes \<Rightarrow> bytes" where
  "ssh_string t = wr32be (word_of_nat (length t)) @ t"

definition kexinit_names :: "bytes list" where
  "kexinit_names = [ascii ''curve25519-sha256'', ascii ''ssh-ed25519'', ascii ''aes128-ctr'', ascii ''aes128-ctr'',
     ascii ''hmac-sha2-256'', ascii ''hmac-sha2-256'', ascii ''none'', ascii ''none'', [], []]"

definition kexinit_payload :: bytes where
  "kexinit_payload = [20] @ map (\<lambda>i. word_of_nat (0x10 + i)) [0..<16] @ concat (map ssh_string kexinit_names) @ [0] @ replicate 4 0"

definition kexinit_padding :: nat where
  "kexinit_padding = (let p = (8 - (5 + length kexinit_payload) mod 8) mod 8 in if p < 4 then p + 8 else p)"

definition build_fixture_kexinit :: bytes where
  "build_fixture_kexinit = wr32be (word_of_nat (1 + length kexinit_payload + kexinit_padding)) @ [word_of_nat kexinit_padding] @
     kexinit_payload @ map (\<lambda>i. word_of_nat (0x80 + i)) [0..<kexinit_padding]"

definition do_open :: "bool \<Rightarrow> net_env \<Rightarrow> net_handle \<Rightarrow> nat \<Rightarrow> nat \<Rightarrow> mem \<Rightarrow> handle_result" where
  "do_open live e h lim cmd m = do {
     page \<leftarrow> mem_get m lim (cmd + 2) 221;
     let text = cstr page;
     if 221 \<le> length text then Some (NET_ERR_PARAM, h, m)
     else
       let h1 = (if \<not> is_opening h \<and> \<not> opened h \<and> open_polls h = 0 then h\<lparr>url := text\<rparr> else h) in
       if live then do { (st, h2) \<leftarrow> live_open_handle e h1; Some (st, h2, m) }
       else
         let h2 = h1\<lparr>open_polls := open_polls h1 + 1\<rparr> in
         if open_polls h1 = 0 then Some (NET_PENDING, h2, m)
         else if starts_nocase (ascii ''telnet://'') (url h2)
         then Some (NET_OK, h2\<lparr>opened := True, fixture_data := fixture_telnet, fixture_length := length fixture_telnet\<rparr>, m)
         else if starts_nocase (ascii ''tcp://'') (url h2)
         then let d = fixture_ssh_identification @ build_fixture_kexinit in
           if length d \<le> 1024 then Some (NET_OK, h2\<lparr>opened := True, fixture_data := d, fixture_length := length d\<rparr>, m) else None
         else Some (NET_UNSUPPORTED, h2\<lparr>opened := False\<rparr>, m) }"

text \<open>\<open>strstr\<close>: the offset of the first occurrence.\<close>

fun find_sub :: "bytes \<Rightarrow> bytes \<Rightarrow> nat option" where
  "find_sub p [] = (if p = [] then Some 0 else None)"
| "find_sub p (c # cs) = (if starts_with p (c # cs) then Some 0 else map_option Suc (find_sub p cs))"

definition content_length :: "bytes \<Rightarrow> nat \<Rightarrow> nat option" where
  "content_length text separator = (case find_sub ([CR, LF] @ ascii ''Content-Length:'') text of
     None \<Rightarrow> None
   | Some field \<Rightarrow> if field < separator then
       let s = drop (field + 17) text; (v, range, rest) = strtoul 10 s in if rest = s then None else Some (nat v)
     else None)"

text \<open>What to do with newly arrived header bytes: \<open>Inl\<close> is the count-less or zero-count return of the command.\<close>

definition http_header :: "net_handle \<Rightarrow> (u8 \<times> bool \<times> net_handle) + net_handle" where
  "http_header h = (case find_sub [CR, LF, CR, LF] (cstr (response h)) of
     None \<Rightarrow> Inl (NET_OK, True, h)
   | Some separator \<Rightarrow>
       if length (response h) < 12 \<or> take 7 (response h) \<noteq> ascii ''HTTP/1.'' \<or> response h ! 9 \<noteq> 0x32
       then Inl (NET_ERR_CONN, False, h)
       else let h1 = (case content_length (cstr (response h)) separator of None \<Rightarrow> h
                | Some n \<Rightarrow> h\<lparr>http_has_length := True, http_content_length := n\<rparr>) in
         Inr (h1\<lparr>response := drop (separator + 4) (response h), headers_done := True\<rparr>))"

definition receive_header :: "net_env \<Rightarrow> net_handle \<Rightarrow> (u8 \<times> bool \<times> net_handle) + net_handle" where
  "receive_header e h =
     (if 8191 \<le> length (response h) then Inl (NET_ERR_CONN, False, h)
      else case recv_first e of
        Recv_Again \<Rightarrow> Inl (NET_OK, True, h)
      | Recv_Error \<Rightarrow> Inl (NET_ERR_CONN, True, h)
      | Arrived bs \<Rightarrow> let got = take (8191 - length (response h)) bs in
          if got = [] then Inl (NET_ERR_CONN, False, h) else http_header (h\<lparr>response := response h @ got\<rparr>))"

definition read_body :: "net_env \<Rightarrow> net_handle \<Rightarrow> nat \<Rightarrow> nat \<Rightarrow> nat \<Rightarrow> nat \<Rightarrow> mem \<Rightarrow> handle_result" where
  "read_body e h lim cmd maximum destination m =
     (if http h \<and> response_pos h < length (response h) then do {
        let copied = seg (response h) (response_pos h) maximum;
        m1 \<leftarrow> mem_put m lim destination copied;
        handle_count NET_OK (h\<lparr>response_pos := response_pos h + length copied, http_body_read := http_body_read h + length copied\<rparr>)
          lim cmd (length copied) m1 }
      else case recv_second e of
        Recv_Again \<Rightarrow> handle_count NET_OK h lim cmd 0 m
      | Recv_Error \<Rightarrow> handle_count NET_ERR_CONN h lim cmd 0 m
      | Arrived bs \<Rightarrow> let got = take maximum bs in
          if got = [] then handle_count (if http_has_length h \<and> http_body_read h < http_content_length h then NET_ERR_TCP_CLOSED else NET_EOF) h lim cmd 0 m
          else do {
            m1 \<leftarrow> mem_put m lim destination got;
            handle_count NET_OK (if http h then h\<lparr>http_body_read := http_body_read h + length got\<rparr> else h) lim cmd (length got) m1 })"

definition read_fixture :: "net_handle \<Rightarrow> nat \<Rightarrow> nat \<Rightarrow> nat \<Rightarrow> nat \<Rightarrow> mem \<Rightarrow> handle_result" where
  "read_fixture h lim cmd maximum destination m =
     (if fixture_length h \<le> fixture_at h then handle_count NET_EOF h lim cmd 0 m
      else do {
        let count = min (min maximum (fixture_chunks ! (unat (read_index h) mod 5))) (fixture_length h - fixture_at h);
        bs \<leftarrow> rd_range (fixture_data h) (fixture_at h) count;
        m1 \<leftarrow> mem_put m lim destination bs;
        handle_count NET_OK (h\<lparr>read_index := read_index h + 1, fixture_at := fixture_at h + count\<rparr>) lim cmd count m1 })"

definition do_read :: "bool \<Rightarrow> net_env \<Rightarrow> net_handle \<Rightarrow> nat \<Rightarrow> nat \<Rightarrow> mem \<Rightarrow> handle_result" where
  "do_read live e h lim cmd m = do {
     maximum \<leftarrow> rd24 (mem_rd m lim) (cmd + 1);
     destination \<leftarrow> rd32 (mem_rd m lim) (cmd + 4);
     if \<not> opened h then Some (NET_ERR_NOTOPEN, h, m)
     else if lim \<le> unat destination \<or> lim - unat destination < unat maximum then Some (NET_ERR_PARAM, h, m)
     else if \<not> live then read_fixture h lim cmd (unat maximum) (unat destination) m
     else if http h \<and> \<not> headers_done h then (case receive_header e h of
         Inl (st, counted, h1) \<Rightarrow> if counted then handle_count st h1 lim cmd 0 m else Some (st, h1, m)
       | Inr h1 \<Rightarrow> read_body e h1 lim cmd (unat maximum) (unat destination) m)
     else read_body e h lim cmd (unat maximum) (unat destination) m }"

definition do_write :: "bool \<Rightarrow> net_env \<Rightarrow> net_handle \<Rightarrow> nat \<Rightarrow> nat \<Rightarrow> mem \<Rightarrow> handle_result" where
  "do_write live e h lim cmd m = do {
     len \<leftarrow> rd24 (mem_rd m lim) (cmd + 1);
     source \<leftarrow> rd32 (mem_rd m lim) (cmd + 4);
     if \<not> opened h then Some (NET_ERR_NOTOPEN, h, m)
     else if lim \<le> unat source \<or> lim - unat source < unat len then Some (NET_ERR_PARAM, h, m)
     else if live then (case sending e of
         Send_Again \<Rightarrow> handle_count NET_OK h lim cmd 0 m
       | Send_Error \<Rightarrow> handle_count NET_ERR_CONN h lim cmd 0 m
       | Accepted k \<Rightarrow> handle_count NET_OK h lim cmd (min k (unat len)) m)
     else handle_count NET_OK h lim cmd (min 5 (unat len)) m }"

text \<open>Whether the process goes on: with \<open>exit_on_close\<close> set, closing a handle ends it.\<close>

definition do_close :: "net_handle \<Rightarrow> net_handle" where
  "do_close h = h\<lparr>fd := -1, is_opening := False, opened := False, request := [], request_sent := 0, response := [], response_pos := 0,
     headers_done := False, http_has_length := False, http_content_length := 0, http_body_read := 0, raw_allocated := False, raw_type := 0\<rparr>"

subsection \<open>Raw sockets\<close>

fun first_ipv4 :: "bytes option list \<Rightarrow> bytes option" where
  "first_ipv4 [] = None"
| "first_ipv4 (Some a # as) = Some a"
| "first_ipv4 (None # as) = first_ipv4 as"

definition do_raw_open :: "net_handle \<Rightarrow> nat \<Rightarrow> nat \<Rightarrow> mem \<Rightarrow> handle_result" where
  "do_raw_open h lim cmd m = do {
     t \<leftarrow> mem_rd m lim (cmd + 1);
     if 1 < t then Some (NET_UNSUPPORTED, h, m)
     else if raw_allocated h \<or> opened h \<or> is_opening h then Some (NET_ERR_INUSE, h, m)
     else Some (NET_OK, h\<lparr>raw_allocated := True, raw_type := t, http := False\<rparr>, m) }"

definition do_raw_dns :: "net_env \<Rightarrow> net_handle \<Rightarrow> nat \<Rightarrow> nat \<Rightarrow> mem \<Rightarrow> handle_result" where
  "do_raw_dns e h lim cmd m = do {
     page \<leftarrow> mem_get m lim (cmd + 1) 223;
     if \<not> raw_allocated h \<or> 0 \<notin> set page then Some (NET_ERR_PARAM, h, m)
     else case lookup e of None \<Rightarrow> Some (NET_ERR_DNS, h, m)
     | Some as \<Rightarrow> (case first_ipv4 as of None \<Rightarrow> Some (NET_ERR_DNS, h, m)
         | Some a \<Rightarrow> do { m' \<leftarrow> mem_put m lim (cmd + 4) (take 4 a); Some (NET_OK, h, m') }) }"

definition do_raw_connect :: "bool \<Rightarrow> net_env \<Rightarrow> net_handle \<Rightarrow> nat \<Rightarrow> nat \<Rightarrow> mem \<Rightarrow> handle_result" where
  "do_raw_connect live e h lim cmd m = do {
     b \<leftarrow> mem_get m lim (cmd + 1) 6;
     let port = unat (le16 (b ! 4) (b ! 5));
     if \<not> raw_allocated h then Some (NET_ERR_NOTOPEN, h, m)
     else if port = 0 then Some (NET_ERR_PARAM, h, m)
     else
       let h1 = (if \<not> is_opening h \<and> \<not> opened h \<and> fd h < 0
                 then h\<lparr>url := ascii (if raw_type h \<noteq> 0 then ''UDP'' else ''TCP'') @ ascii ''://'' @ dec (unat (b ! 0)) @ ascii ''.'' @
                   dec (unat (b ! 1)) @ ascii ''.'' @ dec (unat (b ! 2)) @ ascii ''.'' @ dec (unat (b ! 3)) @ ascii '':'' @ dec port @ ascii ''/''\<rparr>
                 else h) in
       if \<not> live then Some (NET_OK, h1\<lparr>opened := True\<rparr>, m)
       else do { (st, h2) \<leftarrow> live_open_handle e h1; Some (st, h2, m) } }"

end
