(* ===== verification/Wifi.thy ===== *)
theory Wifi
  imports Uef_Stream
begin

section \<open>The WiFi fixture (pi1mhz\_net\_backend.c)\<close>

text \<open>
  \<open>wifi\<close> has the WiFi fields of \<open>struct pi1mhz_net_backend\<close>. The character arrays are the C strings
  they hold; storing a text that does not fit its array with its terminator is a fault
  (\<open>None\<close>), as is an access outside JIM. The profile file is threaded through the
  calls as its contents, \<open>None\<close> when it does not exist. What the outside world answers during one
  command is in \<open>wifi_env\<close>: the monotonic clock, in milliseconds, as \<open>wifi_update\<close> and as
  \<open>wifi_start_join\<close> read it, and what becomes of a profile that is written. Trace output is not
  modelled.
\<close>

abbreviation ELKWIFI_CMD_STATUS :: u8 where "ELKWIFI_CMD_STATUS \<equiv> 80"
abbreviation ELKWIFI_CMD_SCAN :: u8 where "ELKWIFI_CMD_SCAN \<equiv> 81"
abbreviation ELKWIFI_CMD_JOIN :: u8 where "ELKWIFI_CMD_JOIN \<equiv> 82"
abbreviation ELKWIFI_CMD_IFCFG :: u8 where "ELKWIFI_CMD_IFCFG \<equiv> 83"
abbreviation ELKWIFI_CMD_LAPOPT :: u8 where "ELKWIFI_CMD_LAPOPT \<equiv> 87"
abbreviation ELKWIFI_CMD_PING :: u8 where "ELKWIFI_CMD_PING \<equiv> 88"
abbreviation ELKWIFI_CMD_DATETIME :: u8 where "ELKWIFI_CMD_DATETIME \<equiv> 89"
abbreviation ELKWIFI_CMD_CANCEL :: u8 where "ELKWIFI_CMD_CANCEL \<equiv> 90"
abbreviation ELKWIFI_CMD_RADIO :: u8 where "ELKWIFI_CMD_RADIO \<equiv> 91"
abbreviation ELKWIFI_CMD_ONLINE :: u8 where "ELKWIFI_CMD_ONLINE \<equiv> 92"
abbreviation ELKWIFI_ERR_PARAM :: u8 where "ELKWIFI_ERR_PARAM \<equiv> 0x40"
abbreviation ELKWIFI_ERR_NO_WIFI :: u8 where "ELKWIFI_ERR_NO_WIFI \<equiv> 0x44"
abbreviation ELKWIFI_ERR_IO :: u8 where "ELKWIFI_ERR_IO \<equiv> 0x45"
abbreviation ELKWIFI_UNKNOWN :: u8 where "ELKWIFI_UNKNOWN \<equiv> 0x42"

record wifi =
  wifi_ssid :: bytes
  wifi_password :: bytes
  wifi_security :: bytes
  wifi_profile_path :: bytes
  wifi_present :: bool
  wifi_enabled :: bool
  wifi_associated :: bool
  wifi_has_address :: bool
  wifi_connecting :: bool
  wifi_associate_at_ms :: nat
  wifi_dhcp_at_ms :: nat
  wifi_associate_delay_ms :: nat
  wifi_dhcp_delay_ms :: nat
  scan_fields :: nat

datatype saving = Saved | Open_Fails | Fdopen_Fails | Write_Fails nat

record wifi_env =
  update_ms :: nat
  join_ms :: nat
  saving :: saving

type_synonym wifi_result = "(u8 \<times> wifi \<times> bytes option \<times> mem) option"

definition crlf_text :: "string \<Rightarrow> bytes" where
  "crlf_text s = ascii s @ [CR, LF]"

definition ok_text :: "bytes \<Rightarrow> bytes" where
  "ok_text t = t @ [CR, LF, CR, LF] @ crlf_text ''OK''"

definition env_unsigned :: "bytes option \<Rightarrow> nat \<Rightarrow> nat" where
  "env_unsigned text fallback = (case text of None \<Rightarrow> fallback
     | Some t \<Rightarrow> if t = [] then fallback
         else let (v, range, rest) = strtoul 10 t in
           if range \<or> rest \<noteq> [] \<or> 60000 < v then fallback else nat v)"

subsection \<open>Joining\<close>

definition wifi_start_join :: "nat \<Rightarrow> wifi \<Rightarrow> wifi" where
  "wifi_start_join now w = w\<lparr>wifi_enabled := True, wifi_connecting := True, wifi_associated := False, wifi_has_address := False,
     wifi_associate_at_ms := now + wifi_associate_delay_ms w,
     wifi_dhcp_at_ms := now + wifi_associate_delay_ms w + wifi_dhcp_delay_ms w\<rparr>"

definition wifi_update :: "nat \<Rightarrow> wifi \<Rightarrow> wifi" where
  "wifi_update now w =
     (if \<not> wifi_connecting w then w
      else let w1 = (if \<not> wifi_associated w \<and> wifi_associate_at_ms w \<le> now then w\<lparr>wifi_associated := True\<rparr> else w) in
        if wifi_associated w1 \<and> wifi_dhcp_at_ms w1 \<le> now
        then w1\<lparr>wifi_has_address := True, wifi_connecting := False\<rparr> else w1)"

subsection \<open>Credentials and the profile\<close>

definition wifi_hex_key :: "bytes \<Rightarrow> bool" where
  "wifi_hex_key v = list_all (\<lambda>c. is_digit c \<or> 0x61 \<le> c \<and> c \<le> 0x66 \<or> 0x41 \<le> c \<and> c \<le> 0x46) v"

definition wifi_credentials_valid :: "bytes \<Rightarrow> bytes \<Rightarrow> bytes \<Rightarrow> bool" where
  "wifi_credentials_valid ssid password security =
     (let n = length password in
      if ssid = [] \<or> 32 < length ssid \<or> 64 < n then False
      else if security = ascii ''OPEN'' then n = 0
      else if security = ascii ''AUTO'' then n = 0 \<or> 8 \<le> n \<and> n \<le> 63
      else if security = ascii ''WPA'' \<or> security = ascii ''WPA2'' then 8 \<le> n \<and> n \<le> 63
      else if security = ascii ''WEP'' then n = 5 \<or> n = 13 \<or> (n = 10 \<or> n = 26) \<and> wifi_hex_key password
      else False)"

fun wifi_modes :: "bytes \<Rightarrow> bytes list \<Rightarrow> (bytes \<times> bytes) option" where
  "wifi_modes input [] = None"
| "wifi_modes input (mode # modes) =
     (if starts_nocase (map lower mode) input \<and> length mode < length input \<and> input ! length mode = 0x3A
      then Some (mode, drop (length mode + 1) input) else wifi_modes input modes)"

definition wifi_parse_credentials :: "bytes \<Rightarrow> bytes \<times> bytes" where
  "wifi_parse_credentials input =
     (if map lower input = ascii ''open'' then (ascii ''OPEN'', [])
      else case wifi_modes input [ascii ''AUTO'', ascii ''WPA'', ascii ''WPA2'', ascii ''WEP''] of
        Some sp \<Rightarrow> sp | None \<Rightarrow> (ascii ''AUTO'', input))"

text \<open>\<open>fgets\<close> with a buffer of \<open>n\<close> characters: the line it stores and what it leaves in the file.\<close>

fun fgets :: "nat \<Rightarrow> bytes \<Rightarrow> bytes \<times> bytes" where
  "fgets 0 cs = ([], cs)"
| "fgets (Suc n) [] = ([], [])"
| "fgets (Suc n) (c # cs) = (if n = 0 then ([], c # cs) else if c = LF then ([c], cs)
     else let (l, rest) = fgets n cs in (c # l, rest))"

definition profile_line :: "nat \<Rightarrow> bytes \<Rightarrow> (bytes \<times> bytes) option" where
  "profile_line n cs = (case fgets n cs of (l, rest) \<Rightarrow>
     if l = [] then None else Some (takeWhile (\<lambda>c. c \<noteq> CR \<and> c \<noteq> LF \<and> c \<noteq> 0) l, rest))"

definition profile_parse :: "bytes \<Rightarrow> (bytes \<times> bytes \<times> bytes) option" where
  "profile_parse text = do {
     (header, r1) \<leftarrow> profile_line 16 text;
     (security, r2) \<leftarrow> profile_line 16 r1;
     (ssid, r3) \<leftarrow> profile_line 64 r2;
     (password, r4) \<leftarrow> profile_line 96 r3;
     if header \<noteq> ascii ''ELKWIFI1'' \<or> security \<notin> {ascii ''AUTO'', ascii ''OPEN'', ascii ''WEP'', ascii ''WPA'', ascii ''WPA2''} \<or>
        \<not> wifi_credentials_valid ssid password security then None
     else Some (security, ssid, password) }"

text \<open>Whether the profile was loaded, and the new state.\<close>

definition wifi_profile_load :: "wifi \<Rightarrow> bytes option \<Rightarrow> (bool \<times> wifi) option" where
  "wifi_profile_load w file =
     (if wifi_profile_path w = [] then Some (False, w)
      else case file \<bind> profile_parse of None \<Rightarrow> Some (False, w)
      | Some (security, ssid, password) \<Rightarrow> do {
          a \<leftarrow> fitting 6 security; b \<leftarrow> fitting 33 ssid; c \<leftarrow> fitting 65 password;
          Some (True, w\<lparr>wifi_security := a, wifi_ssid := b, wifi_password := c\<rparr>) })"

definition profile_text :: "wifi \<Rightarrow> bytes" where
  "profile_text w = ascii ''ELKWIFI1'' @ [LF] @ wifi_security w @ [LF] @ wifi_ssid w @ [LF] @ wifi_password w @ [LF]"

definition wifi_profile_save :: "saving \<Rightarrow> wifi \<Rightarrow> bytes option \<Rightarrow> bool \<times> bytes option" where
  "wifi_profile_save s w file =
     (if wifi_profile_path w = [] then (True, file)
      else case s of Open_Fails \<Rightarrow> (False, file) | Fdopen_Fails \<Rightarrow> (False, Some [])
      | Write_Fails n \<Rightarrow> (False, Some (take n (profile_text w))) | Saved \<Rightarrow> (True, Some (profile_text w)))"

subsection \<open>The commands\<close>

definition wifi_answer :: "u8 \<Rightarrow> bytes \<Rightarrow> wifi \<Rightarrow> bytes option \<Rightarrow> nat \<Rightarrow> nat \<Rightarrow> mem \<Rightarrow> wifi_result" where
  "wifi_answer st text w file lim cmd m = do { m' \<leftarrow> elkwifi_response lim cmd (take 220 text) m; Some (st, w, file, m') }"

definition wifi_status :: "wifi \<Rightarrow> bytes option \<Rightarrow> nat \<Rightarrow> nat \<Rightarrow> mem \<Rightarrow> wifi_result" where
  "wifi_status w file lim cmd m =
     (if \<not> wifi_present w then Some (ELKWIFI_ERR_NO_WIFI, w, file, m)
      else wifi_answer NET_OK (ok_text (ascii ''Pi1MHz ElkWiFi 0.1.59'')) (w\<lparr>wifi_enabled := True\<rparr>) file lim cmd m)"

definition wifi_radio :: "wifi_env \<Rightarrow> wifi \<Rightarrow> bytes option \<Rightarrow> nat \<Rightarrow> nat \<Rightarrow> mem \<Rightarrow> wifi_result" where
  "wifi_radio v w file lim cmd m =
     (if \<not> wifi_present w then Some (ELKWIFI_ERR_NO_WIFI, w, file, m)
      else let w1 = w\<lparr>wifi_enabled := True\<rparr>;
               w2 = (if wifi_ssid w1 \<noteq> [] \<and> \<not> wifi_associated w1 \<and> \<not> wifi_connecting w1
                     then wifi_start_join (join_ms v) w1 else w1) in
        wifi_answer NET_OK (crlf_text ''OK'') w2 file lim cmd m)"

definition QUOTE :: u8 where "QUOTE = 0x22"

definition wifi_scan :: "wifi \<Rightarrow> bytes option \<Rightarrow> nat \<Rightarrow> nat \<Rightarrow> mem \<Rightarrow> wifi_result" where
  "wifi_scan w file lim cmd m =
     (if \<not> wifi_present w \<or> \<not> wifi_enabled w then Some (ELKWIFI_ERR_NO_WIFI, w, file, m)
      else wifi_answer NET_OK (ok_text (ascii ''+CWLAP:(3,'' @ [QUOTE] @ ascii ''Pi1MHz-Fixture'' @ [QUOTE] @ ascii '',-42'' @
        (if scan_fields w = 7 then ascii '')''
         else ascii '','' @ [QUOTE] @ ascii ''02:00:00:00:00:01'' @ [QUOTE] @ ascii '',6)''))) w file lim cmd m)"

definition join_query :: "wifi \<Rightarrow> bytes option \<Rightarrow> nat \<Rightarrow> nat \<Rightarrow> mem \<Rightarrow> wifi_result" where
  "join_query w file lim cmd m = wifi_answer NET_OK
     (if wifi_connecting w \<and> \<not> wifi_associated w then ok_text (ascii ''WIFI CONNECTING'')
      else if \<not> wifi_associated w then ok_text (ascii ''No AP'')
      else ok_text (ascii ''+CWJAP:'' @ [QUOTE] @ wifi_ssid w @ [QUOTE])) w file lim cmd m"

definition join_leave :: "u8 \<Rightarrow> wifi \<Rightarrow> bytes option \<Rightarrow> nat \<Rightarrow> nat \<Rightarrow> mem \<Rightarrow> wifi_result" where
  "join_leave operation w file lim cmd m =
     (let w1 = w\<lparr>wifi_associated := False, wifi_has_address := False, wifi_connecting := False\<rparr>;
          w2 = (if operation = 3 then w1\<lparr>wifi_enabled := False\<rparr> else w1) in
      wifi_answer NET_OK (ok_text (ascii (if operation = 3 then ''WIFI OFF'' else ''WIFI DISCONNECT''))) w2 file lim cmd m)"

definition join_network :: "wifi_env \<Rightarrow> wifi \<Rightarrow> bytes option \<Rightarrow> nat \<Rightarrow> nat \<Rightarrow> mem \<Rightarrow> wifi_result" where
  "join_network v w file lim cmd m = do {
     page \<leftarrow> mem_get m lim (cmd + 2) 33;
     let ssid = cstr page;
     if ssid = [] \<or> 33 \<le> length ssid then Some (ELKWIFI_ERR_PARAM, w, file, m)
     else do {
       input_page \<leftarrow> mem_get m lim (cmd + 2 + length ssid + 1) 65;
       let input = cstr input_page;
       if 65 \<le> length input then Some (ELKWIFI_ERR_PARAM, w, file, m)
       else do {
         let (security, password) = wifi_parse_credentials input;
         security' \<leftarrow> fitting 6 security;
         let w1 = w\<lparr>wifi_security := security'\<rparr>;
         if \<not> wifi_credentials_valid ssid password security' then Some (ELKWIFI_ERR_PARAM, w1, file, m)
         else do {
           password' \<leftarrow> fitting 65 password;
           let w2 = w1\<lparr>wifi_ssid := ssid, wifi_password := password'\<rparr>;
           case wifi_profile_save (saving v) w2 file of
             (False, file') \<Rightarrow> Some (ELKWIFI_ERR_IO, w2, file', m)
           | (True, file') \<Rightarrow>
               wifi_answer NET_OK (ok_text (ascii ''WIFI CONNECTING '' @ security')) (wifi_start_join (join_ms v) w2) file' lim cmd m } } } }"

definition wifi_join :: "wifi_env \<Rightarrow> wifi \<Rightarrow> bytes option \<Rightarrow> nat \<Rightarrow> nat \<Rightarrow> mem \<Rightarrow> wifi_result" where
  "wifi_join v w file lim cmd m = do {
     operation \<leftarrow> mem_rd m lim (cmd + 1);
     if operation = 0 \<or> operation = 0x3F then join_query w file lim cmd m
     else if operation = 2 \<or> operation = 3 then join_leave operation w file lim cmd m
     else if operation = 1 then join_network v w file lim cmd m
     else Some (ELKWIFI_ERR_PARAM, w, file, m) }"

definition wifi_ifcfg :: "wifi \<Rightarrow> bytes option \<Rightarrow> nat \<Rightarrow> nat \<Rightarrow> mem \<Rightarrow> wifi_result" where
  "wifi_ifcfg w file lim cmd m = wifi_answer NET_OK (ascii ''+CIFSR:STAIP,'' @ [QUOTE] @
     ascii (if wifi_has_address w then ''192.168.0.2'' else ''0.0.0.0'') @ [QUOTE, CR, LF] @
     ok_text (ascii ''+CIFSR:STAMAC,'' @ [QUOTE] @ ascii ''02:00:00:00:00:01'' @ [QUOTE])) w file lim cmd m"

definition wifi_lapopt :: "wifi \<Rightarrow> bytes option \<Rightarrow> nat \<Rightarrow> nat \<Rightarrow> mem \<Rightarrow> wifi_result" where
  "wifi_lapopt w file lim cmd m = do {
     fields \<leftarrow> mem_rd m lim (cmd + 1);
     if fields \<noteq> 7 \<and> fields \<noteq> 127 then Some (ELKWIFI_ERR_PARAM, w, file, m)
     else wifi_answer NET_OK (ok_text (ascii ''+CWLAPOPT:'' @ dec (unat fields))) (w\<lparr>scan_fields := unat fields\<rparr>) file lim cmd m }"

definition wifi_online :: "wifi \<Rightarrow> bytes option \<Rightarrow> nat \<Rightarrow> nat \<Rightarrow> mem \<Rightarrow> wifi_result" where
  "wifi_online w file lim cmd m = wifi_answer NET_OK (crlf_text
     (if wifi_has_address w then ''ONLINE 192.168.0.2''
      else if wifi_connecting w \<or> wifi_associated w then ''OFFLINE CONNECTING''
      else if \<not> wifi_enabled w then ''OFFLINE WIFI OFF'' else ''OFFLINE'')) w file lim cmd m"

definition do_elkwifi_control :: "wifi_env \<Rightarrow> wifi \<Rightarrow> bytes option \<Rightarrow> nat \<Rightarrow> nat \<Rightarrow> mem \<Rightarrow> wifi_result" where
  "do_elkwifi_control v w0 file lim cmd m = do {
     let w = wifi_update (update_ms v) w0;
     c \<leftarrow> mem_rd m lim cmd;
     argument \<leftarrow> mem_rd m lim (cmd + 1);
     if c = ELKWIFI_CMD_STATUS then wifi_status w file lim cmd m
     else if c = ELKWIFI_CMD_RADIO then wifi_radio v w file lim cmd m
     else if c = ELKWIFI_CMD_SCAN then wifi_scan w file lim cmd m
     else if c = ELKWIFI_CMD_JOIN then wifi_join v w file lim cmd m
     else if c = ELKWIFI_CMD_IFCFG then wifi_ifcfg w file lim cmd m
     else if c = ELKWIFI_CMD_LAPOPT then wifi_lapopt w file lim cmd m
     else if c = ELKWIFI_CMD_PING then
       wifi_answer NET_OK (crlf_text (if wifi_has_address w then ''+1'' else ''ERROR'')) w file lim cmd m
     else if c = ELKWIFI_CMD_DATETIME then
       wifi_answer NET_OK (crlf_text (if argument \<noteq> 0 then ''12:00:00'' else ''07-08-2026'')) w file lim cmd m
     else if c = ELKWIFI_CMD_CANCEL then wifi_answer NET_OK (crlf_text ''OK'') w file lim cmd m
     else if c = ELKWIFI_CMD_ONLINE then wifi_online w file lim cmd m
     else Some (ELKWIFI_UNKNOWN, w, file, m) }"

text \<open>
  The WiFi part of \<open>pi1mhz_net_backend_create\<close>, from the values of \<open>PI1MHZ_WIFI_PRESENT\<close>,
  \<open>PI1MHZ_WIFI_PROFILE\<close>, \<open>PI1MHZ_WIFI_ASSOCIATE_MS\<close> and \<open>PI1MHZ_WIFI_DHCP_MS\<close>; the inner \<open>None\<close>
  is the failure for a path that is too long.
\<close>

definition wifi_initial :: "bool \<Rightarrow> bytes option \<Rightarrow> bytes option \<Rightarrow> wifi" where
  "wifi_initial here associate dhcp =
     \<lparr>wifi_ssid = [], wifi_password = [], wifi_security = ascii ''AUTO'', wifi_profile_path = [],
      wifi_present = here, wifi_enabled = here, wifi_associated = False, wifi_has_address = False, wifi_connecting = False,
      wifi_associate_at_ms = 0, wifi_dhcp_at_ms = 0, wifi_associate_delay_ms = env_unsigned associate 500,
      wifi_dhcp_delay_ms = env_unsigned dhcp 500, scan_fields = 127\<rparr>"

definition wifi_create :: "bytes option \<Rightarrow> bytes option \<Rightarrow> bytes option \<Rightarrow> bytes option \<Rightarrow> nat \<Rightarrow> bytes option \<Rightarrow> wifi option option" where
  "wifi_create present path associate dhcp now file =
     (let here = (\<not> env_is present (ascii ''0'') [ascii ''no'']); w = wifi_initial here associate dhcp in
      case path of
        Some (c # cs) \<Rightarrow>
          if 512 \<le> length (c # cs) then Some None
          else let w1 = w\<lparr>wifi_profile_path := c # cs\<rparr> in
            if here then do {
              (loaded, w2) \<leftarrow> wifi_profile_load w1 file;
              Some (Some (if loaded then wifi_start_join now w2 else w2)) }
            else Some (Some w1)
      | _ \<Rightarrow> Some (Some (w\<lparr>wifi_ssid := ascii ''Pi1MHz-Fixture'', wifi_associated := here, wifi_has_address := here\<rparr>)))"

end
