(* ===== verification/Net_Backend.thy ===== *)
theory Net_Backend
  imports Net_Handles Wifi Ftp_Backend
begin

section \<open>The network backend and its dispatcher (pi1mhz\_net\_backend.c)\<close>

text \<open>
  \<open>net_backend\<close> is \<open>struct pi1mhz_net_backend\<close>, with the UEF stream and the WiFi fixture as the
  parts the other theories model, eight handles, the FTP backend, and the files it works on: the SD card
  image and the WiFi profile. The model is that of a build without \<open>PI1MHZ_WOLFSSH\<close>.

  A command reaches the backend through \<open>pi1mhz_net_backend_dispatch\<close>, with the address of its page.
  Network, FTP, FAT and secure commands see only the last \<open>PI1MHZ_SERVICE_SIZE\<close> bytes of JIM, the UEF
  and guard commands all of it. A handle that is closed ends the process when \<open>exit_on_close\<close> is
  set, which is the result \<open>Exited\<close>.
\<close>

abbreviation PI1MHZ_SERVICE_SIZE :: nat where "PI1MHZ_SERVICE_SIZE \<equiv> 0x2000000"

datatype net_status = Returned u8 | Exited
datatype disk_io = Disk_Ok | Seek_Fails | Transfer_Fails nat

record dispatch_env =
  de_net :: net_env
  de_wifi :: wifi_env
  de_uef :: uef_env
  de_disk :: disk_io

record net_backend =
  nb_live :: bool
  nb_exit_on_close :: bool
  nb_uef :: uef_backend
  nb_wifi :: wifi
  nb_profile :: "bytes option"
  nb_sd_image :: "bytes option"
  nb_sd_writable :: bool
  nb_handles :: "net_handle list"
  nb_ftp :: ftp_backend
  nb_sockets :: sockets

subsection \<open>SD card sectors\<close>

text \<open>
  \<open>Transfer_Fails n\<close> is a \<open>fread\<close> or \<open>fwrite\<close> that has moved \<open>n\<close> bytes when it fails. The size of
  the image is fixed when it is opened.
\<close>

definition do_fat_sectors :: "disk_io \<Rightarrow> bytes option \<Rightarrow> bool \<Rightarrow> nat \<Rightarrow> nat \<Rightarrow> mem \<Rightarrow> (u8 \<times> bytes option \<times> mem) option" where
  "do_fat_sectors io sd writable lim cmd m = do {
     c \<leftarrow> mem_rd m lim cmd; device \<leftarrow> mem_rd m lim (cmd + 1);
     buffer \<leftarrow> rd32 (mem_rd m lim) (cmd + 4); sector \<leftarrow> rd32 (mem_rd m lim) (cmd + 8); count \<leftarrow> rd32 (mem_rd m lim) (cmd + 12);
     let at = unat buffer; offset = unat sector * 512; len = unat count * 512 in
     case sd of None \<Rightarrow> Some (3, sd, m)
     | Some img \<Rightarrow>
         if device \<noteq> 0 \<or> count = 0 \<or> lim < at \<or> lim - at < len \<or> length img < offset \<or> length img - offset < len then Some (4, sd, m)
         else if c = 1 \<and> \<not> writable then Some (2, sd, m)
         else case io of Seek_Fails \<Rightarrow> Some (1, sd, m)
         | Disk_Ok \<Rightarrow>
             if c = 0 then do { m' \<leftarrow> mem_put m lim at (seg img offset len); Some (NET_OK, sd, m') }
             else do { bs \<leftarrow> mem_get m lim at len; Some (NET_OK, Some (splice img offset bs), m) }
         | Transfer_Fails n \<Rightarrow>
             if c = 0 then do { m' \<leftarrow> mem_put m lim at (seg img offset (min n len)); Some (1, sd, m') }
             else do { bs \<leftarrow> mem_get m lim at (min n len); Some (1, Some (splice img offset bs), m) } }"

subsection \<open>Secure commands\<close>

fun random_fill :: "bytes list \<Rightarrow> nat \<Rightarrow> nat \<Rightarrow> nat \<Rightarrow> mem \<Rightarrow> (u8 \<times> mem) option" where
  "random_fill rs 0 lim at m = Some (NET_OK, m)"
| "random_fill [] (Suc n) lim at m = Some (NET_ERR_CONN, m)"
| "random_fill (r # rs) (Suc n) lim at m =
     (let got = take (Suc n) r in
      if got = [] then Some (NET_ERR_CONN, m)
      else do { m' \<leftarrow> mem_put m lim at got; random_fill rs (Suc n - length got) lim (at + length got) m' })"

definition secure_random :: "net_env \<Rightarrow> nat \<Rightarrow> nat \<Rightarrow> nat \<Rightarrow> mem \<Rightarrow> (u8 \<times> mem) option" where
  "secure_random e n lim at m = (case urandom e of None \<Rightarrow> Some (NET_ERR_CONN, m) | Some rs \<Rightarrow> random_fill rs n lim at m)"

definition secure_caps :: "bool \<Rightarrow> bytes" where
  "secure_caps live = [1, 1, if live then 0x01 else 0x0F, 0xB8, 0x88, 1, if live then 0 else 1] @ ascii ''NTS''"

text \<open>The two texts an OPEN points at; both must end inside the service memory.\<close>

definition secure_texts :: "nat \<Rightarrow> nat \<Rightarrow> mem \<Rightarrow> bytes option option" where
  "secure_texts lim cmd m = do {
     url_address \<leftarrow> rd32 (mem_rd m lim) (cmd + 2);
     user_address \<leftarrow> rd32 (mem_rd m lim) (cmd + 6);
     Some (if lim \<le> unat url_address \<or> lim \<le> unat user_address then None
       else case (c_string m lim (unat url_address), c_string m lim (unat user_address)) of
         (Some text, Some user) \<Rightarrow> Some text | _ \<Rightarrow> None) }"

definition ssh_open :: "bool \<Rightarrow> net_handle \<Rightarrow> nat \<Rightarrow> nat \<Rightarrow> mem \<Rightarrow> handle_result" where
  "ssh_open live h lim cmd m = do {
     texts \<leftarrow> secure_texts lim cmd m;
     case texts of None \<Rightarrow> Some (NET_ERR_PARAM, h, m)
     | Some text \<Rightarrow>
         if live then Some (NET_UNSUPPORTED, h, m)
         else let h1 = h\<lparr>open_polls := open_polls h + 1\<rparr> in
           if open_polls h = 0 then Some (NET_PENDING, h1\<lparr>url := take 223 text\<rparr>, m)
           else Some (NET_OK, h1\<lparr>opened := True, fixture_data := fixture_ssh_shell, fixture_length := length fixture_ssh_shell,
             fixture_at := 0, read_index := 0\<rparr>, m) }"

definition ssh_password :: "bool \<Rightarrow> net_handle \<Rightarrow> nat \<Rightarrow> nat \<Rightarrow> mem \<Rightarrow> handle_result" where
  "ssh_password live h lim cmd m = do {
     address \<leftarrow> rd32 (mem_rd m lim) (cmd + 4);
     len \<leftarrow> mem_rd m lim (cmd + 1);
     if len = 0 \<or> 127 < len \<or> lim \<le> unat address \<or> lim - unat address < unat len then Some (NET_ERR_PARAM, h, m)
     else do {
       m' \<leftarrow> mem_put m lim (unat address) (replicate (unat len) 0);
       Some (if live then NET_UNSUPPORTED else NET_OK, h, m') } }"

definition sftp_open :: "bool \<Rightarrow> net_handle \<Rightarrow> nat \<Rightarrow> nat \<Rightarrow> mem \<Rightarrow> handle_result" where
  "sftp_open live h lim cmd m = do {
     texts \<leftarrow> secure_texts lim cmd m;
     case texts of None \<Rightarrow> Some (NET_ERR_PARAM, h, m)
     | Some text \<Rightarrow> if live then Some (NET_UNSUPPORTED, h, m) else Some (NET_OK, h\<lparr>opened := True, url := take 223 text\<rparr>, m) }"

definition sftp_reply :: "u8 \<Rightarrow> net_handle \<Rightarrow> nat \<Rightarrow> nat \<Rightarrow> mem \<Rightarrow> handle_result" where
  "sftp_reply c h lim cmd m = do {
     maximum \<leftarrow> rd24 (mem_rd m lim) (cmd + 1);
     path \<leftarrow> rd32 (mem_rd m lim) (cmd + 4);
     out \<leftarrow> rd32 (mem_rd m lim) (cmd + 8);
     let reply = (if c = 102 then ascii ''/fixture'' @ [LF] else if c = 104 then ascii ''fixture.txt'' @ [LF] else []);
     if \<not> opened h \<or> lim \<le> unat path \<or> c_string m lim (unat path) = None \<or> lim \<le> unat out \<or> lim - unat out < unat maximum \<or>
        unat maximum < length reply then Some (NET_ERR_PARAM, h, m)
     else do {
       m1 \<leftarrow> mem_put m lim (unat out) reply;
       handle_count NET_OK h lim cmd (length reply) m1 } }"

definition do_secure :: "bool \<Rightarrow> net_env \<Rightarrow> net_handle \<Rightarrow> u8 \<Rightarrow> nat \<Rightarrow> nat \<Rightarrow> mem \<Rightarrow> handle_result" where
  "do_secure live e h c lim cmd m =
     (if c = 94 then do { m' \<leftarrow> mem_put m lim (cmd + 1) (secure_caps live); Some (NET_OK, h, m') }
      else if c = 95 then do {
        len \<leftarrow> rd16 (mem_rd m lim) (cmd + 1);
        destination \<leftarrow> rd32 (mem_rd m lim) (cmd + 4);
        if len = 0 \<or> 64 < len \<or> lim \<le> unat destination \<or> lim - unat destination < unat len then Some (NET_ERR_PARAM, h, m)
        else do { (st, m') \<leftarrow> secure_random e (unat len) lim (unat destination) m; Some (st, h, m') } }
      else if c = 96 then ssh_open live h lim cmd m
      else if c = 97 \<or> c = 109 then do_read live e h lim cmd m
      else if c = 98 \<or> c = 111 then do_write live e h lim cmd m
      else if c = 100 then ssh_password live h lim cmd m
      else if c = 101 then sftp_open live h lim cmd m
      else if 102 \<le> c \<and> c \<le> 107 then sftp_reply c h lim cmd m
      else if c = 108 \<or> c = 110 then
        (if \<not> opened h then Some (NET_ERR_NOTOPEN, h, m)
         else Some (NET_OK, h\<lparr>fixture_data := ascii ''SFTP fixture'' @ [LF], fixture_length := 13, fixture_at := 0\<rparr>, m))
      else if c = 112 then Some (NET_OK, h\<lparr>fixture_data := [], fixture_length := 0, fixture_at := 0\<rparr>, m)
      else Some (NET_UNSUPPORTED, h, m))"

subsection \<open>The dispatcher\<close>

text \<open>The commands of a handle, the closing ones apart.\<close>

definition handle_command :: "bool \<Rightarrow> net_env \<Rightarrow> net_handle \<Rightarrow> u8 \<Rightarrow> nat \<Rightarrow> nat \<Rightarrow> mem \<Rightarrow> handle_result" where
  "handle_command live e h c lim cmd m =
     (if c = 45 then do_raw_open h lim cmd m
      else if c = 46 then do_raw_dns e h lim cmd m
      else if c = 47 then do_raw_connect live e h lim cmd m
      else if c = 50 \<or> c = 62 then do_write live e h lim cmd m
      else if c = 51 \<or> c = 61 then do_read live e h lim cmd m
      else if c = 60 then do_open live e h lim cmd m
      else if 94 \<le> c \<and> c \<le> 113 then do_secure live e h c lim cmd m
      else Some (NET_UNSUPPORTED, h, m))"

definition closes_handle :: "u8 \<Rightarrow> bool" where
  "closes_handle c \<longleftrightarrow> c = 53 \<or> c = 63 \<or> c = 99 \<or> c = 113"

text \<open>The service memory is a view of the end of JIM.\<close>

definition view :: "nat \<Rightarrow> mem \<Rightarrow> mem" where
  "view base m = (\<lambda>i. m (base + i))"

definition through :: "nat \<Rightarrow> mem \<Rightarrow> mem \<Rightarrow> mem" where
  "through base m m' = (\<lambda>i. if i < base then m i else m' (i - base))"

type_synonym dispatch_result = "(net_status \<times> net_backend \<times> mem) option"

definition copy_public :: "nat \<Rightarrow> nat \<Rightarrow> nat \<Rightarrow> mem \<Rightarrow> (u8 \<times> mem) option" where
  "copy_public jim_size base cmd m = do {
     count \<leftarrow> mem_rd m jim_size (cmd + 1);
     destination \<leftarrow> rd16 (mem_rd m jim_size) (cmd + 2);
     if count = 0 \<or> 240 < count \<or> 0x10000 < unat destination + unat count \<or> PI1MHZ_SERVICE_SIZE < 0xFFF100 + unat count then Some (NET_ERR_PARAM, m)
     else do {
       bs \<leftarrow> mem_get m jim_size (base + 0xFFF100) (unat count);
       m' \<leftarrow> mem_put m jim_size (unat destination) bs;
       Some (NET_OK, m') } }"

definition dispatch_handle :: "dispatch_env \<Rightarrow> net_backend \<Rightarrow> nat \<Rightarrow> u8 \<Rightarrow> nat \<Rightarrow> nat \<Rightarrow> nat \<Rightarrow> mem \<Rightarrow> dispatch_result" where
  "dispatch_handle e n index c jim_size base cmd m =
     (if 8 \<le> index then Some (Returned NET_ERR_PARAM, n, m)
      else if closes_handle c then
        let n' = n\<lparr>nb_handles := (nb_handles n)[index := do_close (nb_handles n ! index)]\<rparr> in
        Some (if nb_exit_on_close n then Exited else Returned NET_OK, n', m)
      else if c = 58 then do { (st, m') \<leftarrow> copy_public jim_size base (base + cmd) m; Some (Returned st, n, m') }
      else do {
        (st, h, s) \<leftarrow> handle_command (nb_live n) (de_net e) (nb_handles n ! index) c PI1MHZ_SERVICE_SIZE cmd (view base m);
        Some (Returned st, n\<lparr>nb_handles := (nb_handles n)[index := h]\<rparr>, through base m s) })"

definition is_wifi_command :: "u8 \<Rightarrow> bool" where
  "is_wifi_command c \<longleftrightarrow> c \<in> {80, 81, 82, 83, 87, 88, 89, 90, 91, 92}"

definition net_backend_dispatch :: "dispatch_env \<Rightarrow> net_backend \<Rightarrow> u8 \<Rightarrow> u32 \<Rightarrow> nat \<Rightarrow> mem \<Rightarrow> dispatch_result" where
  "net_backend_dispatch e n selector pointer jim_size m =
     (if jim_size < PI1MHZ_SERVICE_SIZE then Some (Returned NET_ERR_PARAM, n, m)
      else let base = jim_size - PI1MHZ_SERVICE_SIZE; at = unat pointer in
      if at < base \<or> PI1MHZ_SERVICE_SIZE < at - base + 224 then Some (Returned NET_ERR_PARAM, n, m)
      else let c = m at; cmd = at - base in
      if c = 0 \<or> c = 1 then do {
        (st, sd, s) \<leftarrow> do_fat_sectors (de_disk e) (nb_sd_image n) (nb_sd_writable n) PI1MHZ_SERVICE_SIZE cmd (view base m);
        Some (Returned st, n\<lparr>nb_sd_image := sd\<rparr>, through base m s) }
      else if c = 86 then do {
        (st, u, m') \<leftarrow> guard_command (nb_uef n) jim_size at m;
        Some (Returned st, n\<lparr>nb_uef := u\<rparr>, m') }
      else if selector = 0xFF \<and> c = 93 then do {
        (st, u, m') \<leftarrow> if map m [at + 1..<at + 6] = ascii ''IUEF'' @ [UEF_STREAM_VERSION]
          then incremental_uef_control (de_uef e) (nb_uef n) jim_size at m
          else normalize_uef_control (de_uef e) (nb_uef n) jim_size at m;
        Some (Returned st, n\<lparr>nb_uef := u\<rparr>, m') }
      else if is_wifi_command c then do {
        (st, w, p, m') \<leftarrow> do_elkwifi_control (de_wifi e) (nb_wifi n) (nb_profile n) jim_size at m;
        Some (Returned st, n\<lparr>nb_wifi := w, nb_profile := p\<rparr>, m') }
      else if 128 \<le> c \<and> c \<le> 133 then do {
        (st, f, k, s) \<leftarrow> pi1mhz_ftp_dispatch (nb_ftp n) (nb_sockets n) PI1MHZ_SERVICE_SIZE cmd (view base m);
        Some (Returned st, n\<lparr>nb_ftp := f, nb_sockets := k\<rparr>, through base m s) }
      else dispatch_handle e n (unat (selector AND 0x0F)) c jim_size base cmd m)"

subsection \<open>Creation\<close>

text \<open>
  What \<open>pi1mhz_net_backend_create\<close> is given and finds: its arguments, the environment variables it reads,
  the files it opens, the clock, and whether memory is to be had. \<open>ce_sd\<close> is \<open>None\<close> when no SD image
  is configured, and \<open>Some None\<close> when it cannot be opened.
\<close>

record create_env =
  ce_mode :: "bytes option"
  ce_exit_on_close :: bool
  ce_trim :: "bytes option"
  ce_repair :: "bytes option"
  ce_present :: "bytes option"
  ce_path :: "bytes option"
  ce_associate :: "bytes option"
  ce_dhcp :: "bytes option"
  ce_now :: nat
  ce_profile :: "bytes option"
  ce_sd :: "(bytes \<times> bool) option option"
  ce_trace_opens :: bool
  ce_memory :: bool
  ce_ftp_memory :: bool
  ce_junk :: mem
  ce_sockets :: sockets

definition net_backend_create :: "create_env \<Rightarrow> net_backend option option" where
  "net_backend_create c = do {
     w \<leftarrow> wifi_create (ce_present c) (ce_path c) (ce_associate c) (ce_dhcp c) (ce_now c) (ce_profile c);
     let live = (case ce_mode c of None \<Rightarrow> False | Some t \<Rightarrow> map lower t = ascii ''live'');
     Some (case w of None \<Rightarrow> None
     | Some w1 \<Rightarrow>
         if \<not> ce_memory c \<or> ce_sd c = Some None \<or> \<not> ce_trace_opens c \<or> \<not> ce_ftp_memory c then None
         else Some \<lparr>nb_live = live, nb_exit_on_close = ce_exit_on_close c, nb_uef = uef_create (ce_trim c) (ce_repair c) (ce_junk c),
           nb_wifi = w1, nb_profile = ce_profile c,
           nb_sd_image = (case ce_sd c of Some (Some (img, writable)) \<Rightarrow> Some img | _ \<Rightarrow> None),
           nb_sd_writable = (case ce_sd c of Some (Some (img, writable)) \<Rightarrow> writable | _ \<Rightarrow> False),
           nb_handles = replicate 8 handle_new, nb_ftp = ftp_create live, nb_sockets = ce_sockets c\<rparr>) }"

text \<open>What \<open>pi1mhz_net_backend_destroy\<close> closes: the descriptors of the handles, and the connections of the FTP session.\<close>

definition net_backend_destroy :: "net_backend \<Rightarrow> int list \<times> sockets" where
  "net_backend_destroy n = (filter (\<lambda>d. 0 \<le> d) (map fd (nb_handles n)), ftp_destroy (nb_ftp n) (nb_sockets n))"

end
