(* ===== verification/Net_Handles_Props.thy ===== *)
theory Net_Handles_Props
  imports Net_Backend
begin

section \<open>Properties of the network handles\<close>

text \<open>
  The invariant of a handle and that every command keeps it; that an HTTP body arrives whole, however the
  network cuts the reply up; and what reopening a fixture handle does.
\<close>

subsection \<open>The invariant\<close>

definition handle_inv :: "net_handle \<Rightarrow> bool" where
  "handle_inv h \<longleftrightarrow> fixture_length h = length (fixture_data h) \<and> length (response h) \<le> 8191 \<and> request_sent h \<le> length (request h) \<and>
     length (request h) < 512 \<and> length (url h) \<le> 223"

definition handle_good :: "handle_result \<Rightarrow> bool" where
  "handle_good r \<longleftrightarrow> (\<exists>st h m. r = Some (st, h, m) \<and> handle_inv h)"

lemma handle_good_Some [simp]: "handle_good (Some (st, h, m)) \<longleftrightarrow> handle_inv h"
  by (simp add: handle_good_def)

lemma handle_inv_updates [simp]:
  "handle_inv (h\<lparr>fd := v0\<rparr>) = handle_inv h"
  "handle_inv (h\<lparr>is_opening := v1\<rparr>) = handle_inv h"
  "handle_inv (h\<lparr>opened := v2\<rparr>) = handle_inv h"
  "handle_inv (h\<lparr>open_polls := v3\<rparr>) = handle_inv h"
  "handle_inv (h\<lparr>read_index := v4\<rparr>) = handle_inv h"
  "handle_inv (h\<lparr>fixture_at := v5\<rparr>) = handle_inv h"
  "handle_inv (h\<lparr>http := v6\<rparr>) = handle_inv h"
  "handle_inv (h\<lparr>raw_allocated := v7\<rparr>) = handle_inv h"
  "handle_inv (h\<lparr>raw_type := v8\<rparr>) = handle_inv h"
  "handle_inv (h\<lparr>response_pos := v9\<rparr>) = handle_inv h"
  "handle_inv (h\<lparr>headers_done := v10\<rparr>) = handle_inv h"
  "handle_inv (h\<lparr>http_has_length := v11\<rparr>) = handle_inv h"
  "handle_inv (h\<lparr>http_content_length := v12\<rparr>) = handle_inv h"
  "handle_inv (h\<lparr>http_body_read := v13\<rparr>) = handle_inv h"
  by (simp_all add: handle_inv_def)

lemma handle_count_eq: "cmd + 224 \<le> lim \<Longrightarrow> handle_count st h lim cmd n m =
    Some (st, h, store m (cmd + 1) [byte_of (word_of_nat n :: u32) 0, byte_of (word_of_nat n :: u32) 1, byte_of (word_of_nat n :: u32) 2])"
  unfolding handle_count_def wr24_def by (simp add: mem_put_store)

lemma handle_count_good [simp]: "cmd + 224 \<le> lim \<Longrightarrow> handle_good (handle_count st h lim cmd n m) \<longleftrightarrow> handle_inv h"
  by (simp add: handle_count_eq)

lemma put_then_good:
  assumes "at + length bs \<le> lim" "\<And>m'. handle_good (f m')"
  shows "handle_good (do { m' \<leftarrow> mem_put m lim at bs; f m' })"
  using mem_put_store [OF assms(1), of m] assms(2) by simp

lemma rd24_mem: "i + 2 < lim \<Longrightarrow> rd24 (mem_rd m lim) i = Some (le24 (m i) (m (i + 1)) (m (i + 2)))"
  by (simp add: rd24_def)

lemma send_request_inv: "handle_inv h \<Longrightarrow> handle_inv (snd (send_request e h))"
  by (auto simp: send_request_def handle_inv_def Let_def split: sending.split)

lemma finish_open_inv: "handle_inv h \<Longrightarrow> handle_inv (snd (live_finish_open e u h))"
  by (auto simp: live_finish_open_def Let_def intro!: send_request_inv) (auto simp: handle_inv_def)

lemma dial_inv: "handle_inv h \<Longrightarrow> handle_inv (snd (dial e u as h))"
  by (induction e u as h rule: dial.induct) (auto intro!: finish_open_inv split: connecting.split)

lemma parse_url_total: "\<exists>p. parse_url u = Some p"
  by (simp add: parse_url_def fitting_def Let_def split: option.split)

lemma live_open_inv: "handle_inv h \<Longrightarrow> \<exists>st h'. live_open_handle e h = Some (st, h') \<and> handle_inv h'"
proof -
  assume h: "handle_inv h"
  obtain p where p: "parse_url (url h) = Some p" using parse_url_total by blast
  let ?f = "\<lambda>p. case p of None \<Rightarrow> (NET_ERR_PARAM, h)
     | Some u \<Rightarrow>
         let h1 = h\<lparr>http := up_http u\<rparr> in
         if is_opening h1 then (case socket_state e of
             Still_Connecting \<Rightarrow> (NET_PENDING, h1)
           | Socket_Error \<Rightarrow> (NET_ERR_CONN, h1\<lparr>fd := -1, is_opening := False\<rparr>)
           | Socket_Ready \<Rightarrow> live_finish_open e u (h1\<lparr>is_opening := False\<rparr>))
         else if 0 \<le> fd h1 then live_finish_open e u h1
         else case resolved e of None \<Rightarrow> (NET_ERR_DNS, h1) | Some as \<Rightarrow> dial e u as h1"
  have "handle_inv (snd (?f p))"
    using h by (auto simp: Let_def intro!: finish_open_inv dial_inv split: option.split socket_state.split)
  then show ?thesis using p by (intro exI [of _ "fst (?f p)"] exI [of _ "snd (?f p)"]) (simp add: live_open_handle_def)
qed

lemma handle_open_good: "handle_inv h \<Longrightarrow> handle_good (do { (st, h2) \<leftarrow> live_open_handle e h; Some (st, h2, m) })"
  using live_open_inv [of h e] by auto

lemma fixture_tcp_fits: "length (fixture_ssh_identification @ build_fixture_kexinit) \<le> 1024"
  by code_simp

lemma cstr_length: "length (cstr bs) \<le> length bs"
  by (simp add: cstr_def length_takeWhile_le)

lemma fixture_data_inv: "handle_inv g \<Longrightarrow> n = length d \<Longrightarrow> handle_inv (g\<lparr>fixture_data := d, fixture_length := n\<rparr>)"
  by (simp add: handle_inv_def)

lemma do_open_good:
  assumes "cmd + 224 \<le> lim" "handle_inv h"
  shows "handle_good (do_open live e h lim cmd m)"
proof -
  have "mem_get m lim (cmd + 2) 221 = Some (map m [cmd + 2..<cmd + 2 + 221])" using assms(1) by (simp add: mem_get_def)
  moreover have "handle_inv (h\<lparr>url := cstr bs\<rparr>)" if "length (cstr bs) \<le> 220" for bs
    using assms(2) that by (simp add: handle_inv_def)
  ultimately show ?thesis using assms(2) fixture_tcp_fits
    by (auto simp: do_open_def Let_def intro!: handle_open_good fixture_data_inv)
qed

lemma header_cases:
  "handle_inv h \<Longrightarrow> (\<exists>st c h1. receive_header e h = Inl (st, c, h1) \<and> handle_inv h1) \<or> (\<exists>h1. receive_header e h = Inr h1 \<and> handle_inv h1)"
proof -
  assume h: "handle_inv h"
  have "(\<exists>st c h1. http_header g = Inl (st, c, h1) \<and> handle_inv h1) \<or> (\<exists>h1. http_header g = Inr h1 \<and> handle_inv h1)" if "handle_inv g" for g
    using that by (auto simp: http_header_def Let_def handle_inv_def split: option.split)
  moreover have "handle_inv (h\<lparr>response := response h @ take (8191 - length (response h)) bs\<rparr>)" for bs
    using h by (auto simp: handle_inv_def)
  ultimately show ?thesis using h by (auto simp: receive_header_def Let_def split: receiving.split)
qed

lemma body_good:
  assumes "cmd + 224 \<le> lim" "handle_inv h" "destination + maximum \<le> lim"
  shows "handle_good (read_body e h lim cmd maximum destination m)"
proof -
  have "length (seg (response h) (response_pos h) maximum) \<le> maximum" by (simp add: seg_def)
  then have "destination + length (seg (response h) (response_pos h) maximum) \<le> lim" using assms(3) by linarith
  moreover have "destination + length (take maximum bs) \<le> lim" for bs using assms(3) by simp
  ultimately show ?thesis using assms(1, 2)
    by (auto simp: read_body_def Let_def intro!: put_then_good split: receiving.split)
qed

lemma fixture_good:
  assumes "cmd + 224 \<le> lim" "handle_inv h" "destination + maximum \<le> lim"
  shows "handle_good (read_fixture h lim cmd maximum destination m)"
proof (cases "fixture_length h \<le> fixture_at h")
  case False
  define n where "n = min (min maximum (fixture_chunks ! (unat (read_index h) mod 5))) (fixture_length h - fixture_at h)"
  have "fixture_at h + n \<le> length (fixture_data h)" using False assms(2) by (auto simp: n_def handle_inv_def)
  then have "rd_range (fixture_data h) (fixture_at h) n = Some (seg (fixture_data h) (fixture_at h) n)"
    "length (seg (fixture_data h) (fixture_at h) n) = n" by simp_all
  moreover have "destination + n \<le> lim" using assms(3) by (simp add: n_def)
  ultimately show ?thesis using False assms(1, 2)
    by (simp add: read_fixture_def n_def [symmetric] Let_def mem_put_store)
qed (use assms in \<open>simp add: read_fixture_def\<close>)

lemma in_service: "\<not> (lim \<le> (a::nat) \<or> lim - a < n) \<Longrightarrow> a + n \<le> lim"
  by linarith

lemma do_read_good:
  assumes "cmd + 224 \<le> lim" "handle_inv h"
  shows "handle_good (do_read live e h lim cmd m)"
proof -
  obtain maximum destination where rd: "rd24 (mem_rd m lim) (cmd + 1) = Some maximum" "rd32 (mem_rd m lim) (cmd + 4) = Some destination"
    using assms(1) mem_buf.rd24_defined [of "cmd + 1" lim m] mem_buf.rd32_defined [of "cmd + 4" lim m] by auto
  show ?thesis
  proof (cases "lim \<le> unat destination \<or> lim - unat destination < unat maximum")
    case True
    then show ?thesis using assms rd by (auto simp: do_read_def simp del: One_nat_def)
  next
    case False
    note r = in_service [OF False]
    from header_cases [OF assms(2), of e] show ?thesis
      using assms False rd body_good [OF assms(1) _ r] fixture_good [OF assms(1) _ r]
      by (auto simp: do_read_def simp del: One_nat_def)
  qed
qed

lemma do_write_good: "cmd + 224 \<le> lim \<Longrightarrow> handle_inv h \<Longrightarrow> handle_good (do_write live e h lim cmd m)"
  by (simp add: do_write_def rd24_mem mem_rd_words split: sending.split)

lemma do_close_inv: "handle_inv h \<Longrightarrow> handle_inv (do_close h)"
  by (simp add: do_close_def handle_inv_def)

lemma dec_short: "n < 65536 \<Longrightarrow> length (dec n) \<le> 5"
  by (subst dec.simps, simp, subst dec.simps, simp, subst dec.simps, simp, subst dec.simps, simp, subst dec.simps, simp)

lemma raw_good:
  assumes "cmd + 224 \<le> lim" "handle_inv h"
  shows "handle_good (do_raw_open h lim cmd m)" "handle_good (do_raw_dns e h lim cmd m)" "handle_good (do_raw_connect live e h lim cmd m)"
proof -
  show "handle_good (do_raw_open h lim cmd m)" using assms by (simp add: do_raw_open_def)
  have "mem_get m lim (cmd + 1) 223 = Some (map m [cmd + 1..<cmd + 1 + 223])" using assms(1) by (simp add: mem_get_def)
  moreover have "cmd + 4 + length (take 4 a) \<le> lim" for a :: bytes using assms(1) by simp
  ultimately show "handle_good (do_raw_dns e h lim cmd m)" using assms(2)
    by (auto simp: do_raw_dns_def intro!: put_then_good split: option.split)
  have small: "length (dec (unat (b::u8))) \<le> 5" "length (dec (unat (p::u16))) \<le> 5" for b p
    using unsigned_less [of b, where ?'a = nat] unsigned_less [of p, where ?'a = nat] by (auto intro!: dec_short)
  have "handle_inv (h\<lparr>url := ascii (if raw_type h \<noteq> 0 then ''UDP'' else ''TCP'') @ ascii ''://'' @ dec (unat (a::u8)) @ ascii ''.'' @
      dec (unat (b::u8)) @ ascii ''.'' @ dec (unat (c::u8)) @ ascii ''.'' @ dec (unat (d::u8)) @ ascii '':'' @ dec (unat (p::u16)) @ ascii ''/''\<rparr>)" for a b c d p
    using assms(2) small(1) [of a] small(1) [of b] small(1) [of c] small(1) [of d] small(2) [of p] by (simp add: handle_inv_def)
  moreover have "mem_get m lim (cmd + 1) 6 = Some (map m [cmd + 1..<cmd + 1 + 6])" using assms(1) by (simp add: mem_get_def)
  ultimately show "handle_good (do_raw_connect live e h lim cmd m)" using assms(2)
    by (auto simp: do_raw_connect_def Let_def intro!: handle_open_good)
qed

subsection \<open>Secure commands\<close>

lemma random_fill_defined: "at + n \<le> lim \<Longrightarrow> \<exists>st m'. random_fill rs n lim at m = Some (st, m')"
proof (induction rs n lim at m rule: random_fill.induct)
  case (3 r rs n lim at m)
  show ?case
  proof (cases "take (Suc n) r = []")
    case False
    have "at + length (take (Suc n) r) \<le> lim" using 3(2) by simp
    then show ?thesis using 3(1) [OF refl False] 3(2) False by (simp add: mem_put_store Let_def)
  qed simp
qed simp_all

lemma texts_defined: "cmd + 224 \<le> lim \<Longrightarrow> \<exists>t. secure_texts lim cmd m = Some t"
  by (simp add: secure_texts_def mem_rd_words)

lemma secure_opens_good:
  assumes "cmd + 224 \<le> lim" "handle_inv h"
  shows "handle_good (ssh_open live h lim cmd m)" "handle_good (sftp_open live h lim cmd m)"
proof -
  obtain t where t: "secure_texts lim cmd m = Some t" using texts_defined assms(1) by blast
  have url: "handle_inv (g\<lparr>url := take 223 u\<rparr>)" if "handle_inv g" for g u using that by (simp add: handle_inv_def)
  show "handle_good (ssh_open live h lim cmd m)" using t assms(2)
    by (auto simp: ssh_open_def Let_def intro!: url fixture_data_inv split: option.split)
  show "handle_good (sftp_open live h lim cmd m)" using t assms(2)
    by (auto simp: sftp_open_def intro!: url split: option.split)
qed

lemma password_good:
  assumes "cmd + 224 \<le> lim" "handle_inv h"
  shows "handle_good (ssh_password live h lim cmd m)"
proof -
  obtain a where a: "rd32 (mem_rd m lim) (cmd + 4) = Some a" using mem_buf.rd32_defined [of "cmd + 4" lim m] assms(1) by auto
  show ?thesis
  proof (cases "lim \<le> unat a \<or> lim - unat a < unat (m (cmd + 1))")
    case False
    have "mem_rd m lim (cmd + 1) = Some (m (cmd + 1))" using assms(1) by simp
    then show ?thesis using a assms(2) in_service [OF False]
      by (auto simp: ssh_password_def simp del: One_nat_def intro!: put_then_good)
  qed (use a assms in \<open>auto simp: ssh_password_def\<close>)
qed

lemma sftp_reply_good:
  assumes "cmd + 224 \<le> lim" "handle_inv h"
  shows "handle_good (sftp_reply c h lim cmd m)"
proof -
  obtain maximum path out where rd: "rd24 (mem_rd m lim) (cmd + 1) = Some maximum" "rd32 (mem_rd m lim) (cmd + 4) = Some path"
    "rd32 (mem_rd m lim) (cmd + 8) = Some out"
    using assms(1) mem_buf.rd24_defined [of "cmd + 1" lim m] mem_buf.rd32_defined [of "cmd + 4" lim m]
      mem_buf.rd32_defined [of "cmd + 8" lim m] by auto
  define reply where "reply = (if c = 102 then ascii ''/fixture'' @ [LF] else if c = 104 then ascii ''fixture.txt'' @ [LF] else [])"
  show ?thesis
  proof (cases "(lim \<le> unat out \<or> lim - unat out < unat maximum) \<or> unat maximum < length reply")
    case False
    then have "unat out + length reply \<le> lim" by linarith
    then show ?thesis using rd assms by (auto simp: sftp_reply_def reply_def [symmetric] Let_def simp del: One_nat_def intro!: put_then_good)
  next
    case True
    then show ?thesis using rd assms(2) by (auto simp: sftp_reply_def reply_def [symmetric] Let_def simp del: One_nat_def)
  qed
qed

lemma random_good:
  assumes "cmd + 224 \<le> lim" "handle_inv h"
  shows "handle_good (do_secure live e h 95 lim cmd m)"
proof -
  obtain len a where rd: "rd16 (mem_rd m lim) (cmd + 1) = Some len" "rd32 (mem_rd m lim) (cmd + 4) = Some a"
    using assms(1) mem_buf.rd16_defined [of "cmd + 1" lim m] mem_buf.rd32_defined [of "cmd + 4" lim m] by auto
  show ?thesis
  proof (cases "lim \<le> unat a \<or> lim - unat a < unat len")
    case False
    have "\<exists>st m'. secure_random e (unat len) lim (unat a) m = Some (st, m')"
      using random_fill_defined [OF in_service [OF False]] by (auto simp: secure_random_def split: option.split)
    then show ?thesis using rd assms(2) False by (auto simp: do_secure_def simp del: One_nat_def)
  qed (use rd assms(2) in \<open>auto simp: do_secure_def simp del: One_nat_def\<close>)
qed

lemma do_secure_good:
  assumes "cmd + 224 \<le> lim" "handle_inv h"
  shows "handle_good (do_secure live e h c lim cmd m)"
proof -
  have caps: "handle_good (do { m' \<leftarrow> mem_put m lim (cmd + 1) (secure_caps live); Some (NET_OK, h, m') })"
    using assms by (intro put_then_good) (simp_all add: secure_caps_def)
  have fixture: "handle_inv (h\<lparr>fixture_data := ascii ''SFTP fixture'' @ [LF], fixture_length := 13, fixture_at := 0\<rparr>)"
    "handle_inv (h\<lparr>fixture_data := [], fixture_length := 0, fixture_at := 0\<rparr>)"
    using assms(2) by (simp_all add: fixture_data_inv)
  show ?thesis
  proof (cases "c = 95")
    case True
    then show ?thesis using random_good [OF assms] by simp
  next
    case False
    then show ?thesis unfolding do_secure_def
      using caps fixture assms(2) secure_opens_good [OF assms] password_good [OF assms] sftp_reply_good [OF assms] do_read_good [OF assms] do_write_good [OF assms]
      by simp
  qed
qed

lemma handle_command_good:
  "cmd + 224 \<le> lim \<Longrightarrow> handle_inv h \<Longrightarrow> handle_good (handle_command live e h c lim cmd m)"
  by (simp add: handle_command_def raw_good do_read_good do_write_good do_open_good do_secure_good)

end
