(* ===== verification/Net_Http.thy ===== *)
theory Net_Http
  imports Net_Handles_Props
begin

section \<open>HTTP replies through a live handle\<close>

text \<open>
  A host that has opened an HTTP URL reads the body with URL\_READ until the status is no longer OK. The
  network delivers the reply as a list of segments; a \<open>recv\<close> takes at most as much of the first
  segment as it has room for, and finds the end of the stream when none is left. The theory shows
  that the host gets exactly the body, however the reply is cut into segments and however much the host
  asks for at a time.
\<close>

definition take_seg :: "nat \<Rightarrow> bytes list \<Rightarrow> bytes \<times> bytes list" where
  "take_seg n q = (case q of [] \<Rightarrow> ([], []) | s # r \<Rightarrow> (take n s, if drop n s = [] then r else drop n s # r))"

definition read_request :: "u32 \<Rightarrow> u32 \<Rightarrow> bytes" where
  "read_request maximum destination = [61, byte_of maximum 0, byte_of maximum 1, byte_of maximum 2,
     byte_of destination 0, byte_of destination 1, byte_of destination 2, byte_of destination 3]"

definition quiet_net :: net_env where
  "quiet_net = \<lparr>resolved = None, socket_state = Still_Connecting, sending = Send_Again, recv_first = Recv_Again, recv_second = Recv_Again,
     lookup = None, urandom = None\<rparr>"

text \<open>One READ: what each \<open>recv\<close> finds, the command, and the segments that are left.\<close>

definition read_step :: "nat \<Rightarrow> nat \<Rightarrow> u32 \<Rightarrow> u32 \<Rightarrow> net_handle \<times> bytes list \<times> mem \<Rightarrow> (u8 \<times> net_handle \<times> bytes list \<times> mem) option" where
  "read_step lim cmd maximum destination = (\<lambda>(h, q, m).
     let (a, q1) = (if headers_done h then ([], q) else take_seg (8191 - length (response h)) q);
         (b, q2) = take_seg (unat maximum) q1;
         e = quiet_net\<lparr>recv_first := Arrived a, recv_second := Arrived b\<rparr>;
         second = (case (if headers_done h then Inr h else receive_header e h) of
           Inl r \<Rightarrow> False | Inr h1 \<Rightarrow> length (response h1) \<le> response_pos h1) in
     do { (st, h', m') \<leftarrow> do_read True e h lim cmd (store m cmd (read_request maximum destination));
          Some (st, h', if second then q2 else q1, m') })"

definition page_count :: "nat \<Rightarrow> mem \<Rightarrow> nat" where
  "page_count cmd m = unat (le24 (m (cmd + 1)) (m (cmd + 2)) (m (cmd + 3)))"

fun read_all :: "nat \<Rightarrow> nat \<Rightarrow> u32 \<Rightarrow> u32 \<Rightarrow> nat \<Rightarrow> net_handle \<times> bytes list \<times> mem \<Rightarrow> (u8 \<times> bytes) option" where
  "read_all lim cmd maximum destination 0 s = None"
| "read_all lim cmd maximum destination (Suc k) s = do {
     (st, h, q, m) \<leftarrow> read_step lim cmd maximum destination s;
     if st = NET_OK then do {
       (final, bs) \<leftarrow> read_all lim cmd maximum destination k (h, q, m);
       Some (final, map m [unat destination..<unat destination + page_count cmd m] @ bs) }
     else Some (st, []) }"

subsection \<open>Searching\<close>

lemma starts_with_append: "starts_with p a \<Longrightarrow> starts_with p (a @ b)"
  by (auto simp: starts_with_def dest: arg_cong [where f = length])

lemma starts_with_prefix: "starts_with p (a @ b) \<Longrightarrow> length p \<le> length a \<Longrightarrow> starts_with p a"
  by (simp add: starts_with_def)

lemma find_sub_length: "find_sub p a = Some i \<Longrightarrow> i + length p \<le> length a"
proof (induction a arbitrary: i)
  case (Cons c cs)
  then show ?case by (auto simp: starts_with_def split: if_splits dest!: arg_cong [where f = length])
qed (auto split: if_splits)

lemma find_sub_append: "find_sub p a = Some i \<Longrightarrow> find_sub p (a @ b) = Some i"
proof (induction a arbitrary: i)
  case Nil
  then show ?case by (cases b) (auto simp: starts_with_def split: if_splits)
next
  case (Cons c cs)
  show ?case
  proof (cases "starts_with p (c # cs)")
    case False
    then obtain z where z: "find_sub p cs = Some z" "i = Suc z" using Cons.prems by auto
    then have "\<not> starts_with p (c # cs @ b)" using False starts_with_prefix [of p "c # cs" b] find_sub_length [OF z(1)] by auto
    then show ?thesis using Cons.IH [OF z(1)] z(2) by simp
  qed (use Cons.prems starts_with_append [of p "c # cs" b] in auto)
qed

lemma find_sub_incomplete: "find_sub p (a @ b) = Some i \<Longrightarrow> length a < i + length p \<Longrightarrow> find_sub p a = None"
  using find_sub_append [of p a _ b] find_sub_length [of p a] by (cases "find_sub p a") fastforce+

subsection \<open>Segments\<close>

lemma take_seg_concat: "take_seg n q = (a, q') \<Longrightarrow> a @ concat q' = concat q"
  by (auto simp: take_seg_def split: list.splits if_splits)

lemma take_seg_nonempty:
  "take_seg n q = (a, q') \<Longrightarrow> [] \<notin> set q \<Longrightarrow> [] \<notin> set q' \<and> (a = [] \<longrightarrow> n = 0 \<or> q = []) \<and> length a \<le> n"
  by (auto simp: take_seg_def split: list.splits if_splits)

subsection \<open>The body\<close>

text \<open>What is left of the body is in the response buffer and in the segments.\<close>

definition body_state :: "nat option \<Rightarrow> nat \<Rightarrow> net_handle \<Rightarrow> bytes list \<Rightarrow> bytes \<Rightarrow> bool" where
  "body_state announced whole h q rest \<longleftrightarrow> http h \<and> opened h \<and> headers_done h \<and> drop (response_pos h) (response h) @ concat q = rest \<and>
     [] \<notin> set q \<and> http_body_read h + length rest = whole \<and> http_has_length h = (announced \<noteq> None) \<and>
     (\<forall>n. announced = Some n \<longrightarrow> http_content_length h = n)"

definition final_status :: "nat option \<Rightarrow> nat \<Rightarrow> u8" where
  "final_status announced whole = (case announced of None \<Rightarrow> NET_EOF | Some n \<Rightarrow> if whole < n then NET_ERR_TCP_CLOSED else NET_EOF)"

definition apart_from :: "nat \<Rightarrow> nat \<Rightarrow> u32 \<Rightarrow> u32 \<Rightarrow> bool" where
  "apart_from lim cmd maximum destination \<longleftrightarrow> cmd + 224 \<le> lim \<and> 0 < unat maximum \<and> unat maximum < 0x1000000 \<and>
     unat destination + unat maximum \<le> lim \<and> (unat destination + unat maximum \<le> cmd \<or> cmd + 224 \<le> unat destination)"

lemma byte_counts:
  assumes "n < 0x1000000"
  shows "unat (le24 (byte_of (word_of_nat n :: u32) 0) (byte_of (word_of_nat n :: u32) 1) (byte_of (word_of_nat n :: u32) 2)) = n"
proof -
  let ?v = "word_of_nat n :: u32"
  have "unat (le32 (byte_of ?v 0) (byte_of ?v 1) (byte_of ?v 2) (byte_of ?v 3)) = n"
    unfolding le32_byte_of using assms by (simp add: unat_of_nat)
  then have sum: "unat (le24 (byte_of ?v 0) (byte_of ?v 1) (byte_of ?v 2)) + 0x1000000 * unat (byte_of ?v 3) = n"
    unfolding unat_le32 unat_le24 .
  then have "unat (byte_of ?v 3) = 0" using assms by (cases "unat (byte_of ?v 3)") simp_all
  then show ?thesis using sum by simp
qed

lemma counted_put:
  assumes "cmd + 224 \<le> lim" "at + length bs \<le> lim" "at + length bs \<le> cmd \<or> cmd + 224 \<le> at" "length bs < 0x1000000"
  shows "\<exists>m'. do { m1 \<leftarrow> mem_put m lim at bs; handle_count st h lim cmd (length bs) m1 } = Some (st, h, m') \<and>
     map m' [at..<at + length bs] = bs \<and> page_count cmd m' = length bs"
proof -
  let ?c = "[byte_of (word_of_nat (length bs) :: u32) 0, byte_of (word_of_nat (length bs) :: u32) 1, byte_of (word_of_nat (length bs) :: u32) 2]"
  let ?m = "store (store m at bs) (cmd + 1) ?c"
  have "map ?m [at..<at + length bs] = map (store m at bs) [at..<at + length bs]"
    using assms(3) by (auto simp: store_def)
  then have "map ?m [at..<at + length bs] = bs" by (simp only: map_store_self)
  moreover have "page_count cmd ?m = length bs"
    using store_read(1) [of 0 ?c "store m at bs" "cmd + 1"] store_read(1) [of 1 ?c "store m at bs" "cmd + 1"]
      store_read(1) [of 2 ?c "store m at bs" "cmd + 1"] byte_counts [OF assms(4)]
    by (simp add: page_count_def numeral_2_eq_2 numeral_3_eq_3)
  ultimately show ?thesis using assms(1, 2) by (simp add: mem_put_store handle_count_eq)
qed

lemma length_seg_le: "length (seg w i n) = min n (length w - i)"
  by (simp add: seg_def)

lemma seg_rest: "seg w i n @ drop (i + length (seg w i n)) w = drop i w"
proof -
  have "drop (i + length (seg w i n)) w = drop n (drop i w)" by (auto simp: length_seg_le min_def add.commute)
  then show ?thesis by (simp only: seg_def append_take_drop_id)
qed

lemma put_counted:
  assumes "apart_from lim cmd maximum destination" "length bs \<le> unat maximum"
  shows "\<exists>m'. do { m1 \<leftarrow> mem_put m lim (unat destination) bs; handle_count NET_OK g lim cmd (length bs) m1 } = Some (NET_OK, g, m') \<and>
     map m' [unat destination..<unat destination + length bs] = bs \<and> page_count cmd m' = length bs"
  using assms by (intro counted_put) (auto simp: apart_from_def)

text \<open>A READ that delivers the next bytes of the body.\<close>

definition delivers :: "nat \<Rightarrow> u32 \<Rightarrow> nat option \<Rightarrow> nat \<Rightarrow> bytes list \<Rightarrow> bytes \<Rightarrow> handle_result \<Rightarrow> bool" where
  "delivers cmd destination announced whole q rest r \<longleftrightarrow> (\<exists>h m n. r = Some (NET_OK, h, m) \<and> 0 < n \<and> n \<le> length rest \<and>
     page_count cmd m = n \<and> map m [unat destination..<unat destination + n] = take n rest \<and> body_state announced whole h q (drop n rest))"

lemma read_body_buffered:
  assumes "apart_from lim cmd maximum destination" "body_state announced whole h q rest" "response_pos h < length (response h)"
  shows "delivers cmd destination announced whole q rest (read_body e h lim cmd (unat maximum) (unat destination) m)"
proof -
  define c where "c = seg (response h) (response_pos h) (unat maximum)"
  define h' where "h' = h\<lparr>response_pos := response_pos h + length c, http_body_read := http_body_read h + length c\<rparr>"
  have c: "length c \<le> unat maximum" "0 < length c" "c @ drop (response_pos h + length c) (response h) = drop (response_pos h) (response h)"
    using assms(1, 3) seg_rest [of "response h" "response_pos h" "unat maximum"]
    by (simp_all add: c_def length_seg_le apart_from_def)
  have rest: "rest = c @ drop (response_pos h + length c) (response h) @ concat q"
    using assms(2) c(3) by (metis append.assoc body_state_def)
  obtain m' where m': "do { m1 \<leftarrow> mem_put m lim (unat destination) c; handle_count NET_OK h' lim cmd (length c) m1 } = Some (NET_OK, h', m')"
    "map m' [unat destination..<unat destination + length c] = c" "page_count cmd m' = length c"
    using put_counted [OF assms(1) c(1), of m h'] by blast
  have r: "read_body e h lim cmd (unat maximum) (unat destination) m = Some (NET_OK, h', m')"
    using m'(1) assms(2, 3) unfolding read_body_def c_def [symmetric] h'_def [symmetric] Let_def by (simp add: body_state_def)
  have "body_state announced whole h' q (drop (length c) rest)"
    using assms(2) rest by (auto simp: body_state_def h'_def)
  then show ?thesis unfolding delivers_def r using m'(2, 3) c(2) rest
    by (intro exI [of _ h'] exI [of _ m'] exI [of _ "length c"]) auto
qed

lemma read_body_arrived:
  assumes "apart_from lim cmd maximum destination" "body_state announced whole h q rest" "length (response h) \<le> response_pos h"
    "take_seg (unat maximum) q = (b, q2)" "recv_second e = Arrived b" "b \<noteq> []"
  shows "delivers cmd destination announced whole q2 rest (read_body e h lim cmd (unat maximum) (unat destination) m)"
proof -
  have q: "[] \<notin> set q" "rest = concat q" using assms(2, 3) by (auto simp: body_state_def)
  have b: "b @ concat q2 = rest" "[] \<notin> set q2" "length b \<le> unat maximum"
    using take_seg_concat [OF assms(4)] take_seg_nonempty [OF assms(4) q(1)] q(2) by auto
  define h' where "h' = h\<lparr>http_body_read := http_body_read h + length b\<rparr>"
  obtain m' where m': "do { m1 \<leftarrow> mem_put m lim (unat destination) b; handle_count NET_OK h' lim cmd (length b) m1 } = Some (NET_OK, h', m')"
    "map m' [unat destination..<unat destination + length b] = b" "page_count cmd m' = length b"
    using put_counted [OF assms(1) b(3), of m h'] by blast
  have r: "read_body e h lim cmd (unat maximum) (unat destination) m = Some (NET_OK, h', m')"
    using m'(1) assms(2, 3, 5, 6) b(3) unfolding read_body_def h'_def [symmetric] Let_def by (simp add: body_state_def h'_def)
  have "body_state announced whole h' q2 (drop (length b) rest)"
    using assms(2, 3) b(2) unfolding b(1) [symmetric] by (simp add: body_state_def h'_def)
  then show ?thesis unfolding delivers_def r using m'(2, 3) assms(6) b(1)
    by (intro exI [of _ h'] exI [of _ m'] exI [of _ "length b"]) auto
qed

lemma read_body_end:
  assumes "cmd + 224 \<le> lim" "body_state announced whole h [] []" "recv_second e = Arrived []"
  shows "\<exists>m'. read_body e h lim cmd n at m = Some (final_status announced whole, h, m')"
proof -
  have "final_status announced whole = (if http_has_length h \<and> http_body_read h < http_content_length h then NET_ERR_TCP_CLOSED else NET_EOF)"
    using assms(2) by (cases announced) (auto simp: final_status_def body_state_def)
  moreover have "length (response h) \<le> response_pos h" using assms(2) by (simp add: body_state_def)
  ultimately show ?thesis using assms(1, 3) by (simp add: read_body_def handle_count_eq)
qed

lemma read_body_step:
  assumes "apart_from lim cmd maximum destination" "body_state announced whole h q rest" "take_seg (unat maximum) q = (b, q2)"
    "recv_second e = Arrived b"
  shows "(rest = [] \<and> (\<exists>m'. read_body e h lim cmd (unat maximum) (unat destination) m = Some (final_status announced whole, h, m'))) \<or>
    delivers cmd destination announced whole (if length (response h) \<le> response_pos h then q2 else q) rest
      (read_body e h lim cmd (unat maximum) (unat destination) m)"
proof (cases "length (response h) \<le> response_pos h")
  case True
  have q: "[] \<notin> set q" "rest = concat q" using assms(2) True by (auto simp: body_state_def)
  show ?thesis
  proof (cases "b = []")
    case empty: True
    then have "q = []" using take_seg_nonempty [OF assms(3) q(1)] assms(1) by (auto simp: apart_from_def)
    then show ?thesis using read_body_end [of cmd lim announced whole h e] assms(1, 2, 4) q(2) empty by (simp add: apart_from_def)
  qed (use read_body_arrived [OF assms(1, 2) True assms(3, 4)] True in simp)
qed (use read_body_buffered [OF assms(1, 2)] in simp)

lemma read_decoded:
  assumes "apart_from lim cmd maximum destination" "opened h"
  shows "do_read True e h lim cmd (store m cmd (read_request maximum destination)) =
     (if http h \<and> \<not> headers_done h then (case receive_header e h of
         Inl (st, counted, h1) \<Rightarrow> if counted then handle_count st h1 lim cmd 0 (store m cmd (read_request maximum destination))
           else Some (st, h1, store m cmd (read_request maximum destination))
       | Inr h1 \<Rightarrow> read_body e h1 lim cmd (unat maximum) (unat destination) (store m cmd (read_request maximum destination)))
     else read_body e h lim cmd (unat maximum) (unat destination) (store m cmd (read_request maximum destination)))"
proof -
  let ?r = "read_request maximum destination"
  let ?m = "store m cmd ?r"
  have a: "cmd + 224 \<le> lim" "0 < unat maximum" "unat maximum < 0x1000000" "unat destination + unat maximum \<le> lim" using assms(1) by (auto simp: apart_from_def)
  have at: "?m (cmd + k) = ?r ! k" if "k < 8" for k using that store_read(1) [of k ?r m cmd] by (simp add: read_request_def)
  have "rd24 (mem_rd ?m lim) (cmd + 1) = Some (le24 (byte_of maximum 0) (byte_of maximum 1) (byte_of maximum 2))"
    using a(1) at [of 1] at [of 2] at [of 3] by (simp add: rd24_mem read_request_def numeral_2_eq_2 numeral_3_eq_3)
  moreover have "le24 (byte_of maximum 0) (byte_of maximum 1) (byte_of maximum 2) = maximum"
    using byte_counts [OF a(3)] by (intro unsigned_word_eqI [where ?'a = nat]) (simp del: One_nat_def)
  moreover have "rd32 (mem_rd ?m lim) (cmd + 4) = Some destination"
    using a(1) at [of 4] at [of 5] at [of 6] at [of 7] le32_byte_of [of destination]
    by (simp add: mem_rd_words read_request_def nth_Cons' ac_simps)
  moreover have "\<not> (lim \<le> unat destination \<or> lim - unat destination < unat maximum)" using a(2, 4) by linarith
  ultimately show ?thesis using assms(2) by (simp add: do_read_def)
qed

lemma read_all_deliver:
  assumes "apart_from lim cmd maximum destination" "body_state announced whole h q rest" "take_seg (unat maximum) q = (b, q2)"
    "recv_second e = Arrived b"
    "read_step lim cmd maximum destination s = do {
        (st, h', m') \<leftarrow> read_body e h lim cmd (unat maximum) (unat destination) m;
        Some (st, h', if length (response h) \<le> response_pos h then q2 else q, m') }"
    and IH: "\<And>h q rest' m. body_state announced whole h q rest' \<Longrightarrow> length rest' < length rest \<Longrightarrow>
      read_all lim cmd maximum destination k (h, q, m) = Some (final_status announced whole, rest')"
  shows "read_all lim cmd maximum destination (Suc k) s = Some (final_status announced whole, rest)"
proof -
  consider m' where "rest = []" "read_body e h lim cmd (unat maximum) (unat destination) m = Some (final_status announced whole, h, m')"
    | h' m' n where "read_body e h lim cmd (unat maximum) (unat destination) m = Some (NET_OK, h', m')" "0 < n" "n \<le> length rest"
      "page_count cmd m' = n" "map m' [unat destination..<unat destination + n] = take n rest"
      "body_state announced whole h' (if length (response h) \<le> response_pos h then q2 else q) (drop n rest)"
    using read_body_step [OF assms(1-4), of m] unfolding delivers_def by (auto simp del: map_eq_conv)
  then show ?thesis
  proof cases
    case 1
    have "final_status announced whole \<noteq> NET_OK" by (simp add: final_status_def split: option.split)
    then show ?thesis using 1 assms(5) by simp
  next
    case 2
    then show ?thesis using assms(5) IH [OF 2(6), of m'] by simp
  qed
qed

lemma read_all_body:
  assumes "apart_from lim cmd maximum destination"
  shows "body_state announced whole h q rest \<Longrightarrow> length rest < k \<Longrightarrow>
    read_all lim cmd maximum destination k (h, q, m) = Some (final_status announced whole, rest)"
proof (induction k arbitrary: h q rest m)
  case (Suc k)
  obtain b q2 where b: "take_seg (unat maximum) q = (b, q2)" by fastforce
  let ?e = "quiet_net\<lparr>recv_first := Arrived [], recv_second := Arrived b\<rparr>" and ?m = "store m cmd (read_request maximum destination)"
  have h: "headers_done h" "opened h" using Suc.prems(1) by (auto simp: body_state_def)
  have step: "read_step lim cmd maximum destination (h, q, m) = do {
      (st, h', m') \<leftarrow> read_body ?e h lim cmd (unat maximum) (unat destination) ?m;
      Some (st, h', if length (response h) \<le> response_pos h then q2 else q, m') }"
    using b h by (simp add: read_step_def read_decoded [OF assms h(2)])
  show ?case by (rule read_all_deliver [OF assms Suc.prems(1) b _ step]) (use Suc in auto)
qed simp

subsection \<open>The header\<close>

abbreviation SEPARATOR :: bytes where "SEPARATOR \<equiv> [CR, LF, CR, LF]"

text \<open>
  A header the handle accepts: it fits the buffer, holds no zero byte, names a status 2xx, and ends at the
  first empty line; \<open>announced\<close> is the content length it gives, which does not depend on what follows.
\<close>

definition header_ok :: "bytes \<Rightarrow> nat option \<Rightarrow> bool" where
  "header_ok hdr announced \<longleftrightarrow> length hdr + 4 \<le> 8191 \<and> 10 \<le> length hdr \<and> 0 \<notin> set hdr \<and> take 7 hdr = ascii ''HTTP/1.'' \<and> hdr ! 9 = 0x32 \<and>
     find_sub SEPARATOR (hdr @ SEPARATOR) = Some (length hdr) \<and>
     (\<forall>t. content_length (hdr @ SEPARATOR @ t) (length hdr) = announced)"

definition header_state :: "bytes \<Rightarrow> bytes \<Rightarrow> net_handle \<Rightarrow> bytes list \<Rightarrow> bool" where
  "header_state hdr body h q \<longleftrightarrow> http h \<and> opened h \<and> \<not> headers_done h \<and> response h @ concat q = hdr @ SEPARATOR @ body \<and>
     length (response h) < length hdr + 4 \<and> response_pos h = 0 \<and> http_body_read h = 0 \<and> \<not> http_has_length h \<and> [] \<notin> set q"

lemma header_incomplete:
  assumes "header_ok hdr announced" "r @ t = hdr @ SEPARATOR @ body" "length r < length hdr + 4"
  shows "find_sub SEPARATOR (cstr r) = None"
proof -
  define u where "u = drop (length r) (hdr @ SEPARATOR)"
  have "take (length r) ((hdr @ SEPARATOR) @ body) = take (length r) (hdr @ SEPARATOR)"
    by (subst take_append) (use assms(3) in simp)
  then have "take (length r) (r @ t) = take (length r) (hdr @ SEPARATOR)" unfolding assms(2) append.assoc .
  then have u: "hdr @ SEPARATOR = r @ u" unfolding u_def using append_take_drop_id [of "length r" "hdr @ SEPARATOR"] by simp
  have "0 \<notin> set (hdr @ SEPARATOR)" using assms(1) by (simp add: header_ok_def)
  then have "cstr r = r" using cstr_append [of r "[]"] unfolding u by (simp add: cstr_def)
  moreover have "find_sub SEPARATOR (r @ u) = Some (length hdr)" using assms(1) by (simp add: header_ok_def flip: u)
  ultimately show ?thesis using find_sub_incomplete [of SEPARATOR r u "length hdr"] assms(3) by simp
qed

lemma header_complete:
  assumes "header_ok hdr announced" "response h = hdr @ SEPARATOR @ t" "\<not> http_has_length h"
  shows "\<exists>h1. http_header h = Inr h1 \<and> response h1 = t \<and> headers_done h1 \<and> http h1 = http h \<and> opened h1 = opened h \<and>
    response_pos h1 = response_pos h \<and> http_body_read h1 = http_body_read h \<and> http_has_length h1 = (announced \<noteq> None) \<and>
    (\<forall>n. announced = Some n \<longrightarrow> http_content_length h1 = n)"
proof -
  have k: "10 \<le> length hdr" "0 \<notin> set (hdr @ SEPARATOR)" "take 7 hdr = ascii ''HTTP/1.''" "hdr ! 9 = 0x32"
    "find_sub SEPARATOR (hdr @ SEPARATOR) = Some (length hdr)" "\<And>t. content_length (hdr @ SEPARATOR @ t) (length hdr) = announced"
    using assms(1) by (simp_all add: header_ok_def)
  have c: "cstr (response h) = hdr @ SEPARATOR @ cstr t" using cstr_append [OF k(2), of t] assms(2) by simp
  have f: "find_sub SEPARATOR (cstr (response h)) = Some (length hdr)" using find_sub_append [OF k(5), of "cstr t"] c by simp
  have g: "\<not> (length (response h) < 12 \<or> take 7 (response h) \<noteq> ascii ''HTTP/1.'' \<or> response h ! 9 \<noteq> 0x32)"
    using k(1, 3, 4) assms(2) by (simp add: nth_append)
  have d: "drop (length hdr + 4) (response h) = t" using assms(2) by simp
  have "content_length (cstr (response h)) (length hdr) = announced" unfolding c by (rule k(6))
  then show ?thesis using f g d assms(3) by (cases announced) (simp_all add: http_header_def Let_def)
qed

lemma counted_zero: "cmd + 224 \<le> lim \<Longrightarrow> \<exists>m'. handle_count st h lim cmd 0 m = Some (st, h, m') \<and> page_count cmd m' = 0"
  using counted_put [of cmd lim 0 "[]" m st h] by (simp add: mem_put_def)

lemma header_split: "r @ c = x @ y \<Longrightarrow> length x \<le> length r \<Longrightarrow> \<exists>t. r = x @ t \<and> t @ c = y"
  by (auto simp: append_eq_append_conv2)

lemma read_all_header:
  assumes "apart_from lim cmd maximum destination" "header_ok hdr announced"
  shows "header_state hdr body h q \<Longrightarrow> length (concat q) \<le> k \<Longrightarrow>
    read_all lim cmd maximum destination (Suc k) (h, q, m) = Some (final_status announced (length body), body)"
proof (induction k arbitrary: h q m)
  case 0
  have "concat q = []" using 0(2) by (simp only: le_zero_eq length_0_conv)
  then have "response h = hdr @ SEPARATOR @ body" "length (response h) < length hdr + 4"
    using 0(1) unfolding header_state_def by (metis append_Nil2)+
  then show ?case by simp
next
  case (Suc k)
  have s: "http h" "opened h" "\<not> headers_done h" "response h @ concat q = hdr @ SEPARATOR @ body" "length (response h) < length hdr + 4"
    "response_pos h = 0" "http_body_read h = 0" "\<not> http_has_length h" "[] \<notin> set q" "length hdr + 4 \<le> 8191"
    using Suc.prems(1) assms(2) by (auto simp: header_state_def header_ok_def)
  have room: "cmd + 224 \<le> lim" using assms(1) by (simp add: apart_from_def)
  obtain a q1 where a: "take_seg (8191 - length (response h)) q = (a, q1)" by fastforce
  have "q \<noteq> []" using s(4, 5) by auto
  then have a': "a \<noteq> []" "[] \<notin> set q1" "length a \<le> 8191 - length (response h)" "a @ concat q1 = concat q"
    using take_seg_nonempty [OF a s(9)] take_seg_concat [OF a] s(5, 10) by auto
  obtain b q2 where b: "take_seg (unat maximum) q1 = (b, q2)" by fastforce
  define e where "e = quiet_net\<lparr>recv_first := Arrived a, recv_second := Arrived b\<rparr>"
  let ?m = "store m cmd (read_request maximum destination)" and ?g = "h\<lparr>response := response h @ a\<rparr>"
  have rh: "receive_header e h = http_header ?g"
    using s(5, 10) a'(1, 3) by (simp add: receive_header_def e_def)
  have step: "read_step lim cmd maximum destination (h, q, m) =
    (let second = (case http_header ?g of Inl r \<Rightarrow> False | Inr h1 \<Rightarrow> length (response h1) \<le> response_pos h1) in
     do { (st, h', m') \<leftarrow> (case http_header ?g of
         Inl (st, counted, h1) \<Rightarrow> if counted then handle_count st h1 lim cmd 0 ?m else Some (st, h1, ?m)
       | Inr h1 \<Rightarrow> read_body e h1 lim cmd (unat maximum) (unat destination) ?m);
          Some (st, h', if second then q2 else q1, m') })"
    using s(1-3) a b by (simp add: read_step_def e_def [symmetric] read_decoded [OF assms(1) s(2)] rh)
  have all: "(response h @ a) @ concat q1 = hdr @ SEPARATOR @ body" using s(4) a'(4) by simp
  have sum: "length (concat q) = length a + length (concat q1)" using arg_cong [OF a'(4), of length] by simp
  have "0 < length a" using a'(1) by simp
  then have shorter: "length (concat q1) \<le> k" using sum Suc.prems(2) by linarith
  show ?case
  proof (cases "length (response h @ a) < length hdr + 4")
    case True
    then have "http_header ?g = Inl (NET_OK, True, ?g)" using header_incomplete [OF assms(2) all] by (simp add: http_header_def)
    moreover have "header_state hdr body ?g q1" using s a'(2) all True by (simp add: header_state_def)
    moreover obtain m' where "handle_count NET_OK ?g lim cmd 0 ?m = Some (NET_OK, ?g, m')" "page_count cmd m' = 0"
      using counted_zero [OF room] by blast
    ultimately show ?thesis using step Suc.IH [of ?g q1 m'] shorter by (simp del: read_all.simps(2)) (simp add: read_all.simps(2) [of _ _ _ _ "Suc k"])
  next
    case False
    obtain t where t: "response h @ a = hdr @ SEPARATOR @ t" "t @ concat q1 = body"
      using header_split [of "response h @ a" "concat q1" "hdr @ SEPARATOR" body] all False by auto
    obtain h1 where h1: "http_header ?g = Inr h1" "body_state announced (length body) h1 q1 body" "response h1 = t" "response_pos h1 = 0"
      using header_complete [OF assms(2), of ?g t] t s a'(2) by (auto simp: body_state_def)
    have "length t < length a" using arg_cong [OF t(1), of length] s(5) by simp
    then have bl: "length body \<le> k" using arg_cong [OF t(2), of length] sum Suc.prems(2) by simp
    have st: "read_step lim cmd maximum destination (h, q, m) = do {
        (st, h', m') \<leftarrow> read_body e h1 lim cmd (unat maximum) (unat destination) ?m;
        Some (st, h', if length (response h1) \<le> response_pos h1 then q2 else q1, m') }"
      using step h1(1) by simp
    show ?thesis by (rule read_all_deliver [OF assms(1) h1(2) b _ st]) (use bl read_all_body [OF assms(1)] in \<open>auto simp: e_def simp del: read_all.simps\<close>)
  qed
qed

definition fresh_http :: "net_handle \<Rightarrow> bool" where
  "fresh_http h \<longleftrightarrow> http h \<and> opened h \<and> \<not> headers_done h \<and> response h = [] \<and> response_pos h = 0 \<and> http_body_read h = 0 \<and> \<not> http_has_length h"

text \<open>C33: a host that reads an HTTP reply through a live handle until the status is no longer OK gets exactly the
  body, however the network cuts the reply into segments and whatever number of bytes the host asks for at a
  time; the last status is EOF, or TCP\_CLOSED when the header announced more than arrived. It takes at most one
  command more than the reply has bytes.\<close>

theorem http_body_delivered:
  assumes "apart_from lim cmd maximum destination" "fresh_http h" "header_ok hdr announced" "[] \<notin> set q"
    "concat q = hdr @ SEPARATOR @ body" "length (concat q) < k"
  shows "read_all lim cmd maximum destination k (h, q, m) = Some (final_status announced (length body), body)"
proof -
  obtain k' where k: "k = Suc k'" "length (concat q) \<le> k'" using assms(6) by (cases k) auto
  have "header_state hdr body h q" using assms(2, 4, 5) by (simp add: header_state_def fresh_http_def)
  then show ?thesis unfolding k(1) by (rule read_all_header [OF assms(1, 3) _ k(2)])
qed

definition demo_header :: bytes where
  "demo_header = ascii ''HTTP/1.0 200 OK'' @ [CR, LF] @ ascii ''Content-Length: 5''"

lemma demo_header_ok: "header_ok demo_header (Some 5)"
proof -
  have "content_length (demo_header @ SEPARATOR @ t) (length demo_header) = Some 5" for t
    by (simp add: content_length_def demo_header_def ascii_def starts_with_def strtoul_def base_prefix_def is_space_def
        digit_in_def digit_value_def is_digit_def lower_def)
  then show ?thesis
    by (simp add: header_ok_def) (simp add: demo_header_def ascii_def starts_with_def)
qed

theorem http_body_delivered_witness:
  "read_all 0x2000000 0xFFF000 7 0x20000 100 (handle_new\<lparr>fd := 3, http := True, opened := True\<rparr>,
     [demo_header @ [CR], [LF, CR, LF] @ ascii ''hel'', ascii ''lo''], \<lambda>i. 0) = Some (final_status (Some 5) (length (ascii ''hello'')), ascii ''hello'')"
proof (rule http_body_delivered [OF _ _ demo_header_ok])
  show "concat [demo_header @ [CR], [LF, CR, LF] @ ascii ''hel'', ascii ''lo''] = demo_header @ SEPARATOR @ ascii ''hello''"
    by (simp add: ascii_def)
qed (simp_all add: apart_from_def fresh_http_def handle_new_def demo_header_def ascii_def)

end
