(* ===== verification/Uef_Stream_Props.thy ===== *)
theory Uef_Stream_Props
  imports Uef_Stream
begin

section \<open>Properties of the UEF stream\<close>

text \<open>
  What the host reads out of a published window, that windows and guard leave each other alone, the
  invariant of the stream, and that every command keeps it.
\<close>

subsection \<open>Windows and the guard\<close>

text \<open>The host walks the pages from page 1 on and takes a run of bytes from the bottom of each.\<close>

definition run_length :: "uef_backend \<Rightarrow> nat" where
  "run_length b = (if guard_image_valid b then UEF_GUARD_OFFSET else 256)"

definition host_window :: "nat \<Rightarrow> mem \<Rightarrow> nat \<Rightarrow> bytes" where
  "host_window run m count = map (\<lambda>k. m (256 * (k div run + 1) + k mod run)) [0..<count]"

lemma put_all_append: "put_all lim (xs @ ys) m = do { m' \<leftarrow> put_all lim xs m; put_all lim ys m' }"
  by (induction xs arbitrary: m) (auto split: bind_split)

lemma guard_pages:
  assumes "length g = UEF_GUARD_LENGTH" "256 * n \<le> lim" "n \<le> 256"
  shows "put_all lim (map (\<lambda>page. (256 * page + UEF_GUARD_OFFSET, g)) [UEF_FIRST_PAGE..<n]) m =
    Some (\<lambda>i. if 256 \<le> i \<and> i < 256 * n \<and> UEF_GUARD_OFFSET \<le> i mod 256 then g ! (i mod 256 - UEF_GUARD_OFFSET) else m i)"
  using assms(2, 3)
proof (induction n)
  case (Suc n)
  show ?case
  proof (cases "n = 0")
    case False
    let ?m = "\<lambda>i. if 256 \<le> i \<and> i < 256 * n \<and> UEF_GUARD_OFFSET \<le> i mod 256
      then g ! (i mod 256 - UEF_GUARD_OFFSET) else m i"
    have e: "(if 256 * n + UEF_GUARD_OFFSET \<le> i \<and> i < 256 * n + UEF_GUARD_OFFSET + UEF_GUARD_LENGTH
        then g ! (i - (256 * n + UEF_GUARD_OFFSET)) else ?m i) =
      (if 256 \<le> i \<and> i < 256 * Suc n \<and> UEF_GUARD_OFFSET \<le> i mod 256 then g ! (i mod 256 - UEF_GUARD_OFFSET) else m i)" for i
    proof (cases "256 * n \<le> i \<and> i < 256 * Suc n")
      case True
      then have "i mod 256 = i - 256 * n" "256 \<le> i" using False
        by (auto simp: mod_nat_eqI)
      then show ?thesis using True by auto
    qed auto
    have "[UEF_FIRST_PAGE..<Suc n] = [UEF_FIRST_PAGE..<n] @ [n]" using False by simp
    then show ?thesis using Suc assms(1)
      by (simp add: put_all_append mem_put_def fun_eq_iff e [simplified])
  qed (auto simp: fun_eq_iff)
qed (simp add: fun_eq_iff)

lemma guard_stamp_eq:
  assumes "length (guard_image b) = UEF_GUARD_LENGTH" "0x10000 \<le> lim" "guard_image_valid b"
  shows "guard_stamp b lim m = Some (\<lambda>i. if 256 \<le> i \<and> i < 0x10000 \<and> UEF_GUARD_OFFSET \<le> i mod 256
      then guard_image b ! (i mod 256 - UEF_GUARD_OFFSET) else m i)"
  using guard_pages [of "guard_image b" 256 lim m] assms by (simp add: guard_stamp_def)

lemma scatter_window:
  assumes "256 * (page + 1) + 256 * (length source div UEF_GUARD_OFFSET + 1) \<le> lim"
  shows "\<exists>m'. scatter_loop lim page source m = Some m' \<and>
     (\<forall>k < length source. m' (256 * (page + k div UEF_GUARD_OFFSET + 1) + k mod UEF_GUARD_OFFSET) = source ! k) \<and>
     (\<forall>i. i < 256 * (page + 1) \<or> 256 * (page + 1) + 256 * (length source div UEF_GUARD_OFFSET) + length source mod UEF_GUARD_OFFSET \<le> i \<longrightarrow> m' i = m i)"
  using assms
proof (induction "length source" arbitrary: page source m rule: less_induct)
  case less
  show ?case
  proof (cases "source = []")
    case False
    let ?c = "take UEF_GUARD_OFFSET source" and ?r = "drop UEF_GUARD_OFFSET source"
    let ?m = "store m (256 * (page + 1)) ?c"
    have put: "mem_put m lim (256 * (page + UEF_FIRST_PAGE)) ?c = Some ?m"
      using less.prems by (intro mem_put_store) simp
    have step: "scatter_loop lim page source m = scatter_loop lim (page + 1) ?r ?m"
      using False put by (subst scatter_loop.simps) simp
    show ?thesis
    proof (cases "length source < UEF_GUARD_OFFSET")
      case True
      then show ?thesis using step scatter_loop.simps [of lim "page + 1" "[]"]
        by (auto simp: store_def)
    next
      case long: False
      have d: "length ?r div UEF_GUARD_OFFSET + 1 = length source div UEF_GUARD_OFFSET"
        "length ?r mod UEF_GUARD_OFFSET = length source mod UEF_GUARD_OFFSET"
        using long by (simp_all add: le_div_geq le_mod_geq)
      have room: "256 * (page + 1 + 1) + 256 * (length ?r div UEF_GUARD_OFFSET + 1) \<le> lim"
        unfolding d(1) using less.prems by simp
      have shorter: "length ?r < length source" using False by simp
      obtain m' where m': "scatter_loop lim (page + 1) ?r ?m = Some m'"
        "\<And>k. k < length ?r \<Longrightarrow> m' (256 * (page + 1 + k div UEF_GUARD_OFFSET + 1) + k mod UEF_GUARD_OFFSET) = ?r ! k"
        "\<And>i. i < 256 * (page + 1 + 1) \<or> 256 * (page + 1 + 1) + 256 * (length ?r div UEF_GUARD_OFFSET) + length ?r mod UEF_GUARD_OFFSET \<le> i \<Longrightarrow> m' i = ?m i"
        using less.hyps [OF shorter room, of ?m] by blast
      have "m' (256 * (page + k div UEF_GUARD_OFFSET + 1) + k mod UEF_GUARD_OFFSET) = source ! k" if "k < length source" for k
      proof (cases "k < UEF_GUARD_OFFSET")
        case True
        then show ?thesis using m'(3) [of "256 * (page + 1) + k"] that by (simp add: store_def)
      next
        case False
        have "k div UEF_GUARD_OFFSET = (k - UEF_GUARD_OFFSET) div UEF_GUARD_OFFSET + 1" "k mod UEF_GUARD_OFFSET = (k - UEF_GUARD_OFFSET) mod UEF_GUARD_OFFSET"
          using False by (simp_all add: le_div_geq le_mod_geq)
        then show ?thesis using m'(2) [of "k - UEF_GUARD_OFFSET"] that False by (simp add: ac_simps)
      qed
      moreover have "m' i = m i" if "i < 256 * (page + 1) \<or> 256 * (page + 1) + 256 * (length source div UEF_GUARD_OFFSET) + length source mod UEF_GUARD_OFFSET \<le> i" for i
      proof -
        have "m' i = ?m i" using that d by (intro m'(3)) (auto simp flip: d)
        moreover have "256 * (page + 1) + 256 \<le> i \<or> i < 256 * (page + 1)" using that d(1) by (auto simp flip: d)
        ultimately show ?thesis by (auto simp: store_def)
      qed
      ultimately show ?thesis using step m'(1) by auto
    qed
  qed (use scatter_loop.simps [of lim page "[]"] in simp)
qed

lemma window_address:
  fixes k run :: nat
  assumes "k < 254 * run" "run \<le> 256"
  shows "256 \<le> 256 * (k div run + 1) + k mod run" "256 * (k div run + 1) + k mod run < 0xFF00"
proof -
  have "k div run < 254" using assms(1) by (simp add: less_mult_imp_div_less)
  moreover have "0 < run" using assms(1) by (cases run) auto
  then have "k mod run < 256" using assms(2) mod_less_divisor [of run k] by linarith
  ultimately show "256 * (k div run + 1) + k mod run < 0xFF00" by simp
qed simp

lemma window_limit_run: "window_limit b = 254 * run_length b" "run_length b \<le> 256" "0 < run_length b"
  by (simp_all add: window_limit_def run_length_def)

lemma host_window_cong:
  assumes "\<And>i. 256 \<le> i \<Longrightarrow> i < 0xFF00 \<Longrightarrow> m' i = m i" "count \<le> 254 * run" "run \<le> 256"
  shows "host_window run m' count = host_window run m count"
proof -
  have "m' (256 * (k div run + 1) + k mod run) = m (256 * (k div run + 1) + k mod run)" if "k < count" for k
    using that assms by (intro assms(1) window_address) auto
  then show ?thesis by (simp add: host_window_def)
qed

definition guard_ok :: "uef_backend \<Rightarrow> bool" where
  "guard_ok b \<longleftrightarrow> length (guard_image b) = UEF_GUARD_LENGTH"

lemma show_window_shows:
  assumes "offset + count \<le> UEF_STREAM_CAPACITY" "count \<le> window_limit b" "0x10000 \<le> lim" "guard_ok b"
  shows "\<exists>m'. show_window b lim offset count m = Some m' \<and>
     host_window (run_length b) m' count = map (uef_stream b) [offset..<offset + count] \<and>
     (\<forall>i. i < 256 \<or> 0x10000 \<le> i \<longrightarrow> m' i = m i)"
proof (cases "guard_image_valid b")
  case False
  let ?s = "map (uef_stream b) [offset..<offset + count]"
  have "host_window 256 (store m 256 ?s) count = ?s"
    by (rule nth_equalityI) (auto simp: host_window_def store_def)
  moreover have "show_window b lim offset count m = Some (store m 256 ?s)"
    using assms False mem_put_store [of 256 ?s lim m] by (simp add: show_window_def mem_get_def window_limit_def)
  ultimately show ?thesis using assms(2) False
    by (intro exI [of _ "store m 256 ?s"]) (auto simp: run_length_def window_limit_def store_def)
next
  case True
  let ?s = "map (uef_stream b) [offset..<offset + count]"
  have len: "length ?s div UEF_GUARD_OFFSET \<le> 254" "length ?s = count" "count \<le> 254 * UEF_GUARD_OFFSET"
    using div_le_mono [of count "254 * UEF_GUARD_OFFSET" UEF_GUARD_OFFSET] assms(2) True by (simp_all add: window_limit_def)
  then obtain m1 where m1: "scatter_loop lim 0 ?s m = Some m1"
    "\<And>k. k < length ?s \<Longrightarrow> m1 (256 * (0 + k div UEF_GUARD_OFFSET + 1) + k mod UEF_GUARD_OFFSET) = ?s ! k"
    "\<And>i. i < 256 * (0 + 1) \<or> 256 * (0 + 1) + 256 * (length ?s div UEF_GUARD_OFFSET) + length ?s mod UEF_GUARD_OFFSET \<le> i \<Longrightarrow> m1 i = m i"
    using scatter_window [of 0 ?s lim m] assms(3) by fastforce
  define m2 where "m2 = (\<lambda>i. if 256 \<le> i \<and> i < 0x10000 \<and> UEF_GUARD_OFFSET \<le> i mod 256
      then guard_image b ! (i mod 256 - UEF_GUARD_OFFSET) else m1 i)"
  have shown: "show_window b lim offset count m = Some m2"
    using m1(1) guard_stamp_eq [of b lim m1] assms True
    by (simp add: show_window_def mem_get_def uef_window_scatter_def guard_ok_def m2_def)
  have "m2 (256 * (k div UEF_GUARD_OFFSET + 1) + k mod UEF_GUARD_OFFSET) = ?s ! k" if "k < count" for k
  proof -
    have r: "k mod UEF_GUARD_OFFSET < UEF_GUARD_OFFSET" by simp
    then have "(k mod UEF_GUARD_OFFSET + 256 * (k div UEF_GUARD_OFFSET + 1)) mod 256 = k mod UEF_GUARD_OFFSET"
      by (subst mod_mult_self2) simp
    then have "(256 * (k div UEF_GUARD_OFFSET + 1) + k mod UEF_GUARD_OFFSET) mod 256 = k mod UEF_GUARD_OFFSET"
      by (simp only: add.commute)
    moreover have "UEF_GUARD_OFFSET \<le> k mod UEF_GUARD_OFFSET \<longleftrightarrow> False" using r by (metis leD)
    ultimately show ?thesis using m1(2) [of k] that by (simp add: m2_def)
  qed
  then have "host_window UEF_GUARD_OFFSET m2 count = ?s"
    by (intro nth_equalityI) (simp_all add: host_window_def)
  moreover have "m2 i = m i" if "i < 256 \<or> 0x10000 \<le> i" for i
  proof -
    have "count mod UEF_GUARD_OFFSET < UEF_GUARD_OFFSET" by simp
    then have "m1 i = m i" using that len by (intro m1(3)) auto
    then show ?thesis using that by (auto simp: m2_def)
  qed
  ultimately show ?thesis using shown True unfolding run_length_def by (intro exI [of _ m2]) simp
qed

lemma put_length_eq: "0x10000 \<le> lim \<Longrightarrow> put_length lim n m = Some (store m UEF_CAPACITY [word_of_nat n, word_of_nat (n div 256)])"
  unfolding put_length_def by (rule mem_put_store) simp

subsection \<open>The invariant\<close>

text \<open>
  The cursor is inside the stream and the stream inside its buffer; the published window starts
  inside the stream, fits the shape of the window and ends inside the buffer.
\<close>

definition uef_inv :: "uef_backend \<Rightarrow> bool" where
  "uef_inv b \<longleftrightarrow> uef_stream_cursor b \<le> uef_stream_length b \<and> uef_stream_length b \<le> UEF_STREAM_CAPACITY \<and>
     uef_published_offset b \<le> uef_stream_length b \<and> unat (uef_published_length b) \<le> window_limit b \<and>
     uef_published_offset b + unat (uef_published_length b) \<le> UEF_STREAM_CAPACITY \<and> guard_ok b \<and>
     (\<not> uef_stream_ready b \<longrightarrow> uef_published_length b = 0)"

definition publish_count :: "uef_backend \<Rightarrow> nat" where
  "publish_count b = min (uef_stream_length b - uef_stream_cursor b) (window_limit b)"

definition published :: "uef_backend \<Rightarrow> uef_backend" where
  "published b = b\<lparr>uef_published_offset := uef_stream_cursor b, uef_stream_cursor := uef_stream_cursor b + publish_count b,
     uef_published_length := word_of_nat (publish_count b),
     uef_published_final := uef_stream_cursor b + publish_count b = uef_stream_length b\<rparr>"

lemma publish_count_small: "publish_count b \<le> 65024" "unat (word_of_nat (publish_count b) :: u16) = publish_count b"
proof -
  show "publish_count b \<le> 65024" by (auto simp: publish_count_def window_limit_def min_def)
  then show "unat (word_of_nat (publish_count b) :: u16) = publish_count b"
    by (simp add: unat_of_nat)
qed

lemma shape_updates [simp]:
  "window_limit (b\<lparr>uef_stream := v0\<rparr>) = window_limit b" "run_length (b\<lparr>uef_stream := v0\<rparr>) = run_length b" "guard_ok (b\<lparr>uef_stream := v0\<rparr>) = guard_ok b"
  "window_limit (b\<lparr>uef_stream_length := v1\<rparr>) = window_limit b" "run_length (b\<lparr>uef_stream_length := v1\<rparr>) = run_length b" "guard_ok (b\<lparr>uef_stream_length := v1\<rparr>) = guard_ok b"
  "window_limit (b\<lparr>uef_stream_cursor := v2\<rparr>) = window_limit b" "run_length (b\<lparr>uef_stream_cursor := v2\<rparr>) = run_length b" "guard_ok (b\<lparr>uef_stream_cursor := v2\<rparr>) = guard_ok b"
  "window_limit (b\<lparr>uef_window_generation := v3\<rparr>) = window_limit b" "run_length (b\<lparr>uef_window_generation := v3\<rparr>) = run_length b" "guard_ok (b\<lparr>uef_window_generation := v3\<rparr>) = guard_ok b"
  "window_limit (b\<lparr>uef_stream_token := v4\<rparr>) = window_limit b" "run_length (b\<lparr>uef_stream_token := v4\<rparr>) = run_length b" "guard_ok (b\<lparr>uef_stream_token := v4\<rparr>) = guard_ok b"
  "window_limit (b\<lparr>uef_stream_ready := v5\<rparr>) = window_limit b" "run_length (b\<lparr>uef_stream_ready := v5\<rparr>) = run_length b" "guard_ok (b\<lparr>uef_stream_ready := v5\<rparr>) = guard_ok b"
  "window_limit (b\<lparr>uef_upload_active := v6\<rparr>) = window_limit b" "run_length (b\<lparr>uef_upload_active := v6\<rparr>) = run_length b" "guard_ok (b\<lparr>uef_upload_active := v6\<rparr>) = guard_ok b"
  "window_limit (b\<lparr>uef_stream_format := v7\<rparr>) = window_limit b" "run_length (b\<lparr>uef_stream_format := v7\<rparr>) = run_length b" "guard_ok (b\<lparr>uef_stream_format := v7\<rparr>) = guard_ok b"
  "window_limit (b\<lparr>uef_published_offset := v8\<rparr>) = window_limit b" "run_length (b\<lparr>uef_published_offset := v8\<rparr>) = run_length b" "guard_ok (b\<lparr>uef_published_offset := v8\<rparr>) = guard_ok b"
  "window_limit (b\<lparr>uef_published_length := v9\<rparr>) = window_limit b" "run_length (b\<lparr>uef_published_length := v9\<rparr>) = run_length b" "guard_ok (b\<lparr>uef_published_length := v9\<rparr>) = guard_ok b"
  "window_limit (b\<lparr>uef_published_final := v10\<rparr>) = window_limit b" "run_length (b\<lparr>uef_published_final := v10\<rparr>) = run_length b" "guard_ok (b\<lparr>uef_published_final := v10\<rparr>) = guard_ok b"
  "window_limit (b\<lparr>uef_last_append_sequence := v11\<rparr>) = window_limit b" "run_length (b\<lparr>uef_last_append_sequence := v11\<rparr>) = run_length b" "guard_ok (b\<lparr>uef_last_append_sequence := v11\<rparr>) = guard_ok b"
  "window_limit (b\<lparr>uef_last_append_length := v12\<rparr>) = window_limit b" "run_length (b\<lparr>uef_last_append_length := v12\<rparr>) = run_length b" "guard_ok (b\<lparr>uef_last_append_length := v12\<rparr>) = guard_ok b"
  "window_limit (b\<lparr>uef_last_append_crc := v13\<rparr>) = window_limit b" "run_length (b\<lparr>uef_last_append_crc := v13\<rparr>) = run_length b" "guard_ok (b\<lparr>uef_last_append_crc := v13\<rparr>) = guard_ok b"
  by (simp_all add: window_limit_def run_length_def guard_ok_def)

lemma put_length_keeps:
  assumes "0x10000 \<le> lim" "count \<le> window_limit b"
  shows "\<exists>m'. put_length lim n m = Some m' \<and> host_window (run_length b) m' count = host_window (run_length b) m count \<and>
    (\<forall>i. i < 256 \<or> 0x10000 \<le> i \<longrightarrow> m' i = m i)"
  using assms window_limit_run [of b]
  by (auto simp: put_length_eq store_def intro!: exI host_window_cong)

lemma publish_eq:
  assumes "uef_stream_cursor b \<le> uef_stream_length b" "uef_stream_length b \<le> UEF_STREAM_CAPACITY" "guard_ok b" "0x10000 \<le> lim"
  shows "\<exists>m'. uef_stream_publish b lim m = Some (published b, m') \<and>
     host_window (run_length b) m' (publish_count b) =
       map (uef_stream b) [uef_stream_cursor b..<uef_stream_cursor b + publish_count b] \<and>
     (\<forall>i. i < 256 \<or> 0x10000 \<le> i \<longrightarrow> m' i = m i)"
proof -
  have c: "(if size_sub (uef_stream_length b) (uef_stream_cursor b) < window_limit b
      then size_sub (uef_stream_length b) (uef_stream_cursor b) else window_limit b) = publish_count b"
    using assms(1) by (simp add: size_sub_def publish_count_def min_def)
  have lim: "publish_count b \<le> window_limit b" "uef_stream_cursor b + publish_count b \<le> UEF_STREAM_CAPACITY"
    using assms(1, 2) by (simp_all add: publish_count_def)
  let ?shown = "\<lambda>m'. host_window (run_length b) m' (publish_count b) =
      map (uef_stream b) [uef_stream_cursor b..<uef_stream_cursor b + publish_count b] \<and>
      (\<forall>i. i < 256 \<or> 0x10000 \<le> i \<longrightarrow> m' i = m i)"
  obtain m1 where m1: "(if publish_count b = 0 then Some m
      else show_window b lim (uef_stream_cursor b) (publish_count b) m) = Some m1" "?shown m1"
  proof (cases "publish_count b = 0")
    case True
    then show ?thesis by (intro that [of m]) (simp_all add: host_window_def)
  next
    case False
    then show ?thesis using show_window_shows [OF lim(2, 1) assms(4, 3), of m] by (auto intro: that)
  qed
  obtain m2 where m2: "put_length lim (publish_count b) m1 = Some m2" "?shown m2"
    using put_length_keeps [OF assms(4) lim(1), of "publish_count b" m1] m1(2) by auto
  show ?thesis unfolding uef_stream_publish_def Let_def c published_def using m1(1) m2
    by (intro exI [of _ m2]) simp
qed

lemma published_inv:
  assumes "uef_stream_cursor b \<le> uef_stream_length b" "uef_stream_length b \<le> UEF_STREAM_CAPACITY" "guard_ok b" "uef_stream_ready b"
  shows "uef_inv (published b)"
  using assms publish_count_small(2) [of b]
  by (auto simp: uef_inv_def published_def guard_ok_def publish_count_def)

lemma republish_eq:
  assumes "uef_inv b" "0x10000 \<le> lim"
  shows "\<exists>m'. uef_stream_republish b lim m = Some m' \<and>
     host_window (run_length b) m' (unat (uef_published_length b)) = map (uef_stream b)
       [uef_published_offset b..<uef_published_offset b + unat (uef_published_length b)] \<and>
     (\<forall>i. i < 256 \<or> 0x10000 \<le> i \<longrightarrow> m' i = m i)"
proof (cases "uef_published_length b = 0")
  case True
  then show ?thesis by (simp add: uef_stream_republish_def host_window_def)
next
  case False
  let ?n = "unat (uef_published_length b)"
  obtain m1 where m1: "show_window b lim (uef_published_offset b) ?n m = Some m1"
    "host_window (run_length b) m1 ?n = map (uef_stream b) [uef_published_offset b..<uef_published_offset b + ?n]"
    "\<And>i. i < 256 \<or> 0x10000 \<le> i \<Longrightarrow> m1 i = m i"
    using show_window_shows [of "uef_published_offset b" ?n b lim m] assms by (auto simp: uef_inv_def)
  have "?n \<le> window_limit b" using assms(1) by (simp add: uef_inv_def)
  then show ?thesis using put_length_keeps [OF assms(2), of ?n b ?n m1] m1 False
    by (auto simp: uef_stream_republish_def)
qed

subsection \<open>Every command keeps the invariant\<close>

definition uef_good :: "('st \<times> uef_backend \<times> mem) option \<Rightarrow> bool" where
  "uef_good r \<longleftrightarrow> (\<exists>st b m. r = Some (st, b, m) \<and> uef_inv b)"

lemma uef_good_Some [simp]: "uef_good (Some (st, b, m)) \<longleftrightarrow> uef_inv b"
  by (simp add: uef_good_def)

text \<open>zlib never writes more than it is given room for.\<close>

definition zlib_ok :: "uef_env \<Rightarrow> bool" where
  "zlib_ok e \<longleftrightarrow> (\<forall>bits room src result out. z_inflate e bits room src = Some (result, out) \<longrightarrow> length out \<le> room)"

lemma uef_publish_good:
  assumes "uef_stream_cursor b \<le> uef_stream_length b" "uef_stream_length b \<le> UEF_STREAM_CAPACITY" "guard_ok b"
    "uef_stream_ready b" "0x10000 \<le> lim"
  shows "uef_good (do { (b1, m1) \<leftarrow> uef_stream_publish b lim m; Some (st, b1, m1) })"
proof -
  obtain m' where "uef_stream_publish b lim m = Some (published b, m')" using publish_eq assms by blast
  then show ?thesis using published_inv assms by simp
qed

lemma clear_eq: "0x10000 \<le> lim \<Longrightarrow> uef_inv b \<Longrightarrow> \<exists>b' m'. uef_stream_clear b lim m = Some (b', m') \<and> uef_inv b' \<and>
    uef_stream_token b' = uef_stream_token b \<and> uef_stream_length b' = 0 \<and> \<not> uef_stream_ready b'"
  by (auto simp: uef_stream_clear_def put_length_eq uef_inv_def guard_ok_def)

lemma begin_good: "0x10000 \<le> lim \<Longrightarrow> uef_inv b \<Longrightarrow> uef_good (uef_begin b lim m)"
  using clear_eq [of lim b m] by (auto simp: uef_begin_def uef_inv_def)

lemma close_good: "0x10000 \<le> lim \<Longrightarrow> uef_inv b \<Longrightarrow> uef_good (uef_close b lim m token)"
  using clear_eq [of lim b m] by (auto simp: uef_close_def)

lemma good_if: "(c \<Longrightarrow> uef_good x) \<Longrightarrow> (\<not> c \<Longrightarrow> uef_good y) \<Longrightarrow> uef_good (if c then x else y)"
  by simp

lemma append_bytes_good:
  assumes "uef_inv b" "length bs = unat n"
  shows "uef_good (append_bytes b lim m value n crc bs c)"
proof (cases "uef_stream_length b + unat n \<le> UEF_STREAM_CAPACITY")
  case True
  then have "\<not> size_sub UEF_STREAM_CAPACITY (uef_stream_length b) < unat n" by (simp add: size_sub_def)
  moreover obtain s where "mem_put (uef_stream b) UEF_STREAM_CAPACITY (uef_stream_length b) bs = Some s"
    using mem_put_in True assms(2) by metis
  moreover have "uef_inv (b\<lparr>uef_stream := s, uef_stream_length := uef_stream_length b + unat n, uef_last_append_sequence := v,
      uef_last_append_length := n, uef_last_append_crc := c, uef_window_generation := uef_window_generation b + 1\<rparr>)" for s v
    using assms(1) True by (auto simp: uef_inv_def)
  ultimately show ?thesis unfolding append_bytes_def using assms(1) by (intro good_if) simp_all
next
  case False
  moreover have le: "uef_stream_length b \<le> UEF_STREAM_CAPACITY" using assms(1) by (simp add: uef_inv_def)
  ultimately have "size_sub UEF_STREAM_CAPACITY (uef_stream_length b) < unat n"
    by (simp add: size_sub_def)
  then show ?thesis using assms(1) by (simp add: append_bytes_def)
qed

lemma unat_u16_less: "unat (n :: u16) < 0x10000"
  using unsigned_less [of n, where ?'a = nat] by simp

lemma append_good:
  assumes "0x10000 \<le> lim" "uef_inv b"
  shows "uef_good (uef_append e b lim m token value len crc)"
proof -
  have get: "mem_get m lim 0 (unat n) = Some (map m [0..<unat n])" for n :: u16
    using assms(1) unat_u16_less [of n] by (simp add: mem_get_def)
  show ?thesis using assms append_bytes_good [OF assms(2)] by (simp add: uef_append_def Let_def get)
qed

lemma inflate_result:
  assumes "zlib_ok e" "capacity \<le> lim" "out0 \<le> capacity"
  shows "\<exists>r dst' out. inflate_bytes e dst lim capacity src bits out0 = Some (r, dst', out) \<and> out \<le> capacity \<and> (r = 0 \<or> r = 1 \<or> r = -1)"
  using assms unfolding inflate_bytes_def
  by (cases "z_inflate e bits capacity src") (fastforce simp: mem_put_def zlib_ok_def)+

lemma zip_header_defined: "30 \<le> length s \<Longrightarrow> \<exists>z. zip_local_header s = Some z"
  by (simp add: zip_local_header_def)

lemma zip_scan_defined: "pos + 22 \<le> length s \<Longrightarrow> \<exists>r. zip_scan s pos = Some r"
proof (induction pos)
  case (Suc pos)
  then show ?case by (auto simp: zip_end_at_def)
qed (simp add: zip_end_at_def)

lemma is_zip_defined: "\<exists>r. is_zip s = Some r" "is_zip s = Some True \<Longrightarrow> 30 \<le> length s"
proof -
  have "\<exists>r. zip_scan s (length s - 22) = Some r" if "22 \<le> length s" using that by (intro zip_scan_defined) simp
  then show "\<exists>r. is_zip s = Some r" by (auto simp: is_zip_def zip_has_one_entry_def)
qed (auto simp: is_zip_def split: if_splits)

lemma zip_member_result:
  assumes "zlib_ok e" "capacity \<le> lim" "\<not> zip_refused z (length s)" "length s \<le> capacity"
  shows "\<exists>r dst' out. zip_member e dst lim capacity s z = Some (r, dst', out) \<and> out \<le> capacity \<and> (r = 0 \<or> r = 1 \<or> r = -1)"
proof -
  have "zh_data z + unat (zh_compressed z) \<le> length s" using assms(3) by (auto simp: zip_refused_def)
  then show ?thesis using assms(2, 4) inflate_result [OF assms(1, 2), of 0]
    by (auto simp: zip_member_def mem_put_def)
qed

text \<open>What unpacking leaves: a length inside the buffer, or a reply text.\<close>

lemma gzip_result:
  assumes "zlib_ok e"
  shows "\<exists>r st'. finalize_gzip e st s = Some (r, st') \<and> (\<forall>n. r = Inr n \<longrightarrow> n \<le> UEF_STREAM_CAPACITY) \<and>
    (\<forall>t. r = Inl t \<longrightarrow> length t \<le> 11)"
proof -
  obtain r st' out where "inflate_bytes e st UEF_STREAM_CAPACITY UEF_STREAM_CAPACITY s (MAX_WBITS + 16) 0 = Some (r, st', out)"
    "out \<le> UEF_STREAM_CAPACITY"
    using inflate_result [OF assms, of UEF_STREAM_CAPACITY UEF_STREAM_CAPACITY 0] by blast
  then show ?thesis by (auto simp: finalize_gzip_def mem_get_def TOO_LARGE_def INVALID_def)
qed

lemma zip_result:
  assumes "zlib_ok e" "30 \<le> length s" "length s \<le> UEF_STREAM_CAPACITY"
  shows "\<exists>r st'. finalize_zip e st s = Some (r, st') \<and> (\<forall>n. r = Inr n \<longrightarrow> n \<le> UEF_STREAM_CAPACITY) \<and>
    (\<forall>t. r = Inl t \<longrightarrow> length t \<le> 11)"
proof -
  obtain z where z: "zip_local_header s = Some z" using zip_header_defined assms(2) by blast
  show ?thesis
  proof (cases "zip_refused z (length s) \<or> UEF_STREAM_CAPACITY < unat (zh_expected z)")
    case True
    then show ?thesis using z by (auto simp: finalize_zip_def TOO_LARGE_def INVALID_def)
  next
    case False
    then obtain r st' out where "zip_member e st UEF_STREAM_CAPACITY UEF_STREAM_CAPACITY s z = Some (r, st', out)"
      "out \<le> UEF_STREAM_CAPACITY"
      using zip_member_result [OF assms(1) order.refl _ assms(3)] by blast
    then show ?thesis using False z gzip_result [OF assms(1)]
      by (auto simp: finalize_zip_def mem_get_def TOO_LARGE_def INVALID_def)
  qed
qed

lemma unpack_result:
  assumes "zlib_ok e" "length s \<le> UEF_STREAM_CAPACITY"
  shows "\<exists>r st'. finalize_unpack e st s = Some (r, st') \<and> (\<forall>n f. r = Inr (n, f) \<longrightarrow> n \<le> UEF_STREAM_CAPACITY) \<and>
    (\<forall>t. r = Inl t \<longrightarrow> length t \<le> 11)"
proof -
  obtain r where zip: "is_zip s = Some r" using is_zip_defined(1) by blast
  obtain rg sg where g: "finalize_gzip e st s = Some (rg, sg)" "\<forall>n. rg = Inr n \<longrightarrow> n \<le> UEF_STREAM_CAPACITY"
    "\<forall>t. rg = Inl t \<longrightarrow> length t \<le> 11" using gzip_result [OF assms(1)] by blast
  show ?thesis
  proof (cases "\<not> is_raw_uef s \<and> \<not> is_gzip s \<and> r")
    case True
    then obtain rz sz where "finalize_zip e st s = Some (rz, sz)" "\<forall>n. rz = Inr n \<longrightarrow> n \<le> UEF_STREAM_CAPACITY"
      "\<forall>t. rz = Inl t \<longrightarrow> length t \<le> 11"
      using zip_result [OF assms(1) _ assms(2)] is_zip_defined(2) zip by metis
    then show ?thesis using True zip by (cases rz) (auto simp: finalize_unpack_def)
  next
    case False
    then show ?thesis using zip g assms(2) by (cases rg) (auto simp: finalize_unpack_def INVALID_def)
  qed
qed

text \<open>The repaired form of an image, as \<open>uef_repair_filev_stamp\<close> leaves it.\<close>

definition repaired :: "bytes \<Rightarrow> bytes" where
  "repaired w = (case uef_repair_filev_stamp (Some w) (length w) of Some (w', n) \<Rightarrow> w' | None \<Rightarrow> w)"

lemma filev_stamp_repaired:
  "\<exists>n. uef_repair_filev_stamp (Some w) (length w) = Some (repaired w, n)" "length (repaired w) = length w"
proof -
  have *: "\<exists>w' n. uef_repair_filev_stamp (Some w) (length w) = Some (w', n) \<and> length w' = length w"
  proof (cases "12 \<le> length w")
    case True
    obtain a r h where rs: "repair_stream (seg w 12 (length w - 12)) = (a, r, h)" by (metis prod_cases3)
    note eq = uef_repair_filev_span_eq [OF True order.refl rs]
    then show ?thesis using length_splice [of 12 a w] by (simp add: uef_repair_filev_stamp_def)
  qed (simp add: uef_repair_filev_stamp_def uef_repair_filev_span_def)
  then show "\<exists>n. uef_repair_filev_stamp (Some w) (length w) = Some (repaired w, n)" "length (repaired w) = length w"
    by (auto simp: repaired_def)
qed

definition stream_bytes :: "uef_backend \<Rightarrow> bytes" where
  "stream_bytes b = map (uef_stream b) [0..<uef_stream_length b]"

lemma repair_in_place:
  assumes "uef_stream_length b \<le> UEF_STREAM_CAPACITY"
  shows "\<exists>s. repair_stream_in_place b = Some (b\<lparr>uef_stream := s\<rparr>) \<and>
    map s [0..<uef_stream_length b] = (if uef_filev_repair b then repaired (stream_bytes b) else stream_bytes b)"
proof (cases "uef_filev_repair b")
  case True
  have len: "length (stream_bytes b) = uef_stream_length b" by (simp add: stream_bytes_def)
  obtain n where n: "uef_repair_filev_stamp (Some (stream_bytes b)) (uef_stream_length b) = Some (repaired (stream_bytes b), n)"
    using filev_stamp_repaired(1) [of "stream_bytes b"] len by auto
  have "map (store (uef_stream b) 0 (repaired (stream_bytes b))) [0..<uef_stream_length b] = repaired (stream_bytes b)"
    using map_store_self [of "uef_stream b" 0 "repaired (stream_bytes b)"] filev_stamp_repaired(2) [of "stream_bytes b"] len by simp
  then show ?thesis using n True assms filev_stamp_repaired(2) [of "stream_bytes b"] len
      mem_put_store [of 0 "repaired (stream_bytes b)" UEF_STREAM_CAPACITY "uef_stream b"]
    by (auto simp: repair_stream_in_place_def mem_get_def stream_bytes_def intro!: exI [of _ "store (uef_stream b) 0 (repaired (stream_bytes b))"])
qed (auto simp: repair_stream_in_place_def stream_bytes_def intro!: exI [of _ "uef_stream b"])

lemma finalize_good:
  assumes "zlib_ok e" "0x10000 \<le> lim" "cmd + 224 \<le> lim" "uef_inv b"
  shows "uef_good (uef_finalize e b lim cmd m token)"
proof -
  let ?s = "map (uef_stream b) [0..<uef_stream_length b]"
  obtain r st where r: "finalize_unpack e (uef_stream b) ?s = Some (r, st)" "\<And>n f. r = Inr (n, f) \<Longrightarrow> n \<le> UEF_STREAM_CAPACITY"
    "\<And>t. r = Inl t \<Longrightarrow> length t \<le> 11"
    using unpack_result [OF assms(1), of ?s "uef_stream b"] assms(4) by (auto simp: uef_inv_def)
  have get: "mem_get (uef_stream b) UEF_STREAM_CAPACITY 0 (uef_stream_length b) = Some ?s"
    using assms(4) by (simp add: mem_get_def uef_inv_def)
  show ?thesis
  proof (cases r)
    case (Inl t)
    then have "\<exists>m'. mem_put m lim (cmd + 1) (t @ [0]) = Some m'" using r(3) assms(3) by (intro mem_put_in) fastforce
    then show ?thesis using r(1) get Inl assms(4) by (auto simp: uef_finalize_def Let_def uef_inv_def)
  next
    case (Inr nf)
    obtain n f where nf: "nf = (n, f)" by (cases nf)
    let ?b = "b\<lparr>uef_stream := st, uef_stream_format := f, uef_stream_length := n\<rparr>"
    have "n \<le> UEF_STREAM_CAPACITY" using r(2) Inr nf by blast
    then obtain s' where s': "repair_stream_in_place ?b = Some (?b\<lparr>uef_stream := s'\<rparr>)" using repair_in_place [of ?b] by auto
    have "guard_ok b" using assms(4) by (simp add: uef_inv_def)
    then show ?thesis using r(1) get Inr nf s' assms(2, 4) \<open>n \<le> UEF_STREAM_CAPACITY\<close>
      by (auto simp: uef_finalize_def Let_def intro!: uef_publish_good)
  qed
qed

lemma rewind_good: "0x10000 \<le> lim \<Longrightarrow> uef_inv b \<Longrightarrow> uef_good (uef_rewind b lim m token)"
  by (auto simp: uef_rewind_def uef_inv_def stream_refused_def intro!: uef_publish_good)

lemma refill_good:
  assumes "0x10000 \<le> lim" "uef_inv b"
  shows "uef_good (uef_refill b lim m token value)"
  using assms republish_eq [OF assms(2, 1), of m]
  by (auto simp: uef_refill_def stream_refused_def uef_inv_def intro!: uef_publish_good)

lemma republish_good: "0x10000 \<le> lim \<Longrightarrow> uef_inv b \<Longrightarrow> uef_good (uef_republish b lim m token)"
  using republish_eq [of b lim m] by (auto simp: uef_republish_def)

lemma reply_defined: "cmd + 224 \<le> lim \<Longrightarrow> \<exists>m'. uef_stream_reply b lim cmd m = Some m'"
  unfolding uef_stream_reply_def uef_reply_bytes_def Let_def by (rule mem_put_in) (simp add: ascii_def)

lemma incremental_good:
  assumes "zlib_ok e" "0x10000 \<le> lim" "cmd + 224 \<le> lim" "uef_inv b"
  shows "uef_good (incremental_uef_control e b lim cmd m)"
proof -
  have reply: "uef_good r \<Longrightarrow> uef_good (do { (st, b1, m1) \<leftarrow> r;
      case st of Some status \<Rightarrow> Some (status, b1, m1)
      | None \<Rightarrow> do { m2 \<leftarrow> uef_stream_reply b1 lim cmd m1; Some (NET_OK, b1, m2) } })" for r
  proof -
    assume "uef_good r"
    then obtain st b1 m1 where "r = Some (st, b1, m1)" "uef_inv b1" by (auto simp: uef_good_def)
    moreover obtain m2 where "uef_stream_reply b1 lim cmd m1 = Some m2" using reply_defined [OF assms(3)] by blast
    ultimately show ?thesis by (cases st) simp_all
  qed
  have reads: "cmd + 6 < lim" "cmd + 7 + 3 < lim" "cmd + 11 + 3 < lim" "cmd + 15 + 1 < lim" "cmd + 17 + 3 < lim"
    using assms(3) by simp_all
  show ?thesis unfolding incremental_uef_control_def mem_rd_in [OF reads(1)] mem_rd_words(2) [OF reads(2)]
      mem_rd_words(2) [OF reads(3)] mem_rd_words(1) [OF reads(4)] mem_rd_words(2) [OF reads(5)] bind.bind_lunit
    using assms begin_good append_good finalize_good rewind_good refill_good republish_good close_good
    by (intro reply) (simp add: uef_operate_def)
qed

lemma relayout_good:
  assumes "0x10000 \<le> lim" "uef_inv b" "length g = UEF_GUARD_LENGTH"
  shows "\<exists>b' m'. uef_window_relayout (b\<lparr>guard_image := g, guard_image_valid := v\<rparr>) lim m = Some (b', m') \<and> uef_inv b'"
proof -
  let ?b = "b\<lparr>guard_image := g, guard_image_valid := v\<rparr>"
  let ?c = "?b\<lparr>uef_stream_cursor := uef_published_offset b\<rparr>"
  show ?thesis
  proof (cases "uef_stream_ready b")
    case True
    then have c: "uef_stream_cursor ?c \<le> uef_stream_length ?c" "uef_stream_length ?c \<le> UEF_STREAM_CAPACITY" "guard_ok ?c" "uef_stream_ready ?c"
      using assms(2, 3) by (simp_all add: uef_inv_def guard_ok_def)
    then obtain m' where "uef_stream_publish ?c lim m = Some (published ?c, m')" using publish_eq assms(1) by blast
    then show ?thesis using True published_inv [OF c] by (simp add: uef_window_relayout_def)
  qed (use assms in \<open>auto simp: uef_window_relayout_def uef_inv_def guard_ok_def\<close>)
qed

lemma response_defined: "cmd + 224 \<le> lim \<Longrightarrow> \<exists>m'. elkwifi_response lim cmd r m = Some m'"
  unfolding elkwifi_response_def by (rule mem_put_in) simp

lemma guard_good:
  assumes "0x10000 \<le> lim" "cmd + 224 \<le> lim" "uef_inv b"
  shows "uef_good (guard_command b lim cmd m)"
proof -
  let ?g = "map m [cmd + 2..<cmd + 2 + UEF_GUARD_LENGTH]"
  let ?b = "b\<lparr>guard_image := ?g, guard_image_valid := True\<rparr>"
  obtain m1 where m1: "guard_stamp ?b lim m = Some m1" using guard_stamp_eq [of ?b lim m] assms(1) by simp
  obtain b2 m2 where 2: "uef_window_relayout ?b lim m1 = Some (b2, m2)" "uef_inv b2"
    using relayout_good [OF assms(1, 3), of ?g True m1] by auto
  obtain b3 m3 where 3: "uef_window_relayout (b\<lparr>guard_image := replicate UEF_GUARD_LENGTH 0, guard_image_valid := False\<rparr>) lim m = Some (b3, m3)" "uef_inv b3"
    using relayout_good [OF assms(1, 3), of "replicate UEF_GUARD_LENGTH 0" False m] by auto
  have "mem_get m lim (cmd + 2) UEF_GUARD_LENGTH = Some ?g" using assms(2) by (simp add: mem_get_def)
  moreover obtain m4 where "elkwifi_response lim cmd (ascii ''OFF'' @ [CR, LF]) m3 = Some m4" using response_defined [OF assms(2)] by blast
  moreover obtain m5 where "elkwifi_response lim cmd (ascii ''OK'' @ [CR, LF]) m2 = Some m5" using response_defined [OF assms(2)] by blast
  ultimately show ?thesis using m1 2 3 assms by (auto simp: guard_command_def Let_def)
qed

subsection \<open>Normalising in the window\<close>

text \<open>
  The one-shot path leaves the published offset as it is. It is safe while that offset is zero, that
  is while no window but the first has been shown.
\<close>

lemma normalize_gzip_result:
  assumes "zlib_ok e" "0x10000 \<le> lim" "out0 \<le> UEF_CAPACITY"
  shows "\<exists>f n m'. normalize_gzip e lim m s format out0 = Some (Some (f, n), m') \<and> n \<le> UEF_CAPACITY \<and>
     (f = TOO_LARGE \<or> f = INVALID \<or> f = format)"
proof -
  obtain r m' out where "inflate_bytes e m lim UEF_CAPACITY s (MAX_WBITS + 16) out0 = Some (r, m', out)" "out \<le> UEF_CAPACITY"
    using inflate_result [OF assms(1) _ assms(3), of lim] assms(2) by fastforce
  then show ?thesis using assms(2) by (simp add: normalize_gzip_def mem_get_def)
qed

definition image_found :: "((bytes \<times> nat) option \<times> mem) option \<Rightarrow> bool" where
  "image_found r \<longleftrightarrow> (\<exists>m'. r = Some (None, m') \<or> (\<exists>f n. r = Some (Some (f, n), m') \<and> n \<le> UEF_CAPACITY \<and>
     f \<in> {TOO_LARGE, INVALID, RAW, GZIP, ZIP}))"

lemma image_found_simps [simp]: "image_found (Some (None, m))"
  "image_found (Some (Some (f, n), m)) \<longleftrightarrow> n \<le> UEF_CAPACITY \<and> f \<in> {TOO_LARGE, INVALID, RAW, GZIP, ZIP}"
  by (simp_all add: image_found_def)

lemma normalize_zip_result:
  assumes "zlib_ok e" "0x10000 \<le> lim" "30 \<le> length s" "length s \<le> UEF_CAPACITY"
  shows "image_found (normalize_zip e lim m s)"
proof -
  obtain z where z: "zip_local_header s = Some z" using zip_header_defined assms(3) by blast
  show ?thesis
  proof (cases "zip_refused z (length s) \<or> UEF_CAPACITY < unat (zh_expected z)")
    case False
    then obtain r m' out where m: "zip_member e m lim UEF_CAPACITY s z = Some (r, m', out)" "out \<le> UEF_CAPACITY"
      using zip_member_result [OF assms(1) _ _ assms(4), of lim z m] assms(2) by auto
    moreover have "image_found (normalize_gzip e lim m' w ZIP n)" if "n \<le> UEF_CAPACITY" for w n
      using normalize_gzip_result [OF assms(1, 2) that, of m' w ZIP] by auto
    ultimately show ?thesis using False z assms(2) by (simp add: normalize_zip_def mem_get_def)
  qed (use z in \<open>auto simp: normalize_zip_def\<close>)
qed

lemma normalize_window_result:
  assumes "zlib_ok e" "0x10000 \<le> lim" "length s \<le> UEF_CAPACITY"
  shows "image_found (normalize_window e lim m s)"
proof -
  obtain r where zip: "is_zip s = Some r" using is_zip_defined(1) by blast
  have "image_found (normalize_gzip e lim m s GZIP 0)"
    using normalize_gzip_result [OF assms(1, 2), of 0 m s GZIP] by auto
  then show ?thesis using assms zip is_zip_defined(2) [of s] normalize_zip_result [OF assms(1, 2) _ assms(3)]
    by (simp add: normalize_window_def)
qed

lemma wicfs_loop_result:
  "position \<le> length w \<Longrightarrow> effective \<le> length w \<Longrightarrow> \<exists>n. wicfs_loop w position effective saw = Some n \<and> n \<le> length w"
proof (induction w position effective saw rule: wicfs_loop.induct)
  case (1 w position effective saw)
  show ?case
  proof (cases "position < length w \<and> \<not> length w - position < 6")
    case True
    have in_w: "position + 2 \<le> length w" "position + 2 + 4 \<le> length w" using True by linarith+
    obtain t l where rd: "rd16 (rd8 w) position = Some t" "rd32 (rd8 w) (position + 2) = Some l"
      using list_buf.rd16_defined [OF in_w(1)] list_buf.rd32_defined [OF in_w(2)] by blast
    have step: "wicfs_loop w position effective saw = (if length w - (position + 6) < unat l then Some (length w)
        else if t = 0x0100 then wicfs_loop w (position + 6 + unat l) (position + 6 + unat l) True
        else wicfs_loop w (position + 6 + unat l) effective saw)"
      using True rd by (subst wicfs_loop.simps) (simp add: Let_def)
    show ?thesis
    proof (cases "length w - (position + 6) < unat l")
      case False
      have room: "position + 6 + unat l \<le> length w" using False True by linarith
      show ?thesis unfolding step
        using "1.IH"(1) [of t l "position + 6" "position + 6 + unat l"] "1.IH"(2) [of t l "position + 6" "position + 6 + unat l"]
          True False rd room "1.prems" by (simp split: if_splits)
    qed (simp add: step)
  qed (use "1.prems" in \<open>auto simp: wicfs_loop.simps [of w position]\<close>)
qed

lemma wicfs_length_result: "\<exists>n. wicfs_stream_length w = Some n \<and> n \<le> length w"
  using wicfs_loop_result [of 12 w "length w"] by (auto simp: wicfs_stream_length_def)

lemma normalized_stream_eq:
  assumes "0x10000 \<le> lim" "cmd + 224 \<le> lim" "out \<le> UEF_CAPACITY" "f \<in> {RAW, GZIP, ZIP}"
  shows "\<exists>s len m'. normalized_stream b lim cmd m f out = Some (NET_OK, b\<lparr>uef_stream := s, uef_stream_length := len,
     uef_stream_cursor := 0, uef_stream_ready := True, uef_upload_active := False,
     uef_stream_token := next_token (uef_stream_token b), uef_stream_format := hd f\<rparr>, m') \<and> len \<le> out \<and> (\<not> uef_trim_tail b \<longrightarrow> len = out)"
proof -
  let ?w = "map m [0..<out]"
  obtain len where len: "(if uef_trim_tail b then wicfs_stream_length ?w else Some out) = Some len" "len \<le> out" "\<not> uef_trim_tail b \<longrightarrow> len = out"
    using wicfs_length_result [of ?w] by (cases "uef_trim_tail b") auto
  obtain s where s: "mem_put (uef_stream b) UEF_STREAM_CAPACITY 0 (take len ?w) = Some s"
    using mem_put_in [of 0 "take len ?w" UEF_STREAM_CAPACITY "uef_stream b"] len(2) assms(3) by auto
  let ?b = "b\<lparr>uef_stream := s, uef_stream_length := len\<rparr>"
  obtain s' where s': "repair_stream_in_place ?b = Some (?b\<lparr>uef_stream := s'\<rparr>)"
    using repair_in_place [of ?b] len(2) assms(3) by auto
  obtain m1 where m1: "put_length lim len m = Some m1" using put_length_eq assms(1) by blast
  have "length f \<le> 10" using assms(4) by (auto simp: RAW_def GZIP_def ZIP_def)
  then obtain m2 where m2: "mem_put m1 lim (cmd + 1) (f @ [0]) = Some m2"
    using mem_put_in [of "cmd + 1" "f @ [0]" lim m1] assms(2) by auto
  obtain m3 where m3: "mem_put m2 lim (cmd + 17) [0x31] = Some m3"
    using mem_put_in [of "cmd + 17" "[0x31]" lim m2] assms(2) by auto
  have "mem_get m lim 0 out = Some ?w" using assms(1, 3) by (simp add: mem_get_def)
  then show ?thesis using len s s' m1 m2 m3
    by (simp add: normalized_stream_def) (intro exI [of _ s'] exI [of _ len], simp)
qed

lemma normalize_good:
  assumes "zlib_ok e" "cmd + 224 \<le> lim" "uef_inv b" "uef_published_offset b = 0"
  shows "uef_good (normalize_uef_control e b lim cmd m)"
proof (cases "lim < 0x10000")
  case False
  define len where "len = unat (le16 (m UEF_CAPACITY) (m (UEF_CAPACITY + 1)))"
  have room: "0x10000 \<le> lim" using False by simp
  have put: "\<exists>m'. mem_put m1 lim (cmd + 1) (f @ [0]) = Some m'" if "f = TOO_LARGE \<or> f = INVALID" for f m1
    using that assms(2) by (intro mem_put_in) (auto simp: TOO_LARGE_def INVALID_def)
  show ?thesis
  proof (cases "len = 0 \<or> UEF_CAPACITY < len")
    case True
    then show ?thesis using put [of INVALID m] False assms(3) by (auto simp: normalize_uef_control_def len_def)
  next
    case in_window: False
    let ?s = "map m [0..<len]"
    obtain r m1 where r: "normalize_window e lim m ?s = Some (r, m1)"
      "\<And>f n. r = Some (f, n) \<Longrightarrow> n \<le> UEF_CAPACITY \<and> f \<in> {TOO_LARGE, INVALID, RAW, GZIP, ZIP}"
      using normalize_window_result [OF assms(1) room, of ?s m] in_window by (auto simp: image_found_def)
    have step: "normalize_uef_control e b lim cmd m = (case r of None \<Rightarrow> Some (NET_ERR_CONN, b, m1)
        | Some (format, out) \<Rightarrow> if format = TOO_LARGE \<or> format = INVALID
            then do { m2 \<leftarrow> mem_put m1 lim (cmd + 1) (format @ [0]); Some (NET_OK, b, m2) }
            else normalized_stream b lim cmd m1 format out)"
      using False in_window r(1) unfolding normalize_uef_control_def len_def [symmetric] by (simp add: mem_get_def Let_def)
    show ?thesis
    proof (cases r)
      case (Some fn)
      obtain f n where fn: "fn = (f, n)" by (cases fn)
      show ?thesis
      proof (cases "f = TOO_LARGE \<or> f = INVALID")
        case True
        then show ?thesis using step Some fn put [OF True, of m1] assms(3) by auto
      next
        case False
        then have f: "n \<le> UEF_CAPACITY" "f \<in> {RAW, GZIP, ZIP}" using r(2) Some fn by auto
        then show ?thesis using normalized_stream_eq [OF room assms(2) f, of b m1] step Some fn assms(3, 4) False
          by (auto simp: uef_inv_def)
      qed
    qed (simp add: step assms(3))
  qed
qed (simp add: normalize_uef_control_def assms(3))

subsection \<open>Sequences of commands\<close>

text \<open>
  A command as the stream meets it: where its page is and what the memory holds.
\<close>

datatype uef_command = Incremental nat mem | Guard_Image nat mem | Normalize nat mem

primrec uef_page :: "uef_command \<Rightarrow> nat" where
  "uef_page (Incremental cmd m) = cmd"
| "uef_page (Guard_Image cmd m) = cmd"
| "uef_page (Normalize cmd m) = cmd"

primrec is_normalize :: "uef_command \<Rightarrow> bool" where
  "is_normalize (Incremental cmd m) = False"
| "is_normalize (Guard_Image cmd m) = False"
| "is_normalize (Normalize cmd m) = True"

primrec uef_result :: "uef_env \<Rightarrow> nat \<Rightarrow> uef_command \<Rightarrow> uef_backend \<Rightarrow> (u8 \<times> uef_backend \<times> mem) option" where
  "uef_result e lim (Incremental cmd m) b = incremental_uef_control e b lim cmd m"
| "uef_result e lim (Guard_Image cmd m) b = guard_command b lim cmd m"
| "uef_result e lim (Normalize cmd m) b = normalize_uef_control e b lim cmd m"

definition uef_exec :: "uef_env \<Rightarrow> nat \<Rightarrow> uef_command \<Rightarrow> uef_backend \<Rightarrow> uef_backend option" where
  "uef_exec e lim c b = map_option (\<lambda>(st, b', m'). b') (uef_result e lim c b)"

text \<open>
  The commands a state is safe for. The one-shot path does not reset the published offset, so it is
  safe only while the window shown is the first one; a stale offset makes a later refill over-read.
\<close>

definition uef_command_ok :: "nat \<Rightarrow> uef_command \<Rightarrow> uef_backend \<Rightarrow> bool" where
  "uef_command_ok lim c b \<longleftrightarrow> uef_page c + 224 \<le> lim \<and> (is_normalize c \<longrightarrow> uef_published_offset b = 0)"

lemma good_backend: "uef_good r \<Longrightarrow> \<exists>b'. map_option (\<lambda>(st, b', m'). b') r = Some b' \<and> uef_inv b'"
  by (auto simp: uef_good_def)

lemma uef_exec_safe:
  assumes "zlib_ok e \<and> 0x10000 \<le> lim \<and> uef_inv b" "uef_command_ok lim c b"
  shows "\<exists>b'. uef_exec e lim c b = Some b' \<and> zlib_ok e \<and> 0x10000 \<le> lim \<and> uef_inv b'"
proof -
  have "uef_good (uef_result e lim c b)"
    using assms incremental_good [of e lim] guard_good [of lim] normalize_good [of e _ lim b]
    by (cases c) (auto simp: uef_command_ok_def)
  then show ?thesis using good_backend assms(1) unfolding uef_exec_def by blast
qed

interpretation us: guarded_component "uef_exec e lim" "uef_command_ok lim" "\<lambda>b. zlib_ok e \<and> 0x10000 \<le> lim \<and> uef_inv b" for e lim
  by unfold_locales (rule uef_exec_safe)

lemma uef_create_inv: "uef_inv (uef_create trim repair junk)"
  by (simp add: uef_create_def uef_inv_def guard_ok_def)

text \<open>C35: no sequence of stream, guard and one-shot commands, whatever their pages hold and whatever zlib
  answers, makes the UEF stream access memory outside JIM or the stream buffer, as long as a one-shot
  normalisation comes only while the window shown is the first one of its stream (the other case is
  unsafe: it leaves a stale window behind); after the sequence the cursor and the published window lie
  inside the stream and the buffer.\<close>

theorem uef_stream_safe:
  assumes "zlib_ok e" "0x10000 \<le> lim" "admissible (uef_exec e lim) (uef_command_ok lim) cs (uef_create trim repair junk)"
  shows "\<exists>b. run_ops (uef_exec e lim) cs (uef_create trim repair junk) = Some b \<and>
     uef_stream_cursor b \<le> uef_stream_length b \<and> uef_stream_length b \<le> UEF_STREAM_CAPACITY \<and>
     uef_published_offset b \<le> uef_stream_length b \<and>
     uef_published_offset b + unat (uef_published_length b) \<le> UEF_STREAM_CAPACITY \<and>
     unat (uef_published_length b) \<le> window_limit b"
proof -
  have "zlib_ok e \<and> 0x10000 \<le> lim \<and> uef_inv (uef_create trim repair junk)" using assms uef_create_inv by blast
  from us.run_guarded [OF this assms(3)] show ?thesis by (auto simp: uef_inv_def)
qed

text \<open>A zlib that copies its source.\<close>

definition copying :: uef_env where
  "copying = \<lparr>z_inflate = (\<lambda>bits room src. Some (if length src \<le> room then 1 else -5, take room src)),
     z_crc32 = (\<lambda>bs. of_nat (length bs)), heap_has = (\<lambda>n. True)\<rparr>"

lemma copying_ok: "zlib_ok copying"
  by (auto simp: zlib_ok_def copying_def)

theorem uef_stream_safe_witness:
  "\<exists>b. run_ops (uef_exec copying 0x2000000) [Normalize 0 (\<lambda>i. 0), Guard_Image 0xFFF000 (\<lambda>i. 105), Incremental 0xFFF000 (\<lambda>i. 1)]
       (uef_create None None (\<lambda>i. 0)) = Some b \<and>
     uef_stream_cursor b \<le> uef_stream_length b \<and> uef_stream_length b \<le> UEF_STREAM_CAPACITY \<and>
     uef_published_offset b \<le> uef_stream_length b \<and>
     uef_published_offset b + unat (uef_published_length b) \<le> UEF_STREAM_CAPACITY \<and>
     unat (uef_published_length b) \<le> window_limit b"
  by (rule uef_stream_safe) (simp_all add: copying_ok uef_command_ok_def uef_create_def split: option.split)

end
