(* ===== verification/Uef_Sessions.thy ===== *)
theory Uef_Sessions
  imports Uef_Stream_Props
begin

section \<open>Sessions of the UEF stream\<close>

text \<open>
  The host's side of the incremental protocol: the command page it fills in, the upload of an image
  in pieces, and the reading of the published windows until the reply marks the last one. The command
  page lies outside the 64 kilobytes of JIM in which pieces and windows are exchanged.
\<close>

definition uef_request :: "u8 \<Rightarrow> u32 \<Rightarrow> u32 \<Rightarrow> u16 \<Rightarrow> u32 \<Rightarrow> bytes" where
  "uef_request operation token value len crc =
     [93] @ ascii ''IUEF'' @ [UEF_STREAM_VERSION, operation,
        byte_of token 0, byte_of token 1, byte_of token 2, byte_of token 3,
        byte_of value 0, byte_of value 1, byte_of value 2, byte_of value 3,
        byte_of len 0, byte_of len 1, byte_of crc 0, byte_of crc 1, byte_of crc 2, byte_of crc 3]"

definition uef_call :: "uef_env \<Rightarrow> nat \<Rightarrow> nat \<Rightarrow> bytes \<Rightarrow> uef_backend \<times> mem \<Rightarrow> (uef_backend \<times> mem) option" where
  "uef_call e lim cmd request = (\<lambda>(b, m). do {
     (st, b', m') \<leftarrow> incremental_uef_control e b lim cmd (store m cmd request);
     if st = NET_OK then Some (b', m') else None })"

text \<open>Piece number \<open>i\<close> goes to the bottom of JIM and is sent with its length, its number and its checksum.\<close>

fun upload_pieces :: "uef_env \<Rightarrow> nat \<Rightarrow> nat \<Rightarrow> nat \<Rightarrow> bytes list \<Rightarrow> uef_backend \<times> mem \<Rightarrow> (uef_backend \<times> mem) option" where
  "upload_pieces e lim cmd i [] s = Some s"
| "upload_pieces e lim cmd i (bs # bss) (b, m) = do {
     s \<leftarrow> uef_call e lim cmd (uef_request UEF_OP_APPEND 0 (of_nat i) (of_nat (length bs)) (z_crc32 e bs)) (b, store m 0 bs);
     upload_pieces e lim cmd (Suc i) bss s }"

text \<open>Reading windows: the length and the mark of the last window are read from the reply.\<close>

fun read_windows :: "uef_env \<Rightarrow> nat \<Rightarrow> nat \<Rightarrow> nat \<Rightarrow> uef_backend \<times> mem \<Rightarrow> bytes option" where
  "read_windows e lim cmd 0 s = None"
| "read_windows e lim cmd (Suc k) (b, m) =
     (let w = host_window (run_length b) m (unat (le16 (m (cmd + 14)) (m (cmd + 15)))) in
      if m (cmd + 16) = 1 then Some w
      else do {
        s \<leftarrow> uef_call e lim cmd (uef_request UEF_OP_REFILL 0 0 0 0) (b, m);
        rest \<leftarrow> read_windows e lim cmd k s;
        Some (w @ rest) })"

definition page_ok :: "nat \<Rightarrow> nat \<Rightarrow> bool" where
  "page_ok lim cmd \<longleftrightarrow> 0x10000 \<le> cmd \<and> cmd + 224 \<le> lim"

lemma length_request [simp]: "length (uef_request operation token value len crc) = 21"
  by (simp add: uef_request_def ascii_def)

lemma request_bytes:
  assumes "r = uef_request operation token value len crc"
  shows "r ! 6 = operation" "le32 (r ! 7) (r ! 8) (r ! 9) (r ! 10) = token" "le32 (r ! 11) (r ! 12) (r ! 13) (r ! 14) = value"
    "le16 (r ! 15) (r ! 16) = len" "le32 (r ! 17) (r ! 18) (r ! 19) (r ! 20) = crc"
  by (simp_all add: assms uef_request_def ascii_def del: One_nat_def)

lemma control_decoded:
  assumes "cmd + 224 \<le> lim"
  shows "incremental_uef_control e b lim cmd (store m cmd (uef_request operation token value len crc)) = do {
     (st, b1, m1) \<leftarrow> uef_operate e b lim cmd (store m cmd (uef_request operation token value len crc)) operation token value len crc;
     case st of Some status \<Rightarrow> Some (status, b1, m1)
     | None \<Rightarrow> do { m2 \<leftarrow> uef_stream_reply b1 lim cmd m1; Some (NET_OK, b1, m2) } }"
proof -
  let ?r = "uef_request operation token value len crc"
  let ?m = "store m cmd ?r"
  have at: "?m (cmd + k) = ?r ! k" if "k < 21" for k using that store_read(1) [of k ?r m cmd] by simp
  have "mem_rd ?m lim (cmd + 6) = Some operation" using assms at [of 6] request_bytes(1) [OF refl] by simp
  moreover have "rd32 (mem_rd ?m lim) (cmd + 7) = Some token"
    using assms at [of 7] at [of 8] at [of 9] at [of 10] request_bytes(2) [OF refl] by (simp add: mem_rd_words ac_simps)
  moreover have "rd32 (mem_rd ?m lim) (cmd + 11) = Some value"
    using assms at [of 11] at [of 12] at [of 13] at [of 14] request_bytes(3) [OF refl] by (simp add: mem_rd_words ac_simps)
  moreover have "rd16 (mem_rd ?m lim) (cmd + 15) = Some len"
    using assms at [of 15] at [of 16] request_bytes(4) [OF refl] by (simp add: mem_rd_words ac_simps)
  moreover have "rd32 (mem_rd ?m lim) (cmd + 17) = Some crc"
    using assms at [of 17] at [of 18] at [of 19] at [of 20] request_bytes(5) [OF refl] by (simp add: mem_rd_words ac_simps)
  ultimately show ?thesis unfolding incremental_uef_control_def by simp
qed

text \<open>A call whose operation goes on to the common reply: what the host finds in its page.\<close>

definition replied_with :: "nat \<Rightarrow> uef_backend \<Rightarrow> mem \<Rightarrow> bool" where
  "replied_with cmd b m \<longleftrightarrow> le16 (m (cmd + 14)) (m (cmd + 15)) = uef_published_length b \<and>
     m (cmd + 16) = (if uef_published_final b then 1 else 0)"

lemma call_replies:
  assumes "page_ok lim cmd"
    and "uef_operate e b lim cmd (store m cmd (uef_request operation token value len crc)) operation token value len crc = Some (None, b1, m1)"
  shows "\<exists>m2. uef_call e lim cmd (uef_request operation token value len crc) (b, m) = Some (b1, m2) \<and>
     (\<forall>i < 0x10000. m2 i = m1 i) \<and> replied_with cmd b1 m2"
proof -
  have room: "cmd + 224 \<le> lim" "0x10000 \<le> cmd" using assms(1) by (simp_all add: page_ok_def)
  define r where "r = uef_reply_bytes b1"
  have r: "length r = 18" "r ! 13 = byte_of (uef_published_length b1) 0" "r ! 14 = byte_of (uef_published_length b1) 1"
    "r ! 15 = (if uef_published_final b1 then 1 else 0)"
    by (simp_all add: r_def uef_reply_bytes_def ascii_def Let_def)
  let ?m = "store m1 (cmd + 1) r"
  have at: "?m (cmd + 1 + k) = r ! k" if "k < 18" for k using that r(1) store_read(1) by metis
  have "replied_with cmd b1 ?m" using at [of 13] at [of 14] at [of 15] r(2-)
    by (simp add: replied_with_def ac_simps del: One_nat_def)
  moreover have "\<forall>i < 0x10000. ?m i = m1 i" using room(2) by (simp add: store_def)
  moreover have "uef_stream_reply b1 lim cmd m1 = Some ?m" using r(1) room(1) mem_put_store [of "cmd + 1" r lim m1] by (simp add: uef_stream_reply_def r_def)
  ultimately show ?thesis using assms(2) by (auto simp: uef_call_def control_decoded [OF room(1)])
qed

subsection \<open>Uploading\<close>

definition uploading :: "uef_backend \<Rightarrow> bytes \<Rightarrow> nat \<Rightarrow> uef_backend \<Rightarrow> bool" where
  "uploading b0 img i b \<longleftrightarrow> uef_upload_active b \<and> stream_bytes b = img \<and> uef_stream_length b \<le> UEF_STREAM_CAPACITY \<and>
     uef_window_generation b = of_nat i \<and> uef_filev_repair b = uef_filev_repair b0 \<and>
     guard_image_valid b = guard_image_valid b0 \<and> guard_ok b"

lemma begin_call:
  assumes "page_ok lim cmd" "guard_ok b"
  shows "\<exists>b' m'. uef_call e lim cmd (uef_request UEF_OP_BEGIN 0 0 0 0) (b, m) = Some (b', m') \<and> uploading b [] 0 b'"
proof -
  let ?m = "store m cmd (uef_request UEF_OP_BEGIN 0 0 0 0)"
  obtain b1 m1 where "uef_begin b lim ?m = Some (None, b1, m1)" "uploading b [] 0 b1"
    using assms put_length_eq [of lim 0 ?m]
    by (auto simp: uef_begin_def uef_stream_clear_def uploading_def page_ok_def stream_bytes_def guard_ok_def)
  then show ?thesis using call_replies [OF assms(1), of e b m UEF_OP_BEGIN 0 0 0 0 b1 m1] by (auto simp: uef_operate_def)
qed

lemma append_call:
  assumes "page_ok lim cmd" "uploading b0 img i b" "0 < length bs" "length bs \<le> UEF_UPLOAD_MAX"
    "length img + length bs \<le> UEF_STREAM_CAPACITY"
  shows "\<exists>b' m'. uef_call e lim cmd (uef_request UEF_OP_APPEND 0 (of_nat i) (of_nat (length bs)) (z_crc32 e bs)) (b, store m 0 bs) =
      Some (b', m') \<and> uploading b0 (img @ bs) (Suc i) b'"
proof -
  let ?n = "of_nat (length bs) :: u16"
  let ?m = "store (store m 0 bs) cmd (uef_request UEF_OP_APPEND 0 (of_nat i) ?n (z_crc32 e bs))"
  have n: "unat ?n = length bs" using assms(4) by (simp add: unat_of_nat)
  have n0: "?n \<noteq> 0" using n assms(3) by (metis less_irrefl unat_0)
  have len: "length img = uef_stream_length b" using assms(2) by (auto simp: uploading_def stream_bytes_def)
  have "map ?m [0..<length bs] = bs" using assms(1, 4)
    by (intro nth_equalityI) (auto simp: store_def page_ok_def)
  then have get: "mem_get ?m lim 0 (length bs) = Some bs" using assms(1, 4) by (simp add: mem_get_def page_ok_def)
  let ?s = "store (uef_stream b) (uef_stream_length b) bs"
  have put: "mem_put (uef_stream b) UEF_STREAM_CAPACITY (uef_stream_length b) bs = Some ?s"
    using assms(5) len by (intro mem_put_store) simp
  have room: "\<not> size_sub UEF_STREAM_CAPACITY (uef_stream_length b) < length bs" using assms(5) len by (simp add: size_sub_def)
  let ?b = "b\<lparr>uef_stream := ?s, uef_stream_length := uef_stream_length b + length bs, uef_last_append_sequence := of_nat i,
    uef_last_append_length := ?n, uef_last_append_crc := z_crc32 e bs, uef_window_generation := uef_window_generation b + 1\<rparr>"
  have "uef_append e b lim ?m 0 (of_nat i) ?n (z_crc32 e bs) = Some (None, ?b, ?m)"
    using assms(2, 4) n n0 get put room by (simp add: uef_append_def append_bytes_def uploading_def Let_def)
  moreover have "uploading b0 (img @ bs) (Suc i) ?b"
  proof -
    have "map ?s [0..<uef_stream_length b + length bs] = map ?s [0..<uef_stream_length b] @ map ?s [uef_stream_length b..<uef_stream_length b + length bs]"
      by (subst upt_add_eq_append) simp_all
    also have "map ?s [0..<uef_stream_length b] = img" using assms(2) by (auto simp: uploading_def stream_bytes_def store_def)
    also have "map ?s [uef_stream_length b..<uef_stream_length b + length bs] = bs" by (rule map_store_self)
    finally show ?thesis using assms(2, 5) len by (simp add: uploading_def stream_bytes_def add.commute)
  qed
  ultimately show ?thesis
    using call_replies [OF assms(1), of e b "store m 0 bs" UEF_OP_APPEND 0 "of_nat i" ?n "z_crc32 e bs" ?b ?m]
    by (auto simp: uef_operate_def)
qed

lemma upload_appends:
  assumes "page_ok lim cmd" "\<forall>bs \<in> set bss. 0 < length bs \<and> length bs \<le> UEF_UPLOAD_MAX"
    "uploading b0 img i b" "length img + length (concat bss) \<le> UEF_STREAM_CAPACITY"
  shows "\<exists>b' m'. upload_pieces e lim cmd i bss (b, m) = Some (b', m') \<and> uploading b0 (img @ concat bss) (i + length bss) b'"
  using assms(2-)
proof (induction bss arbitrary: img i b m)
  case (Cons bs bss)
  obtain b1 m1 where "uef_call e lim cmd (uef_request UEF_OP_APPEND 0 (of_nat i) (of_nat (length bs)) (z_crc32 e bs)) (b, store m 0 bs) = Some (b1, m1)"
    "uploading b0 (img @ bs) (Suc i) b1"
    using append_call [OF assms(1) Cons.prems(2), of bs e m] Cons.prems by auto
  then show ?case using Cons.IH [of "img @ bs" "Suc i" b1 m1] Cons.prems by auto
qed simp

subsection \<open>Reading windows\<close>

text \<open>The window of a ready stream is shown in JIM and described by the reply.\<close>

definition showing :: "nat \<Rightarrow> bytes \<Rightarrow> uef_backend \<Rightarrow> mem \<Rightarrow> bool" where
  "showing cmd img b m \<longleftrightarrow> uef_stream_ready b \<and> guard_ok b \<and> stream_bytes b = img \<and> uef_stream_length b \<le> UEF_STREAM_CAPACITY \<and>
     uef_stream_cursor b = uef_published_offset b + unat (uef_published_length b) \<and> uef_stream_cursor b \<le> uef_stream_length b \<and>
     uef_published_final b = (uef_stream_cursor b = uef_stream_length b) \<and> replied_with cmd b m \<and>
     host_window (run_length b) m (unat (uef_published_length b)) =
       map (uef_stream b) [uef_published_offset b..<uef_stream_cursor b]"

text \<open>A call that publishes the window at the cursor shows it.\<close>

lemma publishing_call:
  assumes "page_ok lim cmd" "uef_stream_ready c" "guard_ok c" "stream_bytes c = img" "uef_stream_length c \<le> UEF_STREAM_CAPACITY"
    "uef_stream_cursor c \<le> uef_stream_length c"
    and op: "uef_operate e b lim cmd (store m cmd (uef_request operation token value len crc)) operation token value len crc =
      do { (b1, m1) \<leftarrow> uef_stream_publish c lim (store m cmd (uef_request operation token value len crc)); Some (None, b1, m1) }"
  shows "\<exists>m'. uef_call e lim cmd (uef_request operation token value len crc) (b, m) = Some (published c, m') \<and> showing cmd img (published c) m'"
proof -
  let ?m = "store m cmd (uef_request operation token value len crc)"
  have room: "0x10000 \<le> lim" using assms(1) by (simp add: page_ok_def)
  obtain m1 where m1: "uef_stream_publish c lim ?m = Some (published c, m1)"
    "host_window (run_length c) m1 (publish_count c) = map (uef_stream c) [uef_stream_cursor c..<uef_stream_cursor c + publish_count c]"
    using publish_eq [OF assms(6, 5, 3) room, of ?m] by blast
  obtain m2 where m2: "uef_call e lim cmd (uef_request operation token value len crc) (b, m) = Some (published c, m2)"
    "\<And>i. i < 0x10000 \<Longrightarrow> m2 i = m1 i" "replied_with cmd (published c) m2"
    using call_replies [OF assms(1), of e b m operation token "value" len crc "published c" m1] op m1(1) by auto
  have "host_window (run_length c) m2 (publish_count c) = host_window (run_length c) m1 (publish_count c)"
    using m2(2) window_limit_run [of c] by (intro host_window_cong) (simp_all add: publish_count_def)
  then have "showing cmd img (published c) m2"
    using m1(2) m2(3) assms(2-6) publish_count_small(2) [of c]
    by (simp add: showing_def published_def stream_bytes_def publish_count_def)
  then show ?thesis using m2(1) by blast
qed

lemma read_windows_rest:
  assumes "page_ok lim cmd"
  shows "showing cmd img b m \<Longrightarrow> uef_stream_length b - uef_stream_cursor b \<le> k * window_limit b \<Longrightarrow>
     read_windows e lim cmd (Suc k) (b, m) = Some (drop (uef_published_offset b) img)"
proof (induction k arbitrary: b m)
  case 0
  then have "uef_stream_cursor b = uef_stream_length b" by (simp add: showing_def)
  then have "read_windows e lim cmd (Suc 0) (b, m) = Some (map (uef_stream b) [uef_published_offset b..<uef_stream_length b])"
    using 0 by (auto simp: showing_def replied_with_def)
  then show ?case using 0 by (auto simp: showing_def stream_bytes_def drop_map)
next
  case (Suc k)
  have s: "uef_stream_cursor b = uef_published_offset b + unat (uef_published_length b)" "uef_stream_cursor b \<le> uef_stream_length b"
    "host_window (run_length b) m (unat (uef_published_length b)) = map (uef_stream b) [uef_published_offset b..<uef_stream_cursor b]"
    "le16 (m (cmd + 14)) (m (cmd + 15)) = uef_published_length b" "m (cmd + 16) = (if uef_stream_cursor b = uef_stream_length b then 1 else 0)"
    "stream_bytes b = img" "uef_stream_ready b" "guard_ok b" "uef_stream_length b \<le> UEF_STREAM_CAPACITY"
    using Suc.prems(1) by (auto simp: showing_def replied_with_def)
  show ?case
  proof (cases "uef_stream_cursor b = uef_stream_length b")
    case True
    then show ?thesis using s by (auto simp: stream_bytes_def drop_map)
  next
    case False
    let ?c = "b\<lparr>uef_window_generation := uef_window_generation b + 1\<rparr>"
    obtain m' where m': "uef_call e lim cmd (uef_request UEF_OP_REFILL 0 0 0 0) (b, m) = Some (published ?c, m')"
      "showing cmd img (published ?c) m'"
      using publishing_call [OF assms, of ?c img e b m UEF_OP_REFILL 0 0 0 0] s
      by (auto simp: uef_operate_def uef_refill_def stream_refused_def stream_bytes_def)
    have "uef_stream_length (published ?c) - uef_stream_cursor (published ?c) \<le> k * window_limit (published ?c)"
      using Suc.prems(2) s(2) by (auto simp: published_def publish_count_def)
    then have "read_windows e lim cmd (Suc k) (published ?c, m') = Some (drop (uef_published_offset (published ?c)) img)"
      using Suc.IH [OF m'(2)] by blast
    then have "read_windows e lim cmd (Suc (Suc k)) (b, m) =
        Some (map (uef_stream b) [uef_published_offset b..<uef_stream_cursor b] @ drop (uef_stream_cursor b) img)"
      using m'(1) s False by (simp add: Let_def published_def del: read_windows.simps(2)) (simp add: read_windows.simps(2) [of _ _ _ "Suc k"] Let_def)
    also have "map (uef_stream b) [uef_published_offset b..<uef_stream_cursor b] @ drop (uef_stream_cursor b) img = drop (uef_published_offset b) img"
      using s(1, 2, 6) upt_add_eq_append [of "uef_published_offset b" "uef_stream_cursor b" "uef_stream_length b - uef_stream_cursor b"]
      by (auto simp: stream_bytes_def drop_map simp flip: map_append)
    finally show ?thesis .
  qed
qed

lemma finalize_call:
  assumes "page_ok lim cmd" "uploading b0 img i b" "is_raw_uef img"
  shows "\<exists>b' m'. uef_call e lim cmd (uef_request UEF_OP_FINALIZE 0 0 0 0) (b, m) = Some (b', m') \<and>
     showing cmd (if uef_filev_repair b0 then repaired img else img) b' m' \<and> uef_published_offset b' = 0 \<and>
     uef_stream_length b' = length img \<and> window_limit b' = window_limit b0 \<and> uef_stream_cursor b' = min (length img) (window_limit b0)"
proof -
  have u: "uef_upload_active b" "stream_bytes b = img" "uef_stream_length b \<le> UEF_STREAM_CAPACITY" "guard_ok b"
    "uef_filev_repair b = uef_filev_repair b0" "guard_image_valid b = guard_image_valid b0"
    using assms(2) by (simp_all add: uploading_def)
  have len: "uef_stream_length b = length img" using u(2) by (auto simp: stream_bytes_def)
  have pos: "0 < length img" using assms(3) by (auto simp: is_raw_uef_def)
  have get: "mem_get (uef_stream b) UEF_STREAM_CAPACITY 0 (length img) = Some img"
    using u(2, 3) len by (simp add: mem_get_def stream_bytes_def)
  let ?b = "b\<lparr>uef_stream := uef_stream b, uef_stream_format := 0x52, uef_stream_length := length img\<rparr>"
  obtain st where st: "repair_stream_in_place ?b = Some (?b\<lparr>uef_stream := st\<rparr>)"
    "map st [0..<length img] = (if uef_filev_repair b0 then repaired img else img)"
    using repair_in_place [of ?b] u len by (auto simp: stream_bytes_def)
  let ?c = "?b\<lparr>uef_stream := st, uef_stream_cursor := 0, uef_stream_ready := True, uef_upload_active := False,
    uef_window_generation := uef_window_generation b + 1\<rparr>"
  have op: "uef_operate e b lim cmd (store m cmd (uef_request UEF_OP_FINALIZE 0 0 0 0)) UEF_OP_FINALIZE 0 0 0 0 =
      do { (b1, m1) \<leftarrow> uef_stream_publish ?c lim (store m cmd (uef_request UEF_OP_FINALIZE 0 0 0 0)); Some (None, b1, m1) }"
    using u(1) get st(1) assms(3) pos len by (simp add: uef_operate_def uef_finalize_def finalize_unpack_def)
  obtain m' where "uef_call e lim cmd (uef_request UEF_OP_FINALIZE 0 0 0 0) (b, m) = Some (published ?c, m')"
    "showing cmd (if uef_filev_repair b0 then repaired img else img) (published ?c) m'"
    using publishing_call [OF assms(1) _ _ _ _ _ op, of "if uef_filev_repair b0 then repaired img else img"] u st(2) len
    by (auto simp: stream_bytes_def)
  moreover have "window_limit (published ?c) = window_limit b0" "window_limit b = window_limit b0" using u(6) by (simp_all add: published_def window_limit_def)
  ultimately show ?thesis using len by (auto simp: published_def publish_count_def)
qed

text \<open>C32: a raw image uploaded in pieces of any sizes and finalised is read back window by window as the
  repaired image (as the image itself when the repair is switched off), whether or not a guard takes the top
  of every page; as many windows suffice as the length of the image asks for.\<close>

theorem uef_upload_roundtrip:
  assumes "page_ok lim cmd" "guard_ok b" "is_raw_uef (concat bss)" "length (concat bss) \<le> UEF_STREAM_CAPACITY"
    "\<forall>bs \<in> set bss. 0 < length bs \<and> length bs \<le> UEF_UPLOAD_MAX" "length (concat bss) \<le> n * window_limit b"
  shows "do {
      s1 \<leftarrow> uef_call e lim cmd (uef_request UEF_OP_BEGIN 0 0 0 0) (b, m);
      s2 \<leftarrow> upload_pieces e lim cmd 0 bss s1;
      s3 \<leftarrow> uef_call e lim cmd (uef_request UEF_OP_FINALIZE 0 0 0 0) s2;
      read_windows e lim cmd n s3 } =
    Some (if uef_filev_repair b then repaired (concat bss) else concat bss)"
proof -
  obtain b1 m1 where 1: "uef_call e lim cmd (uef_request UEF_OP_BEGIN 0 0 0 0) (b, m) = Some (b1, m1)" "uploading b [] 0 b1"
    using begin_call [OF assms(1, 2)] by blast
  obtain b2 m2 where 2: "upload_pieces e lim cmd 0 bss (b1, m1) = Some (b2, m2)" "uploading b (concat bss) (length bss) b2"
    using upload_appends [OF assms(1, 5) 1(2), of e m1] assms(4) by auto
  obtain b3 m3 where 3: "uef_call e lim cmd (uef_request UEF_OP_FINALIZE 0 0 0 0) (b2, m2) = Some (b3, m3)"
    "showing cmd (if uef_filev_repair b then repaired (concat bss) else concat bss) b3 m3" "uef_published_offset b3 = 0"
    "uef_stream_length b3 = length (concat bss)" "window_limit b3 = window_limit b" "uef_stream_cursor b3 = min (length (concat bss)) (window_limit b)"
    using finalize_call [OF assms(1) 2(2) assms(3), of e m2] by blast
  have "0 < length (concat bss)" using assms(3) unfolding is_raw_uef_def by linarith
  then obtain k where k: "n = Suc k" using assms(6) by (cases n) auto
  have "uef_stream_length b3 - uef_stream_cursor b3 \<le> k * window_limit b3" using 3(4-6) assms(6) k by (auto simp: min_def)
  from read_windows_rest [OF assms(1) 3(2) this, of e] show ?thesis using 1(1) 2(1) 3(1, 3) k by simp
qed

text \<open>A small tape in two pieces.\<close>

definition demo_tape :: "bytes list" where
  "demo_tape = [ascii ''UEF File!'', [0, 1, 0] @ demo_block]"

theorem uef_upload_roundtrip_witness:
  "do {
      s1 \<leftarrow> uef_call copying 0x2000000 0xFFF000 (uef_request UEF_OP_BEGIN 0 0 0 0) (uef_create None None (\<lambda>i. 0), \<lambda>i. 0);
      s2 \<leftarrow> upload_pieces copying 0x2000000 0xFFF000 0 demo_tape s1;
      s3 \<leftarrow> uef_call copying 0x2000000 0xFFF000 (uef_request UEF_OP_FINALIZE 0 0 0 0) s2;
      read_windows copying 0x2000000 0xFFF000 1 s3 } =
    Some (if uef_filev_repair (uef_create None None (\<lambda>i. 0)) then repaired (concat demo_tape) else concat demo_tape)"
proof (rule uef_upload_roundtrip)
  show "is_raw_uef (concat demo_tape)" by (simp add: is_raw_uef_def demo_tape_def ascii_def)
qed (simp_all add: page_ok_def guard_ok_def uef_create_def demo_tape_def ascii_def demo_block_def window_limit_def)

subsection \<open>Repeated requests\<close>

lemma call_inverted:
  assumes "page_ok lim cmd" "uef_call e lim cmd (uef_request operation token value len crc) (b, m) = Some (b1, m1)"
    and "\<And>st b' m'. uef_operate e b lim cmd (store m cmd (uef_request operation token value len crc)) operation token value len crc = Some (st, b', m') \<Longrightarrow>
      st \<noteq> Some NET_OK"
  shows "\<exists>m'. uef_operate e b lim cmd (store m cmd (uef_request operation token value len crc)) operation token value len crc = Some (None, b1, m') \<and>
    (\<forall>i < 0x10000. m1 i = m' i)"
proof -
  have room: "cmd + 224 \<le> lim" using assms(1) by (simp add: page_ok_def)
  obtain st b' m' where op: "uef_operate e b lim cmd (store m cmd (uef_request operation token value len crc)) operation token value len crc = Some (st, b', m')"
    using assms(2) by (auto simp: uef_call_def control_decoded [OF room] bind_eq_Some_conv)
  then have "st = None" using assms(2, 3) by (auto simp: uef_call_def control_decoded [OF room] split: if_splits option.splits)
  then obtain m2 where "uef_call e lim cmd (uef_request operation token value len crc) (b, m) = Some (b', m2)" "\<forall>i < 0x10000. m2 i = m' i"
    using call_replies [OF assms(1)] op by blast
  then show ?thesis using op assms(2) \<open>st = None\<close> by auto
qed

lemma append_again:
  assumes "uef_append e b lim m token (uef_window_generation b) len crc = Some (None, b1, m1)" "0x10000 \<le> lim"
    "\<And>i. i < 0x10000 \<Longrightarrow> m' i = m i"
  shows "uef_append e b1 lim m' token (uef_window_generation b) len crc = Some (None, b1, m')" "m1 = m"
proof -
  define n where "n = (if len = 0 then le16 (m UEF_CAPACITY) (m (UEF_CAPACITY + 1)) else len)"
  have lens: "(if len = 0 then rd16 (mem_rd M lim) UEF_CAPACITY else Some len) = Some n" if "M = m \<or> M = m'" for M
    using assms(2, 3) that by (auto simp: n_def)
  have bs: "mem_get M lim 0 (unat n) = Some (map m [0..<unat n])" if "M = m \<or> M = m'" for M
    using assms(2, 3) that unat_u16_less [of n] by (auto simp: mem_get_def)
  have token: "(if token = 0 then uef_stream_token b else token) = uef_stream_token b"
    and rest: "uef_upload_active b" "n \<noteq> 0" "unat n \<le> UEF_UPLOAD_MAX"
    and ab: "append_bytes b lim m (uef_window_generation b) n crc (map m [0..<unat n]) (z_crc32 e (map m [0..<unat n])) = Some (None, b1, m1)"
    using assms(1) lens [of m] bs [of m] by (auto simp: uef_append_def Let_def split: if_splits)
  then obtain s where b1: "b1 = b\<lparr>uef_stream := s, uef_stream_length := uef_stream_length b + unat n,
      uef_last_append_sequence := uef_window_generation b, uef_last_append_length := n, uef_last_append_crc := z_crc32 e (map m [0..<unat n]),
      uef_window_generation := uef_window_generation b + 1\<rparr>" "m1 = m" "crc = 0 \<or> crc = z_crc32 e (map m [0..<unat n])"
    by (auto simp: append_bytes_def bind_eq_Some_conv split: if_splits)
  show "m1 = m" by (rule b1(2))
  show "uef_append e b1 lim m' token (uef_window_generation b) len crc = Some (None, b1, m')"
    using token rest b1 lens [of m'] bs [of m'] by (auto simp: uef_append_def append_bytes_def Let_def)
qed

lemma append_not_ok: "uef_append e b lim m token value len crc \<noteq> Some (Some NET_OK, b', m')"
  by (auto simp: uef_append_def append_bytes_def bind_eq_Some_conv Let_def split: if_splits)

lemma refill_not_ok: "uef_refill b lim m token value \<noteq> Some (Some NET_OK, b', m')"
  by (auto simp: uef_refill_def bind_eq_Some_conv split: if_splits)

lemma refill_again:
  assumes "uef_inv b" "0x10000 \<le> lim" "token \<noteq> 0" "uef_window_generation b \<noteq> 0xFFFFFFFF"
    "uef_refill b lim m token (uef_window_generation b) = Some (None, b1, m1)"
  shows "\<exists>m2. uef_refill b1 lim m' token (uef_window_generation b) = Some (None, b1, m2) \<and>
    host_window (run_length b1) m2 (unat (uef_published_length b1)) = host_window (run_length b1) m1 (unat (uef_published_length b1))"
proof -
  let ?c = "b\<lparr>uef_window_generation := uef_window_generation b + 1\<rparr>"
  have ready: "\<not> stream_refused b token" using assms(5) by (auto simp: uef_refill_def)
  have c: "uef_stream_cursor ?c \<le> uef_stream_length ?c" "uef_stream_length ?c \<le> UEF_STREAM_CAPACITY" "guard_ok ?c" "uef_stream_ready ?c"
    using assms(1) ready by (simp_all add: uef_inv_def stream_refused_def)
  obtain m3 where m3: "uef_stream_publish ?c lim m = Some (published ?c, m3)"
    "host_window (run_length ?c) m3 (publish_count ?c) = map (uef_stream ?c) [uef_stream_cursor ?c..<uef_stream_cursor ?c + publish_count ?c]"
    using publish_eq [OF c(1-3) assms(2), of m] by blast
  have b1: "b1 = published ?c" "m1 = m3" using assms(5) ready m3(1) by (simp_all add: uef_refill_def)
  obtain m2 where m2: "uef_stream_republish b1 lim m' = Some m2"
    "host_window (run_length b1) m2 (unat (uef_published_length b1)) =
       map (uef_stream b1) [uef_published_offset b1..<uef_published_offset b1 + unat (uef_published_length b1)]"
    using republish_eq [of b1 lim m'] published_inv [OF c] b1(1) assms(2) by blast
  have "uef_refill b1 lim m' token (uef_window_generation b) = Some (None, b1, m2)"
    using m2(1) ready assms(3, 4) b1(1) by (simp add: uef_refill_def stream_refused_def published_def)
  moreover have "host_window (run_length b1) m2 (unat (uef_published_length b1)) = host_window (run_length b1) m1 (unat (uef_published_length b1))"
    using m2(2) m3(2) publish_count_small(2) [of ?c] by (simp add: b1 published_def)
  ultimately show ?thesis by blast
qed

text \<open>C36: a host that has not seen the reply to an APPEND or to a REFILL and sends the same request again, with the
  same sequence number, changes nothing: the piece is not appended a second time, the cursor does not skip a
  window, and the window shown is the one shown before.\<close>

theorem repeated_request_harmless:
  assumes "page_ok lim cmd" "uef_inv b" "operation = UEF_OP_APPEND \<or> operation = UEF_OP_REFILL" "token \<noteq> 0"
    "uef_window_generation b \<noteq> 0xFFFFFFFF"
    "uef_call e lim cmd (uef_request operation token (uef_window_generation b) len crc) (b, m) = Some (b1, m1)"
    "operation = UEF_OP_APPEND \<longrightarrow> (\<forall>i < 0x10000. m2 i = m1 i)"
  shows "\<exists>m3. uef_call e lim cmd (uef_request operation token (uef_window_generation b) len crc) (b1, m2) = Some (b1, m3) \<and>
    (operation = UEF_OP_REFILL \<longrightarrow>
      host_window (run_length b1) m3 (unat (uef_published_length b1)) = host_window (run_length b1) m1 (unat (uef_published_length b1)))"
proof -
  let ?r = "uef_request operation token (uef_window_generation b) len crc"
  have room: "0x10000 \<le> lim" "0x10000 \<le> cmd" using assms(1) by (simp_all add: page_ok_def)
  have low: "store M cmd ?r i = M i" if "i < 0x10000" for i M using that room(2) by (simp add: store_def)
  obtain m' where m': "uef_operate e b lim cmd (store m cmd ?r) operation token (uef_window_generation b) len crc = Some (None, b1, m')"
    "\<forall>i < 0x10000. m1 i = m' i"
    using call_inverted [OF assms(1, 6)] assms(3) append_not_ok refill_not_ok by (fastforce simp: uef_operate_def)
  show ?thesis
  proof (cases "operation = UEF_OP_APPEND")
    case True
    have a: "uef_append e b lim (store m cmd ?r) token (uef_window_generation b) len crc = Some (None, b1, m')" using m'(1) True by (simp add: uef_operate_def)
    have "store m2 cmd ?r i = store m cmd ?r i" if "i < 0x10000" for i
      using append_again(2) [OF a room(1) refl] assms(7) m'(2) True low that by auto
    then have "uef_append e b1 lim (store m2 cmd ?r) token (uef_window_generation b) len crc = Some (None, b1, store m2 cmd ?r)"
      using append_again(1) [OF a room(1)] by blast
    then show ?thesis using call_replies [OF assms(1), of e b1 m2 operation token "uef_window_generation b" len crc] True by (auto simp: uef_operate_def)
  next
    case False
    then have op: "operation = UEF_OP_REFILL" using assms(3) by blast
    have "uef_refill b lim (store m cmd ?r) token (uef_window_generation b) = Some (None, b1, m')" using m'(1) op by (simp add: uef_operate_def)
    from refill_again [OF assms(2) room(1) assms(4, 5) this, of "store m2 cmd ?r"]
    obtain m3 where m3: "uef_refill b1 lim (store m2 cmd ?r) token (uef_window_generation b) = Some (None, b1, m3)"
      "host_window (run_length b1) m3 (unat (uef_published_length b1)) = host_window (run_length b1) m' (unat (uef_published_length b1))" by blast
    obtain m4 where m4: "uef_call e lim cmd ?r (b1, m2) = Some (b1, m4)" "\<forall>i < 0x10000. m4 i = m3 i"
      using call_replies [OF assms(1), of e b1 m2 operation token "uef_window_generation b" len crc b1 m3] m3(1) op by (auto simp: uef_operate_def)
    have small: "unat (uef_published_length b1) \<le> 254 * run_length b1" "run_length b1 \<le> 256"
      using refill_good [OF room(1) assms(2)] \<open>uef_refill b lim _ _ _ = _\<close> window_limit_run [of b1] by (metis uef_good_Some uef_inv_def)+
    have "host_window (run_length b1) m4 (unat (uef_published_length b1)) = host_window (run_length b1) m3 (unat (uef_published_length b1))"
      "host_window (run_length b1) m1 (unat (uef_published_length b1)) = host_window (run_length b1) m' (unat (uef_published_length b1))"
      using m4(2) m'(2) small by (auto intro!: host_window_cong)
    then show ?thesis using m4(1) m3(2) by auto
  qed
qed

definition demo_ready_stream :: uef_backend where
  "demo_ready_stream = (uef_create None None (\<lambda>i. 0))\<lparr>uef_stream_length := 5, uef_stream_ready := True,
     uef_stream_token := 1, uef_window_generation := 1\<rparr>"

theorem repeated_request_harmless_witness:
  "\<exists>b1 m1 m3. uef_call copying 0x2000000 0xFFF000 (uef_request UEF_OP_REFILL 1 1 0 0) (demo_ready_stream, \<lambda>i. 0) = Some (b1, m1) \<and>
    uef_call copying 0x2000000 0xFFF000 (uef_request UEF_OP_REFILL 1 1 0 0) (b1, \<lambda>i. 7) = Some (b1, m3) \<and>
    host_window (run_length b1) m3 (unat (uef_published_length b1)) = host_window (run_length b1) m1 (unat (uef_published_length b1))"
proof -
  have page: "page_ok 0x2000000 0xFFF000" by (simp add: page_ok_def)
  have inv: "uef_inv demo_ready_stream" "guard_ok demo_ready_stream" "uef_window_generation demo_ready_stream = 1"
    by (simp_all add: demo_ready_stream_def uef_create_def uef_inv_def guard_ok_def)
  let ?c = "demo_ready_stream\<lparr>uef_window_generation := 2\<rparr>"
  have "\<exists>m1. uef_call copying 0x2000000 0xFFF000 (uef_request UEF_OP_REFILL 1 1 0 0) (demo_ready_stream, \<lambda>i. 0) = Some (published ?c, m1) \<and>
      showing 0xFFF000 (stream_bytes ?c) (published ?c) m1"
  proof (rule publishing_call [OF page])
    show "uef_operate copying demo_ready_stream 0x2000000 0xFFF000 (store (\<lambda>i. 0) 0xFFF000 (uef_request UEF_OP_REFILL 1 1 0 0)) UEF_OP_REFILL 1 1 0 0 =
      do { (b1, m1) \<leftarrow> uef_stream_publish ?c 0x2000000 (store (\<lambda>i. 0) 0xFFF000 (uef_request UEF_OP_REFILL 1 1 0 0)); Some (None, b1, m1) }"
      by (simp add: uef_operate_def uef_refill_def stream_refused_def demo_ready_stream_def uef_create_def)
  qed (simp_all add: demo_ready_stream_def uef_create_def guard_ok_def)
  then obtain m1 where m1: "uef_call copying 0x2000000 0xFFF000 (uef_request UEF_OP_REFILL 1 1 0 0) (demo_ready_stream, \<lambda>i. 0) = Some (published ?c, m1)" by blast
  from repeated_request_harmless [OF page inv(1), of UEF_OP_REFILL 1 copying 0 0 "\<lambda>i. 0" "published ?c" m1 "\<lambda>i. 7"] m1 inv(3)
  show ?thesis by auto
qed

subsection \<open>Where the code goes wrong\<close>

text \<open>
  \<open>inflate_bytes\<close> reports a full buffer as 1, but FINALIZE compares its result with
  \<open>Z_BUF_ERROR\<close>, which is never returned.
\<close>

text \<open>A GZIP upload whose contents do not fit the stream buffer is answered with \<open>INVALID\<close>; the reply
  \<open>TOO LARGE\<close> that the code prepares for this case is not given.\<close>

theorem oversized_gzip_reported_invalid:
  assumes "page_ok lim cmd" "uef_upload_active b" "uef_stream_length b \<le> UEF_STREAM_CAPACITY" "is_gzip (stream_bytes b)"
    "z_inflate e (MAX_WBITS + 16) UEF_STREAM_CAPACITY (stream_bytes b) = Some (Z_BUF_ERROR, out)" "length out = UEF_STREAM_CAPACITY"
  shows "\<exists>b' m'. uef_call e lim cmd (uef_request UEF_OP_FINALIZE 0 0 0 0) (b, m) = Some (b', m') \<and>
     map m' [cmd + 1..<cmd + 1 + length (INVALID @ [0])] = INVALID @ [0]"
proof -
  let ?m = "store m cmd (uef_request UEF_OP_FINALIZE 0 0 0 0)"
  have room: "cmd + 224 \<le> lim" using assms(1) by (simp add: page_ok_def)
  have raw: "\<not> is_raw_uef (stream_bytes b)"
  proof
    assume "is_raw_uef (stream_bytes b)"
    then have "take 10 (stream_bytes b) ! 0 = (ascii ''UEF File!'' @ [0]) ! 0" by (simp add: is_raw_uef_def)
    then show False using assms(4) by (simp add: is_gzip_def ascii_def)
  qed
  have pos: "0 < uef_stream_length b" using assms(4) by (auto simp: is_gzip_def stream_bytes_def)
  have get: "mem_get (uef_stream b) UEF_STREAM_CAPACITY 0 (uef_stream_length b) = Some (stream_bytes b)"
    using assms(3) by (simp add: mem_get_def stream_bytes_def)
  have inf: "inflate_bytes e st UEF_STREAM_CAPACITY UEF_STREAM_CAPACITY (stream_bytes b) (MAX_WBITS + 16) 0 = Some (1, store st 0 out, UEF_STREAM_CAPACITY)" for st
    using assms(5, 6) mem_put_store [of 0 out UEF_STREAM_CAPACITY st] by (simp add: inflate_bytes_def)
  have "finalize_gzip e (uef_stream b) (stream_bytes b) = Some (Inl INVALID, store (uef_stream b) 0 out)"
    unfolding finalize_gzip_def inf by (simp add: mem_get_def)
  then have unpack: "finalize_unpack e (uef_stream b) (stream_bytes b) = Some (Inl INVALID, store (uef_stream b) 0 out)"
    using raw assms(4) by (simp add: finalize_unpack_def)
  have "mem_put ?m lim (cmd + 1) (INVALID @ [0]) = Some (store ?m (cmd + 1) (INVALID @ [0]))"
    using room by (intro mem_put_store) (simp add: INVALID_def)
  then have "uef_finalize e b lim cmd ?m 0 = Some (Some NET_OK, b\<lparr>uef_stream := store (uef_stream b) 0 out\<rparr>, store ?m (cmd + 1) (INVALID @ [0]))"
    using assms(2) pos get unpack by (simp add: uef_finalize_def)
  then have "uef_call e lim cmd (uef_request UEF_OP_FINALIZE 0 0 0 0) (b, m) =
      Some (b\<lparr>uef_stream := store (uef_stream b) 0 out\<rparr>, store ?m (cmd + 1) (INVALID @ [0]))"
    by (simp add: uef_call_def control_decoded [OF room] uef_operate_def)
  then show ?thesis using map_store_self [of ?m "cmd + 1" "INVALID @ [0]"] by blast
qed

text \<open>A zlib that finds more than fits in whatever it is given.\<close>

definition overflowing :: uef_env where
  "overflowing = \<lparr>z_inflate = (\<lambda>bits room src. Some (-5, replicate room 0)), z_crc32 = (\<lambda>bs. 0), heap_has = (\<lambda>n. True)\<rparr>"

definition demo_gzip_upload :: uef_backend where
  "demo_gzip_upload = (uef_create None None ((\<lambda>i. 0)(0 := 0x1F, 1 := 0x8B)))\<lparr>uef_stream_length := 2, uef_upload_active := True\<rparr>"

theorem oversized_gzip_reported_invalid_witness:
  "\<exists>b' m'. uef_call overflowing 0x2000000 0xFFF000 (uef_request UEF_OP_FINALIZE 0 0 0 0) (demo_gzip_upload, \<lambda>i. 0) = Some (b', m') \<and>
     map m' [0xFFF000 + 1..<0xFFF000 + 1 + length (INVALID @ [0])] = INVALID @ [0]"
proof (rule oversized_gzip_reported_invalid)
  show "z_inflate overflowing (MAX_WBITS + 16) UEF_STREAM_CAPACITY (stream_bytes demo_gzip_upload) = Some (Z_BUF_ERROR, replicate UEF_STREAM_CAPACITY 0)"
    by (simp add: overflowing_def)
  show "is_gzip (stream_bytes demo_gzip_upload)" by (simp add: is_gzip_def stream_bytes_def demo_gzip_upload_def uef_create_def numeral_2_eq_2)
qed (simp_all add: page_ok_def demo_gzip_upload_def uef_create_def)

text \<open>
  The one-shot path replaces the stream but not the published offset. The next change of the guard
  moves the cursor there, which may be behind the end of the new stream: the number of bytes left
  then wraps, and every further window is taken for a full one.
\<close>

fun refills :: "uef_env \<Rightarrow> nat \<Rightarrow> nat \<Rightarrow> nat \<Rightarrow> uef_backend \<times> mem \<Rightarrow> (uef_backend \<times> mem) option" where
  "refills e lim cmd 0 s = Some s"
| "refills e lim cmd (Suc k) s = do { s' \<leftarrow> uef_call e lim cmd (uef_request UEF_OP_REFILL 0 0 0 0) s; refills e lim cmd k s' }"

lemma publish_behind_end:
  assumes "uef_stream_length b < uef_stream_cursor b" "uef_stream_cursor b \<le> UEF_STREAM_CAPACITY"
  shows "uef_stream_publish b lim m = None \<or> (\<exists>b' m'. uef_stream_publish b lim m = Some (b', m') \<and>
     uef_stream_cursor b' = uef_stream_cursor b + window_limit b \<and> uef_stream_cursor b' \<le> UEF_STREAM_CAPACITY \<and>
     uef_stream_length b' = uef_stream_length b \<and> uef_stream_ready b' = uef_stream_ready b)"
proof -
  have "65024 + uef_stream_cursor b \<le> 2 ^ 64 + uef_stream_length b" using assms(2) by simp
  then have "65024 \<le> 2 ^ 64 + uef_stream_length b - uef_stream_cursor b" by (rule add_le_imp_le_diff)
  then have "window_limit b \<le> size_sub (uef_stream_length b) (uef_stream_cursor b)"
    using assms(1) by (auto simp: size_sub_def window_limit_def)
  then have c: "(if size_sub (uef_stream_length b) (uef_stream_cursor b) < window_limit b
      then size_sub (uef_stream_length b) (uef_stream_cursor b) else window_limit b) = window_limit b" by simp
  have "window_limit b \<noteq> 0" by (simp add: window_limit_def)
  then show ?thesis
    unfolding uef_stream_publish_def Let_def c
    by (cases "uef_stream_cursor b + window_limit b \<le> UEF_STREAM_CAPACITY") (auto simp: show_window_def mem_get_def split: bind_split)
qed

lemma refills_fault:
  assumes "page_ok lim cmd"
  shows "uef_stream_ready b \<Longrightarrow> uef_stream_length b < uef_stream_cursor b \<Longrightarrow> uef_stream_cursor b \<le> UEF_STREAM_CAPACITY \<Longrightarrow>
    \<exists>k. refills e lim cmd k (b, m) = None"
proof (induction "UEF_STREAM_CAPACITY - uef_stream_cursor b" arbitrary: b m rule: less_induct)
  case less
  let ?c = "b\<lparr>uef_window_generation := uef_window_generation b + 1\<rparr>" and ?m = "store m cmd (uef_request UEF_OP_REFILL 0 0 0 0)"
  have op: "uef_operate e b lim cmd ?m UEF_OP_REFILL 0 0 0 0 = do { (b1, m1) \<leftarrow> uef_stream_publish ?c lim ?m; Some (None, b1, m1) }"
    using less.prems(1) by (simp add: uef_operate_def uef_refill_def stream_refused_def)
  have room: "cmd + 224 \<le> lim" using assms by (simp add: page_ok_def)
  consider "uef_stream_publish ?c lim ?m = None" | b' m' where "uef_stream_publish ?c lim ?m = Some (b', m')"
    "uef_stream_cursor b' = uef_stream_cursor b + window_limit b" "uef_stream_cursor b' \<le> UEF_STREAM_CAPACITY"
    "uef_stream_length b' = uef_stream_length b" "uef_stream_ready b'"
    using publish_behind_end [of ?c lim ?m] less.prems by auto
  then show ?case
  proof cases
    case 1
    then have "refills e lim cmd (Suc 0) (b, m) = None" using op by (simp add: uef_call_def control_decoded [OF room])
    then show ?thesis by blast
  next
    case 2
    obtain m2 where m2: "uef_call e lim cmd (uef_request UEF_OP_REFILL 0 0 0 0) (b, m) = Some (b', m2)"
      using call_replies [OF assms, of e b m UEF_OP_REFILL 0 0 0 0 b' m'] op 2(1) by auto
    have "0 < window_limit b" by (simp add: window_limit_def)
    then obtain k where "refills e lim cmd k (b', m2) = None"
      using less.hyps [of b' m2] 2 less.prems(2) by fastforce
    then have "refills e lim cmd (Suc k) (b, m) = None" using m2 by simp
    then show ?thesis by blast
  qed
qed

text \<open>C40: after a raw image has been normalised in the window while a longer stream had been read past that
  image's length, the command that withdraws the guard, followed by enough refills, makes the stream read
  outside its buffer.\<close>

theorem stale_window_overrun:
  assumes "page_ok lim cmd" "guard_ok b" "is_raw_uef (map m [0..<len])" "unat (le16 (m UEF_CAPACITY) (m (UEF_CAPACITY + 1))) = len"
    "len \<le> UEF_CAPACITY" "len < uef_published_offset b" "uef_published_offset b \<le> UEF_STREAM_CAPACITY"
  shows "\<exists>b1 m1 k. normalize_uef_control e b lim cmd m = Some (NET_OK, b1, m1) \<and>
     do { (st, b2, m2) \<leftarrow> guard_command b1 lim cmd (store m1 cmd [86, 0]); refills e lim cmd k (b2, m2) } = None"
proof -
  have room: "0x10000 \<le> lim" "cmd + 224 \<le> lim" using assms(1) by (simp_all add: page_ok_def)
  have pos: "0 < len" using assms(3) by (auto simp: is_raw_uef_def)
  obtain s n m1 where n: "normalized_stream b lim cmd m RAW len = Some (NET_OK, b\<lparr>uef_stream := s, uef_stream_length := n,
     uef_stream_cursor := 0, uef_stream_ready := True, uef_upload_active := False,
     uef_stream_token := next_token (uef_stream_token b), uef_stream_format := hd RAW\<rparr>, m1)" "n \<le> len"
    using normalized_stream_eq [OF room assms(5), of RAW b m] by auto
  let ?b1 = "b\<lparr>uef_stream := s, uef_stream_length := n, uef_stream_cursor := 0, uef_stream_ready := True, uef_upload_active := False,
     uef_stream_token := next_token (uef_stream_token b), uef_stream_format := hd RAW\<rparr>"
  have "RAW \<noteq> TOO_LARGE" "RAW \<noteq> INVALID" by (simp_all add: RAW_def TOO_LARGE_def INVALID_def ascii_def)
  then have norm: "normalize_uef_control e b lim cmd m = Some (NET_OK, ?b1, m1)"
    using room assms(3-5) pos n(1) unfolding normalize_uef_control_def assms(4) Let_def
    by (simp add: mem_get_def normalize_window_def)
  let ?m = "store m1 cmd [86, 0]"
  let ?c = "?b1\<lparr>guard_image := replicate UEF_GUARD_LENGTH 0, guard_image_valid := False, uef_stream_cursor := uef_published_offset b\<rparr>"
  have guard: "guard_command ?b1 lim cmd ?m = do { (b2, m2) \<leftarrow> uef_stream_publish ?c lim ?m;
      m3 \<leftarrow> elkwifi_response lim cmd (ascii ''OFF'' @ [CR, LF]) m2; Some (NET_OK, b2, m3) }"
    using room(2) store_read(1) [of 1 "[86, 0]" m1 cmd] by (simp add: guard_command_def uef_window_relayout_def)
  have "\<exists>k. do { (st, b2, m2) \<leftarrow> guard_command ?b1 lim cmd ?m; refills e lim cmd k (b2, m2) } = None"
  proof (cases "uef_stream_publish ?c lim ?m")
    case (Some bm)
    obtain b2 m2 where bm: "bm = (b2, m2)" by (cases bm)
    have 2: "uef_stream_ready b2" "uef_stream_length b2 < uef_stream_cursor b2" "uef_stream_cursor b2 \<le> UEF_STREAM_CAPACITY"
      using publish_behind_end [of ?c lim ?m] Some bm n(2) assms(6, 7) by auto
    obtain m3 where "elkwifi_response lim cmd (ascii ''OFF'' @ [CR, LF]) m2 = Some m3" using response_defined [OF room(2)] by blast
    then show ?thesis using refills_fault [OF assms(1) 2, of e m3] guard Some bm by simp
  qed (simp add: guard)
  then show ?thesis using norm by blast
qed

text \<open>The same tape in the window, after a stream whose second window was shown.\<close>

definition demo_window :: mem where
  "demo_window = (store (\<lambda>i. 0) 0 (concat demo_tape))(UEF_CAPACITY := 48)"

definition demo_long_stream :: uef_backend where
  "demo_long_stream = (uef_create None None (\<lambda>i. 0))\<lparr>uef_stream_length := 100000, uef_stream_cursor := 100000,
     uef_published_offset := 65024, uef_published_length := 34976, uef_stream_ready := True\<rparr>"

theorem stale_window_overrun_witness:
  "\<exists>b1 m1 k. normalize_uef_control copying demo_long_stream 0x2000000 0xFFF000 demo_window = Some (NET_OK, b1, m1) \<and>
     do { (st, b2, m2) \<leftarrow> guard_command b1 0x2000000 0xFFF000 (store m1 0xFFF000 [86, 0]);
          refills copying 0x2000000 0xFFF000 k (b2, m2) } = None"
proof (rule stale_window_overrun [where len = 48])
  have len: "length (concat demo_tape) = 48" by (simp add: demo_tape_def ascii_def demo_block_def)
  have "map demo_window [0..<48] = map (store (\<lambda>i. 0) 0 (concat demo_tape)) [0..<48]" by (simp add: demo_window_def)
  also have "\<dots> = concat demo_tape" using map_store_self [of "\<lambda>i. 0" 0 "concat demo_tape"] by (simp only: len add_0)
  finally show "is_raw_uef (map demo_window [0..<48])" by (simp add: is_raw_uef_def demo_tape_def ascii_def)
  show "unat (le16 (demo_window UEF_CAPACITY) (demo_window (UEF_CAPACITY + 1))) = 48"
    using len by (simp add: unat_le16 demo_window_def store_def)
qed (simp_all add: page_ok_def guard_ok_def demo_long_stream_def uef_create_def)

end
