(* ===== verification/Wifi_Props.thy ===== *)
theory Wifi_Props
  imports Wifi
begin

section \<open>Properties of the WiFi fixture\<close>

text \<open>
  The invariant of the fixture and that every command keeps it, the course of a join, and that
  the profile a join saves is the one a new backend loads.
\<close>

subsection \<open>The invariant\<close>

definition wifi_texts_fit :: "wifi \<Rightarrow> bool" where
  "wifi_texts_fit w \<longleftrightarrow> length (wifi_ssid w) \<le> 32 \<and> length (wifi_password w) \<le> 64 \<and> length (wifi_security w) \<le> 5"

definition wifi_inv :: "wifi \<Rightarrow> bool" where
  "wifi_inv w \<longleftrightarrow> wifi_texts_fit w \<and> (wifi_has_address w \<longrightarrow> wifi_associated w \<and> \<not> wifi_connecting w) \<and>
     (wifi_associated w \<or> wifi_connecting w \<longrightarrow> wifi_enabled w) \<and> wifi_associate_at_ms w \<le> wifi_dhcp_at_ms w \<and>
     (scan_fields w = 7 \<or> scan_fields w = 127)"

definition wifi_good :: "wifi_result \<Rightarrow> bool" where
  "wifi_good r \<longleftrightarrow> (\<exists>st w file m. r = Some (st, w, file, m) \<and> wifi_inv w)"

lemma wifi_good_Some [simp]: "wifi_good (Some (st, w, file, m)) \<longleftrightarrow> wifi_inv w"
  by (simp add: wifi_good_def)

lemma wifi_answer_eq: "cmd + 224 \<le> lim \<Longrightarrow>
    wifi_answer st text w file lim cmd m = Some (st, w, file, store m (cmd + 1) (take 220 text @ [0]))"
  using mem_put_store [of "cmd + 1" "take 220 text @ [0]" lim m]
  by (simp add: wifi_answer_def elkwifi_response_def)

lemma wifi_update_inv: "wifi_inv w \<Longrightarrow> wifi_inv (wifi_update now w)"
  by (auto simp: wifi_update_def wifi_inv_def wifi_texts_fit_def Let_def)

lemma start_join_inv: "wifi_texts_fit w \<Longrightarrow> scan_fields w = 7 \<or> scan_fields w = 127 \<Longrightarrow> wifi_inv (wifi_start_join now w)"
  by (simp add: wifi_start_join_def wifi_inv_def wifi_texts_fit_def)

lemma simple_commands_good:
  assumes "cmd + 224 \<le> lim" "wifi_inv w"
  shows "wifi_good (wifi_status w file lim cmd m)" "wifi_good (wifi_radio v w file lim cmd m)" "wifi_good (wifi_scan w file lim cmd m)"
    "wifi_good (join_query w file lim cmd m)" "wifi_good (join_leave operation w file lim cmd m)" "wifi_good (wifi_ifcfg w file lim cmd m)"
    "wifi_good (wifi_lapopt w file lim cmd m)" "wifi_good (wifi_online w file lim cmd m)"
  using assms unfolding wifi_inv_def wifi_texts_fit_def
  by (simp_all add: wifi_status_def wifi_radio_def wifi_scan_def join_query_def join_leave_def wifi_ifcfg_def wifi_lapopt_def
      wifi_online_def wifi_answer_eq wifi_inv_def wifi_texts_fit_def wifi_start_join_def Let_def)

lemma valid_lengths: "wifi_credentials_valid ssid password security \<Longrightarrow> length ssid \<le> 32 \<and> length password \<le> 64"
  by (auto simp: wifi_credentials_valid_def Let_def split: if_splits)

lemma parsed_security:
  "fst (wifi_parse_credentials input) \<in> {ascii ''OPEN'', ascii ''AUTO'', ascii ''WPA'', ascii ''WPA2'', ascii ''WEP''}"
  by (simp add: wifi_parse_credentials_def)

lemma modes_password: "wifi_modes input modes = Some (mode, password) \<Longrightarrow> set password \<subseteq> set input"
  by (induction modes) (auto split: if_splits dest: in_set_dropD)

lemma parsed_password: "set (snd (wifi_parse_credentials input)) \<subseteq> set input"
proof (cases "map lower input = ascii ''open''")
  case False
  then show ?thesis using modes_password [of input "[ascii ''AUTO'', ascii ''WPA'', ascii ''WPA2'', ascii ''WEP'']"]
    by (auto simp: wifi_parse_credentials_def simp del: wifi_modes.simps split: option.splits)
qed (simp add: wifi_parse_credentials_def)

lemma security_fits: "security \<in> {ascii ''OPEN'', ascii ''AUTO'', ascii ''WPA'', ascii ''WPA2'', ascii ''WEP''} \<Longrightarrow> length security \<le> 4"
  by auto

text \<open>The outcomes of a JOIN: refused, not saved, or under way.\<close>

lemma join_network_cases:
  fixes v :: wifi_env
  assumes "cmd + 224 \<le> lim"
  obtains "join_network v w file lim cmd m = Some (ELKWIFI_ERR_PARAM, w, file, m)"
  | security where "join_network v w file lim cmd m = Some (ELKWIFI_ERR_PARAM, w\<lparr>wifi_security := security\<rparr>, file, m)" "length security \<le> 4"
  | ssid password security file' where
      "join_network v w file lim cmd m =
        Some (ELKWIFI_ERR_IO, w\<lparr>wifi_security := security, wifi_ssid := ssid, wifi_password := password\<rparr>, file', m)"
      "wifi_credentials_valid ssid password security" "length security \<le> 4"
  | ssid password security file' where
      "join_network v w file lim cmd m = wifi_answer NET_OK (ok_text (ascii ''WIFI CONNECTING '' @ security))
        (wifi_start_join (join_ms v) (w\<lparr>wifi_security := security, wifi_ssid := ssid, wifi_password := password\<rparr>)) file' lim cmd m"
      "wifi_profile_save (saving v) (w\<lparr>wifi_security := security, wifi_ssid := ssid, wifi_password := password\<rparr>) file = (True, file')"
      "wifi_credentials_valid ssid password security"
      "security \<in> {ascii ''OPEN'', ascii ''AUTO'', ascii ''WPA'', ascii ''WPA2'', ascii ''WEP''}" "0 \<notin> set ssid" "0 \<notin> set password"
proof -
  define ssid where "ssid = cstr (map m [cmd + 2..<cmd + 2 + 33])"
  have s: "length ssid \<le> 33" "0 \<notin> set ssid"
    using length_takeWhile_le [of "\<lambda>c. c \<noteq> 0" "map m [cmd + 2..<cmd + 2 + 33]"] by (auto simp: ssid_def cstr_def dest: set_takeWhileD)
  have page: "mem_get m lim (cmd + 2) 33 = Some (map m [cmd + 2..<cmd + 2 + 33])" using assms by (simp add: mem_get_def)
  define input where "input = cstr (map m [cmd + 2 + length ssid + 1..<cmd + 2 + length ssid + 1 + 65])"
  have input: "mem_get m lim (cmd + 2 + length ssid + 1) 65 = Some (map m [cmd + 2 + length ssid + 1..<cmd + 2 + length ssid + 1 + 65])"
    using assms s(1) by (simp add: mem_get_def)
  obtain security password where p: "wifi_parse_credentials input = (security, password)" by fastforce
  have sec: "security \<in> {ascii ''OPEN'', ascii ''AUTO'', ascii ''WPA'', ascii ''WPA2'', ascii ''WEP''}" using parsed_security [of input] p by simp
  note sec4 = security_fits [OF sec]
  have "0 \<notin> set input" by (auto simp: input_def cstr_def dest: set_takeWhileD)
  then have pw: "0 \<notin> set password" using parsed_password [of input] p by auto
  have fit: "fitting 6 security = Some security" using sec4 by (simp add: fitting_def)
  let ?w = "w\<lparr>wifi_security := security, wifi_ssid := ssid, wifi_password := password\<rparr>"
  have step: "join_network v w file lim cmd m =
      (if ssid = [] \<or> 33 \<le> length ssid then Some (ELKWIFI_ERR_PARAM, w, file, m)
       else if 65 \<le> length input then Some (ELKWIFI_ERR_PARAM, w, file, m)
       else if \<not> wifi_credentials_valid ssid password security then Some (ELKWIFI_ERR_PARAM, w\<lparr>wifi_security := security\<rparr>, file, m)
       else do { password' \<leftarrow> fitting 65 password;
         case wifi_profile_save (saving v) (w\<lparr>wifi_security := security, wifi_ssid := ssid, wifi_password := password'\<rparr>) file of
             (False, file') \<Rightarrow> Some (ELKWIFI_ERR_IO, w\<lparr>wifi_security := security, wifi_ssid := ssid, wifi_password := password'\<rparr>, file', m)
           | (True, file') \<Rightarrow> wifi_answer NET_OK (ok_text (ascii ''WIFI CONNECTING '' @ security))
               (wifi_start_join (join_ms v) (w\<lparr>wifi_security := security, wifi_ssid := ssid, wifi_password := password'\<rparr>)) file' lim cmd m })"
    unfolding join_network_def page Let_def bind.bind_lunit ssid_def [symmetric] input input_def [symmetric]
    by (simp add: p fit)
  show thesis
  proof (cases "ssid = [] \<or> 33 \<le> length ssid \<or> 65 \<le> length input")
    case False
    show thesis
    proof (cases "wifi_credentials_valid ssid password security")
      case True
      then have "fitting 65 password = Some password" using valid_lengths [of ssid password security] by (simp add: fitting_def)
      moreover obtain ok file' where "wifi_profile_save (saving v) ?w file = (ok, file')" by fastforce
      ultimately show thesis using that(3) [OF _ True sec4] that(4) [OF _ _ True sec s(2) pw] step False True
        by (cases ok) auto
    qed (use that(2) [OF _ sec4] step False in auto)
  qed (use that(1) step in auto)
qed

lemma join_network_good:
  assumes "cmd + 224 \<le> lim" "wifi_inv w"
  shows "wifi_good (join_network v w file lim cmd m)"
proof (rule join_network_cases [OF assms(1), of v w "file" m])
  fix ssid password security file'
  assume "wifi_credentials_valid ssid password security"
    and j: "join_network v w file lim cmd m = wifi_answer NET_OK (ok_text (ascii ''WIFI CONNECTING '' @ security))
        (wifi_start_join (join_ms v) (w\<lparr>wifi_security := security, wifi_ssid := ssid, wifi_password := password\<rparr>)) file' lim cmd m"
    and sec: "security \<in> {ascii ''OPEN'', ascii ''AUTO'', ascii ''WPA'', ascii ''WPA2'', ascii ''WEP''}"
  then show ?thesis using assms valid_lengths [of ssid password security] security_fits [OF sec]
    by (simp add: j wifi_answer_eq wifi_start_join_def wifi_texts_fit_def wifi_inv_def)
qed (use assms valid_lengths in \<open>auto simp: wifi_inv_def wifi_texts_fit_def\<close>)

lemma control_good:
  assumes "cmd + 224 \<le> lim" "wifi_inv w"
  shows "wifi_good (do_elkwifi_control v w file lim cmd m)"
  using assms wifi_update_inv [OF assms(2), of "update_ms v"] join_network_good simple_commands_good
  by (simp add: do_elkwifi_control_def wifi_join_def wifi_answer_eq Let_def)

subsection \<open>Sequences of commands\<close>

type_synonym wifi_command = "wifi_env \<times> nat \<times> mem"

definition wifi_exec :: "nat \<Rightarrow> wifi_command \<Rightarrow> wifi \<times> bytes option \<Rightarrow> (wifi \<times> bytes option) option" where
  "wifi_exec lim = (\<lambda>(v, cmd, m) (w, file). map_option (\<lambda>(st, w', file', m'). (w', file')) (do_elkwifi_control v w file lim cmd m))"

definition wifi_command_ok :: "nat \<Rightarrow> wifi_command \<Rightarrow> bool" where
  "wifi_command_ok lim = (\<lambda>(v, cmd, m). cmd + 224 \<le> lim)"

interpretation wf: safe_component "wifi_exec lim" "wifi_command_ok lim" "\<lambda>(w, file). wifi_inv w" for lim
proof unfold_locales
  fix s :: "wifi \<times> bytes option" and c :: wifi_command
  assume "case s of (w, file) \<Rightarrow> wifi_inv w" "wifi_command_ok lim c"
  then show "\<exists>s'. wifi_exec lim c s = Some s' \<and> (case s' of (w, file) \<Rightarrow> wifi_inv w)"
    using control_good [of "fst (snd c)" lim "fst s" "fst c" "snd s" "snd (snd c)"]
    by (auto simp: wifi_exec_def wifi_command_ok_def wifi_good_def)
qed

lemma profile_parse_valid: "profile_parse text = Some (security, ssid, password) \<Longrightarrow> wifi_credentials_valid ssid password security \<and> length security \<le> 4"
  by (auto simp: profile_parse_def bind_eq_Some_conv split: if_splits)

lemma profile_load_result:
  assumes "wifi_inv w"
  shows "\<exists>loaded w'. wifi_profile_load w file = Some (loaded, w') \<and> wifi_inv w'"
proof (cases "wifi_profile_path w = [] \<or> file \<bind> profile_parse = None")
  case True
  then show ?thesis using assms by (intro exI [of _ False] exI [of _ w]) (auto simp: wifi_profile_load_def)
next
  case False
  obtain security ssid password where p: "file \<bind> profile_parse = Some (security, ssid, password)" using False by fastforce
  then have "length security \<le> 4" "length ssid \<le> 32" "length password \<le> 64"
    using profile_parse_valid valid_lengths by (fastforce simp: bind_eq_Some_conv)+
  then show ?thesis using False p assms by (auto simp: wifi_profile_load_def fitting_def wifi_inv_def wifi_texts_fit_def)
qed

lemma wifi_initial_inv: "wifi_inv ((wifi_initial here associate dhcp)\<lparr>wifi_profile_path := p\<rparr>)"
  "wifi_inv ((wifi_initial here associate dhcp)\<lparr>wifi_ssid := ascii ''Pi1MHz-Fixture'', wifi_associated := here, wifi_has_address := here\<rparr>)"
  by (simp_all add: wifi_initial_def wifi_inv_def wifi_texts_fit_def)

lemma wifi_create_result:
  "\<exists>r. wifi_create present path associate dhcp now file = Some r \<and> (\<forall>w. r = Some w \<longrightarrow> wifi_inv w)"
proof (cases "path = None \<or> path = Some []")
  case True
  then show ?thesis using wifi_initial_inv(2) by (auto simp: wifi_create_def Let_def)
next
  case False
  then obtain c cs where path: "path = Some (c # cs)" by (metis neq_Nil_conv not_None_eq)
  let ?w = "(wifi_initial (\<not> env_is present (ascii ''0'') [ascii ''no'']) associate dhcp)\<lparr>wifi_profile_path := c # cs\<rparr>"
  obtain loaded w' where w': "wifi_profile_load ?w file = Some (loaded, w')" "wifi_inv w'"
    using profile_load_result [OF wifi_initial_inv(1)] by blast
  have "wifi_inv (wifi_start_join now w')" by (rule start_join_inv) (use w'(2) in \<open>simp_all add: wifi_inv_def\<close>)
  then show ?thesis using w' wifi_initial_inv(1) [of "c # cs" _ associate dhcp] by (auto simp: wifi_create_def path Let_def)
qed

lemma wifi_create_inv: "wifi_create present path associate dhcp now file = Some (Some w) \<Longrightarrow> wifi_inv w"
  using wifi_create_result [of present path associate dhcp now "file"] by auto


definition demo_wifi_env :: wifi_env where
  "demo_wifi_env = \<lparr>update_ms = 2000, join_ms = 2000, saving = Saved\<rparr>"

text \<open>A page that joins the network \<open>HOME\<close> with the password \<open>WPA2:electron1\<close>.\<close>

definition join_page :: mem where
  "join_page = store (\<lambda>i. 0) 0xFFF000 ([ELKWIFI_CMD_JOIN, 1] @ ascii ''HOME'' @ [0] @ ascii ''WPA2:electron1'' @ [0])"

definition demo_wifi :: wifi where
  "demo_wifi = (wifi_initial True None None)\<lparr>wifi_ssid := ascii ''Pi1MHz-Fixture'', wifi_associated := True, wifi_has_address := True\<rparr>"

lemma demo_wifi_created: "wifi_create None None None None 1000 None = Some (Some demo_wifi)"
  by (simp add: wifi_create_def demo_wifi_def env_is_def Let_def)


subsection \<open>The course of a join\<close>

definition page_text :: "nat \<Rightarrow> mem \<Rightarrow> bytes \<Rightarrow> bool" where
  "page_text cmd m t \<longleftrightarrow> map m [cmd + 1..<cmd + 1 + length t + 1] = t @ [0]"

lemma answered_text:
  assumes "cmd + 224 \<le> lim" "length t \<le> 220"
  shows "\<exists>m'. wifi_answer st t w file lim cmd m = Some (st, w, file, m') \<and> page_text cmd m' t"
  using wifi_answer_eq [OF assms(1), of st t w "file" m] map_store_self [of m "cmd + 1" "t @ [0]"] assms(2)
  by (auto simp: page_text_def)

text \<open>What an accepted JOIN leaves behind.\<close>

lemma join_accepted:
  assumes "cmd + 224 \<le> lim" "m cmd = ELKWIFI_CMD_JOIN" "m (cmd + 1) = 1"
    "do_elkwifi_control v w file lim cmd m = Some (NET_OK, w', file', m')"
  shows "\<exists>w0 ssid password security. w' = wifi_start_join (join_ms v) (w0\<lparr>wifi_security := security, wifi_ssid := ssid, wifi_password := password\<rparr>) \<and>
     wifi_credentials_valid ssid password security \<and> 0 \<notin> set ssid \<and> 0 \<notin> set password \<and>
     security \<in> {ascii ''OPEN'', ascii ''AUTO'', ascii ''WPA'', ascii ''WPA2'', ascii ''WEP''} \<and>
     wifi_profile_path w0 = wifi_profile_path w \<and>
     wifi_profile_save (saving v) (w0\<lparr>wifi_security := security, wifi_ssid := ssid, wifi_password := password\<rparr>) file = (True, file')"
proof -
  let ?w = "wifi_update (update_ms v) w"
  have j: "join_network v ?w file lim cmd m = Some (NET_OK, w', file', m')"
    using assms by (simp add: do_elkwifi_control_def wifi_join_def Let_def)
  have path: "wifi_profile_path ?w = wifi_profile_path w" by (simp add: wifi_update_def Let_def)
  show ?thesis
    by (rule join_network_cases [OF assms(1), of v ?w "file" m]) (use j path in \<open>auto simp: wifi_answer_eq [OF assms(1)]\<close>)
qed

lemma online_text:
  assumes "cmd + 224 \<le> lim" "m cmd = ELKWIFI_CMD_ONLINE" "wifi_update (update_ms v) w = u"
  shows "\<exists>m'. do_elkwifi_control v w file lim cmd m = Some (NET_OK, u, file, m') \<and> page_text cmd m' (crlf_text
     (if wifi_has_address u then ''ONLINE 192.168.0.2'' else if wifi_connecting u \<or> wifi_associated u then ''OFFLINE CONNECTING''
      else if \<not> wifi_enabled u then ''OFFLINE WIFI OFF'' else ''OFFLINE''))"
proof -
  have "do_elkwifi_control v w file lim cmd m = wifi_online u file lim cmd m"
    using assms by (simp add: do_elkwifi_control_def Let_def)
  then show ?thesis unfolding wifi_online_def by (simp only:) (rule answered_text [OF assms(1)], simp add: crlf_text_def)
qed

text \<open>
  A join under way, with the deadline \<open>d\<close> of its DHCP exchange, as the clock stood at \<open>t\<close>: either
  the fixture is still connecting or it has its address, and then the deadline has passed.
\<close>

definition joining :: "nat \<Rightarrow> nat \<Rightarrow> wifi \<Rightarrow> bool" where
  "joining d t w \<longleftrightarrow> wifi_dhcp_at_ms w = d \<and> wifi_associate_at_ms w \<le> d \<and>
     (if wifi_has_address w then wifi_associated w \<and> \<not> wifi_connecting w \<and> d \<le> t else wifi_connecting w)"

lemma start_join_joining: "joining (now + wifi_associate_delay_ms w + wifi_dhcp_delay_ms w) t (wifi_start_join now w)"
  by (simp add: joining_def wifi_start_join_def)

lemma update_joining:
  assumes "joining d t w" "t \<le> now"
  shows "joining d now (wifi_update now w)" "wifi_has_address (wifi_update now w) \<longleftrightarrow> d \<le> now"
  using assms by (auto simp: joining_def wifi_update_def Let_def split: if_splits)

text \<open>The commands that neither start another join nor leave the network.\<close>

definition undisturbing :: "nat \<Rightarrow> mem \<Rightarrow> bool" where
  "undisturbing cmd m \<longleftrightarrow> m cmd \<noteq> ELKWIFI_CMD_JOIN \<or> m (cmd + 1) \<notin> {1, 2, 3}"

lemma joining_fields [simp]:
  "joining d t (w\<lparr>wifi_enabled := b\<rparr>) = joining d t w" "joining d t (w\<lparr>scan_fields := k\<rparr>) = joining d t w"
  by (simp_all add: joining_def)

lemma joining_radio: "joining d t w \<Longrightarrow> wifi_associated w \<or> wifi_connecting w"
  by (auto simp: joining_def split: if_splits)

lemma joining_step:
  assumes "joining d t w" "t \<le> update_ms v" "cmd + 224 \<le> lim" "undisturbing cmd m"
  shows "\<exists>w' file'. wifi_exec lim (v, cmd, m) (w, file) = Some (w', file') \<and> joining d (update_ms v) w'"
proof -
  let ?w = "wifi_update (update_ms v) w"
  have j: "joining d (update_ms v) ?w" by (rule update_joining(1) [OF assms(1, 2)])
  have "\<exists>st w' m'. do_elkwifi_control v w file lim cmd m = Some (st, w', file, m') \<and> joining d (update_ms v) w'"
    using j joining_radio [OF j] assms(3, 4)
    by (auto simp: do_elkwifi_control_def Let_def wifi_status_def wifi_radio_def wifi_scan_def wifi_join_def join_query_def
        wifi_ifcfg_def wifi_lapopt_def wifi_online_def wifi_answer_eq undisturbing_def)
  then show ?thesis by (auto simp: wifi_exec_def)
qed

lemma joining_run:
  assumes "joining d t w" "sorted (t # map (\<lambda>c. update_ms (fst c)) cs)"
    "list_all (\<lambda>(v, cmd, m). cmd + 224 \<le> lim \<and> undisturbing cmd m) cs"
  shows "\<exists>w' file'. run_ops (wifi_exec lim) cs (w, file) = Some (w', file') \<and>
     joining d (last (t # map (\<lambda>c. update_ms (fst c)) cs)) w'"
  using assms
proof (induction cs arbitrary: t w "file")
  case (Cons c cs)
  obtain v cmd m where c: "c = (v, cmd, m)" using prod_cases3 by blast
  obtain w1 file1 where s: "wifi_exec lim c (w, file) = Some (w1, file1)" "joining d (update_ms v) w1"
    using joining_step [of d t w v cmd lim m "file"] Cons.prems c by auto
  have "sorted (update_ms v # map (\<lambda>c. update_ms (fst c)) cs)" using Cons.prems(2) c by simp
  then show ?case using Cons.IH [OF s(2)] Cons.prems(3) s(1) c by simp
qed simp

text \<open>C38: after a JOIN has been accepted the host may send any commands it likes that neither start another
  join nor leave the network, polls included, as the clock advances; whenever it then sends ONLINE, the
  answer is that the fixture is connecting as long as the association and DHCP delays have not passed
  since the JOIN, and its address from then on.\<close>

theorem join_reaches_address:
  assumes "cmd + 224 \<le> lim" "m cmd = ELKWIFI_CMD_JOIN" "m (cmd + 1) = 1"
    "do_elkwifi_control v w file lim cmd m = Some (NET_OK, w', file', m')"
    and "list_all (\<lambda>(v, cmd, m). cmd + 224 \<le> lim \<and> undisturbing cmd m) cs"
    and "sorted (map (\<lambda>c. update_ms (fst c)) cs @ [update_ms v'])" "page + 224 \<le> lim" "q page = ELKWIFI_CMD_ONLINE"
  shows "\<exists>w1 file1 u q'. run_ops (wifi_exec lim) cs (w', file') = Some (w1, file1) \<and>
     do_elkwifi_control v' w1 file1 lim page q = Some (NET_OK, u, file1, q') \<and> page_text page q' (crlf_text
       (if join_ms v + wifi_associate_delay_ms w' + wifi_dhcp_delay_ms w' \<le> update_ms v' then ''ONLINE 192.168.0.2''
        else ''OFFLINE CONNECTING''))"
proof -
  let ?d = "join_ms v + wifi_associate_delay_ms w' + wifi_dhcp_delay_ms w'"
  obtain w0 where w': "w' = wifi_start_join (join_ms v) w0" using join_accepted [OF assms(1-4)] by blast
  then have "joining ?d 0 w'" using start_join_joining [of "join_ms v" w0 0] by (simp add: wifi_start_join_def)
  then obtain w1 file1 where r: "run_ops (wifi_exec lim) cs (w', file') = Some (w1, file1)"
      "joining ?d (last (0 # map (\<lambda>c. update_ms (fst c)) cs)) w1"
    using joining_run [of ?d 0 w' cs lim file'] assms(5, 6) by (auto simp: sorted_append)
  have "last (0 # map (\<lambda>c. update_ms (fst c)) cs) \<le> update_ms v'" using assms(6) by (auto simp: sorted_append last_map)
  note u = update_joining [OF r(2) this]
  have "(if wifi_has_address u then ''ONLINE 192.168.0.2'' else if wifi_connecting u \<or> wifi_associated u then ''OFFLINE CONNECTING''
      else if \<not> wifi_enabled u then ''OFFLINE WIFI OFF'' else ''OFFLINE'') =
    (if ?d \<le> update_ms v' then ''ONLINE 192.168.0.2'' else ''OFFLINE CONNECTING'')"
    if "u = wifi_update (update_ms v') w1" for u
    using u joining_radio [OF u(1)] that by auto
  then show ?thesis using online_text [of page lim q v' w1 "wifi_update (update_ms v') w1" file1] assms(7, 8) r(1) by auto
qed

lemma demo_join:
  "do_elkwifi_control demo_wifi_env (demo_wifi\<lparr>wifi_profile_path := ascii ''wifi.cfg''\<rparr>) None 0x2000000 0xFFF000 join_page =
   Some (NET_OK, wifi_start_join 2000 (demo_wifi\<lparr>wifi_profile_path := ascii ''wifi.cfg'', wifi_security := ascii ''WPA2'', wifi_ssid := ascii ''HOME'',
      wifi_password := ascii ''electron1''\<rparr>),
     Some (ascii ''ELKWIFI1'' @ [LF] @ ascii ''WPA2'' @ [LF] @ ascii ''HOME'' @ [LF] @ ascii ''electron1'' @ [LF]),
     store join_page (0xFFF000 + 1) (ok_text (ascii ''WIFI CONNECTING WPA2'') @ [0]))"
proof -
  let ?w = "demo_wifi\<lparr>wifi_profile_path := ascii ''wifi.cfg''\<rparr>"
  have get: "mem_get join_page 0x2000000 (0xFFF000 + 2) 33 = Some (take 33 (ascii ''HOME'' @ [0] @ ascii ''WPA2:electron1'' @ replicate 33 0))"
    "mem_get join_page 0x2000000 (0xFFF000 + 2 + 4 + 1) 65 = Some (take 65 (ascii ''WPA2:electron1'' @ replicate 65 0))"
    by (simp_all add: mem_get_def, (rule nth_equalityI; simp add: join_page_def store_def ascii_def nth_append nth_Cons' upt_rec)+)
  have texts: "cstr (take 33 (ascii ''HOME'' @ [0] @ ascii ''WPA2:electron1'' @ replicate 33 0)) = ascii ''HOME''"
    "cstr (take 65 (ascii ''WPA2:electron1'' @ replicate 65 0)) = ascii ''WPA2:electron1''"
    by (simp_all add: cstr_def ascii_def takeWhile_append)
  have update: "wifi_update 2000 ?w = ?w" by (simp add: wifi_update_def demo_wifi_def wifi_initial_def)
  have bytes: "join_page 0xFFF000 = ELKWIFI_CMD_JOIN" "join_page (0xFFF000 + 1) = 1"
    by (simp_all add: join_page_def store_def)
  have "join_network demo_wifi_env ?w None 0x2000000 0xFFF000 join_page = wifi_answer NET_OK (ok_text (ascii ''WIFI CONNECTING '' @ ascii ''WPA2''))
      (wifi_start_join 2000 (?w\<lparr>wifi_security := ascii ''WPA2'', wifi_ssid := ascii ''HOME'', wifi_password := ascii ''electron1''\<rparr>))
      (Some (ascii ''ELKWIFI1'' @ [LF] @ ascii ''WPA2'' @ [LF] @ ascii ''HOME'' @ [LF] @ ascii ''electron1'' @ [LF])) 0x2000000 0xFFF000 join_page"
    unfolding join_network_def get(1) Let_def texts(1) bind.bind_lunit
    using get(2) texts(2) by (simp add: wifi_parse_credentials_def starts_nocase_def lower_def Let_def fitting_def wifi_credentials_valid_def wifi_profile_save_def profile_text_def demo_wifi_env_def ascii_def)
  then show ?thesis using update bytes
    by (simp add: do_elkwifi_control_def wifi_join_def demo_wifi_env_def wifi_answer_eq ok_text_def crlf_text_def ascii_def Let_def)
qed

text \<open>Three polls, at 2300, 2600 and 3000 ms, after a JOIN at 2000 ms with the default delays of 500 ms each.\<close>

definition poll_at :: "nat \<Rightarrow> wifi_command" where
  "poll_at now = (demo_wifi_env\<lparr>update_ms := now\<rparr>, 0xFFF000, \<lambda>i. ELKWIFI_CMD_ONLINE)"

definition joined_wifi :: wifi where
  "joined_wifi = wifi_start_join 2000 (demo_wifi\<lparr>wifi_profile_path := ascii ''wifi.cfg'', wifi_security := ascii ''WPA2'',
     wifi_ssid := ascii ''HOME'', wifi_password := ascii ''electron1''\<rparr>)"

theorem join_reaches_address_witness:
  "\<exists>w1 file1 u q'. run_ops (wifi_exec 0x2000000) [poll_at 2300, poll_at 2600] (joined_wifi,
       Some (ascii ''ELKWIFI1'' @ [LF] @ ascii ''WPA2'' @ [LF] @ ascii ''HOME'' @ [LF] @ ascii ''electron1'' @ [LF])) = Some (w1, file1) \<and>
     do_elkwifi_control (demo_wifi_env\<lparr>update_ms := 3000\<rparr>) w1 file1 0x2000000 0xFFF000 (\<lambda>i. ELKWIFI_CMD_ONLINE) = Some (NET_OK, u, file1, q') \<and>
     page_text 0xFFF000 q' (crlf_text ''ONLINE 192.168.0.2'')"
proof -
  have page: "0xFFF000 + 224 \<le> (0x2000000::nat)" "join_page 0xFFF000 = ELKWIFI_CMD_JOIN" "join_page (0xFFF000 + 1) = 1"
    by (simp_all add: join_page_def store_def)
  have polls: "list_all (\<lambda>(v, cmd, m). cmd + 224 \<le> 0x2000000 \<and> undisturbing cmd m) [poll_at 2300, poll_at 2600]"
    by (simp add: poll_at_def undisturbing_def)
  have "join_ms demo_wifi_env + wifi_associate_delay_ms joined_wifi + wifi_dhcp_delay_ms joined_wifi = 3000"
    by (simp add: joined_wifi_def demo_wifi_env_def wifi_start_join_def demo_wifi_def wifi_initial_def env_unsigned_def)
  then show ?thesis
    using join_reaches_address [OF page demo_join [folded joined_wifi_def] polls _ page(1),
        of "demo_wifi_env\<lparr>update_ms := 3000\<rparr>" "\<lambda>i. ELKWIFI_CMD_ONLINE"]
    by (simp add: poll_at_def)
qed

subsection \<open>The profile over a restart\<close>

lemma fgets_line: "LF \<notin> set t \<Longrightarrow> length t + 2 \<le> n \<Longrightarrow> fgets n (t @ LF # r) = (t @ [LF], r)"
proof (induction t arbitrary: n)
  case Nil
  then obtain k where "n = Suc (Suc k)" by (metis add_2_eq_Suc le_Suc_ex list.size(3) add_0)
  then show ?case by simp
next
  case (Cons c t)
  then obtain k where "n = Suc k" "length t + 2 \<le> k" by (cases n) auto
  then show ?case using Cons by auto
qed

definition plain_text :: "bytes \<Rightarrow> bool" where
  "plain_text t \<longleftrightarrow> CR \<notin> set t \<and> LF \<notin> set t \<and> 0 \<notin> set t"

lemma profile_line_text: "plain_text t \<Longrightarrow> length t + 2 \<le> n \<Longrightarrow> profile_line n (t @ LF # r) = Some (t, r)"
proof -
  assume t: "plain_text t" "length t + 2 \<le> n"
  have "takeWhile (\<lambda>c. c \<noteq> CR \<and> c \<noteq> LF \<and> c \<noteq> 0) (t @ [LF]) = t"
    using t(1) by (induction t) (auto simp: plain_text_def)
  then show ?thesis using t fgets_line [of t n r] by (simp add: profile_line_def plain_text_def)
qed

lemma profile_parse_text:
  assumes "wifi_credentials_valid (wifi_ssid w) (wifi_password w) (wifi_security w)" "plain_text (wifi_ssid w)" "plain_text (wifi_password w)"
    "wifi_security w \<in> {ascii ''OPEN'', ascii ''AUTO'', ascii ''WPA'', ascii ''WPA2'', ascii ''WEP''}"
  shows "profile_parse (profile_text w) = Some (wifi_security w, wifi_ssid w, wifi_password w)"
proof -
  have sec: "plain_text (wifi_security w)" "length (wifi_security w) \<le> 4" using assms(4) by (auto simp: plain_text_def ascii_def)
  have header: "plain_text (ascii ''ELKWIFI1'')" by (simp add: plain_text_def ascii_def)
  note lens = valid_lengths [OF assms(1)]
  have "profile_line 96 (wifi_password w @ [LF]) = Some (wifi_password w, [])"
    using profile_line_text [OF assms(3), of 96 "[]"] lens by simp
  then show ?thesis using assms lens sec header
    by (auto simp: profile_parse_def profile_text_def profile_line_text)
qed

text \<open>C39: the profile that an accepted JOIN writes is the one a backend created later loads: it comes up connecting to
  the same network with the same password and security mode, provided that name and password contain no line
  break.\<close>

theorem profile_survives_restart:
  assumes "cmd + 224 \<le> lim" "m cmd = ELKWIFI_CMD_JOIN" "m (cmd + 1) = 1"
    "do_elkwifi_control v w file lim cmd m = Some (NET_OK, w', file', m')" "saving v = Saved" "wifi_profile_path w \<noteq> []"
    "{CR, LF} \<inter> (set (wifi_ssid w') \<union> set (wifi_password w')) = {}" "path \<noteq> []" "length path < 512"
  shows "\<exists>w''. wifi_create None (Some path) associate dhcp now file' = Some (Some w'') \<and> wifi_connecting w'' \<and>
     wifi_ssid w'' = wifi_ssid w' \<and> wifi_password w'' = wifi_password w' \<and> wifi_security w'' = wifi_security w'"
proof -
  from join_accepted [OF assms(1-4)] obtain w0 ssid password security where
    w': "w' = wifi_start_join (join_ms v) (w0\<lparr>wifi_security := security, wifi_ssid := ssid, wifi_password := password\<rparr>)"
    and valid: "wifi_credentials_valid ssid password security" and clean: "0 \<notin> set ssid" "0 \<notin> set password"
    and sec: "security \<in> {ascii ''OPEN'', ascii ''AUTO'', ascii ''WPA'', ascii ''WPA2'', ascii ''WEP''}"
    and path: "wifi_profile_path w0 = wifi_profile_path w"
    and saved: "wifi_profile_save (saving v) (w0\<lparr>wifi_security := security, wifi_ssid := ssid, wifi_password := password\<rparr>) file = (True, file')"
    by blast
  let ?w = "w0\<lparr>wifi_security := security, wifi_ssid := ssid, wifi_password := password\<rparr>"
  have file': "file' = Some (profile_text ?w)" using saved assms(5, 6) path by (simp add: wifi_profile_save_def)
  have "plain_text ssid" "plain_text password" using clean assms(7) by (auto simp: w' wifi_start_join_def plain_text_def)
  then have parsed: "profile_parse (profile_text ?w) = Some (security, ssid, password)" using profile_parse_text [of ?w] valid sec by simp
  obtain c cs where p: "path = c # cs" using assms(8) by (cases path) auto
  have "length security < 6" "length ssid < 33" "length password < 65" using valid_lengths [OF valid] security_fits [OF sec] by auto
  then show ?thesis using parsed assms(9)
    by (simp add: wifi_create_def file' p env_is_def Let_def wifi_profile_load_def fitting_def w' wifi_start_join_def)
qed

theorem profile_survives_restart_witness:
  "\<exists>w''. wifi_create None (Some (ascii ''wifi.cfg'')) None None 0
       (Some (ascii ''ELKWIFI1'' @ [LF] @ ascii ''WPA2'' @ [LF] @ ascii ''HOME'' @ [LF] @ ascii ''electron1'' @ [LF])) = Some (Some w'') \<and>
     wifi_connecting w'' \<and> wifi_ssid w'' = ascii ''HOME'' \<and> wifi_password w'' = ascii ''electron1'' \<and> wifi_security w'' = ascii ''WPA2''"
proof -
  have page: "0xFFF000 + 224 \<le> (0x2000000::nat)" "join_page 0xFFF000 = ELKWIFI_CMD_JOIN" "join_page (0xFFF000 + 1) = 1"
    by (simp_all add: join_page_def store_def)
  from profile_survives_restart [OF page demo_join, of "ascii ''wifi.cfg''" None None 0]
  show ?thesis by (simp add: demo_wifi_env_def wifi_start_join_def demo_wifi_def wifi_initial_def ascii_def)
qed

end
