(* ===== verification/Net_Backend_Props.thy ===== *)
theory Net_Backend_Props
  imports Net_Http Uef_Sessions Wifi_Props Ftp_Backend_Props
begin

section \<open>Properties of the network backend\<close>

text \<open>
  The parts together: no command the dispatcher accepts makes any of them leave its memory, sectors
  written to the SD card are read back, and the flaws that the composition shows.
\<close>

subsection \<open>SD card sectors\<close>

definition fat_request :: "u8 \<Rightarrow> u32 \<Rightarrow> u32 \<Rightarrow> u32 \<Rightarrow> bytes" where
  "fat_request c buffer sector count = [c, 0, 0, 0, byte_of buffer 0, byte_of buffer 1, byte_of buffer 2, byte_of buffer 3,
     byte_of sector 0, byte_of sector 1, byte_of sector 2, byte_of sector 3, byte_of count 0, byte_of count 1, byte_of count 2, byte_of count 3]"

lemma fat_good:
  assumes "cmd + 224 \<le> lim"
  shows "\<exists>st sd' m'. do_fat_sectors io sd writable lim cmd m = Some (st, sd', m')"
proof -
  obtain buffer sector count where rd: "rd32 (mem_rd m lim) (cmd + 4) = Some buffer" "rd32 (mem_rd m lim) (cmd + 8) = Some sector"
    "rd32 (mem_rd m lim) (cmd + 12) = Some count" "mem_rd m lim cmd = Some (m cmd)" "mem_rd m lim (cmd + 1) = Some (m (cmd + 1))"
    using assms mem_buf.rd32_defined [of "cmd + 4" lim m] mem_buf.rd32_defined [of "cmd + 8" lim m] mem_buf.rd32_defined [of "cmd + 12" lim m] by auto
  show ?thesis
  proof (cases sd)
    case (Some img)
    show ?thesis
    proof (cases "lim < unat buffer \<or> lim - unat buffer < unat count * 512")
      case False
      then have r: "unat buffer + unat count * 512 \<le> lim" by linarith
      have put: "mem_put m lim (unat buffer) (seg img off k) = Some (store m (unat buffer) (seg img off k))" if "k \<le> unat count * 512" for off k
        using that r by (intro mem_put_store) (simp add: length_seg_le)
      have get: "mem_get m lim (unat buffer) k = Some (map m [unat buffer..<unat buffer + k])" if "k \<le> unat count * 512" for k
        using that r by (simp add: mem_get_def)
      show ?thesis using rd Some
        by (cases io) (simp_all add: do_fat_sectors_def Let_def put get del: One_nat_def)
    qed (use rd Some in \<open>auto simp: do_fat_sectors_def Let_def simp del: One_nat_def\<close>)
  qed (use rd in \<open>simp add: do_fat_sectors_def Let_def del: One_nat_def\<close>)
qed

subsection \<open>The invariant\<close>

definition net_inv :: "net_backend \<Rightarrow> bool" where
  "net_inv n \<longleftrightarrow> length (nb_handles n) = 8 \<and> list_all handle_inv (nb_handles n) \<and> uef_inv (nb_uef n) \<and> wifi_inv (nb_wifi n) \<and>
     be_inv (nb_ftp n) \<and> be_live (nb_ftp n) = nb_live n"

definition net_good :: "dispatch_result \<Rightarrow> bool" where
  "net_good r \<longleftrightarrow> (\<exists>st n m. r = Some (st, n, m) \<and> net_inv n)"

lemma net_good_Some [simp]: "net_good (Some (st, n, m)) \<longleftrightarrow> net_inv n"
  by (simp add: net_good_def)

lemma net_good_if: "(c \<Longrightarrow> net_good x) \<Longrightarrow> (\<not> c \<Longrightarrow> net_good y) \<Longrightarrow> net_good (if c then x else y)"
  by simp

lemma copy_public_defined:
  assumes "PI1MHZ_SERVICE_SIZE \<le> jim_size" "base = jim_size - PI1MHZ_SERVICE_SIZE" "cmd + 224 \<le> jim_size"
  shows "\<exists>st m'. copy_public jim_size base cmd m = Some (st, m')"
proof -
  obtain d where d: "rd16 (mem_rd m jim_size) (cmd + 2) = Some d" "mem_rd m jim_size (cmd + 1) = Some (m (cmd + 1))"
    using assms(3) mem_buf.rd16_defined [of "cmd + 2" jim_size m] by auto
  let ?k = "unat (m (cmd + 1))"
  show ?thesis
  proof (cases "m (cmd + 1) = 0 \<or> 240 < m (cmd + 1) \<or> 0x10000 < unat d + ?k \<or> PI1MHZ_SERVICE_SIZE < 0xFFF100 + ?k")
    case True
    then show ?thesis unfolding copy_public_def d by (simp only: Option.bind.simps if_True) blast
  next
    case False
    then have "base + 0xFFF100 + ?k \<le> jim_size" "unat d + ?k \<le> jim_size" using assms(1, 2) by linarith+
    then obtain bs m' where bs: "mem_get m jim_size (base + 0xFFF100) ?k = Some bs" and "mem_put m jim_size (unat d) bs = Some m'"
      using mem_get_in [of "base + 0xFFF100" ?k jim_size m] mem_put_in [of "unat d" _ jim_size m] by metis
    then show ?thesis using False unfolding copy_public_def d by (simp only: Option.bind.simps if_False bs) blast
  qed
qed

lemma dispatch_handle_good:
  assumes "PI1MHZ_SERVICE_SIZE \<le> jim_size" "base = jim_size - PI1MHZ_SERVICE_SIZE" "cmd + 224 \<le> PI1MHZ_SERVICE_SIZE" "net_inv n"
  shows "net_good (dispatch_handle e n index c jim_size base cmd m)"
proof (cases "index < 8")
  case True
  have hs: "length (nb_handles n) = 8" "list_all handle_inv (nb_handles n)" using assms(4) by (simp_all add: net_inv_def)
  then have h: "handle_inv (nb_handles n ! index)" using True by (simp add: list_all_length)
  have upd: "net_inv (n\<lparr>nb_handles := (nb_handles n)[index := g]\<rparr>)" if "handle_inv g" for g
    using assms(4) that hs by (auto simp: net_inv_def list_all_iff dest!: set_update_subset_insert [THEN subsetD])
  obtain st1 m1 where cp: "copy_public jim_size base (base + cmd) m = Some (st1, m1)"
  proof -
    have "base + cmd + 224 \<le> jim_size" using assms(1-3) by linarith
    from copy_public_defined [OF assms(1, 2) this, of m] show thesis using that by blast
  qed
  obtain st g s where hc: "handle_command (nb_live n) (de_net e) (nb_handles n ! index) c PI1MHZ_SERVICE_SIZE cmd (view base m) = Some (st, g, s)" "handle_inv g"
    using handle_command_good [OF assms(3) h, of "nb_live n" "de_net e" c "view base m"] by (auto simp: handle_good_def)
  show ?thesis using True upd [OF do_close_inv [OF h]] upd [OF hc(2)] cp hc(1) assms(4)
    by (simp add: dispatch_handle_def Let_def)
qed (use assms(4) in \<open>simp add: dispatch_handle_def\<close>)

text \<open>
  A call of the dispatcher: what the world answers, the selector, the page and the memory. The two paths the other
  theories show to be unsafe are left out: a live FTP transfer and FTP pages closer than 240 bytes to the end of the memory
  (\<open>be_op_ok\<close>), and a one-shot normalisation after a window other than the first has been shown.
\<close>

type_synonym net_call = "dispatch_env \<times> sockets \<times> u8 \<times> u32 \<times> mem"

definition call_ok :: "nat \<Rightarrow> net_backend \<Rightarrow> net_call \<Rightarrow> bool" where
  "call_ok jim_size n = (\<lambda>(e, k, selector, pointer, m).
     zlib_ok (de_uef e) \<and>
     (128 \<le> m (unat pointer) \<and> m (unat pointer) \<le> 133 \<longrightarrow>
       be_op_ok PI1MHZ_SERVICE_SIZE (nb_live n) (unat pointer - (jim_size - PI1MHZ_SERVICE_SIZE), view (jim_size - PI1MHZ_SERVICE_SIZE) m, k)) \<and>
     (m (unat pointer) = 93 \<longrightarrow> map m [unat pointer + 1..<unat pointer + 6] = ascii ''IUEF'' @ [UEF_STREAM_VERSION] \<or> uef_published_offset (nb_uef n) = 0))"

lemma dispatch_good:
  assumes "net_inv n" "call_ok jim_size n (e, k, selector, pointer, m)"
  shows "net_good (net_backend_dispatch e (n\<lparr>nb_sockets := k\<rparr>) selector pointer jim_size m)"
proof (cases "jim_size < PI1MHZ_SERVICE_SIZE \<or> unat pointer < jim_size - PI1MHZ_SERVICE_SIZE \<or>
    PI1MHZ_SERVICE_SIZE < unat pointer - (jim_size - PI1MHZ_SERVICE_SIZE) + 224")
  case True
  then show ?thesis using assms(1) by (auto simp: net_backend_dispatch_def Let_def net_inv_def)
next
  case False
  define base cmd where "base = jim_size - PI1MHZ_SERVICE_SIZE" and "cmd = unat pointer - base"
  let ?n = "n\<lparr>nb_sockets := k\<rparr>" and ?at = "unat pointer" and ?c = "m (unat pointer)"
  have b: "PI1MHZ_SERVICE_SIZE \<le> jim_size" "cmd + 224 \<le> PI1MHZ_SERVICE_SIZE" "?at + 224 \<le> jim_size" "0x10000 \<le> jim_size"
    using False by (auto simp: base_def cmd_def)
  have n: "net_inv ?n" using assms(1) by (simp add: net_inv_def)
  have inv: "uef_inv (nb_uef n)" "wifi_inv (nb_wifi n)" "be_inv (nb_ftp n)" "be_live (nb_ftp n) = nb_live n" using assms(1) by (simp_all add: net_inv_def)
  have z: "zlib_ok (de_uef e)" using assms(2) by (simp add: call_ok_def)
  have upd: "uef_inv u \<Longrightarrow> net_inv (?n\<lparr>nb_uef := u\<rparr>)" "wifi_inv w \<Longrightarrow> net_inv (?n\<lparr>nb_wifi := w, nb_profile := p\<rparr>)"
    "net_inv (?n\<lparr>nb_sd_image := sd\<rparr>)" "be_inv f \<Longrightarrow> be_live f = nb_live n \<Longrightarrow> net_inv (?n\<lparr>nb_ftp := f, nb_sockets := k'\<rparr>)" for u w p sd f k'
    using n by (simp_all add: net_inv_def)
  have step: "net_backend_dispatch e ?n selector pointer jim_size m = (
      if ?c = 0 \<or> ?c = 1 then do {
        (st, sd, s) \<leftarrow> do_fat_sectors (de_disk e) (nb_sd_image n) (nb_sd_writable n) PI1MHZ_SERVICE_SIZE cmd (view base m);
        Some (Returned st, ?n\<lparr>nb_sd_image := sd\<rparr>, through base m s) }
      else if ?c = 86 then do {
        (st, u, m') \<leftarrow> guard_command (nb_uef n) jim_size ?at m;
        Some (Returned st, ?n\<lparr>nb_uef := u\<rparr>, m') }
      else if selector = 0xFF \<and> ?c = 93 then do {
        (st, u, m') \<leftarrow> if map m [?at + 1..<?at + 6] = ascii ''IUEF'' @ [UEF_STREAM_VERSION]
          then incremental_uef_control (de_uef e) (nb_uef n) jim_size ?at m
          else normalize_uef_control (de_uef e) (nb_uef n) jim_size ?at m;
        Some (Returned st, ?n\<lparr>nb_uef := u\<rparr>, m') }
      else if is_wifi_command ?c then do {
        (st, w, p, m') \<leftarrow> do_elkwifi_control (de_wifi e) (nb_wifi n) (nb_profile n) jim_size ?at m;
        Some (Returned st, ?n\<lparr>nb_wifi := w, nb_profile := p\<rparr>, m') }
      else if 128 \<le> ?c \<and> ?c \<le> 133 then do {
        (st, f, k, s) \<leftarrow> pi1mhz_ftp_dispatch (nb_ftp n) k PI1MHZ_SERVICE_SIZE cmd (view base m);
        Some (Returned st, ?n\<lparr>nb_ftp := f, nb_sockets := k\<rparr>, through base m s) }
      else dispatch_handle e ?n (unat (selector AND 0x0F)) ?c jim_size base cmd m)"
  proof -
    have "(jim_size < PI1MHZ_SERVICE_SIZE) = False" "(?at < base \<or> PI1MHZ_SERVICE_SIZE < cmd + 224) = False"
      using False b(1, 2) by (auto simp: base_def)
    then show ?thesis unfolding net_backend_dispatch_def Let_def base_def [symmetric] cmd_def [symmetric] by (simp cong: if_cong split del: if_split)
  qed
  obtain sf sd s where fat: "do_fat_sectors (de_disk e) (nb_sd_image n) (nb_sd_writable n) PI1MHZ_SERVICE_SIZE cmd (view base m) = Some (sf, sd, s)"
    using fat_good [OF b(2)] by blast
  obtain sg ug mg where guard: "guard_command (nb_uef n) jim_size ?at m = Some (sg, ug, mg)" "uef_inv ug"
    using guard_good [OF b(4, 3) inv(1), of m] by (auto simp: uef_good_def)
  obtain si ui mi where inc: "incremental_uef_control (de_uef e) (nb_uef n) jim_size ?at m = Some (si, ui, mi)" "uef_inv ui"
    using incremental_good [OF z b(4, 3) inv(1), of m] by (auto simp: uef_good_def)
  obtain sw w p mw where wifi: "do_elkwifi_control (de_wifi e) (nb_wifi n) (nb_profile n) jim_size ?at m = Some (sw, w, p, mw)" "wifi_inv w"
    using control_good [OF b(3) inv(2), of "de_wifi e" "nb_profile n" m] by (auto simp: wifi_good_def)
  have norm: "\<exists>s u m'. normalize_uef_control (de_uef e) (nb_uef n) jim_size ?at m = Some (s, u, m') \<and> uef_inv u"
    if "?c = 93" "map m [?at + 1..<?at + 6] \<noteq> ascii ''IUEF'' @ [UEF_STREAM_VERSION]"
  proof -
    have "uef_published_offset (nb_uef n) = 0" using assms(2) that by (simp add: call_ok_def)
    from normalize_good [OF z b(3) inv(1) this, of m] show ?thesis by (auto simp: uef_good_def)
  qed
  have ftp: "\<exists>s f k' s'. pi1mhz_ftp_dispatch (nb_ftp n) k PI1MHZ_SERVICE_SIZE cmd (view base m) = Some (s, f, k', s') \<and> be_inv f \<and> be_live f = nb_live n"
    if "128 \<le> ?c" "?c \<le> 133"
  proof -
    have "be_op_ok PI1MHZ_SERVICE_SIZE (nb_live n) (cmd, view base m, k)" using assms(2) that by (simp add: call_ok_def cmd_def base_def)
    from be_exec_safe [OF conjI [OF inv(3, 4)] this] show ?thesis by (auto simp: be_exec_def)
  qed
  show ?thesis unfolding step
    by (intro net_good_if) (use fat guard inc wifi norm ftp upd dispatch_handle_good [OF b(1) base_def b(2) n] in auto)
qed

text \<open>The states a backend reaches by calls that satisfy \<open>call_ok\<close>, for as long as the process runs.\<close>

inductive net_reach :: "nat \<Rightarrow> net_backend \<Rightarrow> net_backend \<Rightarrow> bool" for jim_size n0 where
  start: "net_reach jim_size n0 n0"
| call: "net_reach jim_size n0 n \<Longrightarrow> call_ok jim_size n (e, k, selector, pointer, m) \<Longrightarrow>
    net_backend_dispatch e (n\<lparr>nb_sockets := k\<rparr>) selector pointer jim_size m = Some (Returned st, n', m') \<Longrightarrow> net_reach jim_size n0 n'"

lemma net_create_inv:
  assumes "net_backend_create c = Some (Some n)"
  shows "net_inv n"
proof -
  obtain w where "wifi_create (ce_present c) (ce_path c) (ce_associate c) (ce_dhcp c) (ce_now c) (ce_profile c) = Some (Some w)"
    and n: "nb_handles n = replicate 8 handle_new" "nb_uef n = uef_create (ce_trim c) (ce_repair c) (ce_junk c)" "nb_wifi n = w"
    "nb_ftp n = ftp_create (nb_live n)"
    using assms by (auto simp: net_backend_create_def Let_def split: bind_splits option.splits if_splits)
  then have "wifi_inv w" using wifi_create_inv by blast
  moreover have "list_all handle_inv (replicate 8 handle_new)" by (simp add: list_all_iff handle_inv_def handle_new_def)
  ultimately show ?thesis unfolding net_inv_def n by (simp add: ftp_create_inv uef_create_inv)
qed

lemma net_reach_inv:
  assumes "net_reach jim_size n0 n" "net_inv n0"
  shows "net_inv n"
  using assms
proof (induction rule: net_reach.induct)
  case (call n e k selector pointer m st n' m')
  then show ?case using dispatch_good [of n jim_size e k selector pointer m] by simp
qed simp

text \<open>C31: a backend created from any environment answers every call of every sequence of calls, whatever the selector, the
  address of the page, the memory and the answers of the network, zlib, the disk and the clock: the call returns
  (or ends the process when a handle is closed), no access leaves the memory, and every part keeps its invariant. Left
  out are the calls that other theorems show to be unsafe, which \<open>call_ok\<close> names.\<close>

theorem net_dispatch_safe:
  assumes "net_backend_create c = Some (Some n0)" "net_reach jim_size n0 n" "call_ok jim_size n (e, k, selector, pointer, m)"
  shows "\<exists>st n' m'. net_backend_dispatch e (n\<lparr>nb_sockets := k\<rparr>) selector pointer jim_size m = Some (st, n', m') \<and> net_inv n'"
  using dispatch_good [OF net_reach_inv [OF assms(2) net_create_inv [OF assms(1)]] assms(3)] unfolding net_good_def .

definition demo_create :: create_env where
  "demo_create = \<lparr>ce_mode = None, ce_exit_on_close = False, ce_trim = None, ce_repair = None, ce_present = None, ce_path = None,
     ce_associate = None, ce_dhcp = None, ce_now = 1000, ce_profile = None, ce_sd = Some (Some (replicate 1024 0xE5, True)),
     ce_trace_opens = True, ce_memory = True, ce_ftp_memory = True, ce_junk = (\<lambda>i. 0), ce_sockets = quiet\<rparr>"

definition demo_backend :: net_backend where
  "demo_backend = \<lparr>nb_live = False, nb_exit_on_close = False, nb_uef = uef_create None None (\<lambda>i. 0), nb_wifi = demo_wifi, nb_profile = None,
     nb_sd_image = Some (replicate 1024 0xE5), nb_sd_writable = True, nb_handles = replicate 8 handle_new, nb_ftp = ftp_create False,
     nb_sockets = quiet\<rparr>"

lemma demo_backend_created: "net_backend_create demo_create = Some (Some demo_backend)"
  by (simp add: net_backend_create_def demo_create_def demo_backend_def demo_wifi_created)

definition demo_world :: dispatch_env where
  "demo_world = \<lparr>de_net = quiet_net, de_wifi = demo_wifi_env, de_uef = copying, de_disk = Disk_Ok\<rparr>"

theorem net_dispatch_safe_witness:
  "\<exists>st n' m'. net_backend_dispatch demo_world (demo_backend\<lparr>nb_sockets := quiet\<rparr>) 0xF0 0xFFF000 0x2000000 (\<lambda>i. 60) = Some (st, n', m') \<and> net_inv n'"
  by (rule net_dispatch_safe [OF demo_backend_created net_reach.start])
    (simp add: call_ok_def demo_world_def copying_ok demo_backend_def)

subsection \<open>Sectors written are read back\<close>

text \<open>A page inside the service memory, and a transfer that fits both the memory and the card.\<close>

definition page_in_service :: "nat \<Rightarrow> nat \<Rightarrow> bool" where
  "page_in_service jim_size at \<longleftrightarrow> PI1MHZ_SERVICE_SIZE \<le> jim_size \<and> jim_size - PI1MHZ_SERVICE_SIZE \<le> at \<and> at + 224 \<le> jim_size"

definition sectors_fit :: "bytes \<Rightarrow> u32 \<Rightarrow> u32 \<Rightarrow> u32 \<Rightarrow> bool" where
  "sectors_fit img buffer sector count \<longleftrightarrow> count \<noteq> 0 \<and> unat buffer + unat count * 512 \<le> PI1MHZ_SERVICE_SIZE \<and>
     unat sector * 512 + unat count * 512 \<le> length img"

lemma fat_decoded:
  fixes m :: mem
  assumes "sectors_fit img buffer sector count" "cmd + 224 \<le> PI1MHZ_SERVICE_SIZE" "c = 0 \<or> c = 1 \<and> writable"
  defines "m' \<equiv> store m cmd (fat_request c buffer sector count)"
  shows "do_fat_sectors Disk_Ok (Some img) writable PI1MHZ_SERVICE_SIZE cmd m' = (if c = 0
    then Some (NET_OK, Some img, store m' (unat buffer) (seg img (unat sector * 512) (unat count * 512)))
    else Some (NET_OK, Some (splice img (unat sector * 512) (map m' [unat buffer..<unat buffer + unat count * 512])), m'))"
proof -
  let ?r = "fat_request c buffer sector count"
  have at: "m' (cmd + k) = ?r ! k" if "k < 16" for k using that store_read(1) [of k ?r m cmd] by (simp add: fat_request_def m'_def)
  have w: "rd32 (mem_rd m' PI1MHZ_SERVICE_SIZE) (cmd + k) = Some (le32 (?r ! k) (?r ! (k + 1)) (?r ! (k + 2)) (?r ! (k + 3)))" if "k < 13" for k
    using assms(2) that at [of k] at [of "k + 1"] at [of "k + 2"] at [of "k + 3"] by (simp add: ac_simps)
  have "rd32 (mem_rd m' PI1MHZ_SERVICE_SIZE) (cmd + 4) = Some buffer" "rd32 (mem_rd m' PI1MHZ_SERVICE_SIZE) (cmd + 8) = Some sector"
    "rd32 (mem_rd m' PI1MHZ_SERVICE_SIZE) (cmd + 12) = Some count"
    using w [of 4] w [of 8] w [of 12] le32_byte_of [of buffer] le32_byte_of [of sector] le32_byte_of [of count] by (simp_all add: fat_request_def nth_Cons')
  moreover have "mem_rd m' PI1MHZ_SERVICE_SIZE cmd = Some c" "mem_rd m' PI1MHZ_SERVICE_SIZE (cmd + 1) = Some 0"
    using assms(2) at [of 0] at [of 1] by (simp_all add: fat_request_def)
  moreover have "unat buffer + length (seg img (unat sector * 512) (unat count * 512)) \<le> PI1MHZ_SERVICE_SIZE"
    using assms(1) length_seg_le [of img "unat sector * 512" "unat count * 512"] unfolding sectors_fit_def by linarith
  moreover note fit = assms(1) [unfolded sectors_fit_def]
  then have "\<not> (PI1MHZ_SERVICE_SIZE < unat buffer \<or> PI1MHZ_SERVICE_SIZE - unat buffer < unat count * 512 \<or>
      length img < unat sector * 512 \<or> length img - unat sector * 512 < unat count * 512)" by linarith
  ultimately show ?thesis using fit assms(3)
    by (auto simp: do_fat_sectors_def Let_def mem_put_store mem_get_def simp del: One_nat_def)
qed

lemma view_store: "base \<le> at \<Longrightarrow> view base (store m at bs) = store (view base m) (at - base) bs"
  by (auto simp: view_def store_def fun_eq_iff add.commute)

lemma fat_dispatched:
  fixes m :: mem
  assumes "page_in_service jim_size (unat pointer)" "de_disk e = Disk_Ok" "nb_sd_image n = Some img" "sectors_fit img buffer sector count"
    "c = 0 \<or> c = 1 \<and> nb_sd_writable n"
  defines "m' \<equiv> store m (unat pointer) (fat_request c buffer sector count)" and "base \<equiv> jim_size - PI1MHZ_SERVICE_SIZE"
  shows "net_backend_dispatch e n selector pointer jim_size m' = (if c = 0
    then Some (Returned NET_OK, n, through base m' (store (view base m') (unat buffer) (seg img (unat sector * 512) (unat count * 512))))
    else Some (Returned NET_OK, n\<lparr>nb_sd_image := Some (splice img (unat sector * 512) (map (view base m') [unat buffer..<unat buffer + unat count * 512]))\<rparr>,
      through base m' (view base m')))"
proof -
  have p: "PI1MHZ_SERVICE_SIZE \<le> jim_size" "base \<le> unat pointer" "unat pointer - base + 224 \<le> PI1MHZ_SERVICE_SIZE"
    using assms(1) by (auto simp: page_in_service_def base_def)
  have v: "view base m' = store (view base m) (unat pointer - base) (fat_request c buffer sector count)" using p(2) by (simp add: m'_def view_store)
  have "m' (unat pointer) = c" by (simp add: m'_def store_def fat_request_def)
  moreover have "c = 0 \<or> c = 1" using assms(5) by blast
  moreover have "n\<lparr>nb_sd_image := Some img\<rparr> = n" using assms(3) by simp
  ultimately show ?thesis
    using p fat_decoded [OF assms(4) p(3) assms(5), of "view base m", folded v] assms(2, 3)
    unfolding net_backend_dispatch_def Let_def base_def [symmetric] by (cases "c = 0") (simp_all del: One_nat_def)
qed

text \<open>C34: sectors written to the SD card are read back: a write that fits memory and card answers OK and changes only
  those sectors, and a later read of the same sectors, through any selector and into any buffer that fits,
  delivers the bytes the writer's buffer held.\<close>

theorem fat_sectors_roundtrip:
  fixes m m0 :: mem
  assumes "page_in_service jim_size (unat pointer)" "de_disk e = Disk_Ok" "nb_sd_image n = Some img" "nb_sd_writable n"
    "sectors_fit img buffer sector count" "sectors_fit img buffer2 sector count"
  defines "m1 \<equiv> store m (unat pointer) (fat_request 1 buffer sector count)"
    and "m2 \<equiv> store m0 (unat pointer) (fat_request 0 buffer2 sector count)"
    and "base \<equiv> jim_size - PI1MHZ_SERVICE_SIZE"
  shows "\<exists>n' img' m' m''. net_backend_dispatch e n selector pointer jim_size m1 = Some (Returned NET_OK, n', m') \<and>
    nb_sd_image n' = Some img' \<and> length img' = length img \<and>
    (\<forall>i < length img. i < unat sector * 512 \<or> unat sector * 512 + unat count * 512 \<le> i \<longrightarrow> img' ! i = img ! i) \<and>
    net_backend_dispatch e n' selector' pointer jim_size m2 = Some (Returned NET_OK, n', m'') \<and>
    map m'' [base + unat buffer2..<base + unat buffer2 + unat count * 512] = map m1 [base + unat buffer..<base + unat buffer + unat count * 512]"
proof -
  let ?at = "unat sector * 512" and ?len = "unat count * 512"
  define bs where "bs = map (view base m1) [unat buffer..<unat buffer + ?len]"
  define img' where "img' = splice img ?at bs"
  define m'' where "m'' = through base m2 (store (view base m2) (unat buffer2) (seg img' ?at ?len))"
  let ?n' = "n\<lparr>nb_sd_image := Some img'\<rparr>"
  have fit: "?at + length bs \<le> length img" "length bs = ?len" using assms(5) by (simp_all add: sectors_fit_def bs_def)
  then have len: "length img' = length img" by (simp add: img'_def)
  then have fit2: "sectors_fit img' buffer2 sector count" using assms(6) by (simp add: sectors_fit_def)
  have "net_backend_dispatch e n selector pointer jim_size m1 = Some (Returned NET_OK, ?n', through base m1 (view base m1))"
    using fat_dispatched [OF assms(1-3, 5), where c = 1 and m = m and selector = selector] assms(4) by (simp add: m1_def [symmetric] base_def [symmetric] bs_def [symmetric] img'_def)
  moreover have "net_backend_dispatch e ?n' selector' pointer jim_size m2 = Some (Returned NET_OK, ?n', m'')"
    using fat_dispatched [OF assms(1, 2) _ fit2, where n = ?n' and c = 0 and m = m0 and selector = selector'] by (simp add: m2_def [symmetric] base_def [symmetric] m''_def)
  moreover have "img' ! i = img ! i" if "i < length img" "i < ?at \<or> ?at + ?len \<le> i" for i
    using that fit by (auto simp: img'_def splice_def nth_append)
  moreover have "seg img' ?at ?len = bs" using fit by (simp add: img'_def)
  then have "map m'' [base + unat buffer2..<base + unat buffer2 + ?len] = bs"
    using fit(2) by (intro nth_equalityI) (simp_all add: m''_def through_def store_def)
  moreover have "map m1 [base + unat buffer..<base + unat buffer + ?len] = bs" by (rule nth_equalityI) (simp_all add: bs_def view_def ac_simps)
  ultimately show ?thesis using len by (intro exI [of _ ?n'] exI [of _ img'] exI [of _ "through base m1 (view base m1)"] exI [of _ m'']) auto
qed

theorem fat_sectors_roundtrip_witness:
  "\<exists>n' img' m' m''. net_backend_dispatch demo_world demo_backend 0xF0 0xFFF000 0x2000000 (store (\<lambda>i. 7) (unat (0xFFF000 :: u32)) (fat_request 1 0x20000 1 1)) =
      Some (Returned NET_OK, n', m') \<and>
    nb_sd_image n' = Some img' \<and> length img' = length (replicate 1024 (0xE5 :: u8)) \<and>
    (\<forall>i < length (replicate 1024 (0xE5 :: u8)). i < unat (1 :: u32) * 512 \<or> unat (1 :: u32) * 512 + unat (1 :: u32) * 512 \<le> i \<longrightarrow>
       img' ! i = replicate 1024 0xE5 ! i) \<and>
    net_backend_dispatch demo_world n' 0xF1 0xFFF000 0x2000000 (store (\<lambda>i. 0) (unat (0xFFF000 :: u32)) (fat_request 0 0x30000 1 1)) =
      Some (Returned NET_OK, n', m'') \<and>
    map m'' [0x2000000 - PI1MHZ_SERVICE_SIZE + unat (0x30000 :: u32)..<0x2000000 - PI1MHZ_SERVICE_SIZE + unat (0x30000 :: u32) + unat (1 :: u32) * 512] =
      map (store (\<lambda>i. 7) (unat (0xFFF000 :: u32)) (fat_request 1 0x20000 1 1))
        [0x2000000 - PI1MHZ_SERVICE_SIZE + unat (0x20000 :: u32)..<0x2000000 - PI1MHZ_SERVICE_SIZE + unat (0x20000 :: u32) + unat (1 :: u32) * 512]"
  by (rule fat_sectors_roundtrip) (simp_all add: page_in_service_def sectors_fit_def demo_world_def demo_backend_def)

subsection \<open>A fixture handle that is opened again\<close>

text \<open>
  URL\_CLOSE keeps \<open>open_polls\<close> and the position in the fixture. A handle that has been open once is therefore open at
  once the second time, still with the first URL: what the host asks for then is not what it gets.
\<close>

theorem reopened_fixture_keeps_url:
  assumes "opened h" "open_polls h \<noteq> 0" "starts_nocase (ascii ''telnet://'') (url h)" "mem_get m lim (cmd + 2) 221 = Some page" "length (cstr page) < 221"
  shows "\<exists>h'. do_open False e (do_close h) lim cmd m = Some (NET_OK, h', m) \<and> opened h' \<and> url h' = url h \<and>
    fixture_data h' = fixture_telnet \<and> fixture_at h' = fixture_at h"
  using assms by (simp add: do_open_def do_close_def Let_def)

lemma cstr_shorter: "0 \<in> set b \<Longrightarrow> length (cstr b) < length b"
  by (induction b) (auto simp: cstr_def)

theorem reopened_fixture_keeps_url_witness:
  "let h = handle_new\<lparr>opened := True, open_polls := 2, url := ascii ''telnet://bbs'', fixture_at := 5\<rparr>;
       m = store (\<lambda>i. 0) 0xFFF000 ([60, 0] @ ascii ''tcp://host:22'') in
   \<exists>h'. do_open False quiet_net (do_close h) 0x2000000 0xFFF000 m = Some (NET_OK, h', m) \<and> opened h' \<and> url h' = url h \<and>
    fixture_data h' = fixture_telnet \<and> fixture_at h' = fixture_at h"
proof -
  let ?m = "store (\<lambda>i. 0) 0xFFF000 ([60, 0] @ ascii ''tcp://host:22'')"
  have "0 = ?m 0xFFF00F" "0xFFF00F \<in> {0xFFF002..<0xFFF0DF :: nat}" by (simp_all add: store_def ascii_def)
  then have "0 \<in> set (map ?m [0xFFF002..<0xFFF0DF])" unfolding set_map set_upt by (rule image_eqI)
  from cstr_shorter [OF this] have len: "length (cstr (map ?m [0xFFF002..<0xFFF0DF])) < 221" by (simp del: upt_rec_numeral)
  have get: "mem_get ?m 0x2000000 (0xFFF000 + 2) 221 = Some (map ?m [0xFFF002..<0xFFF0DF])" by (simp add: mem_get_def del: upt_rec_numeral)
  show ?thesis unfolding Let_def
    by (rule reopened_fixture_keeps_url [OF _ _ _ get len]) (simp_all add: starts_nocase_def lower_def ascii_def)
qed

end
