(* ===== verification/Machine.thy ===== *)
theory Machine
  imports Mailbox_Props Net_Backend_Props
begin

section \<open>The emulated machine: mailbox and network backend together\<close>

text \<open>
  \<open>pi1mhz_elkulator.c\<close> and \<open>pi1mhz_bem.c\<close> give \<open>pi1mhz_net_backend_dispatch\<close> and the backend to the mailbox, which calls
  it when the service latency has elapsed. The theory puts the two models together: JIM of the mailbox
  is the memory of the backend.
\<close>

text \<open>
  The backend as the mailbox's dispatch function. A call that ends the process does not return to the mailbox: the
  last equation stands for what is then never looked at.
\<close>

definition backend_dispatch :: "dispatch_env \<Rightarrow> net_backend dispatch_fn" where
  "backend_dispatch e n v pointer m size_of_jim = (case net_backend_dispatch e n v pointer size_of_jim m of
       Some (Returned st, n', m') \<Rightarrow> (st, m', n')
     | _ \<Rightarrow> (0, m, n))"

lemma returns_unless_closing:
  assumes "net_backend_dispatch e n v pointer sz m = Some (st, n', m')" "\<not> nb_exit_on_close n"
  shows "\<exists>r. st = Returned r"
  using assms by (auto simp: net_backend_dispatch_def dispatch_handle_def Let_def split: if_splits bind_splits)

text \<open>C30: a service command that the host writes to the command register of an idle mailbox is carried out by the backend:
  after the interrupt, callback and service latencies the register shows the status the backend returned for the page and
  JIM of that moment, JIM and the backend are what the backend left, and both parts keep their invariants. So the
  host can go on with the next command.\<close>

theorem service_command_served:
  assumes "net_backend_create c = Some (Some n0)" "net_reach (jim_size m) n0 n" "\<not> nb_exit_on_close n"
    "mb_inv m" "idle m" "0xF0 \<le> v" "dispatch m = Some (backend_dispatch e)" "dispatch_opaque m = n"
    "call_ok (jim_size m) n (e, nb_sockets n, v, command_page m v, jim m)"
  shows "\<exists>m' st n' j. net_backend_dispatch e n v (command_page m v) (jim_size m) (jim m) = Some (Returned st, n', j) \<and>
    do { (x, m1) \<leftarrow> bus_access m REG_COMMAND v True;
         tick_fiq m1 (capture_delay_ticks m + callback_delay_ticks m + service_delay_ticks m) } = Some m' \<and>
    read_value m' REG_COMMAND b = Some st \<and> jim m' = j \<and> dispatch_opaque m' = n' \<and>
    idle m' \<and> mb_inv m' \<and> net_reach (jim_size m) n0 n' \<and> net_inv n'"
proof -
  have inv: "net_inv n" using net_reach_inv [OF assms(2) net_create_inv [OF assms(1)]] .
  obtain st n' j where d: "net_backend_dispatch e n v (command_page m v) (jim_size m) (jim m) = Some (Returned st, n', j)" "net_inv n'"
    using dispatch_good [OF inv assms(9)] returns_unless_closing assms(3) by (fastforce simp: net_good_def)
  have r: "net_reach (jim_size m) n0 n'"
    using net_reach.call [OF assms(2, 9)] d(1) by simp
  obtain m' where m': "do { (x, m1) \<leftarrow> bus_access m REG_COMMAND v True;
         tick_fiq m1 (capture_delay_ticks m + callback_delay_ticks m + service_delay_ticks m) } = Some m'"
    "idle m'" "read_value m' REG_COMMAND b = Some st" "jim m' = j" "dispatch_opaque m' = n'"
    using command_completed [OF assms(4-7) refl, of b] d(1) assms(8) by (auto simp: backend_dispatch_def)
  have "mb_inv m'"
  proof -
    obtain x m1 where "bus_access m REG_COMMAND v True = Some (x, m1)" "mb_inv m1" "settled m1" using bus_access_inv [OF assms(4)] by blast
    then show ?thesis
      using m'(1) tick_fiq_inv [of m1 "capture_delay_ticks m + callback_delay_ticks m + service_delay_ticks m"] by auto
  qed
  then show ?thesis using d r m' by blast
qed

definition demo_machine :: "net_backend mailbox" where
  "demo_machine = (mailbox_zero demo_backend)\<lparr>jim_size := JIM_SIZE, services_base := JIM_SIZE - SERVICE_SIZE, jim := (\<lambda>i. 80),
     dispatch := Some (backend_dispatch demo_world), capture_delay_ticks := 3, callback_delay_ticks := 2,
     page_callback_delay_ticks := 4, service_delay_ticks := 5\<rparr>"

lemma demo_machine_inv: "mb_inv demo_machine" "idle demo_machine"
  by (simp_all add: demo_machine_def mailbox_zero_def mb_inv_defs idle_def no_event_def byte_of_def replicate_3)

theorem service_command_served_witness:
  "\<exists>m' st n' j. net_backend_dispatch demo_world demo_backend 0xF3 (command_page demo_machine 0xF3) (jim_size demo_machine) (jim demo_machine) =
      Some (Returned st, n', j) \<and>
    do { (x, m1) \<leftarrow> bus_access demo_machine REG_COMMAND 0xF3 True;
         tick_fiq m1 (capture_delay_ticks demo_machine + callback_delay_ticks demo_machine + service_delay_ticks demo_machine) } = Some m' \<and>
    read_value m' REG_COMMAND 0 = Some st \<and> jim m' = j \<and> dispatch_opaque m' = n' \<and>
    idle m' \<and> mb_inv m' \<and> net_reach (jim_size demo_machine) demo_backend n' \<and> net_inv n'"
  by (rule service_command_served [OF demo_backend_created net_reach.start _ demo_machine_inv])
    (simp_all add: demo_machine_def mailbox_zero_def demo_backend_def demo_world_def call_ok_def copying_ok)

end
