(* ===== verification/Spec2Isabelle.thy ===== *)
theory Spec2Isabelle
  imports Mailbox_Props Media_Service Ap5_Props Beebscsi_Props Ftp_Protocol Ftp_Backend_Sessions Emulator_Props Machine
begin

text \<open>
  \<^bold>\<open>Verification of the C sources of 1mhzWifi\<close>

  \<^bold>\<open>The program.\<close> Pi1MHz puts a Raspberry Pi on the 1 MHz bus of an Acorn Electron or BBC Micro. The host
  talks to it through a services mailbox: a window of JIM pages, a data port with an auto-incrementing
  cursor, and a command register. A byte written to the command register starts a service; the
  command page holds its arguments and its reply. The repository has the Pi side of some services
  (\<open>src/pi-side\<close>: UEF repair, container catalogues, media sessions, the lwIP FTP client) and an
  emulation of the whole device for two emulators (\<open>src/emulator\<close>: the mailbox with its bus timing,
  the network backend behind it, the glue to Elkulator and b-em, and two further devices of the
  same adapter, the AP5 Tube and a SCSI host adapter).

  How the parts interact: an emulator hook (\<open>elkulator_read\<close>, \<open>bem_write\<close>, ...) turns a bus cycle
  into a call of the mailbox (\<open>bus_access\<close>, \<open>tick_fiq\<close>); when the latencies of a command have passed, the
  mailbox calls its dispatcher, which is the network backend (\<open>net_backend_dispatch\<close>); that hands the
  command page to the UEF stream, the WiFi fixture, a network handle, the SD card or the FTP backend,
  each of which reads and writes the same JIM.

  \<^bold>\<open>Conventions.\<close> A C struct is a record with the fields of the struct, an enum a datatype, an integer of
  fixed width a word; \<open>size_t\<close>, \<open>unsigned long\<close> and cycle counts are \<open>nat\<close> or \<open>int\<close> with the wrap-around
  written out where the code depends on it (\<open>size_sub\<close>, \<open>image_room\<close>, \<open>strtoul\<close>). The option monad
  carries undefined behaviour: \<open>None\<close> is an access outside an array or allocation, and no theorem
  allows it unless it says so. Errors the code reports are values, and so are the branches of early returns.
  Loops are structural recursions or functions with a termination proof. What is outside
  the sources is an argument: the 65C02 core (\<open>cpu_ops\<close>), lwIP (\<open>lwip\<close>, and \<open>pcopy\<close> for
  \<open>pbuf_copy_partial\<close>), the BSD sockets (\<open>sockets\<close>: finite queues of answers, after which every call
  times out; \<open>net_env\<close>), zlib and \<open>malloc\<close> (\<open>uef_env\<close>), clock and files of the WiFi fixture (\<open>wifi_env\<close>), the SD card
  file (\<open>disk_io\<close>), environment variables, files and allocator (\<open>world\<close>, \<open>create_env\<close>).

  \<^bold>\<open>The theories.\<close>

  \<^item> \<open>Prelude\<close>: checked reads and writes of byte lists, little-endian numbers, ring buffers, and the
    interfaces: \<open>safe_component\<close> (an operation neither faults nor breaks the invariant; lifted to all
    sequences), \<open>guarded_component\<close> (the same with a precondition on the state reached), \<open>bounded_queue\<close>,
    \<open>byte_source\<close>. \<open>C_Text\<close>: C strings, \<open>strtoul\<close>, decimal numbers, storing a text in an array, passive replies.
    \<open>Service_Memory\<close>: the JIM a service sees, with its bound.
  \<^item> \<open>Uef_Repair\<close> (\<open>uef_repair.c\<close>): \<open>uef_repair_filev_span\<close> over a window. It stays inside the window, changes nothing
    outside complete chunks, gives the same bytes window by window as in one pass, and leaves a block with the CRC of its payload.
  \<^item> \<open>Mailbox\<close>, \<open>Mailbox_Props\<close> (\<open>pi1mhz_mailbox.c\<close>): posting, capture, callbacks, foreground service, decoding,
    mirror, host clock. Invariant and quiescence over all sequences of operations; the exact life
    of a command for all latencies; the data port refines a memory with a cursor (\<open>cursor_memory\<close>); the mirror.
  \<^item> \<open>Media_Catalogue\<close>, \<open>Media_Props\<close>, \<open>Media_Service\<close> (\<open>media_catalogue.c\<close>, \<open>media_service_core.c\<close>): UEF
    and DFS catalogues, extraction, sessions with a windowed stream. No image causes an access out of
    bounds; catalogue and extraction agree with the files the blocks form; windows concatenate to the entry;
    the byte order of the tape CRC and the stale stream are shown as they are.
  \<^item> \<open>Ap5_Tube\<close>, \<open>Ap5_Inv\<close>, \<open>Ap5_Props\<close> (\<open>ap5_tube.c\<close>): registers, FIFOs, interrupts, control latch, boot and
    clocking, with a processor that performs any accesses. Safety from the zeroed static variables on, register 1 as a
    bounded queue, the 3:2 clock ratio over arbitrary batches.
  \<^item> \<open>Beebscsi\<close>, \<open>Beebscsi_Props\<close> (\<open>beebscsi_elkulator.c\<close>): bus phases, commands, sector transfers.
    WRITE then READ round trip through every phase; safety of all sequences of register accesses.
  \<^item> \<open>Ftp_Service\<close>, \<open>Ftp_Props\<close>, \<open>Ftp_Protocol\<close> (\<open>ftp_service.c\<close>): the connection and operation machines,
    reply framing, parsers, data ring. Every text stays in its array, the ring refines a queue, replies are framed as RFC 959 asks,
    and the fall-through that sends a transfer command before EPSV.
  \<^item> \<open>Ftp_Backend\<close>, \<open>Ftp_Backend_Props\<close>, \<open>Ftp_Backend_Sessions\<close> (\<open>pi1mhz_ftp.c\<close>): the fixture and the live client.
    Safety, PUT/GET round trip, independence of segmentation, the order of a live transfer, the over-read of the EPSV parser.
  \<^item> \<open>Uef_Stream\<close>, \<open>Uef_Stream_Props\<close>, \<open>Uef_Sessions\<close>, \<open>Wifi\<close>, \<open>Wifi_Props\<close>, \<open>Net_Handles\<close>, \<open>Net_Backend\<close>,
    \<open>Net_Handles_Props\<close>, \<open>Net_Http\<close>, \<open>Net_Backend_Props\<close> (\<open>pi1mhz_net_backend.c\<close>): upload,
    normalisation and publication of UEF images; the WiFi commands and the profile file; URL and raw handles
    with HTTP; creation, dispatch, SD card, secure commands. Safety of each part and of the dispatcher, upload and sector
    round trips, exact delivery of an HTTP body, harmless repetition, the course of a join under any polling, the profile over a restart.
  \<^item> \<open>Emulator_Glue\<close>, \<open>Emulator_Props\<close> (\<open>pi1mhz_elkulator.c\<close>, \<open>pi1mhz_bem.c\<close>): configuration, hooks,
    trace. No environment makes them fault; a device is enabled exactly for an acceptable
    configuration (\<open>lazy_device\<close>), and inert otherwise.
  \<^item> \<open>Machine\<close>: mailbox and backend together, a command from the register write to its reply.

  \<^bold>\<open>Bounds and fuel.\<close> A host that reads until the status changes is a recursion with fuel: \<open>read_all\<close> is
  given one step more than the reply has bytes, which is shown to be enough (\<open>Net_Http\<close>), and
  the windowed readers get the number of windows. Capacities are those of the source: 48 MB of JIM with
  16 MB sets, 32 MB of service memory, 16 MB of stream buffer, 65,534 bytes of window.

  \<^bold>\<open>Preconditions.\<close> Where the sources are unsafe, the safety theorems name the excluded calls and another
  theorem shows what happens there: a live FTP transfer (\<open>be_op_ok\<close>; the over-read in \<open>Ftp_Backend_Sessions\<close>) and a one-shot
  normalisation after a later window was shown (\<open>uef_command_ok\<close>, \<open>call_ok\<close>; the overrun in \<open>Uef_Sessions\<close>).

  \<^bold>\<open>Not modelled.\<close> The vendored 65C02 core (\<open>vrEmu6502.c\<close>) and the wolfSSH provider
  (\<open>pi1mhz_wolfssh.c\<close>, calls of a library that is not part of the repository); messages, traces of the backend and
  line buffering; the ROMs, the assembler and the Python and shell tools; tests. Cycle counters of type
  \<open>int\<close> are unbounded, so an emulator that counts past \<open>INT_MAX\<close> is outside the model. Tests of
  pointers for \<open>NULL\<close> are left out where every caller passes an object (\<open>media_extract\<close>). A failing
  read or write of the SCSI image is the predicate \<open>bad_sector\<close>. JIM is a function of the address: the
  mailbox reads it with a page number that the page selector has clamped, and every other
  access is checked against the size of the allocation.
\<close>

end
